(* ===== verification/Conn_Pool.thy ===== *)
theory Conn_Pool
  imports Go_Base "HOL-Library.Multiset"
begin

text \<open>
  Tunnel connections and their pools: \<open>internal/tunnel/types.go\<close> (\<open>TunnelConnection\<close>) and the
  first half of \<open>internal/tunnel/connection_manager.go\<close> (\<open>TunnelConnectionPool\<close>).

  Connections are compared by pointer and shared between a pool and the goroutines that use them,
  so they live in a heap indexed by pointers. A \<open>net.Conn\<close> is an opaque handle; what the code does
  to handles is recorded in the order of the calls: the handles closed, and the bytes swallowed by
  the liveness probe. The result of the probe's \<open>Read\<close> is the environment's choice, an argument.
\<close>

section \<open>Tunnel connections\<close>

type_synonym netconn = nat
type_synonym tc_ptr = nat

datatype read_result = ReadByte | ReadTimeout | ReadError

record tunnel_connection =
  conn :: "netconn option"
  tc_domain :: string
  tc_targetPort :: int
  requestCount :: i64
  createdAt :: time

record net_state =
  tc_heap :: "tc_ptr \<rightharpoonup> tunnel_connection"
  tc_next :: tc_ptr
  closed_conns :: "netconn list"
  read_bytes :: "netconn list"
  clock :: time

definition NewTunnelConnection :: "string \<Rightarrow> netconn option \<Rightarrow> int \<Rightarrow> net_state \<Rightarrow> tc_ptr \<times> net_state" where
  "NewTunnelConnection domain c targetPort w =
     (tc_next w,
      w\<lparr>tc_heap := (tc_heap w)(tc_next w \<mapsto>
            \<lparr>conn = c, tc_domain = domain, tc_targetPort = targetPort,
             requestCount = 0, createdAt = clock w\<rparr>),
        tc_next := Suc (tc_next w)\<rparr>)"

definition close_conn :: "netconn \<Rightarrow> net_state \<Rightarrow> net_state" where
  "close_conn c w = w\<lparr>closed_conns := closed_conns w @ [c]\<rparr>"

definition tc_GetConn :: "net_state \<Rightarrow> tc_ptr \<Rightarrow> netconn option" where
  "tc_GetConn w p = Option.bind (tc_heap w p) conn"

definition tc_Close :: "tc_ptr \<Rightarrow> net_state \<Rightarrow> net_state" where
  "tc_Close p w = (case tc_GetConn w p of None \<Rightarrow> w | Some c \<Rightarrow> close_conn c w)"

definition tc_GetDomain :: "net_state \<Rightarrow> tc_ptr \<Rightarrow> string option" where
  "tc_GetDomain w p = map_option tc_domain (tc_heap w p)"

definition tc_GetTargetPort :: "net_state \<Rightarrow> tc_ptr \<Rightarrow> int option" where
  "tc_GetTargetPort w p = map_option tc_targetPort (tc_heap w p)"

definition tc_GetRequestCount :: "net_state \<Rightarrow> tc_ptr \<Rightarrow> i64 option" where
  "tc_GetRequestCount w p = map_option requestCount (tc_heap w p)"

definition tc_GetCreatedAt :: "net_state \<Rightarrow> tc_ptr \<Rightarrow> time option" where
  "tc_GetCreatedAt w p = map_option createdAt (tc_heap w p)"

definition IncrementRequestCount :: "tc_ptr \<Rightarrow> net_state \<Rightarrow> net_state" where
  "IncrementRequestCount p w =
     (case tc_heap w p of
        None \<Rightarrow> w
      | Some tc \<Rightarrow> w\<lparr>tc_heap := (tc_heap w)(p \<mapsto> tc\<lparr>requestCount := requestCount tc + 1\<rparr>)\<rparr>)"

section \<open>Pools\<close>

record tunnel_pool =
  p_domain :: string
  p_targetPort :: int
  connections :: "tc_ptr list"
  roundRobin :: u64

definition NewTunnelConnectionPool :: "string \<Rightarrow> int \<Rightarrow> tunnel_pool" where
  "NewTunnelConnectionPool domain targetPort =
     \<lparr>p_domain = domain, p_targetPort = targetPort, connections = [], roundRobin = 0\<rparr>"

definition pool_append :: "tc_ptr \<Rightarrow> tunnel_pool \<Rightarrow> tunnel_pool" where
  "pool_append p pool = pool\<lparr>connections := connections pool @ [p]\<rparr>"

definition pool_AddConnection ::
    "netconn option \<Rightarrow> tunnel_pool \<Rightarrow> net_state \<Rightarrow> tc_ptr \<times> tunnel_pool \<times> net_state" where
  "pool_AddConnection c pool w =
     (let (p, w') = NewTunnelConnection (p_domain pool) c (p_targetPort pool) w
      in (p, pool_append p pool, w'))"

text \<open>
  The probe reads one byte under a deadline of a millisecond. Only a timeout counts as alive; a byte
  that arrives is consumed, and the connection is reported dead.
\<close>

definition IsConnectionHealthy ::
    "(netconn \<Rightarrow> read_result) \<Rightarrow> tc_ptr \<Rightarrow> net_state \<Rightarrow> bool \<times> net_state" where
  "IsConnectionHealthy rd p w =
     (case tc_GetConn w p of
        None \<Rightarrow> (False, w)
      | Some c \<Rightarrow>
          (case rd c of
             ReadTimeout \<Rightarrow> (True, w)
           | ReadByte \<Rightarrow> (False, w\<lparr>read_bytes := read_bytes w @ [c]\<rparr>)
           | ReadError \<Rightarrow> (False, w)))"

fun cleanup_loop ::
    "(netconn \<Rightarrow> read_result) \<Rightarrow> tc_ptr list \<Rightarrow> tc_ptr list \<Rightarrow> nat \<Rightarrow> net_state
       \<Rightarrow> tc_ptr list \<times> nat \<times> net_state" where
  "cleanup_loop rd [] healthy removed w = (healthy, removed, w)"
| "cleanup_loop rd (p # ps) healthy removed w =
     (let (ok, w1) = IsConnectionHealthy rd p w
      in if ok then cleanup_loop rd ps (healthy @ [p]) removed w1
         else cleanup_loop rd ps healthy (Suc removed) (tc_Close p w1))"

definition pool_CleanupDeadConnections ::
    "(netconn \<Rightarrow> read_result) \<Rightarrow> tunnel_pool \<Rightarrow> net_state \<Rightarrow> nat \<times> tunnel_pool \<times> net_state" where
  "pool_CleanupDeadConnections rd pool w =
     (let (healthy, removed, w') = cleanup_loop rd (connections pool) [] 0 w
      in (removed, pool\<lparr>connections := healthy\<rparr>, w'))"

definition GetAllConnections :: "tunnel_pool \<Rightarrow> tc_ptr list" where
  "GetAllConnections pool = connections pool"

text \<open>The last component says whether a background clean-up is started.\<close>

definition pool_GetConnection :: "net_state \<Rightarrow> tunnel_pool \<Rightarrow> tc_ptr option \<times> tunnel_pool \<times> bool" where
  "pool_GetConnection w pool =
     (if connections pool = [] then (None, pool, False)
      else let rr = roundRobin pool + 1;
               index = unat (rr mod of_nat (length (connections pool)));
               p = connections pool ! index;
               pool' = pool\<lparr>roundRobin := rr\<rparr>
           in if tc_GetConn w p = None then (None, pool', True) else (Some p, pool', False))"

definition pool_remove :: "tc_ptr \<Rightarrow> tunnel_pool \<Rightarrow> tunnel_pool" where
  "pool_remove target pool = pool\<lparr>connections := remove1 target (connections pool)\<rparr>"

definition pool_RemoveConnection :: "tc_ptr \<Rightarrow> tunnel_pool \<Rightarrow> net_state \<Rightarrow> tunnel_pool \<times> net_state" where
  "pool_RemoveConnection target pool w =
     (if target \<in> set (connections pool) then (pool_remove target pool, tc_Close target w)
      else (pool, w))"

definition pool_RemoveConnectionWithoutClosing :: "tc_ptr \<Rightarrow> tunnel_pool \<Rightarrow> tunnel_pool" where
  "pool_RemoveConnectionWithoutClosing target pool =
     (if target \<in> set (connections pool) then pool_remove target pool else pool)"

definition pool_Size :: "tunnel_pool \<Rightarrow> nat" where
  "pool_Size pool = length (connections pool)"

definition pool_Close :: "tunnel_pool \<Rightarrow> net_state \<Rightarrow> tunnel_pool \<times> net_state" where
  "pool_Close pool w = (pool\<lparr>connections := []\<rparr>, fold tc_Close (connections pool) w)"

section \<open>The pool contract\<close>

text \<open>
  What the connection manager relies on: a pool is a list of connections, adding appends, removing
  deletes the first occurrence, and the size is the length. The lemmas of the interface are what
  the manager's invariant needs.
\<close>

locale pool_contract =
  fixes contents :: "'p \<Rightarrow> 'c list"
    and add :: "'c \<Rightarrow> 'p \<Rightarrow> 'p"
    and remove :: "'c \<Rightarrow> 'p \<Rightarrow> 'p"
    and size :: "'p \<Rightarrow> nat"
  assumes contents_add: "contents (add c p) = contents p @ [c]"
    and contents_remove: "contents (remove c p) = remove1 c (contents p)"
    and size_contents: "size p = length (contents p)"
begin

lemma size_add_bounded: "size p < n \<Longrightarrow> size (add c p) \<le> n"
  by (simp add: size_contents contents_add)

lemma size_remove_le: "size (remove c p) \<le> size p"
  by (simp add: size_contents contents_remove length_remove1)

lemma set_remove_subset: "set (contents (remove c p)) \<subseteq> set (contents p)"
  by (simp add: contents_remove set_remove1_subset)

lemma distinct_add: "distinct (contents p) \<Longrightarrow> c \<notin> set (contents p) \<Longrightarrow> distinct (contents (add c p))"
  by (simp add: contents_add)

lemma distinct_remove: "distinct (contents p) \<Longrightarrow> distinct (contents (remove c p))"
  by (simp add: contents_remove distinct_remove1)

lemma gone_after_remove: "distinct (contents p) \<Longrightarrow> c \<notin> set (contents (remove c p))"
  by (simp add: contents_remove)

lemma remove_add: "c \<notin> set (contents p) \<Longrightarrow> contents (remove c (add c p)) = contents p"
  by (simp add: contents_add contents_remove remove1_append)

end

interpretation tp: pool_contract connections pool_append pool_RemoveConnectionWithoutClosing pool_Size
  by unfold_locales
     (auto simp: pool_append_def pool_RemoveConnectionWithoutClosing_def pool_remove_def pool_Size_def
        remove1_idem)

lemma connections_RemoveConnection [simp]:
  "connections (fst (pool_RemoveConnection p pool w)) = remove1 p (connections pool)"
  by (simp add: pool_RemoveConnection_def pool_remove_def remove1_idem)

lemma RemoveConnection_same_pool:
  "fst (pool_RemoveConnection p pool w) = pool_RemoveConnectionWithoutClosing p pool"
  by (simp add: pool_RemoveConnection_def pool_RemoveConnectionWithoutClosing_def)

section \<open>Frame lemmas\<close>

lemma heap_close_conn [simp]:
  "tc_heap (close_conn c w) = tc_heap w" "tc_next (close_conn c w) = tc_next w"
  "read_bytes (close_conn c w) = read_bytes w" "clock (close_conn c w) = clock w"
  "closed_conns (close_conn c w) = closed_conns w @ [c]"
  by (simp_all add: close_conn_def)

lemma heap_tc_Close [simp]:
  "tc_heap (tc_Close p w) = tc_heap w" "tc_next (tc_Close p w) = tc_next w"
  "read_bytes (tc_Close p w) = read_bytes w" "clock (tc_Close p w) = clock w"
  by (simp_all add: tc_Close_def split: option.split)

lemma tc_GetConn_Close [simp]: "tc_GetConn (tc_Close p w) q = tc_GetConn w q"
  by (simp add: tc_GetConn_def)

lemma heap_fold_Close [simp]:
  "tc_heap (fold tc_Close ps w) = tc_heap w" "tc_next (fold tc_Close ps w) = tc_next w"
  by (induction ps arbitrary: w) simp_all

lemma heap_RemoveConnection [simp]:
  "tc_heap (snd (pool_RemoveConnection p pool w)) = tc_heap w"
  "tc_next (snd (pool_RemoveConnection p pool w)) = tc_next w"
  by (simp_all add: pool_RemoveConnection_def)

lemma IsConnectionHealthy_heap:
  "IsConnectionHealthy rd p w = (ok, w') \<Longrightarrow> tc_heap w' = tc_heap w \<and> tc_next w' = tc_next w"
  by (auto simp: IsConnectionHealthy_def split: option.splits read_result.splits)

lemma IsConnectionHealthy_iff:
  "fst (IsConnectionHealthy rd p w) \<longleftrightarrow> (\<exists>c. tc_GetConn w p = Some c \<and> rd c = ReadTimeout)"
  by (auto simp: IsConnectionHealthy_def split: option.splits read_result.splits)

lemma pool_append_sel [simp]:
  "p_domain (pool_append p pool) = p_domain pool"
  "p_targetPort (pool_append p pool) = p_targetPort pool"
  "connections (pool_append p pool) = connections pool @ [p]"
  "roundRobin (pool_append p pool) = roundRobin pool"
  by (simp_all add: pool_append_def)

lemma pool_remove_sel [simp]:
  "p_domain (pool_RemoveConnectionWithoutClosing p pool) = p_domain pool"
  "p_targetPort (pool_RemoveConnectionWithoutClosing p pool) = p_targetPort pool"
  by (simp_all add: pool_RemoveConnectionWithoutClosing_def pool_remove_def)


section \<open>Cleaning a pool\<close>

definition alive :: "(netconn \<Rightarrow> read_result) \<Rightarrow> net_state \<Rightarrow> tc_ptr \<Rightarrow> bool" where
  "alive rd w p \<longleftrightarrow> (case tc_GetConn w p of None \<Rightarrow> False | Some c \<Rightarrow> rd c = ReadTimeout)"

definition handles :: "net_state \<Rightarrow> tc_ptr list \<Rightarrow> netconn list" where
  "handles w ps = List.map_filter (tc_GetConn w) ps"

lemma handles_simps [simp]:
  "handles w [] = []"
  "handles w (p # ps) = (case tc_GetConn w p of None \<Rightarrow> [] | Some c \<Rightarrow> [c]) @ handles w ps"
  by (simp_all add: handles_def map_filter_def split: option.split)

lemma alive_healthy: "fst (IsConnectionHealthy rd p w) = alive rd w p"
  by (auto simp: IsConnectionHealthy_iff alive_def split: option.split)

lemma probe_frame:
  assumes "IsConnectionHealthy rd p w = (ok, w1)"
  shows "ok = alive rd w p" "alive rd w1 = alive rd w" "handles w1 = handles w"
    "closed_conns w1 = closed_conns w" "tc_GetConn w1 = tc_GetConn w"
proof -
  have h: "tc_heap w1 = tc_heap w" using IsConnectionHealthy_heap [OF assms] by simp
  then show g: "tc_GetConn w1 = tc_GetConn w" by (intro ext) (simp add: tc_GetConn_def)
  show "ok = alive rd w p" using alive_healthy [of rd p w] assms by simp
  show "alive rd w1 = alive rd w" "handles w1 = handles w"
    using g by (simp_all add: alive_def [abs_def] handles_def [abs_def])
  show "closed_conns w1 = closed_conns w"
    using assms by (auto simp: IsConnectionHealthy_def split: option.splits read_result.splits)
qed

lemma close_frame:
  "alive rd (tc_Close p w) = alive rd w" "handles (tc_Close p w) = handles w"
  "closed_conns (tc_Close p w) = closed_conns w @ (case tc_GetConn w p of None \<Rightarrow> [] | Some c \<Rightarrow> [c])"
proof -
  have g: "tc_GetConn (tc_Close p w) = tc_GetConn w" by (rule ext) simp
  show "alive rd (tc_Close p w) = alive rd w" "handles (tc_Close p w) = handles w"
    by (simp_all add: alive_def [abs_def] handles_def [abs_def] g)
  show "closed_conns (tc_Close p w) = closed_conns w @ (case tc_GetConn w p of None \<Rightarrow> [] | Some c \<Rightarrow> [c])"
    by (simp add: tc_Close_def split: option.split)
qed

lemma cleanup_loop_spec:
  assumes "cleanup_loop rd ps h r w = (h', r', w')"
  shows "h' = h @ filter (alive rd w) ps \<and> r' = r + length (filter (\<lambda>p. \<not> alive rd w p) ps) \<and>
    tc_heap w' = tc_heap w \<and> tc_next w' = tc_next w \<and>
    closed_conns w' = closed_conns w @ handles w (filter (\<lambda>p. \<not> alive rd w p) ps)"
  using assms
proof (induction ps arbitrary: h r w)
  case (Cons p ps)
  obtain ok w1 where w1: "IsConnectionHealthy rd p w = (ok, w1)" by force
  note f = probe_frame [OF w1] and g = IsConnectionHealthy_heap [OF w1]
  show ?case
  proof (cases ok)
    case True
    then have "cleanup_loop rd ps (h @ [p]) r w1 = (h', r', w')" using Cons.prems w1 by simp
    from Cons.IH [OF this] show ?thesis using True f g by simp
  next
    case False
    then have "cleanup_loop rd ps h (Suc r) (tc_Close p w1) = (h', r', w')" using Cons.prems w1 by simp
    from Cons.IH [OF this] show ?thesis using False f g by (simp add: close_frame)
  qed
qed simp

lemma cleanup_pool_spec:
  assumes "pool_CleanupDeadConnections rd pool w = (removed, pool', w')"
  shows "connections pool' = filter (alive rd w) (connections pool)"
    and "p_domain pool' = p_domain pool" "p_targetPort pool' = p_targetPort pool"
    and "removed = length (filter (\<lambda>p. \<not> alive rd w p) (connections pool))"
    and "tc_heap w' = tc_heap w" "tc_next w' = tc_next w"
    and "closed_conns w' = closed_conns w @ handles w (filter (\<lambda>p. \<not> alive rd w p) (connections pool))"
  using assms cleanup_loop_spec [of rd "connections pool" "[]" 0 w]
  by (auto simp: pool_CleanupDeadConnections_def Let_def split: prod.splits)

text \<open>
  \<open>CleanupDeadConnections\<close> keeps exactly the connections whose probe times out, in their order;
  it returns the number of the others and closes the handle of each of the others, in their order.
\<close>

theorem pool_cleanup_exact:
  "pool_CleanupDeadConnections rd pool w = (removed, pool', w') \<Longrightarrow>
     connections pool' = filter (alive rd w) (connections pool) \<and>
     removed + pool_Size pool' = pool_Size pool \<and>
     closed_conns w' = closed_conns w @ handles w (filter (\<lambda>p. \<not> alive rd w p) (connections pool))"
  using cleanup_pool_spec [of rd pool w removed pool' w'] sum_length_filter_compl [of "alive rd w" "connections pool"]
  by (simp add: pool_Size_def)

section \<open>Round robin\<close>

lemma pool_index_less:
  assumes "connections pool \<noteq> []" "length (connections pool) < 2 ^ 64"
  shows "unat (x mod of_nat (length (connections pool)) :: u64) = unat x mod length (connections pool)"
  using assms by (simp add: unat_mod_distrib unat_of_nat)

lemma unat_bound64: "unat (x :: 64 word) < 2 ^ 64"
  using unsigned_less [of x] by simp

lemma pool_index_bound:
  assumes "0 < n"
  shows "unat (x mod of_nat n :: u64) < n"
proof (cases "n mod 2 ^ 64 = 0")
  case True
  then have "unat (of_nat n :: u64) = 0" by (simp add: unat_of_nat)
  moreover have "2 ^ 64 \<le> n" using True assms by (intro dvd_imp_le) auto
  moreover have "unat x < 2 ^ 64" using unat_bound64 [of x] .
  ultimately show ?thesis by (simp add: unat_mod_distrib)
next
  case False
  then have "unat x mod (n mod 2 ^ 64) < n mod 2 ^ 64" by simp
  also have "\<dots> \<le> n" by simp
  finally show ?thesis by (simp add: unat_mod_distrib unat_of_nat)
qed

lemma pool_GetConnection_member:
  assumes "pool_GetConnection w pool = (Some p, pool', b)"
  shows "p \<in> set (connections pool) \<and> tc_GetConn w p \<noteq> None"
  using assms pool_index_bound [of "length (connections pool)" "roundRobin pool + 1"]
  by (auto simp: pool_GetConnection_def Let_def split: if_splits)

lemma pool_GetConnection_frame:
  assumes "pool_GetConnection w pool = (r, pool', b)"
  shows "connections pool' = connections pool" "p_domain pool' = p_domain pool"
    "p_targetPort pool' = p_targetPort pool"
  using assms by (auto simp: pool_GetConnection_def Let_def split: if_splits)

text \<open>The results of \<open>n\<close> calls of \<open>GetConnection\<close> in a row.\<close>

fun get_many :: "nat \<Rightarrow> net_state \<Rightarrow> tunnel_pool \<Rightarrow> tc_ptr option list" where
  "get_many 0 w pool = []"
| "get_many (Suc n) w pool =
     (let (r, pool', _) = pool_GetConnection w pool in r # get_many n w pool')"

lemma get_one:
  assumes "connections pool \<noteq> []" "length (connections pool) < 2 ^ 64"
    and "\<forall>p \<in> set (connections pool). tc_GetConn w p \<noteq> None"
    and "unat (roundRobin pool) + 1 < 2 ^ 64"
  shows "pool_GetConnection w pool =
     (Some (connections pool ! ((unat (roundRobin pool) + 1) mod length (connections pool))),
      pool\<lparr>roundRobin := roundRobin pool + 1\<rparr>, False)"
proof -
  have u: "unat (roundRobin pool + 1) = unat (roundRobin pool) + 1"
    using assms(4) by (simp add: unat_word_ariths)
  have "(unat (roundRobin pool) + 1) mod length (connections pool) < length (connections pool)"
    using assms(1) by simp
  then have "tc_GetConn w (connections pool ! ((unat (roundRobin pool) + 1) mod length (connections pool))) \<noteq> None"
    using assms(3) nth_mem by blast
  then show ?thesis
    using assms(1,2) u pool_index_less [of pool "roundRobin pool + 1"]
    by (simp add: pool_GetConnection_def Let_def)
qed

lemma get_many_nth:
  assumes "connections pool \<noteq> []" "length (connections pool) < 2 ^ 64"
    and "\<forall>p \<in> set (connections pool). tc_GetConn w p \<noteq> None"
    and "unat (roundRobin pool) + n < 2 ^ 64"
  shows "get_many n w pool =
     map (\<lambda>i. Some (connections pool ! ((unat (roundRobin pool) + 1 + i) mod length (connections pool)))) [0..<n]"
  using assms
proof (induction n arbitrary: pool)
  case (Suc n)
  let ?pool = "pool\<lparr>roundRobin := roundRobin pool + 1\<rparr>"
  have one: "pool_GetConnection w pool =
     (Some (connections pool ! ((unat (roundRobin pool) + 1) mod length (connections pool))), ?pool, False)"
    using Suc.prems by (intro get_one) auto
  have u: "unat (roundRobin ?pool) = unat (roundRobin pool) + 1"
    using Suc.prems(4) by (simp add: unat_word_ariths)
  have rest: "get_many n w ?pool =
     map (\<lambda>i. Some (connections ?pool ! ((unat (roundRobin ?pool) + 1 + i) mod length (connections ?pool)))) [0..<n]"
    using Suc.prems u by (intro Suc.IH) auto
  have "[0..<Suc n] = 0 # map Suc [0..<n]" by (simp only: upt_conv_Cons zero_less_Suc map_Suc_upt)
  then show ?case using one rest u by (simp add: o_def)
qed simp

text \<open>
  Round robin is fair: as long as the 64-bit counter does not wrap around, as many consecutive
  calls of \<open>GetConnection\<close> as the pool has live connections return every connection exactly once.
\<close>

theorem round_robin_fair:
  assumes "connections pool \<noteq> []"
    and "\<forall>p \<in> set (connections pool). tc_GetConn w p \<noteq> None"
    and "unat (roundRobin pool) + length (connections pool) < 2 ^ 64"
  shows "mset (get_many (length (connections pool)) w pool) = mset (map Some (connections pool))"
proof -
  define xs and c where "xs = connections pool" and "c = unat (roundRobin pool) + 1"
  have "get_many (length xs) w pool = map (\<lambda>i. Some (xs ! ((c + i) mod length xs))) [0..<length xs]"
    unfolding xs_def c_def using assms by (intro get_many_nth) auto
  also have "\<dots> = map Some (rotate c xs)"
    by (rule nth_equalityI) (simp_all add: nth_rotate)
  also have "mset \<dots> = mset (map Some xs)"
  proof -
    let ?n = "c mod length xs"
    have "mset (drop ?n xs @ take ?n xs) = mset (take ?n xs @ drop ?n xs)"
      by (simp only: mset_append union_commute)
    then have "mset (rotate c xs) = mset xs" by (simp only: rotate_drop_take append_take_drop_id)
    then show ?thesis by simp
  qed
  finally show ?thesis by (simp add: xs_def)
qed

theorem round_robin_fair_witness:
  "let w = \<lparr>tc_heap = [0 \<mapsto> \<lparr>conn = Some 7, tc_domain = ''d'', tc_targetPort = 80, requestCount = 0, createdAt = 0\<rparr>,
                       1 \<mapsto> \<lparr>conn = Some 8, tc_domain = ''d'', tc_targetPort = 80, requestCount = 0, createdAt = 0\<rparr>],
            tc_next = 2, closed_conns = [], read_bytes = [], clock = 0\<rparr>;
       pool = \<lparr>p_domain = ''d'', p_targetPort = 80, connections = [0, 1], roundRobin = 5\<rparr>
   in mset (get_many 2 w pool) = {#Some 0, Some 1#}"
proof -
  let ?w = "\<lparr>tc_heap = [0 \<mapsto> \<lparr>conn = Some 7, tc_domain = ''d'', tc_targetPort = 80, requestCount = 0, createdAt = 0\<rparr>,
                       1 \<mapsto> \<lparr>conn = Some 8, tc_domain = ''d'', tc_targetPort = 80, requestCount = 0, createdAt = 0\<rparr>],
            tc_next = 2, closed_conns = [], read_bytes = [], clock = 0\<rparr>"
  let ?pool = "\<lparr>p_domain = ''d'', p_targetPort = 80, connections = [0, 1], roundRobin = 5\<rparr>"
  have "mset (get_many (length (connections ?pool)) ?w ?pool) = mset (map Some (connections ?pool))"
    by (rule round_robin_fair) (simp_all add: tc_GetConn_def)
  then show ?thesis by (simp add: Let_def numeral_2_eq_2)
qed

theorem pool_cleanup_exact_witness:
  "let w = \<lparr>tc_heap = [0 \<mapsto> \<lparr>conn = Some 7, tc_domain = ''d'', tc_targetPort = 80, requestCount = 0, createdAt = 0\<rparr>,
                       1 \<mapsto> \<lparr>conn = Some 8, tc_domain = ''d'', tc_targetPort = 80, requestCount = 0, createdAt = 0\<rparr>],
            tc_next = 2, closed_conns = [], read_bytes = [], clock = 0\<rparr>;
       pool = \<lparr>p_domain = ''d'', p_targetPort = 80, connections = [0, 1], roundRobin = 5\<rparr>;
       rd = (\<lambda>c. if c = 7 then ReadByte else ReadTimeout);
       (removed, pool', w') = pool_CleanupDeadConnections rd pool w
   in connections pool' = [1] \<and> closed_conns w' = [7]"
proof -
  let ?w = "\<lparr>tc_heap = [0 \<mapsto> \<lparr>conn = Some 7, tc_domain = ''d'', tc_targetPort = 80, requestCount = 0, createdAt = 0\<rparr>,
                       1 \<mapsto> \<lparr>conn = Some 8, tc_domain = ''d'', tc_targetPort = 80, requestCount = 0, createdAt = 0\<rparr>],
            tc_next = 2, closed_conns = [], read_bytes = [], clock = 0\<rparr>"
  let ?pool = "\<lparr>p_domain = ''d'', p_targetPort = 80, connections = [0, 1], roundRobin = 5\<rparr>"
  let ?rd = "\<lambda>c. if c = 7 then ReadByte else ReadTimeout"
  obtain r pool' w' where r: "pool_CleanupDeadConnections ?rd ?pool ?w = (r, pool', w')"
    by (rule prod_cases3)
  show ?thesis
    unfolding Let_def r using pool_cleanup_exact [OF r] by (simp add: alive_def tc_GetConn_def)
qed

end
