(* ===== verification/Connection_Manager.thy ===== *)
theory Connection_Manager
  imports Conn_Pool
begin

text \<open>
  \<open>ConnectionManager\<close> of \<open>internal/tunnel/connection_manager.go\<close>: per domain one pool of HTTP
  connections and one pool of WebSocket connections with a limit. Each method is one function on
  the manager's map and the network state, one step of the manager. For the methods that hold the manager's
  mutex throughout this is what the code does. The three \<open>RemoveSpecific\<close> methods release it
  after looking up the domain, work under the mutex of the domain, and take it again to drop an empty
  entry; what other methods do in those gaps is not modelled.
\<close>

section \<open>Data\<close>

datatype conn_type = ConnectionTypeHTTP | ConnectionTypeWebSocket | OtherConnectionType string

record domain_conns =
  dc_domain :: string
  httpPool :: tunnel_pool
  wsPool :: tunnel_pool
  dc_targetPort :: int
  userID :: u32
  tunnelID :: u32

type_synonym conn_manager = "(string, domain_conns) go_map"

definition MaxWebSocketTunnelsPerDomain :: nat where
  "MaxWebSocketTunnelsPerDomain = 25"

definition NewConnectionManager :: conn_manager where
  "NewConnectionManager = []"

section \<open>Adding\<close>

definition new_domain_conns :: "string \<Rightarrow> int \<Rightarrow> domain_conns" where
  "new_domain_conns domain targetPort =
     \<lparr>dc_domain = domain, httpPool = NewTunnelConnectionPool domain targetPort,
      wsPool = NewTunnelConnectionPool domain targetPort, dc_targetPort = targetPort,
      userID = 0, tunnelID = 0\<rparr>"

definition set_owner :: "u32 \<Rightarrow> u32 \<Rightarrow> domain_conns \<Rightarrow> domain_conns" where
  "set_owner uid tid dc =
     dc\<lparr>userID := (if userID dc = 0 then uid else userID dc),
        tunnelID := (if tunnelID dc = 0 then tid else tunnelID dc)\<rparr>"

definition AddConnection ::
    "string \<Rightarrow> netconn \<Rightarrow> int \<Rightarrow> conn_type \<Rightarrow> u32 \<Rightarrow> u32 \<Rightarrow> conn_manager \<Rightarrow> net_state
       \<Rightarrow> tc_ptr option \<times> conn_manager \<times> net_state" where
  "AddConnection domain c targetPort connType uid tid m w =
     (let dc = set_owner uid tid
                 (case map_of m domain of Some dc \<Rightarrow> dc | None \<Rightarrow> new_domain_conns domain targetPort)
      in case connType of
           ConnectionTypeHTTP \<Rightarrow>
             (let (p, pool, w') = pool_AddConnection (Some c) (httpPool dc) w
              in (Some p, AList.update domain (dc\<lparr>httpPool := pool\<rparr>) m, w'))
         | ConnectionTypeWebSocket \<Rightarrow>
             (if pool_Size (wsPool dc) \<ge> MaxWebSocketTunnelsPerDomain
              then (None, AList.update domain dc m, close_conn c w)
              else let (p, pool, w') = pool_AddConnection (Some c) (wsPool dc) w
                   in (Some p, AList.update domain (dc\<lparr>wsPool := pool\<rparr>) m, w'))
         | OtherConnectionType _ \<Rightarrow> (None, AList.update domain dc m, w))"

definition GetDomainOwner :: "conn_manager \<Rightarrow> string \<Rightarrow> u32 \<times> u32 \<times> bool" where
  "GetDomainOwner m domain =
     (case map_of m domain of None \<Rightarrow> (0, 0, False) | Some dc \<Rightarrow> (userID dc, tunnelID dc, True))"

section \<open>Removing\<close>

definition drop_if_empty ::
    "string \<Rightarrow> domain_conns \<Rightarrow> conn_manager \<Rightarrow> net_state \<Rightarrow> conn_manager \<times> net_state" where
  "drop_if_empty domain dc m w =
     (if pool_Size (httpPool dc) = 0 \<and> pool_Size (wsPool dc) = 0
      then (AList.delete domain m, snd (pool_Close (wsPool dc) (snd (pool_Close (httpPool dc) w))))
      else (AList.update domain dc m, w))"

definition RemoveConnection ::
    "string \<Rightarrow> conn_type \<Rightarrow> conn_manager \<Rightarrow> net_state \<Rightarrow> conn_manager \<times> net_state" where
  "RemoveConnection domain connType m w =
     (case map_of m domain of
        None \<Rightarrow> (m, w)
      | Some dc \<Rightarrow> drop_if_empty domain dc m w)"

definition RemoveSpecificHTTPConnection ::
    "string \<Rightarrow> tc_ptr \<Rightarrow> conn_manager \<Rightarrow> net_state \<Rightarrow> conn_manager \<times> net_state" where
  "RemoveSpecificHTTPConnection domain target m w =
     (case map_of m domain of
        None \<Rightarrow> (m, w)
      | Some dc \<Rightarrow>
          (let (pool, w') = pool_RemoveConnection target (httpPool dc) w
           in drop_if_empty domain (dc\<lparr>httpPool := pool\<rparr>) m w'))"

definition RemoveSpecificWebSocketConnection ::
    "string \<Rightarrow> tc_ptr \<Rightarrow> conn_manager \<Rightarrow> net_state \<Rightarrow> conn_manager \<times> net_state" where
  "RemoveSpecificWebSocketConnection domain target m w =
     (case map_of m domain of
        None \<Rightarrow> (m, w)
      | Some dc \<Rightarrow>
          (let (pool, w') = pool_RemoveConnection target (wsPool dc) w
           in drop_if_empty domain (dc\<lparr>wsPool := pool\<rparr>) m w'))"

definition RemoveSpecificWebSocketConnectionWithoutClosing ::
    "string \<Rightarrow> tc_ptr \<Rightarrow> conn_manager \<Rightarrow> net_state \<Rightarrow> conn_manager \<times> net_state" where
  "RemoveSpecificWebSocketConnectionWithoutClosing domain target m w =
     (case map_of m domain of
        None \<Rightarrow> (m, w)
      | Some dc \<Rightarrow>
          drop_if_empty domain
            (dc\<lparr>wsPool := pool_RemoveConnectionWithoutClosing target (wsPool dc)\<rparr>) m w)"

section \<open>Looking up\<close>

definition GetConnection ::
    "string \<Rightarrow> conn_type \<Rightarrow> conn_manager \<Rightarrow> net_state \<Rightarrow> tc_ptr option \<times> conn_manager" where
  "GetConnection domain connType m w =
     (case map_of m domain of
        None \<Rightarrow> (None, m)
      | Some dc \<Rightarrow>
          (case connType of
             ConnectionTypeHTTP \<Rightarrow>
               (let (r, pool, _) = pool_GetConnection w (httpPool dc)
                in (r, AList.update domain (dc\<lparr>httpPool := pool\<rparr>) m))
           | ConnectionTypeWebSocket \<Rightarrow>
               (let (r, pool, _) = pool_GetConnection w (wsPool dc)
                in (r, AList.update domain (dc\<lparr>wsPool := pool\<rparr>) m))
           | OtherConnectionType _ \<Rightarrow> (None, m)))"

definition GetHTTPConnection :: "string \<Rightarrow> conn_manager \<Rightarrow> net_state \<Rightarrow> tc_ptr option \<times> conn_manager" where
  "GetHTTPConnection domain m w = GetConnection domain ConnectionTypeHTTP m w"

definition GetWebSocketConnection :: "string \<Rightarrow> conn_manager \<Rightarrow> net_state \<Rightarrow> tc_ptr option \<times> conn_manager" where
  "GetWebSocketConnection domain m w = GetConnection domain ConnectionTypeWebSocket m w"

definition HasDomain :: "conn_manager \<Rightarrow> string \<Rightarrow> bool" where
  "HasDomain m domain =
     (case map_of m domain of
        None \<Rightarrow> False
      | Some dc \<Rightarrow> pool_Size (httpPool dc) > 0 \<or> pool_Size (wsPool dc) > 0)"

definition HasHTTPConnection :: "conn_manager \<Rightarrow> string \<Rightarrow> bool" where
  "HasHTTPConnection m domain =
     (case map_of m domain of None \<Rightarrow> False | Some dc \<Rightarrow> pool_Size (httpPool dc) > 0)"

definition HasWebSocketConnection :: "conn_manager \<Rightarrow> string \<Rightarrow> bool" where
  "HasWebSocketConnection m domain =
     (case map_of m domain of None \<Rightarrow> False | Some dc \<Rightarrow> pool_Size (wsPool dc) > 0)"

definition GetHTTPPoolSize :: "conn_manager \<Rightarrow> string \<Rightarrow> nat" where
  "GetHTTPPoolSize m domain =
     (case map_of m domain of None \<Rightarrow> 0 | Some dc \<Rightarrow> pool_Size (httpPool dc))"

definition GetWebSocketPoolSize :: "conn_manager \<Rightarrow> string \<Rightarrow> nat" where
  "GetWebSocketPoolSize m domain =
     (case map_of m domain of None \<Rightarrow> 0 | Some dc \<Rightarrow> pool_Size (wsPool dc))"

record ws_pool_stats =
  total_tunnels :: nat
  total_domains :: nat
  max_per_domain :: nat

fun stats_loop :: "conn_manager \<Rightarrow> ws_pool_stats \<Rightarrow> ws_pool_stats" where
  "stats_loop [] st = st"
| "stats_loop ((_, dc) # m) st =
     (let poolSize = pool_Size (wsPool dc)
      in stats_loop m
           (if poolSize > 0
            then \<lparr>total_tunnels = total_tunnels st + poolSize,
                  total_domains = total_domains st + 1,
                  max_per_domain = (if poolSize > max_per_domain st then poolSize else max_per_domain st)\<rparr>
            else st))"

definition GetWebSocketPoolStats :: "conn_manager \<Rightarrow> ws_pool_stats" where
  "GetWebSocketPoolStats m =
     stats_loop m \<lparr>total_tunnels = 0, total_domains = 0, max_per_domain = 0\<rparr>"

fun CleanupDeadConnections ::
    "(netconn \<Rightarrow> read_result) \<Rightarrow> conn_manager \<Rightarrow> net_state
       \<Rightarrow> (string, nat) go_map \<times> conn_manager \<times> net_state" where
  "CleanupDeadConnections rd [] w = ([], [], w)"
| "CleanupDeadConnections rd ((domain, dc) # m) w =
     (let (removed, pool, w1) = pool_CleanupDeadConnections rd (httpPool dc) w;
          (cleanupStats, m', w2) = CleanupDeadConnections rd m w1
      in ((if removed > 0 then (domain, removed) # cleanupStats else cleanupStats),
          (domain, dc\<lparr>httpPool := pool\<rparr>) # m', w2))"

definition GetAllHTTPConnections :: "conn_manager \<Rightarrow> string \<Rightarrow> tc_ptr list" where
  "GetAllHTTPConnections m domain =
     (case map_of m domain of None \<Rightarrow> [] | Some dc \<Rightarrow> GetAllConnections (httpPool dc))"

fun cm_Close :: "conn_manager \<Rightarrow> net_state \<Rightarrow> conn_manager \<times> net_state" where
  "cm_Close [] w = ([], w)"
| "cm_Close ((_, dc) # m) w =
     cm_Close m (snd (pool_Close (wsPool dc) (snd (pool_Close (httpPool dc) w))))"

section \<open>Invariant\<close>

text \<open>
  A connection in the pools of a domain was made for this domain and its port, has a handle, and
  is in one of the two pools once; the WebSocket pool is within its limit.
\<close>

definition dc_ptrs :: "domain_conns \<Rightarrow> tc_ptr list" where
  "dc_ptrs dc = connections (httpPool dc) @ connections (wsPool dc)"

definition tc_ok :: "net_state \<Rightarrow> string \<Rightarrow> int \<Rightarrow> tc_ptr \<Rightarrow> bool" where
  "tc_ok w d port p \<longleftrightarrow>
     (case tc_heap w p of
        None \<Rightarrow> False
      | Some tc \<Rightarrow> conn tc \<noteq> None \<and> tc_domain tc = d \<and> tc_targetPort tc = port)"

definition dc_ok :: "net_state \<Rightarrow> string \<Rightarrow> domain_conns \<Rightarrow> bool" where
  "dc_ok w d dc \<longleftrightarrow>
     dc_domain dc = d \<and> p_domain (httpPool dc) = d \<and> p_domain (wsPool dc) = d \<and>
     p_targetPort (httpPool dc) = dc_targetPort dc \<and> p_targetPort (wsPool dc) = dc_targetPort dc \<and>
     pool_Size (wsPool dc) \<le> MaxWebSocketTunnelsPerDomain \<and>
     distinct (dc_ptrs dc) \<and> list_all (tc_ok w d (dc_targetPort dc)) (dc_ptrs dc)"

definition heap_ok :: "net_state \<Rightarrow> bool" where
  "heap_ok w \<longleftrightarrow> (\<forall>p. tc_heap w p \<noteq> None \<longrightarrow> p < tc_next w)"

definition cm_inv :: "conn_manager \<times> net_state \<Rightarrow> bool" where
  "cm_inv = (\<lambda>(m, w). distinct (map fst m) \<and> heap_ok w \<and>
     (\<forall>d dc. map_of m d = Some dc \<longrightarrow> dc_ok w d dc))"

section \<open>Preservation\<close>

text \<open>
  What every operation may do to the heap: allocate, and change a connection without touching its
  handle, domain and port.
\<close>

definition heap_ext :: "net_state \<Rightarrow> net_state \<Rightarrow> bool" where
  "heap_ext w w' \<longleftrightarrow> tc_next w \<le> tc_next w' \<and> (heap_ok w \<longrightarrow> heap_ok w') \<and>
     (\<forall>p d port. tc_ok w d port p \<longrightarrow> tc_ok w' d port p)"

lemma heap_ext_refl [simp]: "heap_ext w w"
  by (simp add: heap_ext_def)

lemma heap_ext_trans: "heap_ext w w1 \<Longrightarrow> heap_ext w1 w2 \<Longrightarrow> heap_ext w w2"
  by (auto simp: heap_ext_def)

lemma heap_ext_same:
  "tc_heap w' = tc_heap w \<Longrightarrow> tc_next w' = tc_next w \<Longrightarrow> heap_ext w w'"
  by (simp add: heap_ext_def heap_ok_def tc_ok_def)

lemma tc_ok_less: "heap_ok w \<Longrightarrow> tc_ok w d port p \<Longrightarrow> p < tc_next w"
  by (auto simp: heap_ok_def tc_ok_def split: option.splits)

lemma tc_ok_domain: "tc_ok w d port p \<Longrightarrow> tc_ok w d' port' p \<Longrightarrow> d = d'"
  by (auto simp: tc_ok_def split: option.splits)

lemma heap_ext_New:
  "heap_ok w \<Longrightarrow> NewTunnelConnection d c port w = (p, w') \<Longrightarrow> heap_ext w w'"
  by (fastforce simp: NewTunnelConnection_def heap_ext_def heap_ok_def tc_ok_def split: option.splits)

lemma heap_ext_Increment: "heap_ext w (IncrementRequestCount p w)"
  by (auto simp: IncrementRequestCount_def heap_ext_def heap_ok_def tc_ok_def split: option.splits)

lemma dc_ok_ext: "dc_ok w d dc \<Longrightarrow> heap_ext w w' \<Longrightarrow> dc_ok w' d dc"
  by (auto simp: dc_ok_def heap_ext_def list_all_iff)

lemma cm_inv_ext: "cm_inv (m, w) \<Longrightarrow> heap_ext w w' \<Longrightarrow> cm_inv (m, w')"
  unfolding cm_inv_def prod.case by (meson dc_ok_ext heap_ext_def)

lemma cm_inv_update:
  "cm_inv (m, w) \<Longrightarrow> heap_ext w w' \<Longrightarrow> dc_ok w' d dc \<Longrightarrow> cm_inv (AList.update d dc m, w')"
  using cm_inv_ext [of m w w'] by (auto simp: cm_inv_def map_of_update distinct_keys_update)

lemma cm_inv_delete: "cm_inv (m, w) \<Longrightarrow> heap_ext w w' \<Longrightarrow> cm_inv (AList.delete d m, w')"
  using cm_inv_ext [of m w w'] by (auto simp: cm_inv_def map_of_delete distinct_keys_delete)

lemma cm_inv_lookup: "cm_inv (m, w) \<Longrightarrow> map_of m d = Some dc \<Longrightarrow> dc_ok w d dc"
  by (simp add: cm_inv_def)

lemma cm_inv_heap: "cm_inv (m, w) \<Longrightarrow> heap_ok w"
  by (simp add: cm_inv_def)

lemma dc_ok_new [simp]: "dc_ok w d (new_domain_conns d port)"
  by (simp add: dc_ok_def new_domain_conns_def NewTunnelConnectionPool_def dc_ptrs_def pool_Size_def)

lemma set_owner_sel [simp]:
  "dc_domain (set_owner u t dc) = dc_domain dc" "httpPool (set_owner u t dc) = httpPool dc"
  "wsPool (set_owner u t dc) = wsPool dc" "dc_targetPort (set_owner u t dc) = dc_targetPort dc"
  by (simp_all add: set_owner_def)

lemma dc_ok_set_owner [simp]: "dc_ok w d (set_owner u t dc) = dc_ok w d dc"
  by (simp add: dc_ok_def dc_ptrs_def)

lemma dc_ok_fresh: "heap_ok w \<Longrightarrow> dc_ok w d dc \<Longrightarrow> tc_next w \<notin> set (dc_ptrs dc)"
  using tc_ok_less by (fastforce simp: dc_ok_def list_all_iff)

lemma AddHTTP_dc_ok:
  assumes ok: "dc_ok w d dc" and h: "heap_ok w"
    and a: "pool_AddConnection (Some c) (httpPool dc) w = (p, pool, w')"
  shows "dc_ok w' d (dc\<lparr>httpPool := pool\<rparr>)" "heap_ext w w'"
proof -
  have w': "NewTunnelConnection d (Some c) (dc_targetPort dc) w = (p, w')" and pool: "pool = pool_append p (httpPool dc)"
    using a ok by (auto simp: pool_AddConnection_def dc_ok_def Let_def split: prod.splits)
  show e: "heap_ext w w'" by (rule heap_ext_New [OF h w'])
  have "tc_ok w' d (dc_targetPort dc) p" "p = tc_next w"
    using w' by (auto simp: NewTunnelConnection_def tc_ok_def)
  with dc_ok_fresh [OF h ok] dc_ok_ext [OF ok e] show "dc_ok w' d (dc\<lparr>httpPool := pool\<rparr>)"
    by (auto simp: dc_ok_def pool dc_ptrs_def)
qed

lemma AddWS_dc_ok:
  assumes ok: "dc_ok w d dc" and h: "heap_ok w" and s: "pool_Size (wsPool dc) < MaxWebSocketTunnelsPerDomain"
    and a: "pool_AddConnection (Some c) (wsPool dc) w = (p, pool, w')"
  shows "dc_ok w' d (dc\<lparr>wsPool := pool\<rparr>)" "heap_ext w w'"
proof -
  have w': "NewTunnelConnection d (Some c) (dc_targetPort dc) w = (p, w')" and pool: "pool = pool_append p (wsPool dc)"
    using a ok by (auto simp: pool_AddConnection_def dc_ok_def Let_def split: prod.splits)
  show e: "heap_ext w w'" by (rule heap_ext_New [OF h w'])
  have "tc_ok w' d (dc_targetPort dc) p" "p = tc_next w"
    using w' by (auto simp: NewTunnelConnection_def tc_ok_def)
  with dc_ok_fresh [OF h ok] dc_ok_ext [OF ok e] tp.size_add_bounded [OF s] show "dc_ok w' d (dc\<lparr>wsPool := pool\<rparr>)"
    by (auto simp: dc_ok_def pool dc_ptrs_def)
qed

lemma AddConnection_inv [inv_intros]:
  assumes inv: "cm_inv (m, w)" and a: "AddConnection d c port ty uid tid m w = (r, m', w')"
  shows "cm_inv (m', w')"
proof -
  define dc where "dc = set_owner uid tid (case map_of m d of Some dc \<Rightarrow> dc | None \<Rightarrow> new_domain_conns d port)"
  have ok: "dc_ok w d dc" using inv by (simp add: dc_def cm_inv_def split: option.split)
  note h = cm_inv_heap [OF inv]
  show ?thesis
  proof (cases ty)
    case ConnectionTypeHTTP
    obtain p pool w1 where p: "pool_AddConnection (Some c) (httpPool dc) w = (p, pool, w1)" by (rule prod_cases3)
    with a ConnectionTypeHTTP have "m' = AList.update d (dc\<lparr>httpPool := pool\<rparr>) m" "w' = w1"
      by (auto simp: AddConnection_def dc_def Let_def)
    then show ?thesis using AddHTTP_dc_ok [OF ok h p] cm_inv_update [OF inv] by simp
  next
    case ConnectionTypeWebSocket
    obtain p pool w1 where p: "pool_AddConnection (Some c) (wsPool dc) w = (p, pool, w1)" by (rule prod_cases3)
    show ?thesis
    proof (cases "pool_Size (wsPool dc) < MaxWebSocketTunnelsPerDomain")
      case True
      with a ConnectionTypeWebSocket p have "m' = AList.update d (dc\<lparr>wsPool := pool\<rparr>) m" "w' = w1"
        by (auto simp: AddConnection_def dc_def Let_def)
      then show ?thesis using AddWS_dc_ok [OF ok h True p] cm_inv_update [OF inv] by simp
    next
      case False
      with a ConnectionTypeWebSocket have "m' = AList.update d dc m" "w' = close_conn c w"
        by (auto simp: AddConnection_def dc_def Let_def)
      moreover have "heap_ext w (close_conn c w)" by (rule heap_ext_same) simp_all
      ultimately show ?thesis using cm_inv_update [OF inv] dc_ok_ext [OF ok] by simp
    qed
  next
    case (OtherConnectionType s)
    with a have "m' = AList.update d dc m" "w' = w" by (auto simp: AddConnection_def dc_def Let_def)
    then show ?thesis using cm_inv_update [OF inv] ok by simp
  qed
qed

text \<open>Pools that hold a sublist of the old connections.\<close>

lemma dc_ok_shrink:
  assumes "dc_ok w d dc"
    and "subseq (connections hp) (connections (httpPool dc))" "subseq (connections wp) (connections (wsPool dc))"
    and "p_domain hp = p_domain (httpPool dc)" "p_targetPort hp = p_targetPort (httpPool dc)"
    and "p_domain wp = p_domain (wsPool dc)" "p_targetPort wp = p_targetPort (wsPool dc)"
  shows "dc_ok w d (dc\<lparr>httpPool := hp, wsPool := wp\<rparr>)"
proof -
  have s: "subseq (connections hp @ connections wp) (dc_ptrs dc)"
    using assms(2,3) by (simp add: dc_ptrs_def list_emb_append_mono)
  have "set (connections hp @ connections wp) \<subseteq> set (dc_ptrs dc)"
    using s by (metis notin_set_nthsI subseq_conv_nths subsetI)
  moreover have "distinct (connections hp @ connections wp)"
    using s assms(1) unfolding dc_ok_def by (metis distinct_nthsI subseq_conv_nths)
  moreover have "pool_Size wp \<le> pool_Size (wsPool dc)"
    using list_emb_length [OF assms(3)] by (simp add: pool_Size_def)
  ultimately show ?thesis
    using assms(1,4-7) by (auto simp: dc_ok_def list_all_iff dc_ptrs_def)
qed

lemma subseq_remove1: "subseq (remove1 x xs) xs"
  by (induction xs) auto

lemma drop_if_empty_inv:
  assumes "cm_inv (m, w)" "heap_ext w w'" "dc_ok w' d dc" "drop_if_empty d dc m w' = (m', w'')"
  shows "cm_inv (m', w'')"
proof (cases "pool_Size (httpPool dc) = 0 \<and> pool_Size (wsPool dc) = 0")
  case True
  then have "m' = AList.delete d m" "w'' = w'"
    using assms(4) by (auto simp: drop_if_empty_def pool_Close_def pool_Size_def)
  then show ?thesis using cm_inv_delete [OF assms(1,2)] by simp
next
  case False
  then show ?thesis using assms cm_inv_update [OF assms(1,2)] by (auto simp: drop_if_empty_def)
qed

lemma RemoveConnection_inv [inv_intros]:
  "cm_inv (m, w) \<Longrightarrow> RemoveConnection d ty m w = (m', w') \<Longrightarrow> cm_inv (m', w')"
  by (auto simp: RemoveConnection_def split: option.splits
      intro: drop_if_empty_inv [where w' = w] cm_inv_lookup)

lemma pool_RemoveConnection_frame:
  assumes "pool_RemoveConnection p pool w = (pool', w')"
  shows "pool' = pool_RemoveConnectionWithoutClosing p pool" "heap_ext w w'"
  using RemoveConnection_same_pool [of p pool w] heap_RemoveConnection [of p pool w] assms
  by (auto intro: heap_ext_same)

lemma dc_ok_remove_http:
  "dc_ok w d dc \<Longrightarrow> dc_ok w d (dc\<lparr>httpPool := pool_RemoveConnectionWithoutClosing p (httpPool dc)\<rparr>)"
  using dc_ok_shrink [of w d dc "pool_RemoveConnectionWithoutClosing p (httpPool dc)" "wsPool dc"]
  by (simp add: tp.contents_remove subseq_remove1)

lemma dc_ok_remove_ws:
  "dc_ok w d dc \<Longrightarrow> dc_ok w d (dc\<lparr>wsPool := pool_RemoveConnectionWithoutClosing p (wsPool dc)\<rparr>)"
  using dc_ok_shrink [of w d dc "httpPool dc" "pool_RemoveConnectionWithoutClosing p (wsPool dc)"]
  by (simp add: tp.contents_remove subseq_remove1)

lemma RemoveSpecificHTTP_inv [inv_intros]:
  assumes "cm_inv (m, w)" "RemoveSpecificHTTPConnection d p m w = (m', w')"
  shows "cm_inv (m', w')"
proof (cases "map_of m d")
  case (Some dc)
  obtain pool w1 where r: "pool_RemoveConnection p (httpPool dc) w = (pool, w1)" by force
  note f = pool_RemoveConnection_frame [OF r] and ok = cm_inv_lookup [OF assms(1) Some]
  have "drop_if_empty d (dc\<lparr>httpPool := pool\<rparr>) m w1 = (m', w')"
    using assms(2) Some r by (simp add: RemoveSpecificHTTPConnection_def)
  from drop_if_empty_inv [OF assms(1) f(2) _ this] show ?thesis
    using dc_ok_ext [OF ok f(2)] dc_ok_remove_http by (simp add: f(1))
qed (use assms in \<open>simp add: RemoveSpecificHTTPConnection_def\<close>)

lemma RemoveSpecificWS_inv [inv_intros]:
  assumes "cm_inv (m, w)" "RemoveSpecificWebSocketConnection d p m w = (m', w')"
  shows "cm_inv (m', w')"
proof (cases "map_of m d")
  case (Some dc)
  obtain pool w1 where r: "pool_RemoveConnection p (wsPool dc) w = (pool, w1)" by force
  note f = pool_RemoveConnection_frame [OF r] and ok = cm_inv_lookup [OF assms(1) Some]
  have "drop_if_empty d (dc\<lparr>wsPool := pool\<rparr>) m w1 = (m', w')"
    using assms(2) Some r by (simp add: RemoveSpecificWebSocketConnection_def)
  from drop_if_empty_inv [OF assms(1) f(2) _ this] show ?thesis
    using dc_ok_ext [OF ok f(2)] dc_ok_remove_ws by (simp add: f(1))
qed (use assms in \<open>simp add: RemoveSpecificWebSocketConnection_def\<close>)

lemma TakeWS_inv [inv_intros]:
  assumes "cm_inv (m, w)" "RemoveSpecificWebSocketConnectionWithoutClosing d p m w = (m', w')"
  shows "cm_inv (m', w')"
proof (cases "map_of m d")
  case (Some dc)
  have "drop_if_empty d (dc\<lparr>wsPool := pool_RemoveConnectionWithoutClosing p (wsPool dc)\<rparr>) m w = (m', w')"
    using assms(2) Some by (simp add: RemoveSpecificWebSocketConnectionWithoutClosing_def)
  from drop_if_empty_inv [OF assms(1) heap_ext_refl _ this] show ?thesis
    using dc_ok_remove_ws cm_inv_lookup [OF assms(1) Some] by simp
qed (use assms in \<open>simp add: RemoveSpecificWebSocketConnectionWithoutClosing_def\<close>)

lemma GetConnection_inv [inv_intros]:
  assumes "cm_inv (m, w)" "GetConnection d ty m w = (r, m')"
  shows "cm_inv (m', w)"
proof (cases "map_of m d")
  case (Some dc)
  obtain r1 p1 b1 where g1: "pool_GetConnection w (httpPool dc) = (r1, p1, b1)" by (rule prod_cases3)
  obtain r2 p2 b2 where g2: "pool_GetConnection w (wsPool dc) = (r2, p2, b2)" by (rule prod_cases3)
  note ok = cm_inv_lookup [OF assms(1) Some]
  have "dc_ok w d (dc\<lparr>httpPool := p1\<rparr>)"
    using dc_ok_shrink [OF ok, of p1 "wsPool dc"] pool_GetConnection_frame [OF g1] by simp
  moreover have "dc_ok w d (dc\<lparr>wsPool := p2\<rparr>)"
    using dc_ok_shrink [OF ok, of "httpPool dc" p2] pool_GetConnection_frame [OF g2] by simp
  ultimately show ?thesis
    using assms cm_inv_update [OF assms(1) heap_ext_refl] Some g1 g2
    by (auto simp: GetConnection_def split: conn_type.splits)
qed (use assms in \<open>simp add: GetConnection_def\<close>)

definition clean_dc :: "(netconn \<Rightarrow> read_result) \<Rightarrow> net_state \<Rightarrow> domain_conns \<Rightarrow> domain_conns" where
  "clean_dc rd w dc =
     dc\<lparr>httpPool := (httpPool dc)\<lparr>connections := filter (alive rd w) (connections (httpPool dc))\<rparr>\<rparr>"

lemma alive_heap: "tc_heap w' = tc_heap w \<Longrightarrow> alive rd w' = alive rd w"
  by (simp add: alive_def [abs_def] tc_GetConn_def)

lemma pool_Cleanup_pool:
  "pool_CleanupDeadConnections rd pool w = (n, pool', w') \<Longrightarrow>
   pool' = pool\<lparr>connections := filter (alive rd w) (connections pool)\<rparr>"
  using cleanup_pool_spec(1) [of rd pool w n pool' w']
  by (auto simp: pool_CleanupDeadConnections_def Let_def split: prod.splits)

lemma CleanupDeadConnections_spec:
  assumes "CleanupDeadConnections rd m w = (st, m', w')"
  shows "m' = map (\<lambda>(d, dc). (d, clean_dc rd w dc)) m \<and> tc_heap w' = tc_heap w \<and> tc_next w' = tc_next w"
  using assms
proof (induction m arbitrary: st m' w w')
  case (Cons x m)
  obtain d dc where x: "x = (d, dc)" by force
  obtain n pool w1 where a: "pool_CleanupDeadConnections rd (httpPool dc) w = (n, pool, w1)" by (rule prod_cases3)
  obtain st2 m2 w2 where b: "CleanupDeadConnections rd m w1 = (st2, m2, w2)" by (rule prod_cases3)
  note f = cleanup_pool_spec(5,6) [OF a]
  show ?case
    using Cons.prems Cons.IH [OF b] f alive_heap [OF f(1)] pool_Cleanup_pool [OF a]
    by (auto simp: x a b Let_def clean_dc_def)
qed simp

lemma Cleanup_inv [inv_intros]:
  assumes "cm_inv (m, w)" "CleanupDeadConnections rd m w = (st, m', w')"
  shows "cm_inv (m', w')"
proof -
  note f = CleanupDeadConnections_spec [OF assms(2)]
  have e: "heap_ext w w'" using f by (intro heap_ext_same) auto
  have "dc_ok w d (clean_dc rd w dc)" if "map_of m d = Some dc" for d dc
    using dc_ok_shrink [OF cm_inv_lookup [OF assms(1) that],
        of "(httpPool dc)\<lparr>connections := filter (alive rd w) (connections (httpPool dc))\<rparr>" "wsPool dc"]
    by (simp add: clean_dc_def subseq_filter_left)
  then have "cm_inv (m', w)"
    using assms(1) f by (auto simp: cm_inv_def o_def case_prod_unfold map_of_map)
  then show ?thesis by (rule cm_inv_ext [OF _ e])
qed

lemma cm_Close_inv [inv_intros]:
  assumes "cm_inv (m, w)" "cm_Close m w = (m', w')"
  shows "cm_inv (m', w')"
proof -
  have "m' = [] \<and> tc_heap w' = tc_heap w \<and> tc_next w' = tc_next w"
    using assms(2) by (induction m w rule: cm_Close.induct) (auto simp: pool_Close_def)
  then show ?thesis using assms(1) by (simp add: cm_inv_def heap_ok_def)
qed

section \<open>The manager as a transition system\<close>

definition cm_init :: "conn_manager \<times> net_state \<Rightarrow> bool" where
  "cm_init = (\<lambda>(m, w). m = NewConnectionManager \<and> heap_ok w)"

inductive cm_step :: "conn_manager \<times> net_state \<Rightarrow> conn_manager \<times> net_state \<Rightarrow> bool" where
  step_add: "AddConnection d c port ty uid tid m w = (r, m', w') \<Longrightarrow> cm_step (m, w) (m', w')"
| step_remove: "RemoveConnection d ty m w = (m', w') \<Longrightarrow> cm_step (m, w) (m', w')"
| step_remove_http: "RemoveSpecificHTTPConnection d p m w = (m', w') \<Longrightarrow> cm_step (m, w) (m', w')"
| step_remove_ws: "RemoveSpecificWebSocketConnection d p m w = (m', w') \<Longrightarrow> cm_step (m, w) (m', w')"
| step_take_ws:
    "RemoveSpecificWebSocketConnectionWithoutClosing d p m w = (m', w') \<Longrightarrow> cm_step (m, w) (m', w')"
| step_get: "GetConnection d ty m w = (r, m') \<Longrightarrow> cm_step (m, w) (m', w)"
| step_cleanup: "CleanupDeadConnections rd m w = (st, m', w') \<Longrightarrow> cm_step (m, w) (m', w')"
| step_close: "cm_Close m w = (m', w') \<Longrightarrow> cm_step (m, w) (m', w')"
| step_count: "cm_step (m, w) (m, IncrementRequestCount p w)"
| step_clock: "t \<ge> clock w \<Longrightarrow> cm_step (m, w) (m, w\<lparr>clock := t\<rparr>)"

inductive_cases cm_stepE: "cm_step s t"

lemma cm_step_inv: "cm_step s t \<Longrightarrow> cm_inv s \<Longrightarrow> cm_inv t"
proof (induction rule: cm_step.induct)
  case step_clock
  then show ?case by - (rule cm_inv_ext, auto intro: heap_ext_same)
qed (auto intro: inv_intros cm_inv_ext heap_ext_Increment)

lemma cm_init_inv: "cm_init s \<Longrightarrow> cm_inv s"
  by (auto simp: cm_init_def cm_inv_def NewConnectionManager_def)

interpretation cm: transition_system cm_init cm_step cm_inv
  by unfold_locales (simp_all add: cm_init_inv cm_step_inv)

lemma cm_invE:
  assumes "cm_inv (m, w)" "map_of m d = Some dc" "p \<in> set (dc_ptrs dc)"
  shows "tc_GetDomain w p = Some d" "tc_GetConn w p \<noteq> None" "p < tc_next w"
proof -
  have "tc_ok w d (dc_targetPort dc) p"
    using cm_inv_lookup [OF assms(1,2)] assms(3) by (simp add: dc_ok_def list_all_iff)
  then show "tc_GetDomain w p = Some d" "tc_GetConn w p \<noteq> None" "p < tc_next w"
    using tc_ok_less [OF cm_inv_heap [OF assms(1)]]
    by (auto simp: tc_ok_def tc_GetDomain_def tc_GetConn_def split: option.splits)
qed

lemma GetConnection_member:
  assumes "GetConnection d ty m w = (Some p, m')"
  shows "\<exists>dc. map_of m d = Some dc \<and> p \<in> set (dc_ptrs dc)"
  using assms pool_GetConnection_member
  by (fastforce simp: GetConnection_def dc_ptrs_def split: option.splits conn_type.splits prod.splits)

text \<open>
  In every reachable state a domain has at most 25 WebSocket tunnels, whatever the sequence of
  additions, removals, hand-outs, clean-ups and shut-downs before.
\<close>

theorem ws_tunnels_bounded:
  "reach cm_init cm_step (m, w) \<Longrightarrow> GetWebSocketPoolSize m d \<le> 25"
  using cm.reach_invar [of "(m, w)"] cm_inv_lookup [of m w d]
  by (auto simp: GetWebSocketPoolSize_def dc_ok_def MaxWebSocketTunnelsPerDomain_def split: option.split)

text \<open>
  C7. Isolation of tenants: in every reachable state a connection handed out for a domain was
  registered for this very domain, and it has a network handle.
\<close>

theorem connection_isolation:
  assumes "reach cm_init cm_step (m, w)" "GetConnection d ty m w = (Some p, m')"
  shows "tc_GetDomain w p = Some d \<and> tc_GetConn w p \<noteq> None"
  using GetConnection_member [OF assms(2)] cm_invE [OF cm.reach_invar [OF assms(1)]] by blast

section \<open>Exclusive ownership of a WebSocket tunnel\<close>

text \<open>The connections some pool holds; a step adds at most a newly allocated one.\<close>

definition pooled :: "conn_manager \<Rightarrow> tc_ptr set" where
  "pooled m = {p. \<exists>d dc. map_of m d = Some dc \<and> p \<in> set (dc_ptrs dc)}"

lemma pooled_update: "set (dc_ptrs dc) \<subseteq> pooled m \<union> A \<Longrightarrow> pooled (AList.update d dc m) \<subseteq> pooled m \<union> A"
  by (auto simp: pooled_def map_of_update split: if_splits)

lemma pooled_delete: "pooled (AList.delete d m) \<subseteq> pooled m"
  by (auto simp: pooled_def map_of_delete split: if_splits)

lemma pooled_lookup: "map_of m d = Some dc \<Longrightarrow> set (dc_ptrs dc) \<subseteq> pooled m"
  by (auto simp: pooled_def)

lemma pooled_drop:
  assumes "set (dc_ptrs dc) \<subseteq> pooled m" "drop_if_empty d dc m w = (m', w')"
  shows "pooled m' \<subseteq> pooled m \<and> tc_next w' = tc_next w"
  using assms pooled_update [of dc m "{}" d] pooled_delete [of d m]
  by (auto simp: drop_if_empty_def pool_Close_def split: if_splits)

lemma pooled_remove_http:
  "map_of m d = Some dc \<Longrightarrow>
   set (dc_ptrs (dc\<lparr>httpPool := pool_RemoveConnectionWithoutClosing p (httpPool dc)\<rparr>)) \<subseteq> pooled m"
  using pooled_lookup [of m d dc] tp.set_remove_subset [of p "httpPool dc"] by (auto simp: dc_ptrs_def)

lemma pooled_remove_ws:
  "map_of m d = Some dc \<Longrightarrow>
   set (dc_ptrs (dc\<lparr>wsPool := pool_RemoveConnectionWithoutClosing p (wsPool dc)\<rparr>)) \<subseteq> pooled m"
  using pooled_lookup [of m d dc] tp.set_remove_subset [of p "wsPool dc"] by (auto simp: dc_ptrs_def)

lemma pooled_AddConnection:
  assumes a: "AddConnection d c port ty uid tid m w = (r, m', w')"
  shows "pooled m' \<subseteq> pooled m \<union> {tc_next w} \<and> tc_next w \<le> tc_next w'"
proof -
  define dc where "dc = set_owner uid tid (case map_of m d of Some dc \<Rightarrow> dc | None \<Rightarrow> new_domain_conns d port)"
  have dc: "set (dc_ptrs dc) \<subseteq> pooled m"
    by (auto simp: dc_def dc_ptrs_def pooled_def new_domain_conns_def NewTunnelConnectionPool_def split: option.split)
  have up: "pooled (AList.update d dc' m) \<subseteq> pooled m \<union> {tc_next w}"
    if "set (dc_ptrs dc') \<subseteq> insert (tc_next w) (set (dc_ptrs dc))" for dc'
    by (rule pooled_update) (use that dc in auto)
  show ?thesis
    using a up [of dc] up [of "dc\<lparr>httpPool := pool_append (tc_next w) (httpPool dc)\<rparr>"]
      up [of "dc\<lparr>wsPool := pool_append (tc_next w) (wsPool dc)\<rparr>"]
    unfolding AddConnection_def dc_def [symmetric]
    by (auto simp: Let_def pool_AddConnection_def NewTunnelConnection_def dc_ptrs_def
        split: conn_type.splits if_splits)
qed

lemma pooled_GetConnection:
  assumes "GetConnection d ty m w = (r, m')"
  shows "pooled m' \<subseteq> pooled m"
proof (cases "map_of m d")
  case (Some dc)
  have up: "pooled (AList.update d dc' m) \<subseteq> pooled m" if "dc_ptrs dc' = dc_ptrs dc" for dc'
    using pooled_update [of dc' m "{}" d] pooled_lookup [OF Some] that by simp
  obtain r1 p1 b1 where g1: "pool_GetConnection w (httpPool dc) = (r1, p1, b1)" by (rule prod_cases3)
  obtain r2 p2 b2 where g2: "pool_GetConnection w (wsPool dc) = (r2, p2, b2)" by (rule prod_cases3)
  have "pooled (AList.update d (dc\<lparr>httpPool := p1\<rparr>) m) \<subseteq> pooled m"
    "pooled (AList.update d (dc\<lparr>wsPool := p2\<rparr>) m) \<subseteq> pooled m"
    using pool_GetConnection_frame(1) [OF g1] pool_GetConnection_frame(1) [OF g2]
    by (intro up, simp add: dc_ptrs_def)+
  then show ?thesis
    using assms Some g1 g2 by (auto simp: GetConnection_def split: conn_type.splits)
qed (use assms in \<open>simp add: GetConnection_def\<close>)

lemma pooled_Cleanup:
  assumes "CleanupDeadConnections rd m w = (st, m', w')"
  shows "pooled m' \<subseteq> pooled m \<and> tc_next w' = tc_next w"
proof -
  note f = CleanupDeadConnections_spec [OF assms]
  have "map_of m' d = map_option (clean_dc rd w) (map_of m d)" for d
    using f by (simp add: map_of_map)
  moreover have "set (dc_ptrs (clean_dc rd w dc)) \<subseteq> set (dc_ptrs dc)" for dc
    by (auto simp: clean_dc_def dc_ptrs_def)
  ultimately show ?thesis using f by (fastforce simp: pooled_def)
qed

lemma pooled_step:
  assumes "cm_step (m, w) (m', w')"
  shows "pooled m' \<subseteq> pooled m \<union> {tc_next w} \<and> tc_next w \<le> tc_next w'"
  using assms
proof cases
  case step_add
  then show ?thesis by (rule pooled_AddConnection)
next
  case step_remove
  then show ?thesis using pooled_drop pooled_lookup
    by (fastforce simp: RemoveConnection_def split: option.splits)
next
  case (step_remove_http d p)
  show ?thesis
  proof (cases "map_of m d")
    case (Some dc)
    obtain pool w1 where r: "pool_RemoveConnection p (httpPool dc) w = (pool, w1)" by force
    then have "drop_if_empty d (dc\<lparr>httpPool := pool\<rparr>) m w1 = (m', w')"
      using step_remove_http Some by (simp add: RemoveSpecificHTTPConnection_def)
    moreover have "tc_next w1 = tc_next w" using heap_RemoveConnection [of p "httpPool dc" w] r by simp
    ultimately show ?thesis
      using pooled_drop pooled_remove_http [OF Some] pool_RemoveConnection_frame(1) [OF r] by fastforce
  qed (use step_remove_http in \<open>auto simp: RemoveSpecificHTTPConnection_def\<close>)
next
  case (step_remove_ws d p)
  show ?thesis
  proof (cases "map_of m d")
    case (Some dc)
    obtain pool w1 where r: "pool_RemoveConnection p (wsPool dc) w = (pool, w1)" by force
    then have "drop_if_empty d (dc\<lparr>wsPool := pool\<rparr>) m w1 = (m', w')"
      using step_remove_ws Some by (simp add: RemoveSpecificWebSocketConnection_def)
    moreover have "tc_next w1 = tc_next w" using heap_RemoveConnection [of p "wsPool dc" w] r by simp
    ultimately show ?thesis
      using pooled_drop pooled_remove_ws [OF Some] pool_RemoveConnection_frame(1) [OF r] by fastforce
  qed (use step_remove_ws in \<open>auto simp: RemoveSpecificWebSocketConnection_def\<close>)
next
  case (step_take_ws d p)
  then show ?thesis using pooled_drop [OF pooled_remove_ws]
    by (fastforce simp: RemoveSpecificWebSocketConnectionWithoutClosing_def split: option.splits)
next
  case step_get
  then show ?thesis using pooled_GetConnection by fastforce
next
  case step_cleanup
  then show ?thesis using pooled_Cleanup by fastforce
next
  case step_close
  then have "m' = [] \<and> tc_next w' = tc_next w"
    by (induction m w rule: cm_Close.induct) (auto simp: pool_Close_def)
  then show ?thesis by (simp add: pooled_def)
next
  case step_count
  then show ?thesis using heap_ext_Increment by (fastforce simp: heap_ext_def)
next
  case step_clock
  then show ?thesis by auto
qed

lemma unpooled_steps:
  assumes "cm_step\<^sup>*\<^sup>* s t" "p < tc_next (snd s)" "p \<notin> pooled (fst s)"
  shows "p < tc_next (snd t) \<and> p \<notin> pooled (fst t)"
  using assms
proof (induction rule: rtranclp_induct)
  case (step t u)
  then show ?case using pooled_step [of "fst t" "snd t" "fst u" "snd u"] by force
qed simp

lemma handle_step:
  assumes "cm_step (m, w) (m', w')" "p < tc_next w"
  shows "tc_GetConn w' p = tc_GetConn w p \<and> tc_GetDomain w' p = tc_GetDomain w p"
  using assms(1)
proof cases
  case (step_add d c port ty uid tid r)
  have "tc_heap w' p = tc_heap w p"
    using step_add assms(2)
    by (auto simp: AddConnection_def pool_AddConnection_def NewTunnelConnection_def Let_def split: conn_type.splits if_splits prod.splits)
  then show ?thesis by (simp add: tc_GetConn_def tc_GetDomain_def)
next
  case (step_cleanup rd st)
  then show ?thesis using CleanupDeadConnections_spec by (simp add: tc_GetConn_def tc_GetDomain_def)
next
  case step_close
  then have "tc_heap w' = tc_heap w" by (induction m w rule: cm_Close.induct) (auto simp: pool_Close_def)
  then show ?thesis by (simp add: tc_GetConn_def tc_GetDomain_def)
next
  case (step_count q)
  then show ?thesis by (auto simp: IncrementRequestCount_def tc_GetConn_def tc_GetDomain_def split: option.split)
qed (auto simp: RemoveConnection_def RemoveSpecificHTTPConnection_def RemoveSpecificWebSocketConnection_def
  RemoveSpecificWebSocketConnectionWithoutClosing_def drop_if_empty_def pool_RemoveConnection_def pool_Close_def tc_GetConn_def tc_GetDomain_def
  split: option.splits if_splits prod.splits)

lemma handle_steps:
  assumes "cm_step\<^sup>*\<^sup>* s t" "p < tc_next (snd s)"
  shows "tc_GetConn (snd t) p = tc_GetConn (snd s) p \<and> tc_GetDomain (snd t) p = tc_GetDomain (snd s) p \<and> p < tc_next (snd t)"
  using assms
proof (induction rule: rtranclp_induct)
  case (step t u)
  then show ?case using pooled_step [of "fst t" "snd t" "fst u" "snd u"] handle_step [of "fst t" "snd t" "fst u" "snd u" p] by force
qed simp

text \<open>
  C6. Exclusive ownership: once a goroutine has taken a WebSocket connection out of its pool with
  \<open>RemoveSpecificWebSocketConnectionWithoutClosing\<close>, no handle has been closed, and however the
  manager is used afterwards, \<open>GetConnection\<close> never returns this connection again.
\<close>

theorem taken_connection_exclusive:
  assumes "reach cm_init cm_step (m, w)"
    and "map_of m d = Some dc" "p \<in> set (connections (wsPool dc))"
    and "RemoveSpecificWebSocketConnectionWithoutClosing d p m w = (m1, w1)"
    and "cm_step\<^sup>*\<^sup>* (m1, w1) (m2, w2)"
  shows "closed_conns w1 = closed_conns w \<and> fst (GetConnection d' ty m2 w2) \<noteq> Some p"
proof -
  note inv = cm.reach_invar [OF assms(1)]
  note t = assms(4) [unfolded RemoveSpecificWebSocketConnectionWithoutClosing_def assms(2) option.case]
  let ?dc = "dc\<lparr>wsPool := pool_RemoveConnectionWithoutClosing p (wsPool dc)\<rparr>"
  have w1: "w1 = w" and m1: "map_of m1 d' = Some dc' \<Longrightarrow> d' \<noteq> d \<and> map_of m d' = Some dc' \<or> dc' = ?dc" for d' dc'
    using t by (auto simp: drop_if_empty_def pool_Close_def pool_Size_def map_of_update map_of_delete split: if_splits)
  have p: "tc_GetDomain w p = Some d" "p < tc_next w"
    using cm_invE [OF inv assms(2)] assms(3) by (auto simp: dc_ptrs_def)
  have "p \<notin> set (dc_ptrs ?dc)"
    using cm_inv_lookup [OF inv assms(2)] assms(3) by (auto simp: dc_ok_def dc_ptrs_def tp.contents_remove)
  moreover have "p \<notin> set (dc_ptrs dc')" if "d' \<noteq> d" "map_of m d' = Some dc'" for d' dc'
    using cm_invE(1) [OF inv that(2)] p(1) that(1) by auto
  ultimately have "p \<notin> pooled m1" using m1 by (auto simp: pooled_def)
  then have "p \<notin> pooled m2" using unpooled_steps [OF assms(5)] p w1 by simp
  moreover have "p \<in> pooled m2" if "fst (GetConnection d' ty m2 w2) = Some p"
    using GetConnection_member [of d' ty m2 w2 p] that by (auto simp: pooled_def prod_eq_iff)
  ultimately show ?thesis using w1 by blast
qed

section \<open>The registry the servers rely on\<close>

text \<open>
  The TCP server and the hybrid router see the manager as two lists of connections per domain:
  adding appends to one list, removing takes out one occurrence, the queries say whether a list is
  empty. That entries of the map are created and dropped on the way is not visible.
\<close>

locale conn_registry =
  fixes http ws :: "'m \<Rightarrow> string \<Rightarrow> 'c list"
    and remove_http remove_ws :: "string \<Rightarrow> 'c \<Rightarrow> 'm \<Rightarrow> 'm"
    and has has_http has_ws :: "'m \<Rightarrow> string \<Rightarrow> bool"
  assumes http_remove_http: "http (remove_http d c m) = (http m)(d := remove1 c (http m d))"
    and ws_remove_http: "ws (remove_http d c m) = ws m"
    and ws_remove_ws: "ws (remove_ws d c m) = (ws m)(d := remove1 c (ws m d))"
    and http_remove_ws: "http (remove_ws d c m) = http m"
    and has_http_iff: "has_http m d \<longleftrightarrow> http m d \<noteq> []"
    and has_ws_iff: "has_ws m d \<longleftrightarrow> ws m d \<noteq> []"
    and has_iff: "has m d \<longleftrightarrow> has_http m d \<or> has_ws m d"
begin

lemma http_remove_all: "http (fold (remove_http d) cs m) d = fold remove1 cs (http m d)"
  by (induction cs arbitrary: m) (simp_all add: http_remove_http)

lemma ws_remove_all: "ws (fold (remove_http d) cs m) = ws m"
  by (induction cs arbitrary: m) (simp_all add: ws_remove_http)

lemma fold_remove1_self: "fold remove1 xs xs = []"
  by (induction xs) auto

text \<open>When every HTTP connection of a domain has ended, only its WebSocket tunnels keep it up.\<close>

lemma has_after_http_gone: "has (fold (remove_http d) (http m d) m) d \<longleftrightarrow> has_ws m d"
  by (simp add: has_iff has_http_iff has_ws_iff http_remove_all ws_remove_all fold_remove1_self)

lemma remove_http_other: "d' \<noteq> d \<Longrightarrow> has (remove_http d c m) d' = has m d'"
  by (simp add: has_iff has_http_iff has_ws_iff http_remove_http ws_remove_http)

lemma removals_commute:
  "http (remove_http d c (remove_ws d' c' m)) = http (remove_ws d' c' (remove_http d c m))"
  "ws (remove_http d c (remove_ws d' c' m)) = ws (remove_ws d' c' (remove_http d c m))"
  by (simp_all add: http_remove_http ws_remove_http http_remove_ws ws_remove_ws)

end

definition cm_http :: "conn_manager \<Rightarrow> string \<Rightarrow> tc_ptr list" where
  "cm_http m d = (case map_of m d of None \<Rightarrow> [] | Some dc \<Rightarrow> connections (httpPool dc))"

definition cm_ws :: "conn_manager \<Rightarrow> string \<Rightarrow> tc_ptr list" where
  "cm_ws m d = (case map_of m d of None \<Rightarrow> [] | Some dc \<Rightarrow> connections (wsPool dc))"

lemma contents_drop_if_empty:
  "cm_http (fst (drop_if_empty d dc m w)) = (cm_http m)(d := connections (httpPool dc))"
  "cm_ws (fst (drop_if_empty d dc m w)) = (cm_ws m)(d := connections (wsPool dc))"
  by (auto simp: drop_if_empty_def cm_http_def cm_ws_def map_of_update map_of_delete pool_Size_def fun_eq_iff)

lemma contents_RemoveHTTP:
  "cm_http (fst (RemoveSpecificHTTPConnection d p m w)) = (cm_http m)(d := remove1 p (cm_http m d))"
  "cm_ws (fst (RemoveSpecificHTTPConnection d p m w)) = cm_ws m"
proof (atomize (full), cases "map_of m d")
  case (Some dc)
  obtain pool w1 where r: "pool_RemoveConnection p (httpPool dc) w = (pool, w1)" by force
  with pool_RemoveConnection_frame(1) [OF r] Some
  show "cm_http (fst (RemoveSpecificHTTPConnection d p m w)) = (cm_http m)(d := remove1 p (cm_http m d)) \<and>
    cm_ws (fst (RemoveSpecificHTTPConnection d p m w)) = cm_ws m"
    by (simp add: RemoveSpecificHTTPConnection_def contents_drop_if_empty tp.contents_remove)
       (auto simp: cm_http_def cm_ws_def fun_eq_iff)
qed (auto simp: RemoveSpecificHTTPConnection_def cm_http_def cm_ws_def fun_eq_iff)

lemma contents_RemoveWS:
  "cm_ws (fst (RemoveSpecificWebSocketConnection d p m w)) = (cm_ws m)(d := remove1 p (cm_ws m d))"
  "cm_http (fst (RemoveSpecificWebSocketConnection d p m w)) = cm_http m"
proof (atomize (full), cases "map_of m d")
  case (Some dc)
  obtain pool w1 where r: "pool_RemoveConnection p (wsPool dc) w = (pool, w1)" by force
  with pool_RemoveConnection_frame(1) [OF r] Some
  show "cm_ws (fst (RemoveSpecificWebSocketConnection d p m w)) = (cm_ws m)(d := remove1 p (cm_ws m d)) \<and>
    cm_http (fst (RemoveSpecificWebSocketConnection d p m w)) = cm_http m"
    by (simp add: RemoveSpecificWebSocketConnection_def contents_drop_if_empty tp.contents_remove)
       (auto simp: cm_http_def cm_ws_def fun_eq_iff)
qed (auto simp: RemoveSpecificWebSocketConnection_def cm_http_def cm_ws_def fun_eq_iff)

interpretation registry: conn_registry cm_http cm_ws
  "\<lambda>d p m. fst (RemoveSpecificHTTPConnection d p m w)"
  "\<lambda>d p m. fst (RemoveSpecificWebSocketConnection d p m w)"
  HasDomain HasHTTPConnection HasWebSocketConnection
  for w
  by unfold_locales
     (auto simp: contents_RemoveHTTP contents_RemoveWS HasDomain_def HasHTTPConnection_def
       HasWebSocketConnection_def cm_http_def cm_ws_def pool_Size_def split: option.split)

text \<open>
  When each HTTP connection of a domain has been removed, one call of
  \<open>RemoveSpecificHTTPConnection\<close> after the other, the domain counts as connected exactly if it has a
  WebSocket tunnel, and no other domain is affected by a removal.
\<close>

theorem registry_drains:
  "(HasDomain (fold (\<lambda>p m. fst (RemoveSpecificHTTPConnection d p m w)) (GetAllHTTPConnections m d) m) d
      = HasWebSocketConnection m d) \<and>
   (d' \<noteq> d \<longrightarrow> HasDomain (fst (RemoveSpecificHTTPConnection d p m w)) d' = HasDomain m d')"
proof -
  have "GetAllHTTPConnections m d = cm_http m d"
    by (simp add: GetAllHTTPConnections_def GetAllConnections_def cm_http_def split: option.split)
  then show ?thesis using registry.has_after_http_gone registry.remove_http_other by simp
qed

section \<open>Statistics\<close>

definition ws_size :: "string \<times> domain_conns \<Rightarrow> nat" where
  "ws_size = (\<lambda>(d, dc). pool_Size (wsPool dc))"

lemma ws_size_Pair: "ws_size (d, dc) = pool_Size (wsPool dc)"
  by (simp add: ws_size_def)

lemma stats_loop_spec:
  "stats_loop m st =
     \<lparr>total_tunnels = total_tunnels st + sum_list (map ws_size m),
      total_domains = total_domains st + length (filter (\<lambda>x. ws_size x > 0) m),
      max_per_domain = Max (insert (max_per_domain st) (ws_size ` set m))\<rparr>"
proof (induction m arbitrary: st)
  case (Cons x m)
  obtain d dc where x: "x = (d, dc)" by force
  have mx: "(if n > k then n else k) = max n k" for n k :: nat by simp
  have i: "Max (insert (max n k) (ws_size ` set m)) = Max (insert k (insert n (ws_size ` set m)))" for n k
    by (cases "set m = {}") (simp_all add: max.left_commute max.commute)
  have z: "Max (insert k (insert 0 (ws_size ` set m))) = Max (insert k (ws_size ` set m))" for k
    by (cases "set m = {}") simp_all
  show ?case
    by (cases "pool_Size (wsPool dc) = 0") (simp_all add: x Let_def Cons.IH mx i z ws_size_Pair)
qed simp

lemma sum_list_bound:
  fixes f :: "'a \<Rightarrow> nat"
  shows "\<forall>x \<in> set xs. f x \<le> k \<Longrightarrow> sum_list (map f xs) \<le> length (filter (\<lambda>x. f x > 0) xs) * k"
  by (induction xs) auto

text \<open>
  The WebSocket statistics do not depend on the order in which Go iterates over the map, and
  the reported numbers are consistent: the total is at most the number of domains times the
  reported maximum, and in a reachable state the maximum is at most 25.
\<close>

theorem ws_stats_order_and_bounds:
  assumes "reach cm_init cm_step (m, w)" "mset m' = mset m"
  shows "GetWebSocketPoolStats m' = GetWebSocketPoolStats m \<and>
     total_tunnels (GetWebSocketPoolStats m)
       \<le> total_domains (GetWebSocketPoolStats m) * max_per_domain (GetWebSocketPoolStats m) \<and>
     max_per_domain (GetWebSocketPoolStats m) \<le> 25"
proof -
  note inv = cm.reach_invar [OF assms(1)]
  let ?M = "Max (insert 0 (ws_size ` set m))"
  have "sum_list (map ws_size m') = sum_list (map ws_size m)"
    using assms(2) by (metis mset_map sum_mset_sum_list)
  moreover have "length (filter (\<lambda>x. ws_size x > 0) m') = length (filter (\<lambda>x. ws_size x > 0) m)"
    using assms(2) by (metis mset_filter size_mset)
  moreover have "set m' = set m" using assms(2) by (rule mset_eq_setD)
  moreover have "sum_list (map ws_size m) \<le> length (filter (\<lambda>x. ws_size x > 0) m) * ?M"
    by (rule sum_list_bound) (auto intro: Max_ge)
  moreover have "ws_size x \<le> 25" if "x \<in> set m" for x
    using inv that by (cases x) (auto simp: cm_inv_def dc_ok_def ws_size_def MaxWebSocketTunnelsPerDomain_def)
  ultimately show ?thesis by (auto simp: GetWebSocketPoolStats_def stats_loop_spec)
qed

section \<open>Witnesses\<close>

definition start_net :: net_state where
  "start_net = \<lparr>tc_heap = Map.empty, tc_next = 0, closed_conns = [], read_bytes = [], clock = 0\<rparr>"

definition demo_state :: "conn_manager \<times> net_state" where
  "demo_state = snd (AddConnection ''a.io'' 7 80 ConnectionTypeWebSocket 1 2 [] start_net)"

lemma demo_reach: "reach cm_init cm_step (fst demo_state, snd demo_state)"
proof -
  have "reach cm_init cm_step ([], start_net)"
    by (rule reach_init) (simp add: cm_init_def NewConnectionManager_def heap_ok_def start_net_def)
  moreover have "cm_step ([], start_net) (fst demo_state, snd demo_state)"
  proof (rule step_add)
    show "AddConnection ''a.io'' 7 80 ConnectionTypeWebSocket 1 2 [] start_net =
      (fst (AddConnection ''a.io'' 7 80 ConnectionTypeWebSocket 1 2 [] start_net), fst demo_state, snd demo_state)"
      by (simp add: demo_state_def)
  qed
  ultimately show ?thesis by (rule reach_step)
qed

lemma demo_state_eval:
  "demo_state =
    ([(''a.io'', \<lparr>dc_domain = ''a.io'', httpPool = NewTunnelConnectionPool ''a.io'' 80,
        wsPool = \<lparr>p_domain = ''a.io'', p_targetPort = 80, connections = [0], roundRobin = 0\<rparr>,
        dc_targetPort = 80, userID = 1, tunnelID = 2\<rparr>)],
     \<lparr>tc_heap = [0 \<mapsto> \<lparr>conn = Some 7, tc_domain = ''a.io'', tc_targetPort = 80, requestCount = 0, createdAt = 0\<rparr>],
      tc_next = 1, closed_conns = [], read_bytes = [], clock = 0\<rparr>)"
  by (simp add: demo_state_def AddConnection_def new_domain_conns_def NewTunnelConnectionPool_def set_owner_def
      pool_Size_def MaxWebSocketTunnelsPerDomain_def pool_AddConnection_def NewTunnelConnection_def
      start_net_def pool_append_def)

theorem ws_tunnels_bounded_witness: "GetWebSocketPoolSize (fst demo_state) ''a.io'' \<le> 25"
  by (rule ws_tunnels_bounded [OF demo_reach])

theorem connection_isolation_witness:
  "tc_GetDomain (snd demo_state) 0 = Some ''a.io'' \<and> tc_GetConn (snd demo_state) 0 \<noteq> None"
proof (rule connection_isolation [OF demo_reach, of "''a.io''" ConnectionTypeWebSocket])
  show "GetConnection ''a.io'' ConnectionTypeWebSocket (fst demo_state) (snd demo_state)
    = (Some 0, snd (GetConnection ''a.io'' ConnectionTypeWebSocket (fst demo_state) (snd demo_state)))"
    by (simp add: demo_state_eval GetConnection_def pool_GetConnection_def tc_GetConn_def Let_def)
qed

theorem taken_connection_exclusive_witness:
  "let (m1, w1) = RemoveSpecificWebSocketConnectionWithoutClosing ''a.io'' 0 (fst demo_state) (snd demo_state)
   in closed_conns w1 = [] \<and> fst (GetConnection ''a.io'' ConnectionTypeWebSocket m1 w1) \<noteq> Some 0"
proof -
  obtain m1 w1 where r:
    "RemoveSpecificWebSocketConnectionWithoutClosing ''a.io'' 0 (fst demo_state) (snd demo_state) = (m1, w1)"
    by force
  obtain dc where dc: "map_of (fst demo_state) ''a.io'' = Some dc" "0 \<in> set (connections (wsPool dc))"
    by (simp add: demo_state_eval)
  show ?thesis
    using taken_connection_exclusive [OF demo_reach dc r rtranclp.rtrancl_refl] r
    by (simp add: demo_state_eval)
qed

theorem registry_drains_witness:
  "\<not> HasDomain (fold (\<lambda>p m. fst (RemoveSpecificHTTPConnection ''b'' p m start_net))
       (GetAllHTTPConnections (fst demo_state) ''b'') (fst demo_state)) ''b'' \<and>
   HasDomain (fst (RemoveSpecificHTTPConnection ''b'' 0 (fst demo_state) start_net)) ''a.io''"
  using registry_drains [of "''b''" start_net "fst demo_state" "''a.io''" 0]
  by (simp add: demo_state_eval HasWebSocketConnection_def HasDomain_def pool_Size_def)

theorem ws_stats_order_and_bounds_witness:
  "GetWebSocketPoolStats (rev (fst demo_state)) = GetWebSocketPoolStats (fst demo_state) \<and>
   max_per_domain (GetWebSocketPoolStats (fst demo_state)) \<le> 25"
  using ws_stats_order_and_bounds [OF demo_reach, of "rev (fst demo_state)"] by simp

end
