(* ===== verification/Ent_Table.thy ===== *)
theory Ent_Table
  imports Go_Base
begin

text \<open>
  What the repositories use of the generated ent client (\<open>internal/db/ent\<close>): a table is a list of
  rows in the order of their ids; \<open>Only\<close>, \<open>All\<close>, \<open>UpdateOneID\<close> and \<open>DeleteOneID\<close> with their errors.
  A database that does not answer is a fault of the operation, an argument of the repositories.

  The interface \<open>ent_table\<close> collects what the services rely on for a table with a unique column:
  updates keep the id and the unique column of a row.
\<close>

datatype repo_error =
    ErrNotFound
  | NotSingularError
  | ConstraintError
  | ValidationError
  | DBError
  | InvalidUpdatesType

section \<open>Queries and updates\<close>

definition ent_Only :: "('r \<Rightarrow> bool) \<Rightarrow> 'r list \<Rightarrow> repo_error + 'r" where
  "ent_Only P rows =
     (case take 2 (filter P rows) of
        [] \<Rightarrow> Inl ErrNotFound
      | [r] \<Rightarrow> Inr r
      | _ \<Rightarrow> Inl NotSingularError)"

definition ent_UpdateOneID ::
    "('r \<Rightarrow> 'i) \<Rightarrow> 'i \<Rightarrow> ('r \<Rightarrow> 'r) \<Rightarrow> 'r list \<Rightarrow> (repo_error + 'r) \<times> 'r list" where
  "ent_UpdateOneID rid i f rows =
     (case filter (\<lambda>r. rid r = i) rows of
        [] \<Rightarrow> (Inl ErrNotFound, rows)
      | r # _ \<Rightarrow> (Inr (f r), map (\<lambda>r. if rid r = i then f r else r) rows))"

definition ent_DeleteOneID ::
    "('r \<Rightarrow> 'i) \<Rightarrow> 'i \<Rightarrow> 'r list \<Rightarrow> (repo_error + unit) \<times> 'r list" where
  "ent_DeleteOneID rid i rows =
     (if filter (\<lambda>r. rid r = i) rows = [] then (Inl ErrNotFound, rows)
      else (Inr (), filter (\<lambda>r. rid r \<noteq> i) rows))"

definition keyed :: "('r \<Rightarrow> 'i) \<Rightarrow> ('r \<Rightarrow> 'k) \<Rightarrow> 'r list \<Rightarrow> bool" where
  "keyed rid ukey rows \<longleftrightarrow> distinct (map rid rows) \<and> distinct (map ukey rows)"

section \<open>General facts\<close>

lemma filter_key_distinct:
  "distinct (map f rows) \<Longrightarrow> r \<in> set rows \<Longrightarrow> filter (\<lambda>x. f x = f r) rows = [r]"
proof (induction rows)
  case (Cons a rows)
  show ?case
  proof (cases "a = r")
    case True
    with Cons.prems have "filter (\<lambda>x. f x = f r) rows = []"
      by (auto simp: filter_empty_conv) (metis image_eqI)
    with True show ?thesis by simp
  next
    case False
    with Cons.prems have "r \<in> set rows" by simp
    moreover from this Cons.prems have "f a \<noteq> f r" by auto
    ultimately show ?thesis using Cons by simp
  qed
qed simp

lemma ent_Only_Inr: "ent_Only P rows = Inr r \<Longrightarrow> r \<in> set rows \<and> P r"
proof -
  assume a: "ent_Only P rows = Inr r"
  then have "take 2 (filter P rows) = [r]" by (auto simp: ent_Only_def split: list.splits)
  then have "r \<in> set (filter P rows)" by (metis in_set_takeD list.set_intros(1))
  then show ?thesis by simp
qed

lemma ent_Only_key:
  "distinct (map f rows) \<Longrightarrow> ent_Only (\<lambda>r. f r = k) rows = Inr r \<longleftrightarrow> r \<in> set rows \<and> f r = k"
  using ent_Only_Inr [of "\<lambda>r. f r = k" rows r] filter_key_distinct [of f rows r]
  by (auto simp: ent_Only_def)

lemma ent_Only_key_None:
  assumes d: "distinct (map f rows)"
  shows "ent_Only (\<lambda>r. f r = k) rows = Inl e \<longleftrightarrow> e = ErrNotFound \<and> k \<notin> f ` set rows"
proof (cases "k \<in> f ` set rows")
  case True
  then obtain r where "r \<in> set rows" "f r = k" by auto
  then have "ent_Only (\<lambda>r. f r = k) rows = Inr r" by (simp add: ent_Only_key [OF d])
  with True show ?thesis by simp
next
  case False
  then have "filter (\<lambda>r. f r = k) rows = []" by (auto simp: filter_empty_conv)
  with False show ?thesis by (auto simp: ent_Only_def)
qed

lemma ent_UpdateOneID_Inr:
  assumes "distinct (map rid rows)" "ent_UpdateOneID rid i f rows = (Inr r', rows')"
  obtains r where "r \<in> set rows" "rid r = i" "r' = f r" "rows' = map (\<lambda>r. if rid r = i then f r else r) rows"
proof -
  obtain r rs where c: "filter (\<lambda>r. rid r = i) rows = r # rs"
    using assms(2) by (cases "filter (\<lambda>r. rid r = i) rows") (auto simp: ent_UpdateOneID_def)
  then have "r \<in> set (filter (\<lambda>r. rid r = i) rows)" by simp
  then have r: "r \<in> set rows" "rid r = i" by simp_all
  show ?thesis by (rule that [OF r]) (use assms(2) c in \<open>simp_all add: ent_UpdateOneID_def\<close>)
qed

section \<open>The table interface\<close>

locale ent_table =
  fixes rid :: "'r \<Rightarrow> 'i"
    and ukey :: "'r \<Rightarrow> 'k"
    and upd :: "'u \<Rightarrow> 'r \<Rightarrow> 'r"
  assumes upd_id: "rid (upd u r) = rid r"
    and upd_key: "ukey (upd u r) = ukey r"
begin

lemma map_upd_if:
  "map rid (map (\<lambda>r. if rid r = i then upd u r else r) rows) = map rid rows"
  "map ukey (map (\<lambda>r. if rid r = i then upd u r else r) rows) = map ukey rows"
  by (simp_all add: upd_id upd_key)

lemma keyed_update:
  assumes "keyed rid ukey rows" "ent_UpdateOneID rid i (upd u) rows = (res, rows')"
  shows "keyed rid ukey rows' \<and> map ukey rows' = map ukey rows"
  using assms map_upd_if [of i u rows]
  by (cases "filter (\<lambda>r. rid r = i) rows") (auto simp: keyed_def ent_UpdateOneID_def)

lemma keyed_delete:
  assumes "keyed rid ukey rows" "ent_DeleteOneID rid i rows = (res, rows')"
  shows "keyed rid ukey rows' \<and> set rows' = {r \<in> set rows. rid r \<noteq> i}"
  using assms by (auto simp: keyed_def ent_DeleteOneID_def distinct_map_filter filter_empty_conv split: if_splits)

lemma keyed_insert:
  "keyed rid ukey rows \<Longrightarrow> rid r \<notin> rid ` set rows \<Longrightarrow> ukey r \<notin> ukey ` set rows \<Longrightarrow> keyed rid ukey (rows @ [r])"
  by (simp add: keyed_def)

lemma lookup_after_update:
  assumes "keyed rid ukey rows" "ent_UpdateOneID rid i (upd u) rows = (Inr r', rows')"
  shows "ent_Only (\<lambda>r. rid r = i) rows' = Inr r'"
proof -
  have d: "distinct (map rid rows')" using keyed_update [OF assms] by (simp add: keyed_def)
  obtain r where "r \<in> set rows" "rid r = i" "r' = upd u r" "rows' = map (\<lambda>r. if rid r = i then upd u r else r) rows"
    using ent_UpdateOneID_Inr [OF _ assms(2)] assms(1) by (auto simp: keyed_def)
  then have "r' \<in> set rows' \<and> rid r' = i" by (auto simp: upd_id)
  with ent_Only_key [OF d] show ?thesis by simp
qed

lemma lookup_after_delete:
  assumes "keyed rid ukey rows" "ent_DeleteOneID rid i rows = (Inr (), rows')"
  shows "ent_Only (\<lambda>r. rid r = i) rows' = Inl ErrNotFound"
proof -
  have "filter (\<lambda>r. rid r = i) rows' = []" using keyed_delete [OF assms] by (auto simp: filter_empty_conv)
  then show ?thesis by (simp add: ent_Only_def)
qed

lemma lookup_key_unique:
  "keyed rid ukey rows \<Longrightarrow> ent_Only (\<lambda>r. ukey r = k) rows \<noteq> Inl NotSingularError"
  using ent_Only_key_None [of ukey rows k NotSingularError] by (auto simp: keyed_def)

end

end
