(* ===== verification/Tunnel_Repository.thy ===== *)
theory Tunnel_Repository
  imports Ent_Table
begin

text \<open>
  \<open>internal/repository/tunnel_repository.go\<close> over the schema of \<open>internal/db/ent/schema/tunnel.go\<close>:
  validators, defaults and unique columns. Every operation takes the set of operations at which the
  database fails; a failing operation leaves the table as it was.
\<close>

datatype dns_status = Verified | PendingDNS

record tunnel_row =
  t_ID :: nat
  t_Domain :: string
  t_Token :: string
  t_ClientIP :: string
  t_IsEnabled :: bool
  t_DNS :: dns_status
  t_TargetPort :: int
  t_UserID :: u32
  t_CreatedAt :: time
  t_UpdatedAt :: time

record tunnel_db =
  db_rows :: "tunnel_row list"
  db_next_id :: nat
  db_clock :: time

datatype tunnel_op =
    OpCreate | OpGetByID | OpGetByUserID | OpGetByToken | OpGetByDomain
  | OpUpdate | OpDelete | OpUpdateClientIP | OpGetActive
  | OpMonitorQuery | OpMonitorUpdate nat

type_synonym faults = "tunnel_op \<Rightarrow> bool"

record tunnel_update =
  u_IsEnabled :: "bool option"
  u_TargetPort :: "int option"
  u_DNS :: "dns_status option"

datatype updates = TunnelUpdate tunnel_update | OtherUpdates

section \<open>Queries\<close>

definition repo_GetByID :: "faults \<Rightarrow> tunnel_db \<Rightarrow> u32 \<Rightarrow> repo_error + tunnel_row" where
  "repo_GetByID f db i =
     (if f OpGetByID then Inl DBError else ent_Only (\<lambda>r. t_ID r = unat i) (db_rows db))"

definition repo_GetByUserID :: "faults \<Rightarrow> tunnel_db \<Rightarrow> u32 \<Rightarrow> repo_error + tunnel_row list" where
  "repo_GetByUserID f db uid =
     (if f OpGetByUserID then Inl DBError
      else Inr (sort_key t_ID (filter (\<lambda>r. t_UserID r = uid) (db_rows db))))"

definition repo_GetByToken :: "faults \<Rightarrow> tunnel_db \<Rightarrow> string \<Rightarrow> repo_error + tunnel_row" where
  "repo_GetByToken f db tok =
     (if f OpGetByToken then Inl DBError else ent_Only (\<lambda>r. t_Token r = tok) (db_rows db))"

definition repo_GetByDomain :: "faults \<Rightarrow> tunnel_db \<Rightarrow> string \<Rightarrow> repo_error + tunnel_row" where
  "repo_GetByDomain f db d =
     (if f OpGetByDomain then Inl DBError else ent_Only (\<lambda>r. t_Domain r = d) (db_rows db))"

definition repo_GetActive :: "faults \<Rightarrow> tunnel_db \<Rightarrow> repo_error + tunnel_row list" where
  "repo_GetActive f db =
     (if f OpGetActive then Inl DBError else Inr (filter t_IsEnabled (db_rows db)))"

section \<open>Changes\<close>

text \<open>
  The create builder sets five fields; the status column keeps the default of the schema, and the
  client IP is empty.
\<close>

definition repo_Create ::
    "faults \<Rightarrow> tunnel_row \<Rightarrow> tunnel_db \<Rightarrow> (repo_error + tunnel_row) \<times> tunnel_db" where
  "repo_Create f t db =
     (let r = \<lparr>t_ID = db_next_id db, t_Domain = t_Domain t, t_Token = t_Token t, t_ClientIP = [],
               t_IsEnabled = t_IsEnabled t, t_DNS = Verified, t_TargetPort = t_TargetPort t,
               t_UserID = t_UserID t, t_CreatedAt = db_clock db, t_UpdatedAt = db_clock db\<rparr>
      in if t_Domain t = [] \<or> t_Token t = [] \<or> t_TargetPort t \<le> 0 then (Inl ValidationError, db)
         else if f OpCreate then (Inl DBError, db)
         else if t_Domain t \<in> t_Domain ` set (db_rows db) \<or> t_Token t \<in> t_Token ` set (db_rows db)
         then (Inl ConstraintError, db)
         else (Inr r, db\<lparr>db_rows := db_rows db @ [r], db_next_id := Suc (db_next_id db)\<rparr>))"

definition apply_update :: "time \<times> tunnel_update \<Rightarrow> tunnel_row \<Rightarrow> tunnel_row" where
  "apply_update = (\<lambda>(now, u) r.
     r\<lparr>t_IsEnabled := (case u_IsEnabled u of Some b \<Rightarrow> b | None \<Rightarrow> t_IsEnabled r),
       t_TargetPort := (case u_TargetPort u of Some p \<Rightarrow> p | None \<Rightarrow> t_TargetPort r),
       t_DNS := (case u_DNS u of Some s \<Rightarrow> s | None \<Rightarrow> t_DNS r),
       t_UpdatedAt := now\<rparr>)"

definition repo_Update ::
    "faults \<Rightarrow> u32 \<Rightarrow> updates \<Rightarrow> tunnel_db \<Rightarrow> (repo_error + tunnel_row) \<times> tunnel_db" where
  "repo_Update f i updates db =
     (case updates of
        OtherUpdates \<Rightarrow> (Inl InvalidUpdatesType, db)
      | TunnelUpdate u \<Rightarrow>
          (if (case u_TargetPort u of Some p \<Rightarrow> p \<le> 0 | None \<Rightarrow> False) then (Inl ValidationError, db)
           else if f OpUpdate then (Inl DBError, db)
           else let (res, rows) = ent_UpdateOneID t_ID (unat i) (apply_update (db_clock db, u)) (db_rows db)
                in (res, db\<lparr>db_rows := rows\<rparr>)))"

definition repo_Delete :: "faults \<Rightarrow> u32 \<Rightarrow> tunnel_db \<Rightarrow> (repo_error + unit) \<times> tunnel_db" where
  "repo_Delete f i db =
     (if f OpDelete then (Inl DBError, db)
      else let (res, rows) = ent_DeleteOneID t_ID (unat i) (db_rows db) in (res, db\<lparr>db_rows := rows\<rparr>))"

definition set_client_ip :: "time \<times> string \<Rightarrow> tunnel_row \<Rightarrow> tunnel_row" where
  "set_client_ip = (\<lambda>(now, ip) r. r\<lparr>t_ClientIP := ip, t_UpdatedAt := now\<rparr>)"

definition repo_UpdateClientIP ::
    "faults \<Rightarrow> u32 \<Rightarrow> string \<Rightarrow> tunnel_db \<Rightarrow> (repo_error + unit) \<times> tunnel_db" where
  "repo_UpdateClientIP f i ip db =
     (if f OpUpdateClientIP then (Inl DBError, db)
      else let (res, rows) = ent_UpdateOneID t_ID (unat i) (set_client_ip (db_clock db, ip)) (db_rows db)
           in (map_sum id (\<lambda>_. ()) res, db\<lparr>db_rows := rows\<rparr>))"

section \<open>The tables of domains and tokens\<close>

interpretation by_domain: ent_table t_ID t_Domain apply_update
  by unfold_locales (auto simp: apply_update_def)

interpretation by_token: ent_table t_ID t_Token apply_update
  by unfold_locales (auto simp: apply_update_def)

interpretation ip_domain: ent_table t_ID t_Domain set_client_ip
  by unfold_locales (auto simp: set_client_ip_def)

interpretation ip_token: ent_table t_ID t_Token set_client_ip
  by unfold_locales (auto simp: set_client_ip_def)

section \<open>Invariant\<close>

text \<open>Ids, domains and tokens are unique, ids are below the next one, no domain is empty, ports are positive.\<close>

definition db_inv :: "tunnel_db \<Rightarrow> bool" where
  "db_inv db \<longleftrightarrow>
     keyed t_ID t_Domain (db_rows db) \<and> keyed t_ID t_Token (db_rows db) \<and>
     list_all (\<lambda>r. t_ID r < db_next_id db \<and> t_Domain r \<noteq> [] \<and> t_TargetPort r > 0) (db_rows db)"

lemma db_inv_Create [inv_intros]:
  assumes "db_inv db" "repo_Create f t db = (res, db')"
  shows "db_inv db'"
proof -
  let ?r = "\<lparr>t_ID = db_next_id db, t_Domain = t_Domain t, t_Token = t_Token t, t_ClientIP = [],
               t_IsEnabled = t_IsEnabled t, t_DNS = Verified, t_TargetPort = t_TargetPort t,
               t_UserID = t_UserID t, t_CreatedAt = db_clock db, t_UpdatedAt = db_clock db\<rparr>"
  have i: "t_ID ?r \<notin> t_ID ` set (db_rows db)" using assms(1) by (auto simp: db_inv_def list_all_iff)
  show ?thesis
    using assms by_domain.keyed_insert [of "db_rows db" ?r] by_token.keyed_insert [of "db_rows db" ?r] i
    by (auto simp: db_inv_def repo_Create_def Let_def list_all_iff less_Suc_eq split: if_splits)
qed

lemma db_inv_rows:
  assumes "db_inv db" "keyed t_ID t_Domain rows" "keyed t_ID t_Token rows"
    and "\<And>r. r \<in> set rows \<Longrightarrow> t_ID r < db_next_id db \<and> t_Domain r \<noteq> [] \<and> t_TargetPort r > 0"
  shows "db_inv (db\<lparr>db_rows := rows\<rparr>)"
  using assms by (simp add: db_inv_def list_all_iff)

lemma apply_update_sel [simp]:
  "t_ID (apply_update nu r) = t_ID r" "t_Domain (apply_update nu r) = t_Domain r"
  "t_Token (apply_update nu r) = t_Token r" "t_UserID (apply_update nu r) = t_UserID r"
  "t_ClientIP (apply_update nu r) = t_ClientIP r"
  by (simp_all add: apply_update_def split: prod.split)

lemma set_client_ip_sel [simp]:
  "t_ID (set_client_ip nu r) = t_ID r" "t_Domain (set_client_ip nu r) = t_Domain r"
  "t_Token (set_client_ip nu r) = t_Token r" "t_UserID (set_client_ip nu r) = t_UserID r"
  "t_TargetPort (set_client_ip nu r) = t_TargetPort r" "t_IsEnabled (set_client_ip nu r) = t_IsEnabled r"
  "t_DNS (set_client_ip nu r) = t_DNS r" "t_ClientIP (set_client_ip (now, ip) r) = ip"
  by (simp_all add: set_client_ip_def split: prod.split)

lemma UpdateOneID_rows:
  assumes "ent_UpdateOneID t_ID i g rows = (res, rows')" "x \<in> set rows'"
  shows "\<exists>r \<in> set rows. x = r \<or> (t_ID r = i \<and> x = g r)"
  using assms by (auto simp: ent_UpdateOneID_def split: list.splits if_splits)

lemma db_inv_Update [inv_intros]:
  assumes inv: "db_inv db" and u: "repo_Update f i ups db = (res, db')"
  shows "db_inv db'"
proof (cases ups)
  case (TunnelUpdate u)
  define nu where "nu = (db_clock db, u)"
  obtain res' rows where e: "ent_UpdateOneID t_ID (unat i) (apply_update nu) (db_rows db) = (res', rows)" by force
  have "t_ID x < db_next_id db \<and> t_Domain x \<noteq> [] \<and> t_TargetPort x > 0"
    if "\<not> (case u_TargetPort u of Some p \<Rightarrow> p \<le> 0 | None \<Rightarrow> False)" and x: "x \<in> set rows" for x
  proof -
    obtain r where "r \<in> set (db_rows db)" "x = r \<or> x = apply_update nu r"
      using UpdateOneID_rows [OF e x] by auto
    with inv that(1) show ?thesis
      by (auto simp: db_inv_def list_all_iff apply_update_def nu_def split: option.splits)
  qed
  then have "db_inv (db\<lparr>db_rows := rows\<rparr>)"
    if "\<not> (case u_TargetPort u of Some p \<Rightarrow> p \<le> 0 | None \<Rightarrow> False)"
    using that inv by_domain.keyed_update [OF _ e] by_token.keyed_update [OF _ e]
    by (intro db_inv_rows) (auto simp: db_inv_def)
  then show ?thesis
    using u TunnelUpdate e inv by (auto simp: repo_Update_def nu_def split: if_splits)
qed (use assms in \<open>simp add: repo_Update_def\<close>)

lemma db_inv_Delete [inv_intros]:
  assumes "db_inv db" "repo_Delete f i db = (res, db')"
  shows "db_inv db'"
proof (cases "f OpDelete")
  case False
  obtain res' rows where e: "ent_DeleteOneID t_ID (unat i) (db_rows db) = (res', rows)" by force
  have "db_inv (db\<lparr>db_rows := rows\<rparr>)"
    using assms(1) by_domain.keyed_delete [OF _ e] by_token.keyed_delete [OF _ e]
    by (intro db_inv_rows) (auto simp: db_inv_def list_all_iff)
  with False assms e show ?thesis by (simp add: repo_Delete_def)
qed (use assms in \<open>simp add: repo_Delete_def\<close>)

lemma db_inv_UpdateClientIP [inv_intros]:
  assumes "db_inv db" "repo_UpdateClientIP f i ip db = (res, db')"
  shows "db_inv db'"
proof (cases "f OpUpdateClientIP")
  case False
  obtain res' rows where e: "ent_UpdateOneID t_ID (unat i) (set_client_ip (db_clock db, ip)) (db_rows db) = (res', rows)"
    by force
  have "t_ID x < db_next_id db \<and> t_Domain x \<noteq> [] \<and> t_TargetPort x > 0" if "x \<in> set rows" for x
    using UpdateOneID_rows [OF e that] assms(1) by (auto simp: db_inv_def list_all_iff)
  then have "db_inv (db\<lparr>db_rows := rows\<rparr>)"
    using assms(1) ip_domain.keyed_update [OF _ e] ip_token.keyed_update [OF _ e]
    by (intro db_inv_rows) (auto simp: db_inv_def)
  with False assms e show ?thesis by (simp add: repo_UpdateClientIP_def)
qed (use assms in \<open>simp add: repo_UpdateClientIP_def\<close>)

lemma repo_GetByID_Inr: "repo_GetByID f db i = Inr r \<Longrightarrow> r \<in> set (db_rows db) \<and> t_ID r = unat i"
  using ent_Only_Inr [of _ "db_rows db" r] by (fastforce simp: repo_GetByID_def split: if_splits)

lemma repo_GetByUserID_set:
  "repo_GetByUserID f db uid = Inr ts \<Longrightarrow> set ts = {r \<in> set (db_rows db). t_UserID r = uid}"
  by (auto simp: repo_GetByUserID_def split: if_splits)

lemma repo_GetByDomain_Inr:
  "db_inv db \<Longrightarrow> \<not> f OpGetByDomain \<Longrightarrow>
   repo_GetByDomain f db d = Inr r \<longleftrightarrow> r \<in> set (db_rows db) \<and> t_Domain r = d"
  by (simp add: repo_GetByDomain_def db_inv_def keyed_def ent_Only_key)

end
