(* ===== verification/Json.thy ===== *)
theory Json
  imports Go_Base
begin

text \<open>
  JSON documents as Go's \<open>encoding/json\<close> decodes them into \<open>interface{}\<close>, the checked type assertions
  (\<open>x, ok := v.(map[string]interface{})\<close>) as partial functions, and decoding into a Go map, which
  accepts an object or \<open>null\<close>.
\<close>

datatype json = JNull | JBool bool | JNum int | JStr string | JArr "json list" | JObj "(string \<times> json) list"

type_synonym jmap = "(string \<times> json) list"

fun as_map :: "json option \<Rightarrow> jmap option" where
  "as_map (Some (JObj kvs)) = Some kvs"
| "as_map _ = None"

fun as_arr :: "json option \<Rightarrow> json list option" where
  "as_arr (Some (JArr xs)) = Some xs"
| "as_arr _ = None"

text \<open>A look-up in a map that may be nil.\<close>

definition get :: "jmap option \<Rightarrow> string \<Rightarrow> json option" where
  "get m k = Option.bind m (\<lambda>kvs. map_of kvs k)"

fun decode_map :: "json option \<Rightarrow> jmap option" where
  "decode_map (Some (JObj kvs)) = Some kvs"
| "decode_map (Some JNull) = Some []"
| "decode_map _ = None"

end
