(* ===== verification/Caddy.thy ===== *)
theory Caddy
  imports Json
begin

text \<open>
  \<open>internal/service/caddy_service.go\<close>: the reverse proxy is configured through its admin API. The
  API is a parameter: a function from a method, a path, a JSON body and the proxy's state to an
  answer and a new state. An answer is absent (the request failed) or has a status and a body,
  which is JSON or not. An assignment to a key of a nil map and a failed unchecked type assertion
  are panics.
\<close>

section \<open>The admin API\<close>

datatype http_method = GET | POST | DELETE

datatype api_path = ConfigPath | RoutesPath | RoutePath nat | LoadPath

type_synonym answer = "(nat \<times> json option) option"
type_synonym 'c admin = "http_method \<Rightarrow> api_path \<Rightarrow> json option \<Rightarrow> 'c \<Rightarrow> answer \<times> 'c"

datatype caddy_error = RequestFailed | DecodeFailed | UnexpectedStatus nat | CaddyPanic

fun decode_routes :: "json list \<Rightarrow> jmap list option" where
  "decode_routes [] = Some []"
| "decode_routes (j # js) =
     (case decode_map (Some j) of
        None \<Rightarrow> None
      | Some m \<Rightarrow> map_option ((#) m) (decode_routes js))"

fun decode_maps :: "json option \<Rightarrow> jmap list option" where
  "decode_maps (Some (JArr js)) = decode_routes js"
| "decode_maps (Some JNull) = Some []"
| "decode_maps _ = None"

text \<open>A request whose answer is only checked for its status.\<close>

definition send :: "'c admin \<Rightarrow> http_method \<Rightarrow> api_path \<Rightarrow> json option \<Rightarrow> 'c \<Rightarrow> caddy_error option \<times> 'c" where
  "send do meth path body c =
     (case do meth path body c of
        (None, c1) \<Rightarrow> (Some RequestFailed, c1)
      | (Some (status, _), c1) \<Rightarrow> (if status \<noteq> 200 then Some (UnexpectedStatus status) else None, c1))"

section \<open>Operations\<close>

definition ValidateConnection :: "'c admin \<Rightarrow> 'c \<Rightarrow> caddy_error option \<times> 'c" where
  "ValidateConnection do c = send do GET ConfigPath None c"

definition isSubdomain :: "string \<Rightarrow> string \<Rightarrow> bool" where
  "isSubdomain domain base \<longleftrightarrow>
     domain = base \<or>
     (length base < length domain \<and> domain ! (length domain - length base - 1) = CHR ''.'' \<and>
      drop (length domain - length base) domain = base)"

text \<open>The loop over the policies: a policy that is not an object is a panic.\<close>

fun wildcard_found :: "string \<Rightarrow> json list \<Rightarrow> bool option" where
  "wildcard_found wildcard [] = Some False"
| "wildcard_found wildcard (p # ps) =
     (case as_map (Some p) of
        None \<Rightarrow> None
      | Some policy \<Rightarrow>
          (case as_arr (map_of policy ''subjects'') of
             None \<Rightarrow> wildcard_found wildcard ps
           | Some subjects \<Rightarrow>
               if JStr wildcard \<in> set subjects then Some True else wildcard_found wildcard ps))"

definition wildcard_policy :: "string \<Rightarrow> string \<Rightarrow> json" where
  "wildcard_policy cloudflareToken baseDomain =
     (let issuer = [(''module'', JStr ''acme'')] @
            (if cloudflareToken \<noteq> []
             then [(''challenges'', JObj [(''dns'', JObj [(''provider'',
                     JObj [(''name'', JStr ''cloudflare''), (''api_token'', JStr cloudflareToken)])])])]
             else [])
      in JObj [(''subjects'', JArr [JStr (''*.'' @ baseDomain), JStr baseDomain]),
               (''issuers'', JArr [JObj issuer])])"

definition tls_automation :: "jmap \<Rightarrow> jmap option" where
  "tls_automation cfg =
     as_map (get (as_map (get (as_map (map_of cfg ''apps'')) ''tls'')) ''automation'')"

definition put :: "string \<Rightarrow> json \<Rightarrow> jmap \<Rightarrow> jmap" where
  "put k v m = AList.update k v m"

definition map_or_empty :: "jmap \<Rightarrow> string \<Rightarrow> jmap" where
  "map_or_empty m k = (case as_map (map_of m k) of Some x \<Rightarrow> x | None \<Rightarrow> [])"

text \<open>The document with another \<open>apps.tls.automation\<close>, which the Go code changes in place.\<close>

definition put_automation :: "jmap \<Rightarrow> jmap \<Rightarrow> jmap" where
  "put_automation cfg au =
     (let apps = map_or_empty cfg ''apps''; tls = map_or_empty apps ''tls''
      in put ''apps'' (JObj (put ''tls'' (JObj (put ''automation'' (JObj au) tls)) apps)) cfg)"

definition ensureWildcardPolicy ::
    "'c admin \<Rightarrow> string \<Rightarrow> string \<Rightarrow> 'c \<Rightarrow> caddy_error option \<times> 'c" where
  "ensureWildcardPolicy do cloudflareToken baseDomain c =
     (case do GET ConfigPath None c of
        (None, c1) \<Rightarrow> (Some RequestFailed, c1)
      | (Some (_, body), c1) \<Rightarrow>
          (case decode_map body of
             None \<Rightarrow> (Some DecodeFailed, c1)
           | Some cfg \<Rightarrow>
               (let automation = tls_automation cfg;
                    policies = (case as_arr (get automation ''policies'') of Some ps \<Rightarrow> ps | None \<Rightarrow> [])
                in case wildcard_found (''*.'' @ baseDomain) policies of
                     None \<Rightarrow> (Some CaddyPanic, c1)
                   | Some True \<Rightarrow> (None, c1)
                   | Some False \<Rightarrow>
                       (case automation of
                          None \<Rightarrow> (Some CaddyPanic, c1)
                        | Some au \<Rightarrow>
                            send do POST LoadPath
                              (Some (JObj (put_automation cfg
                                 (put ''policies'' (JArr (wildcard_policy cloudflareToken baseDomain # policies)) au))))
                              c1))))"

definition strs :: "string list \<Rightarrow> json" where
  "strs xs = JArr (map JStr xs)"

definition route_config :: "string \<Rightarrow> json" where
  "route_config domain = JObj
    [(''@id'', JStr domain),
     (''handle'', JArr
       [JObj [(''handler'', JStr ''headers''),
              (''response'', JObj
                [(''set'', JObj
                   [(''Strict-Transport-Security'', strs [''max-age=31536000; includeSubDomains; preload'']),
                    (''X-Content-Type-Options'', strs [''nosniff'']),
                    (''X-Frame-Options'', strs [''deny'']),
                    (''X-Xss-Protection'', strs [''1''])]),
                 (''delete'', strs [''Server'', ''X-Powered-By'', ''Content-Security-Policy'',
                    ''Referrer-Policy'', ''Permissions-Policy''])])],
        JObj [(''handler'', JStr ''reverse_proxy''),
              (''upstreams'', JArr [JObj [(''dial'', JStr ''api:8081'')]]),
              (''transport'', JObj
                [(''protocol'', JStr ''http''), (''read_timeout'', JStr ''30m''), (''write_timeout'', JStr ''30m''),
                 (''dial_timeout'', JStr ''10s''), (''response_header_timeout'', JStr ''30m'')]),
              (''headers'', JObj [(''request'', JObj [(''set'', JObj
                [(''Host'', strs [domain]),
                 (''X-Real-IP'', strs [''{http.request.remote.host}'']),
                 (''X-Forwarded-For'', strs [''{http.request.remote.host}'']),
                 (''X-Forwarded-Proto'', strs [''{http.request.scheme}''])])])])]]),
     (''match'', JArr [JObj [(''host'', strs [domain])]]),
     (''terminal'', JBool True)]"

record caddy_config =
  BaseDomain :: string
  CloudflareToken :: string

definition ConfigureRoute ::
    "'c admin \<Rightarrow> caddy_config \<Rightarrow> string \<Rightarrow> string \<Rightarrow> int \<Rightarrow> 'c \<Rightarrow> caddy_error option \<times> 'c" where
  "ConfigureRoute do cfg domain targetIP targetPort c =
     (let (err, c1) = (if isSubdomain domain (BaseDomain cfg)
                       then ensureWildcardPolicy do (CloudflareToken cfg) (BaseDomain cfg) c
                       else (None, c))
      in case err of
           Some e \<Rightarrow> (Some e, c1)
         | None \<Rightarrow> send do POST RoutesPath (Some (route_config domain)) c1)"

definition ensureTLSPolicy :: "'c admin \<Rightarrow> caddy_config \<Rightarrow> string \<Rightarrow> 'c \<Rightarrow> caddy_error option \<times> 'c" where
  "ensureTLSPolicy do cfg domain c =
     (if isSubdomain domain (BaseDomain cfg)
      then ensureWildcardPolicy do (CloudflareToken cfg) (BaseDomain cfg) c
      else (None, c))"

text \<open>The first host of the first matcher of a route.\<close>

definition route_host :: "jmap \<Rightarrow> string option" where
  "route_host route =
     (case as_arr (map_of route ''match'') of
        Some (m # _) \<Rightarrow>
          (case as_arr (get (as_map (Some m)) ''host'') of
             Some (JStr h # _) \<Rightarrow> Some h
           | _ \<Rightarrow> None)
      | _ \<Rightarrow> None)"

fun find_route :: "string \<Rightarrow> jmap list \<Rightarrow> nat \<Rightarrow> nat option" where
  "find_route domain [] i = None"
| "find_route domain (r # rs) i =
     (if route_host r = Some domain then Some i else find_route domain rs (Suc i))"

definition RemoveRoute :: "'c admin \<Rightarrow> string \<Rightarrow> 'c \<Rightarrow> caddy_error option \<times> 'c" where
  "RemoveRoute do domain c =
     (case do GET RoutesPath None c of
        (None, c1) \<Rightarrow> (Some RequestFailed, c1)
      | (Some (_, body), c1) \<Rightarrow>
          (case decode_maps body of
             None \<Rightarrow> (Some DecodeFailed, c1)
           | Some routes \<Rightarrow>
               (case find_route domain routes 0 of
                  None \<Rightarrow> (None, c1)
                | Some i \<Rightarrow> send do DELETE (RoutePath i) None c1)))"

text \<open>The changes of \<open>LoadConfig\<close> to the document.\<close>

definition load_server :: "jmap \<Rightarrow> jmap" where
  "load_server apps =
     (case as_map (map_of apps ''http'') of
        None \<Rightarrow> apps
      | Some h \<Rightarrow>
          (case as_map (map_of h ''servers'') of
             None \<Rightarrow> apps
           | Some servers \<Rightarrow>
               (case as_map (map_of servers ''srv0'') of
                  None \<Rightarrow> apps
                | Some srv0 \<Rightarrow>
                    put ''http'' (JObj (put ''servers'' (JObj (put ''srv0'' (JObj
                      (put ''listen'' (strs ['':80'', '':443''])
                        (put ''automatic_https'' (JObj [(''disable'', JBool False)]) srv0))) servers)) h)) apps)))"

definition load_transform :: "jmap \<Rightarrow> jmap" where
  "load_transform cfg =
     (case as_map (map_of cfg ''apps'') of
        None \<Rightarrow> cfg
      | Some apps \<Rightarrow>
          (let tls = map_or_empty apps ''tls''; automation = map_or_empty tls ''automation'';
               onDemand = put ''ask'' (JStr ''http://api:8080/api/v1/caddy/check-domain'')
                            (map_or_empty automation ''on_demand'');
               apps' = put ''tls'' (JObj (put ''automation'' (JObj (put ''on_demand'' (JObj onDemand) automation)) tls)) apps
           in put ''apps'' (JObj (load_server apps')) cfg))"

definition LoadConfig :: "'c admin \<Rightarrow> 'c \<Rightarrow> caddy_error option \<times> 'c" where
  "LoadConfig do c =
     (case do GET ConfigPath None c of
        (None, c1) \<Rightarrow> (Some RequestFailed, c1)
      | (Some (_, body), c1) \<Rightarrow>
          (case decode_map body of
             None \<Rightarrow> (Some DecodeFailed, c1)
           | Some cfg \<Rightarrow>
               send do POST LoadPath
                 (Some (if body = Some JNull then JNull else JObj (load_transform cfg))) c1))"

definition ConfigureTunnelRoute ::
    "'c admin \<Rightarrow> caddy_config \<Rightarrow> string \<Rightarrow> string \<Rightarrow> int \<Rightarrow> 'c \<Rightarrow> caddy_error option \<times> 'c" where
  "ConfigureTunnelRoute do cfg domain targetIP targetPort c = ConfigureRoute do cfg domain targetIP targetPort c"

definition RemoveTunnelRoute :: "'c admin \<Rightarrow> string \<Rightarrow> 'c \<Rightarrow> caddy_error option \<times> 'c" where
  "RemoveTunnelRoute do domain c = RemoveRoute do domain c"

section \<open>What the code relies on\<close>

text \<open>
  The documented behaviour of the admin API: \<open>GET\<close> changes nothing and, when answered, gives the
  active document or the route list; \<open>/load\<close> answered with 200 makes the body the active document;
  a \<open>POST\<close> to an array appends, a \<open>DELETE\<close> of an index removes this element.
\<close>

definition config_api :: "'c admin \<Rightarrow> ('c \<Rightarrow> json) \<Rightarrow> bool" where
  "config_api do active \<longleftrightarrow>
     (\<forall>c a c'. do GET ConfigPath None c = (a, c') \<longrightarrow> c' = c \<and> (a = None \<or> a = Some (200, Some (active c)))) \<and>
     (\<forall>c b body c'. do POST LoadPath (Some b) c = (Some (200, body), c') \<longrightarrow> active c' = b)"

definition routes_api :: "'c admin \<Rightarrow> ('c \<Rightarrow> json list) \<Rightarrow> bool" where
  "routes_api do routes \<longleftrightarrow>
     (\<forall>c a c'. do GET RoutesPath None c = (a, c') \<longrightarrow> c' = c \<and> (a = None \<or> a = Some (200, Some (JArr (routes c))))) \<and>
     (\<forall>c r body c'. do POST RoutesPath (Some r) c = (Some (200, body), c') \<longrightarrow> routes c' = routes c @ [r]) \<and>
     (\<forall>c i body c'. do DELETE (RoutePath i) None c = (Some (200, body), c') \<longrightarrow>
        routes c' = take i (routes c) @ drop (Suc i) (routes c))"

section \<open>Lemmas\<close>

lemma isSubdomain_iff: "isSubdomain d b \<longleftrightarrow> d = b \<or> (\<exists>l. d = l @ ''.'' @ b)"
proof
  assume "isSubdomain d b"
  then consider "d = b" | "length b < length d" "d ! (length d - length b - 1) = CHR ''.''"
      "drop (length d - length b) d = b"
    by (auto simp: isSubdomain_def)
  then show "d = b \<or> (\<exists>l. d = l @ ''.'' @ b)"
  proof cases
    case 2
    let ?k = "length d - length b - 1"
    have "Suc ?k = length d - length b" using 2(1) by simp
    then have "drop ?k d = CHR ''.'' # b"
      using 2 Cons_nth_drop_Suc [of ?k d] by simp
    then have "d = take ?k d @ ''.'' @ b" by (metis append_Cons append_Nil append_take_drop_id)
    then show ?thesis by blast
  qed simp
next
  assume "d = b \<or> (\<exists>l. d = l @ ''.'' @ b)"
  then show "isSubdomain d b" by (auto simp: isSubdomain_def nth_append)
qed

lemma map_of_put [simp]: "map_of (put k v m) = (map_of m)(k \<mapsto> v)"
  by (simp add: put_def map_of_update)

lemma tls_automation_put [simp]: "tls_automation (put_automation cfg au) = Some au"
  by (simp add: tls_automation_def put_automation_def Let_def get_def)

lemma send_None:
  "send do meth path body c = (None, c1) \<longleftrightarrow> (\<exists>b. do meth path body c = (Some (200, b), c1))"
  by (auto simp: send_def split: prod.splits option.splits)

lemma route_host_config [simp]: "decode_map (Some (route_config d)) = Some m \<Longrightarrow> route_host m = Some d"
  by (auto simp: route_config_def route_host_def get_def strs_def)

lemma decode_routes_append:
  "decode_routes (xs @ ys) =
     (case decode_routes xs of None \<Rightarrow> None | Some ms \<Rightarrow> map_option ((@) ms) (decode_routes ys))"
  by (induction xs; cases "decode_routes ys") (auto split: option.splits)

lemma find_route_append:
  "find_route d (xs @ ys) i =
     (case find_route d xs i of Some k \<Rightarrow> Some k | None \<Rightarrow> find_route d ys (i + length xs))"
  by (induction xs arbitrary: i) (auto split: option.splits)

lemma find_route_Some:
  "find_route d rs i = Some k \<Longrightarrow> i \<le> k \<and> k < i + length rs \<and> route_host (rs ! (k - i)) = Some d"
  by (induction rs arbitrary: i) (fastforce split: if_splits simp: Suc_diff_le nth_Cons' le_Suc_eq)+

lemma decode_routes_length: "decode_routes xs = Some ms \<Longrightarrow> length ms = length xs"
  by (induction xs arbitrary: ms) (auto split: option.splits)

text \<open>Whether the route list, read the way \<open>RemoveRoute\<close> reads it, has a route of a domain.\<close>

definition has_route :: "string \<Rightarrow> json list \<Rightarrow> bool" where
  "has_route d rs \<longleftrightarrow> (\<exists>ms. decode_routes rs = Some ms \<and> find_route d ms 0 \<noteq> None)"

lemma ConfigureRoute_custom:
  assumes "routes_api do routes" "\<not> isSubdomain d (BaseDomain cfg)"
    and "ConfigureRoute do cfg d ip port c = (None, c1)"
  shows "routes c1 = routes c @ [route_config d]"
  using assms by (auto simp: ConfigureRoute_def send_None routes_api_def)

lemma decode_route_config: "decode_map (Some (route_config d)) \<noteq> None"
  by (simp add: route_config_def)

lemma find_route_config:
  assumes "decode_routes rs = Some ms" "find_route d ms 0 = None"
  shows "\<exists>m. decode_routes (rs @ [route_config d]) = Some (ms @ [m]) \<and> find_route d (ms @ [m]) 0 = Some (length rs)"
proof -
  obtain m where m: "decode_map (Some (route_config d)) = Some m" using decode_route_config by blast
  then have "decode_routes (rs @ [route_config d]) = Some (ms @ [m])"
    using assms(1) by (simp add: decode_routes_append)
  moreover have "find_route d (ms @ [m]) 0 = Some (length rs)"
    using assms m route_host_config [OF m] decode_routes_length [OF assms(1)] by (simp add: find_route_append)
  ultimately show ?thesis by blast
qed

lemma RemoveRoute_None:
  assumes "routes_api do routes" "decode_routes (routes c) = Some ms" "RemoveRoute do d c = (None, c1)"
  shows "routes c1 = (case find_route d ms 0 of None \<Rightarrow> routes c
           | Some i \<Rightarrow> take i (routes c) @ drop (Suc i) (routes c))"
proof -
  obtain a c' where g: "do GET RoutesPath None c = (a, c')" by force
  then have ca: "c' = c" "a = None \<or> a = Some (200, Some (JArr (routes c)))"
    using assms(1) unfolding routes_api_def by blast+
  with assms(3) g have a: "a = Some (200, Some (JArr (routes c)))" by (auto simp: RemoveRoute_def)
  show ?thesis
  proof (cases "find_route d ms 0")
    case None
    with assms(2,3) g a ca show ?thesis by (simp add: RemoveRoute_def)
  next
    case (Some i)
    then have "send do DELETE (RoutePath i) None c = (None, c1)"
      using assms(2,3) g a ca by (simp add: RemoveRoute_def)
    with assms(1) Some show ?thesis by (auto simp: send_None routes_api_def)
  qed
qed

text \<open>
  For a custom domain, \<open>RemoveRoute\<close> undoes \<open>ConfigureRoute\<close>: if the proxy had no route of the
  domain, then configuring appends its route and removing restores the route list exactly.
\<close>

theorem configure_remove_inverse:
  assumes "routes_api do routes" "\<not> isSubdomain d (BaseDomain cfg)"
    and "decode_routes (routes c) = Some ms" "find_route d ms 0 = None"
    and "ConfigureRoute do cfg d ip port c = (None, c1)"
    and "RemoveRoute do d c1 = (None, c2)"
  shows "has_route d (routes c1) \<and> routes c2 = routes c"
proof -
  have r1: "routes c1 = routes c @ [route_config d]"
    by (rule ConfigureRoute_custom [OF assms(1,2,5)])
  obtain m where m: "decode_routes (routes c1) = Some (ms @ [m])" "find_route d (ms @ [m]) 0 = Some (length (routes c))"
    using find_route_config [OF assms(3,4)] r1 by auto
  have "routes c2 = routes c"
    using RemoveRoute_None [OF assms(1) m(1) assms(6)] m(2) r1 by simp
  then show ?thesis using m by (auto simp: has_route_def)
qed

text \<open>
  \<open>ConfigureRoute\<close> does not update: after two successful calls for the same custom domain a
  successful \<open>RemoveRoute\<close> leaves a route of the domain behind.
\<close>

theorem reconfigured_route_survives_remove:
  assumes "routes_api do routes" "\<not> isSubdomain d (BaseDomain cfg)"
    and "decode_routes (routes c) = Some ms" "find_route d ms 0 = None"
    and "ConfigureRoute do cfg d ip port c = (None, c1)"
    and "ConfigureRoute do cfg d ip' port' c1 = (None, c2)"
    and "RemoveRoute do d c2 = (None, c3)"
  shows "has_route d (routes c3)"
proof -
  have r1: "routes c1 = routes c @ [route_config d]" by (rule ConfigureRoute_custom [OF assms(1,2,5)])
  have r2: "routes c2 = (routes c @ [route_config d]) @ [route_config d]"
    using ConfigureRoute_custom [OF assms(1,2,6)] r1 by simp
  obtain m where m: "decode_routes (routes c @ [route_config d]) = Some (ms @ [m])"
    "find_route d (ms @ [m]) 0 = Some (length (routes c))"
    using find_route_config [OF assms(3,4)] by auto
  obtain m' where m': "decode_map (Some (route_config d)) = Some m'" using decode_route_config by blast
  have "decode_routes (routes c2) = Some (ms @ [m] @ [m'])"
    using m(1) m' unfolding r2 by (subst decode_routes_append) simp
  moreover have "find_route d (ms @ [m] @ [m']) 0 = Some (length (routes c))"
    using m(2) find_route_append [of d "ms @ [m]" "[m']" 0] by simp
  ultimately have "routes c3 = routes c @ [route_config d]"
    using RemoveRoute_None [OF assms(1) _ assms(7)] r2 by simp
  then show ?thesis using m by (auto simp: has_route_def)
qed

section \<open>The wildcard policy\<close>

definition policies_of :: "json \<Rightarrow> json list" where
  "policies_of doc =
     (case decode_map (Some doc) of
        None \<Rightarrow> []
      | Some cfg \<Rightarrow> (case as_arr (get (tls_automation cfg) ''policies'') of Some ps \<Rightarrow> ps | None \<Rightarrow> []))"

lemma as_arr_policies:
  "as_arr (get (Some (put ''policies'' (JArr ps) au)) ''policies'') = Some ps"
  by (simp add: get_def)

lemma wildcard_found_policy: "wildcard_found (''*.'' @ b) (wildcard_policy tok b # ps) = Some True"
  by (simp add: wildcard_policy_def Let_def)

lemma config_api_get:
  assumes "config_api do active"
  obtains "do GET ConfigPath None c = (None, c)" | "do GET ConfigPath None c = (Some (200, Some (active c)), c)"
proof -
  obtain a c' where g: "do GET ConfigPath None c = (a, c')" by force
  with assms have "c' = c" "a = None \<or> a = Some (200, Some (active c))" unfolding config_api_def by blast+
  with g that show thesis by auto
qed

lemma ensure_post:
  assumes api: "config_api do active" and e: "ensureWildcardPolicy do tok b c = (None, c1)"
  shows "wildcard_found (''*.'' @ b) (policies_of (active c1)) = Some True \<and>
    (c1 = c \<or> policies_of (active c1) = wildcard_policy tok b # policies_of (active c))"
proof (cases rule: config_api_get [OF api, of c])
  case 1
  with e show ?thesis by (simp add: ensureWildcardPolicy_def)
next
  case 2
  then obtain cfg where cfg: "decode_map (Some (active c)) = Some cfg"
    using e by (cases "decode_map (Some (active c))") (auto simp: ensureWildcardPolicy_def)
  define ps where "ps = policies_of (active c)"
  have ps: "(case as_arr (get (tls_automation cfg) ''policies'') of Some ps \<Rightarrow> ps | None \<Rightarrow> []) = ps"
    using cfg by (simp add: ps_def policies_of_def)
  note e' = e [unfolded ensureWildcardPolicy_def, unfolded 2 prod.case option.case cfg Let_def ps]
  consider (found) "wildcard_found (''*.'' @ b) ps = Some True" "c1 = c"
    | (new) au where "wildcard_found (''*.'' @ b) ps = Some False" "tls_automation cfg = Some au"
        "send do POST LoadPath (Some (JObj (put_automation cfg
           (put ''policies'' (JArr (wildcard_policy tok b # ps)) au)))) c = (None, c1)"
    using e' by (auto split: option.splits bool.splits)
  then show ?thesis
  proof cases
    case found
    then show ?thesis by (simp add: ps_def)
  next
    case new
    then have "active c1 = JObj (put_automation cfg (put ''policies'' (JArr (wildcard_policy tok b # ps)) au))"
      using api by (auto simp: send_None config_api_def)
    then have "policies_of (active c1) = wildcard_policy tok b # ps"
      using as_arr_policies [of "wildcard_policy tok b # ps" au] by (simp add: policies_of_def)
    then show ?thesis using wildcard_found_policy by (simp add: ps_def)
  qed
qed

text \<open>
  \<open>ensureWildcardPolicy\<close> is idempotent: after a successful call the active document has a policy
  with the wildcard subject, every policy that was there is kept, and a second successful call
  changes nothing.
\<close>

theorem wildcard_policy_idempotent:
  assumes "config_api do active"
    and "ensureWildcardPolicy do tok b c = (None, c1)" "ensureWildcardPolicy do tok b c1 = (None, c2)"
  shows "wildcard_found (''*.'' @ b) (policies_of (active c1)) = Some True \<and>
    set (policies_of (active c)) \<subseteq> set (policies_of (active c1)) \<and> c2 = c1"
proof -
  note p = ensure_post [OF assms(1,2)]
  have "c2 = c1"
  proof (cases rule: config_api_get [OF assms(1), of c1])
    case 1
    with assms(3) show ?thesis by (simp add: ensureWildcardPolicy_def)
  next
    case 2
    with assms(3) p show ?thesis
      by (auto simp: ensureWildcardPolicy_def policies_of_def Let_def split: option.splits)
  qed
  with p show ?thesis by auto
qed

text \<open>
  Once \<open>LoadConfig\<close> has been loaded on a document with an \<open>apps\<close> object, \<open>apps.tls.automation\<close>
  exists with the on-demand end point and the TLS policies of before, so that \<open>ensureWildcardPolicy\<close>
  cannot panic on a nil map: it panics only on a policy that is not an object.
\<close>

theorem load_config_prevents_nil_map_panic:
  assumes "config_api do active" "active c = JObj cfg" "as_map (map_of cfg ''apps'') = Some apps"
    and "LoadConfig do c = (None, c1)" "list_all (\<lambda>p. as_map (Some p) \<noteq> None) (policies_of (active c))"
  shows "policies_of (active c1) = policies_of (active c) \<and> fst (ensureWildcardPolicy do tok b c1) \<noteq> Some CaddyPanic"
proof -
  have get1: "do GET ConfigPath None c = (Some (200, Some (active c)), c)"
    using assms(4) by (cases rule: config_api_get [OF assms(1), of c]) (auto simp: LoadConfig_def)
  then have "send do POST LoadPath (Some (JObj (load_transform cfg))) c = (None, c1)"
    using assms(2,4) by (simp add: LoadConfig_def)
  then have a1: "active c1 = JObj (load_transform cfg)"
    using assms(1) by (auto simp: send_None config_api_def)
  have apps1: "map_of (load_server x) ''tls'' = map_of x ''tls''" for x
    by (auto simp: load_server_def split: option.split)
  define au0 where "au0 = map_or_empty (map_or_empty apps ''tls'') ''automation''"
  obtain od where au: "tls_automation (load_transform cfg) = Some (put ''on_demand'' od au0)"
    using assms(3) by (simp add: load_transform_def Let_def tls_automation_def get_def apps1 au0_def)
  have "as_arr (get (tls_automation cfg) ''policies'') = as_arr (map_of au0 ''policies'')"
    using assms(3) by (auto simp: tls_automation_def get_def au0_def map_or_empty_def split: option.split)
  then have pol: "policies_of (active c1) = policies_of (active c)"
    using a1 au assms(2) by (simp add: policies_of_def get_def)
  have wf: "wildcard_found w ps \<noteq> None" if "list_all (\<lambda>p. as_map (Some p) \<noteq> None) ps" for w ps
    using that by (induction ps) (auto split: option.split)
  have snd: "fst (send do POST LoadPath x y) \<noteq> Some CaddyPanic" for x y
    by (auto simp: send_def split: prod.split option.split)
  have "fst (ensureWildcardPolicy do tok b c1) \<noteq> Some CaddyPanic"
  proof (cases rule: config_api_get [OF assms(1), of c1])
    case 1
    then show ?thesis by (simp add: ensureWildcardPolicy_def)
  next
    case 2
    with a1 au wf [OF assms(5), of "''*.'' @ b"] snd pol show ?thesis
      by (auto simp: ensureWildcardPolicy_def policies_of_def Let_def split: option.splits bool.splits)
  qed
  with pol show ?thesis by simp
qed

section \<open>Witnesses\<close>

text \<open>A proxy that keeps its document and its routes in memory.\<close>

fun mem_caddy :: "(json \<times> json list) admin" where
  "mem_caddy GET ConfigPath None (doc, rs) = (Some (200, Some doc), (doc, rs))"
| "mem_caddy POST LoadPath (Some b) (doc, rs) = (Some (200, None), (b, rs))"
| "mem_caddy GET RoutesPath None (doc, rs) = (Some (200, Some (JArr rs)), (doc, rs))"
| "mem_caddy POST RoutesPath (Some r) (doc, rs) = (Some (200, None), (doc, rs @ [r]))"
| "mem_caddy DELETE (RoutePath i) None (doc, rs) = (Some (200, None), (doc, take i rs @ drop (Suc i) rs))"
| "mem_caddy _ _ _ s = (Some (400, None), s)"

lemma mem_caddy_api: "config_api mem_caddy fst" "routes_api mem_caddy snd"
  by (auto simp: config_api_def routes_api_def)

definition demo_cfg :: caddy_config where
  "demo_cfg = \<lparr>BaseDomain = ''g.io'', CloudflareToken = []\<rparr>"

definition demo_doc :: json where
  "demo_doc = JObj [(''apps'', JObj [])]"

theorem configure_remove_inverse_witness:
  "has_route ''my.org'' (snd (snd (ConfigureRoute mem_caddy demo_cfg ''my.org'' ''10.0.0.1'' 80 (demo_doc, [])))) \<and>
   snd (snd (RemoveRoute mem_caddy ''my.org''
     (snd (ConfigureRoute mem_caddy demo_cfg ''my.org'' ''10.0.0.1'' 80 (demo_doc, []))))) = []"
proof -
  have s: "\<not> isSubdomain ''my.org'' (BaseDomain demo_cfg)" by (simp add: demo_cfg_def isSubdomain_def)
  have c: "ConfigureRoute mem_caddy demo_cfg ''my.org'' ''10.0.0.1'' 80 (demo_doc, [])
      = (None, (demo_doc, [route_config ''my.org'']))"
    using s by (simp add: ConfigureRoute_def send_def)
  have "find_route ''my.org'' [m] 0 = Some 0" if "decode_map (Some (route_config ''my.org'')) = Some m" for m
    using route_host_config [OF that] by simp
  then have r: "RemoveRoute mem_caddy ''my.org'' (demo_doc, [route_config ''my.org'']) = (None, (demo_doc, []))"
    using decode_route_config [of "''my.org''"] by (auto simp: RemoveRoute_def send_def split: option.split)
  show ?thesis
    using configure_remove_inverse [OF mem_caddy_api(2) s _ _ c r] c r by simp
qed

theorem reconfigured_route_survives_remove_witness:
  "let c1 = snd (ConfigureRoute mem_caddy demo_cfg ''my.org'' ''10.0.0.1'' 80 (demo_doc, []));
       c2 = snd (ConfigureRoute mem_caddy demo_cfg ''my.org'' ''10.0.0.1'' 80 c1)
   in has_route ''my.org'' (snd (snd (RemoveRoute mem_caddy ''my.org'' c2)))"
proof -
  have s: "\<not> isSubdomain ''my.org'' (BaseDomain demo_cfg)" by (simp add: demo_cfg_def isSubdomain_def)
  have c: "ConfigureRoute mem_caddy demo_cfg ''my.org'' ''10.0.0.1'' 80 (demo_doc, rs)
      = (None, (demo_doc, rs @ [route_config ''my.org'']))" for rs
    using s by (simp add: ConfigureRoute_def send_def)
  have "find_route ''my.org'' [m, m] 0 = Some 0" if "decode_map (Some (route_config ''my.org'')) = Some m" for m
    using route_host_config [OF that] by simp
  then have r: "RemoveRoute mem_caddy ''my.org'' (demo_doc, ([] @ [route_config ''my.org'']) @ [route_config ''my.org''])
      = (None, (demo_doc, [route_config ''my.org'']))"
    using decode_route_config [of "''my.org''"] by (auto simp: RemoveRoute_def send_def split: option.split)
  show ?thesis
    using reconfigured_route_survives_remove [OF mem_caddy_api(2) s _ _ c c r] c r by simp
qed

theorem wildcard_policy_idempotent_witness:
  "let c0 = (JObj [(''apps'', JObj [(''tls'', JObj [(''automation'', JObj [])])])], []);
       c1 = snd (ensureWildcardPolicy mem_caddy ''tok'' ''g.io'' c0)
   in wildcard_found ''*.g.io'' (policies_of (fst c1)) = Some True \<and>
      snd (ensureWildcardPolicy mem_caddy ''tok'' ''g.io'' c1) = c1"
proof -
  let ?c0 = "(JObj [(''apps'', JObj [(''tls'', JObj [(''automation'', JObj [])])])], [])"
  obtain c1 where c1: "ensureWildcardPolicy mem_caddy ''tok'' ''g.io'' ?c0 = (None, c1)"
    by (simp add: ensureWildcardPolicy_def tls_automation_def get_def send_def)
  have "wildcard_found ''*.g.io'' (policies_of (fst c1)) = Some True"
    using ensure_post [OF mem_caddy_api(1) c1] by simp
  then have c2: "ensureWildcardPolicy mem_caddy ''tok'' ''g.io'' c1 = (None, c1)"
    by (cases c1; auto simp: ensureWildcardPolicy_def policies_of_def split: option.splits)
  show ?thesis using wildcard_policy_idempotent [OF mem_caddy_api(1) c1 c2] c1 c2 by simp
qed

theorem load_config_prevents_nil_map_panic_witness:
  "fst (ensureWildcardPolicy mem_caddy ''tok'' ''g.io'' (snd (LoadConfig mem_caddy (demo_doc, [])))) \<noteq> Some CaddyPanic"
proof -
  obtain c1 where "LoadConfig mem_caddy (demo_doc, []) = (None, c1)"
    by (simp add: LoadConfig_def demo_doc_def send_def)
  moreover have "policies_of (fst (demo_doc, [])) = []"
    by (simp add: policies_of_def demo_doc_def tls_automation_def get_def)
  ultimately show ?thesis
    using load_config_prevents_nil_map_panic [OF mem_caddy_api(1), of "(demo_doc, [])" "[(''apps'', JObj [])]" "[]" c1]
    by (simp add: demo_doc_def)
qed

end
