(* ===== verification/Regex.thy ===== *)
theory Regex
  imports Go_Base
begin

text \<open>
  Regular expressions for the validators of \<open>internal/utils/validation.go\<close> and
  \<open>internal/api/validation/validator.go\<close>. A pattern anchored with \<open>^\<close> and \<open>$\<close> matches a whole string
  (Go's \<open>$\<close> without the multi-line flag is the end of the text). Matching is executable, by
  derivatives, and agrees with the language of the expression.
\<close>

datatype re = Zero | One | Cls "char \<Rightarrow> bool" | Seq re re | Alt re re | Star re

section \<open>Language and matcher\<close>

inductive_set star :: "string set \<Rightarrow> string set" for L where
  star_Nil: "[] \<in> star L"
| star_append: "u \<in> L \<Longrightarrow> v \<in> star L \<Longrightarrow> u @ v \<in> star L"

fun lang :: "re \<Rightarrow> string set" where
  "lang Zero = {}"
| "lang One = {[]}"
| "lang (Cls P) = {[c] | c. P c}"
| "lang (Seq r s) = {u @ v | u v. u \<in> lang r \<and> v \<in> lang s}"
| "lang (Alt r s) = lang r \<union> lang s"
| "lang (Star r) = star (lang r)"

fun nullable :: "re \<Rightarrow> bool" where
  "nullable Zero = False"
| "nullable One = True"
| "nullable (Cls P) = False"
| "nullable (Seq r s) = (nullable r \<and> nullable s)"
| "nullable (Alt r s) = (nullable r \<or> nullable s)"
| "nullable (Star r) = True"

fun deriv :: "char \<Rightarrow> re \<Rightarrow> re" where
  "deriv c Zero = Zero"
| "deriv c One = Zero"
| "deriv c (Cls P) = (if P c then One else Zero)"
| "deriv c (Seq r s) =
     (if nullable r then Alt (Seq (deriv c r) s) (deriv c s) else Seq (deriv c r) s)"
| "deriv c (Alt r s) = Alt (deriv c r) (deriv c s)"
| "deriv c (Star r) = Seq (deriv c r) (Star r)"

definition MatchString :: "re \<Rightarrow> string \<Rightarrow> bool" where
  "MatchString r s = nullable (fold deriv s r)"

lemma nullable_lang: "nullable r \<longleftrightarrow> [] \<in> lang r"
  by (induction r) (auto intro: star_Nil)

lemma star_ConsE:
  assumes "c # s \<in> star L"
  shows "\<exists>u v. s = u @ v \<and> c # u \<in> L \<and> v \<in> star L"
proof -
  have "w \<in> star L \<Longrightarrow> w = c # s \<Longrightarrow> \<exists>u v. s = u @ v \<and> c # u \<in> L \<and> v \<in> star L" for w
  proof (induction rule: star.induct)
    case (star_append u v)
    show ?case
    proof (cases u)
      case Nil
      with star_append show ?thesis by auto
    next
      case (Cons d u')
      with star_append.prems have "d = c" "s = u' @ v" by auto
      with star_append.hyps Cons show ?thesis by blast
    qed
  qed simp
  with assms show ?thesis by blast
qed

lemma deriv_lang: "s \<in> lang (deriv c r) \<longleftrightarrow> c # s \<in> lang r"
proof (induction r arbitrary: s)
  case (Seq r1 r2)
  have "c # s \<in> lang (Seq r1 r2) \<longleftrightarrow>
      (\<exists>u v. s = u @ v \<and> c # u \<in> lang r1 \<and> v \<in> lang r2) \<or> ([] \<in> lang r1 \<and> c # s \<in> lang r2)"
    by (auto simp: Cons_eq_append_conv)
  then show ?case by (auto simp: Seq.IH nullable_lang)
next
  case (Star r)
  have "c # s \<in> star (lang r) \<longleftrightarrow> (\<exists>u v. s = u @ v \<and> c # u \<in> lang r \<and> v \<in> star (lang r))"
    using star_ConsE [of c s "lang r"] star_append [of "c # u" "lang r" for u] by fastforce
  then show ?case by (auto simp: Star.IH)
qed auto

lemma MatchString_lang: "MatchString r s \<longleftrightarrow> s \<in> lang r"
  unfolding MatchString_def by (induction s arbitrary: r) (simp_all add: nullable_lang deriv_lang)

section \<open>Bounded repetition\<close>

definition Plus :: "re \<Rightarrow> re" where
  "Plus r = Seq r (Star r)"

fun upto_re :: "nat \<Rightarrow> re \<Rightarrow> re" where
  "upto_re 0 r = One"
| "upto_re (Suc n) r = Alt One (Seq r (upto_re n r))"

fun rep :: "nat \<Rightarrow> re \<Rightarrow> re" where
  "rep 0 r = One"
| "rep (Suc n) r = Seq r (rep n r)"

definition between :: "nat \<Rightarrow> nat \<Rightarrow> re \<Rightarrow> re" where
  "between m n r = Seq (rep m r) (upto_re (n - m) r)"

lemma lang_Seq_Cls: "s \<in> lang (Seq (Cls P) r) \<longleftrightarrow> (\<exists>c v. s = c # v \<and> P c \<and> v \<in> lang r)"
proof
  assume "\<exists>c v. s = c # v \<and> P c \<and> v \<in> lang r"
  then obtain c v where "s = [c] @ v" "[c] \<in> lang (Cls P)" "v \<in> lang r" by auto
  then show "s \<in> lang (Seq (Cls P) r)" unfolding lang.simps by blast
qed auto

lemma lang_rep_Cls: "s \<in> lang (rep n (Cls P)) \<longleftrightarrow> length s = n \<and> list_all P s"
proof (induction n arbitrary: s)
  case (Suc n)
  show ?case unfolding rep.simps lang_Seq_Cls by (cases s) (auto simp: Suc)
qed auto

lemma lang_upto_Cls: "s \<in> lang (upto_re n (Cls P)) \<longleftrightarrow> length s \<le> n \<and> list_all P s"
proof (induction n arbitrary: s)
  case (Suc n)
  have "s \<in> lang (upto_re (Suc n) (Cls P)) \<longleftrightarrow> s = [] \<or> s \<in> lang (Seq (Cls P) (upto_re n (Cls P)))"
    by simp
  then show ?case unfolding lang_Seq_Cls by (cases s) (auto simp: Suc)
qed auto

lemma lang_star_Cls: "star {[c] | c. P c} = {s. list_all P s}"
proof (rule set_eqI)
  fix s
  show "s \<in> star {[c] | c. P c} \<longleftrightarrow> s \<in> {s. list_all P s}"
  proof
    assume "s \<in> star {[c] | c. P c}"
    then show "s \<in> {s. list_all P s}" by induction auto
  next
    assume "s \<in> {s. list_all P s}"
    then show "s \<in> star {[c] | c. P c}"
    proof (induction s)
      case (Cons c s)
      then show ?case using star_append [of "[c]" "{[c] | c. P c}" s] by auto
    qed (simp add: star_Nil)
  qed
qed

lemma lang_star_concat: "s \<in> star L \<longleftrightarrow> (\<exists>us. set us \<subseteq> L \<and> s = concat us)"
proof
  assume "s \<in> star L"
  then show "\<exists>us. set us \<subseteq> L \<and> s = concat us"
  proof induction
    case (star_append u v)
    then obtain us where "set us \<subseteq> L" "v = concat us" by blast
    with star_append show ?case by (intro exI [of _ "u # us"]) simp
  qed (simp add: exI [of _ "[]"])
next
  assume "\<exists>us. set us \<subseteq> L \<and> s = concat us"
  then obtain us where "set us \<subseteq> L" "s = concat us" by blast
  then show "s \<in> star L"
    by (induction us arbitrary: s) (auto intro: star_Nil star_append)
qed

lemma lang_Plus_concat: "s \<in> lang (Plus r) \<longleftrightarrow> (\<exists>us. us \<noteq> [] \<and> set us \<subseteq> lang r \<and> s = concat us)"
proof
  assume "s \<in> lang (Plus r)"
  then obtain u v where "s = u @ v" "u \<in> lang r" "v \<in> star (lang r)" by (auto simp: Plus_def)
  moreover then obtain us where "set us \<subseteq> lang r" "v = concat us" by (auto simp: lang_star_concat)
  ultimately show "\<exists>us. us \<noteq> [] \<and> set us \<subseteq> lang r \<and> s = concat us"
    by (intro exI [of _ "u # us"]) simp
next
  assume "\<exists>us. us \<noteq> [] \<and> set us \<subseteq> lang r \<and> s = concat us"
  then obtain u us where "set (u # us) \<subseteq> lang r" "s = concat (u # us)" by (metis neq_Nil_conv)
  then show "s \<in> lang (Plus r)" by (auto simp: Plus_def lang_star_concat)
qed

end
