(* ===== verification/Subdomain.thy ===== *)
theory Subdomain
  imports Go_Base
begin

text \<open>
  \<open>internal/utils/subdomain.go\<close>: the deterministic subdomain of a user, the base domain, and the
  recognition of generated domains. The process environment is a function from names to values
  (\<open>os.Getenv\<close> yields the empty string for a name that is not set). HMAC-SHA256 is a parameter: the
  code only needs that a sum has 32 bytes, so that the slices it takes are within bounds.
\<close>

type_synonym environ = "string \<Rightarrow> string"
type_synonym hmac_fun = "string \<Rightarrow> byte list \<Rightarrow> byte list"

section \<open>The word lists\<close>

definition adjectives :: "string list" where
  "adjectives = [
   ''happy'', ''clever'', ''swift'', ''bright'', ''calm'', ''eager'', ''gentle'', ''kind'', ''lively'', ''merry'',
   ''nice'', ''proud'', ''quiet'', ''brave'', ''witty'', ''zesty'', ''cool'', ''smart'', ''wise'', ''bold'',
   ''cosmic'', ''digital'', ''dynamic'', ''elegant'', ''fantastic'', ''global'', ''infinite'', ''jolly'', ''legendary'', ''magic'',
   ''mighty'', ''noble'', ''optimal'', ''perfect'', ''quantum'', ''radiant'', ''stellar'', ''ultra'', ''vibrant'', ''wonder'',
   ''agile'', ''astral'', ''blissful'', ''brilliant'', ''cheerful'', ''daring'', ''epic'', ''fearless'', ''graceful'', ''heroic'',
   ''ideal'', ''joyful'', ''keen'', ''lucky'', ''majestic'', ''natural'', ''optimistic'', ''peaceful'', ''royal'', ''serene'',
   ''super'', ''true'', ''unique'', ''valiant'', ''warm'', ''active'', ''amber'', ''azure'', ''bronze'', ''crystal'',
   ''diamond'', ''electric'', ''fire'', ''golden'', ''iron'', ''jade'', ''lunar'', ''mystic'', ''neon'', ''onyx'',
   ''pearl'', ''quartz'', ''ruby'', ''silver'', ''turbo'', ''vivid'', ''wild'', ''zen'', ''alpha'', ''beta'',
   ''delta'', ''epic'', ''free'', ''grand'', ''hyper'', ''ideal'', ''just'', ''keen'', ''level'', ''mega'',
   ''nova'', ''omega'', ''prime'', ''quick'', ''rapid'', ''solid'', ''tidal'', ''vital'', ''wave'', ''xenon'',
   ''zippy'', ''able'', ''best'', ''chic'', ''dear'', ''easy'', ''fair'', ''glad'', ''holy'', ''pure'',
   ''rare'', ''safe'', ''true'', ''vast'', ''wise'', ''young'', ''zeal'', ''ace'', ''big'', ''fit'',
   ''fun'', ''new'', ''top'', ''fab'', ''fly'', ''hip'', ''hot'', ''icy'', ''key'', ''mad'',
   ''max'', ''pro'', ''rad'', ''sky'', ''sun'', ''red'', ''blue'', ''green'', ''pink'', ''aqua'',
   ''amber'', ''coral'', ''cyber'', ''frost'', ''glow'', ''light'', ''mint'', ''ocean'', ''pixel'', ''storm'',
   ''thunder'', ''velvet'', ''winter'', ''summer'', ''spring'', ''autumn'', ''forest'', ''mountain'', ''river'', ''cloud'',
   ''star'', ''moon'', ''comet'', ''nebula'', ''galaxy'', ''planet'', ''solar'', ''lunar'', ''cosmic'', ''space'',
   ''rocket'', ''laser'', ''turbo'', ''nitro'', ''boost'', ''flash'', ''blaze'', ''spark'', ''sonic'', ''atomic'',
   ''charged'', ''powered'', ''strong'', ''fierce'', ''intense'', ''extreme'', ''ultimate'', ''supreme'', ''prime'', ''elite'']"

definition nouns :: "string list" where
  "nouns = [
   ''giraffe'', ''cloud'', ''river'', ''mountain'', ''ocean'', ''forest'', ''desert'', ''valley'', ''lake'', ''island'',
   ''peak'', ''canyon'', ''beach'', ''meadow'', ''garden'', ''bridge'', ''tower'', ''castle'', ''harbor'', ''lighthouse'',
   ''compass'', ''anchor'', ''phoenix'', ''dragon'', ''eagle'', ''falcon'', ''hawk'', ''lion'', ''tiger'', ''bear'',
   ''wolf'', ''fox'', ''deer'', ''rabbit'', ''panda'', ''koala'', ''dolphin'', ''whale'', ''shark'', ''octopus'',
   ''star'', ''moon'', ''sun'', ''comet'', ''meteor'', ''planet'', ''galaxy'', ''nebula'', ''cosmos'', ''orbit'',
   ''rocket'', ''shuttle'', ''satellite'', ''station'', ''probe'', ''explorer'', ''voyager'', ''pioneer'', ''venture'', ''odyssey'',
   ''thunder'', ''lightning'', ''storm'', ''breeze'', ''wind'', ''rain'', ''snow'', ''frost'', ''ice'', ''fire'',
   ''flame'', ''spark'', ''blaze'', ''ember'', ''ash'', ''smoke'', ''vapor'', ''mist'', ''fog'', ''dew'',
   ''crystal'', ''diamond'', ''ruby'', ''pearl'', ''jade'', ''onyx'', ''quartz'', ''amber'', ''opal'', ''topaz'',
   ''emerald'', ''sapphire'', ''garnet'', ''turquoise'', ''coral'', ''marble'', ''granite'', ''bronze'', ''silver'', ''gold'',
   ''wave'', ''tide'', ''current'', ''stream'', ''creek'', ''rapids'', ''waterfall'', ''cascade'', ''spring'', ''fountain'',
   ''echo'', ''whisper'', ''song'', ''melody'', ''harmony'', ''rhythm'', ''beat'', ''pulse'', ''vibe'', ''flow'',
   ''dream'', ''vision'', ''hope'', ''wish'', ''quest'', ''journey'', ''path'', ''trail'', ''road'', ''route'',
   ''gate'', ''door'', ''portal'', ''arch'', ''vault'', ''chamber'', ''hall'', ''temple'', ''shrine'', ''sanctuary'',
   ''citadel'', ''fortress'', ''bastion'', ''keep'', ''spire'', ''dome'', ''pillar'', ''column'', ''obelisk'', ''monument'',
   ''horizon'', ''dawn'', ''dusk'', ''twilight'', ''aurora'', ''zenith'', ''apex'', ''summit'', ''crest'', ''ridge'',
   ''pixel'', ''byte'', ''code'', ''node'', ''link'', ''sync'', ''core'', ''hub'', ''nexus'', ''matrix'',
   ''cipher'', ''key'', ''lock'', ''vault'', ''shield'', ''guard'', ''sentinel'', ''warden'', ''keeper'', ''protector'',
   ''seeker'', ''finder'', ''hunter'', ''ranger'', ''scout'', ''guide'', ''mentor'', ''sage'', ''oracle'', ''mystic'',
   ''phoenix'', ''dragon'', ''griffin'', ''pegasus'', ''unicorn'', ''sphinx'', ''hydra'', ''kraken'', ''titan'', ''giant'']"

section \<open>Bytes and numbers\<close>

text \<open>\<open>binary.BigEndian\<close> and \<open>big.Int\<close>.\<close>

definition PutUint32 :: "u32 \<Rightarrow> byte list" where
  "PutUint32 x = [ucast (drop_bit 24 x), ucast (drop_bit 16 x), ucast (drop_bit 8 x), ucast x]"

definition SetBytes :: "byte list \<Rightarrow> nat" where
  "SetBytes bs = foldl (\<lambda>a b. 256 * a + unat b) 0 bs"

definition digit36 :: "nat \<Rightarrow> char" where
  "digit36 d = (if d < 10 then char_of (48 + d) else char_of (87 + d))"

fun digits36 :: "nat \<Rightarrow> string" where
  "digits36 n = (if n < 36 then [digit36 n] else digits36 (n div 36) @ [digit36 (n mod 36)])"

declare digits36.simps [simp del]

definition Text36 :: "nat \<Rightarrow> string" where
  "Text36 n = digits36 n"

fun pad6 :: "nat \<Rightarrow> string \<Rightarrow> string" where
  "pad6 0 s = s"
| "pad6 (Suc fuel) s = (if length s < 6 then pad6 fuel (CHR ''0'' # s) else s)"

section \<open>Operations\<close>

definition getSubdomainSecret :: "environ \<Rightarrow> string" where
  "getSubdomainSecret env =
     (let secret = env ''SUBDOMAIN_SECRET''
      in if secret = [] then ''default-development-secret-change-in-production'' else secret)"

definition GetBaseDomain :: "environ \<Rightarrow> string" where
  "GetBaseDomain env =
     (if env ''BASE_DOMAIN'' \<noteq> [] then env ''BASE_DOMAIN''
      else if env ''CLIENT_URL'' = [] then ''localhost''
      else let domain = TrimPrefix (TrimPrefix (TrimPrefix (env ''CLIENT_URL'') ''https://'') ''http://'') ''www.''
           in case Index domain '':'' of Some idx \<Rightarrow> take idx domain | None \<Rightarrow> domain)"

definition encodeHash :: "nat \<Rightarrow> string" where
  "encodeHash hashNum = take 8 (pad6 6 (ToLower (Text36 hashNum)))"

definition subdomain_label :: "byte list \<Rightarrow> string" where
  "subdomain_label hashBytes =
     (let adjectiveIndex = SetBytes (take 4 hashBytes) mod length adjectives;
          nounIndex = SetBytes (take 4 (drop 4 hashBytes)) mod length nouns;
          encodedHash = encodeHash (SetBytes (take 6 (drop 8 hashBytes)))
      in adjectives ! adjectiveIndex @ ''-'' @ nouns ! nounIndex @ ''-'' @ encodedHash)"

definition GenerateSubdomainForUser :: "hmac_fun \<Rightarrow> environ \<Rightarrow> u32 \<Rightarrow> string" where
  "GenerateSubdomainForUser hmac env userID =
     (let hashBytes = hmac (getSubdomainSecret env) (PutUint32 userID)
      in subdomain_label hashBytes @ ''.'' @ GetBaseDomain env)"

definition IsAutoGeneratedDomain :: "environ \<Rightarrow> string \<Rightarrow> bool" where
  "IsAutoGeneratedDomain env domain = HasSuffix domain (''.'' @ GetBaseDomain env)"

definition ExtractSubdomain :: "environ \<Rightarrow> string \<Rightarrow> string" where
  "ExtractSubdomain env domain =
     (let suffix = ''.'' @ GetBaseDomain env
      in if HasSuffix domain suffix then TrimSuffix domain suffix else [])"

section \<open>The shape of a label\<close>

definition label_char :: "char \<Rightarrow> bool" where
  "label_char c \<longleftrightarrow> (let n = (of_char c :: nat) in 48 \<le> n \<and> n \<le> 57 \<or> 97 \<le> n \<and> n \<le> 122)"

definition word_ok :: "string \<Rightarrow> bool" where
  "word_ok w \<longleftrightarrow> list_all label_char w \<and> 0 < length w \<and> length w \<le> 10"

lemma adjectives_ok: "list_all word_ok adjectives"
  unfolding adjectives_def by code_simp

lemma nouns_ok: "list_all word_ok nouns"
  unfolding nouns_def by code_simp

lemma lengths: "length adjectives = 200" "length nouns = 200"
  by (simp_all add: adjectives_def nouns_def)

lemma digit36_ok: "d < 36 \<Longrightarrow> label_char (digit36 d)"
  by (simp add: label_char_def digit36_def Let_def)

lemma digits36_ok: "list_all label_char (digits36 n) \<and> digits36 n \<noteq> []"
  by (induction n rule: digits36.induct) (subst (1 2) digits36.simps, simp add: digit36_ok)

lemma label_lower: "label_char c \<Longrightarrow> to_lower_char c = c"
  by (auto simp: label_char_def to_lower_char_def Let_def)

lemma ToLower_label: "list_all label_char s \<Longrightarrow> ToLower s = s"
  by (induction s) (auto simp: ToLower_def label_lower)

lemma pad6_length: "6 \<le> length s + fuel \<Longrightarrow> length (pad6 fuel s) = max 6 (length s)"
  by (induction fuel s rule: pad6.induct) auto

lemma pad6_ok: "list_all label_char s \<Longrightarrow> list_all label_char (pad6 fuel s)"
  by (induction fuel s rule: pad6.induct) (auto simp: label_char_def)

lemma encodeHash_ok:
  "list_all label_char (encodeHash n) \<and> 6 \<le> length (encodeHash n) \<and> length (encodeHash n) \<le> 8"
proof -
  have "list_all label_char (pad6 6 (digits36 n))" using digits36_ok by (intro pad6_ok) simp
  then show ?thesis
    using digits36_ok [of n] pad6_length [of "digits36 n" 6]
    by (auto simp: encodeHash_def Text36_def ToLower_label list_all_iff dest: in_set_takeD)
qed

lemma subdomain_label_parts:
  obtains a n h where "subdomain_label hb = a @ ''-'' @ n @ ''-'' @ h"
    "a \<in> set adjectives" "n \<in> set nouns" "word_ok a" "word_ok n"
    "list_all label_char h" "6 \<le> length h" "length h \<le> 8"
proof -
  have "adjectives ! (k mod length adjectives) \<in> set adjectives" "nouns ! (k mod length nouns) \<in> set nouns" for k
    by (auto simp: lengths intro!: nth_mem)
  then show ?thesis
    using that encodeHash_ok adjectives_ok nouns_ok
    by (auto simp: subdomain_label_def Let_def list_all_iff)
qed

section \<open>Properties\<close>

definition dns_label :: "string \<Rightarrow> bool" where
  "dns_label s \<longleftrightarrow> s \<noteq> [] \<and> length s \<le> 63 \<and> list_all (\<lambda>c. label_char c \<or> c = CHR ''-'') s \<and>
     hd s \<noteq> CHR ''-'' \<and> last s \<noteq> CHR ''-''"

lemma label_not_hyphen: "label_char c \<Longrightarrow> c \<noteq> CHR ''-''" "label_char c \<Longrightarrow> c \<noteq> CHR ''.''"
  by (auto simp: label_char_def)

lemma dns_label_subdomain: "dns_label (subdomain_label hb)"
proof -
  obtain a n h where l: "subdomain_label hb = a @ ''-'' @ n @ ''-'' @ h"
    and w: "word_ok a" "word_ok n" "list_all label_char h" "6 \<le> length h" "length h \<le> 8"
    by (rule subdomain_label_parts)
  obtain c a' where a: "a = c # a'" using w(1) by (cases a) (auto simp: word_ok_def)
  obtain h' d where h: "h = h' @ [d]" using w(4) by (cases h rule: rev_cases) auto
  show ?thesis
    using w label_not_hyphen(1) [of c] label_not_hyphen(1) [of d]
    by (auto simp: dns_label_def l a h word_ok_def list_all_iff)
qed

lemma label_has_no_dot: "CHR ''.'' \<notin> set (subdomain_label hb)"
  using dns_label_subdomain [of hb] label_not_hyphen(2) by (fastforce simp: dns_label_def list_all_iff)

text \<open>
  The subdomain generated for a user is one DNS label (at most 63 lower-case letters, digits and
  inner hyphens) in front of the base domain; it is recognised as auto-generated, and
  \<open>ExtractSubdomain\<close> gives the label back.
\<close>

theorem generated_subdomain_roundtrip:
  "let d = GenerateSubdomainForUser hmac env userID; l = ExtractSubdomain env d
   in IsAutoGeneratedDomain env d \<and> d = l @ ''.'' @ GetBaseDomain env \<and> dns_label l \<and>
      l = subdomain_label (hmac (getSubdomainSecret env) (PutUint32 userID))"
proof -
  let ?l = "subdomain_label (hmac (getSubdomainSecret env) (PutUint32 userID))"
  have "GenerateSubdomainForUser hmac env userID = ?l @ (''.'' @ GetBaseDomain env)"
    by (simp add: GenerateSubdomainForUser_def)
  then show ?thesis
    using dns_label_subdomain [of "hmac (getSubdomainSecret env) (PutUint32 userID)"]
      TrimSuffix_append [of ?l "''.'' @ GetBaseDomain env"] HasSuffix_append [of ?l "''.'' @ GetBaseDomain env"]
    by (simp add: ExtractSubdomain_def IsAutoGeneratedDomain_def Let_def)
qed

lemma two_hyphens: "length (filter (\<lambda>c. c = CHR ''-'') (subdomain_label hb)) = 2"
proof -
  have z: "filter (\<lambda>c. c = CHR ''-'') s = []" if "list_all label_char s" for s
    using that by (auto simp: list_all_iff filter_empty_conv label_char_def)
  obtain a n h where "subdomain_label hb = a @ ''-'' @ n @ ''-'' @ h" "word_ok a" "word_ok n" "list_all label_char h"
    by (rule subdomain_label_parts)
  then show ?thesis by (simp add: z word_ok_def)
qed

end
