(* ===== verification/Validation.thy ===== *)
theory Validation
  imports Regex Subdomain
begin

text \<open>
  The validators: \<open>DomainRegex\<close> and \<open>IsValidDomain\<close> of \<open>internal/utils/validation.go\<close>, and the
  registered validators of \<open>internal/api/validation/validator.go\<close>.
\<close>

section \<open>Character classes\<close>

definition is_alpha :: "char \<Rightarrow> bool" where
  "is_alpha c \<longleftrightarrow> (let n = (of_char c :: nat) in 65 \<le> n \<and> n \<le> 90 \<or> 97 \<le> n \<and> n \<le> 122)"

definition is_alnum :: "char \<Rightarrow> bool" where
  "is_alnum c \<longleftrightarrow> is_alpha c \<or> is_digit c"

definition is_alnum_hyphen :: "char \<Rightarrow> bool" where
  "is_alnum_hyphen c \<longleftrightarrow> is_alnum c \<or> c = CHR ''-''"

definition lit :: "char \<Rightarrow> re" where
  "lit c = Cls (\<lambda>x. x = c)"

section \<open>Domains\<close>

definition domain_label :: re where
  "domain_label =
     Seq (Cls is_alnum) (Alt One (Seq (upto_re 61 (Cls is_alnum_hyphen)) (Cls is_alnum)))"

definition DomainRegex :: re where
  "DomainRegex =
     Seq (Plus (Seq domain_label (lit CHR ''.''))) (Seq (rep 2 (Cls is_alpha)) (Star (Cls is_alpha)))"

definition IsValidDomain :: "string \<Rightarrow> bool" where
  "IsValidDomain domain = (if length domain > 253 then False else MatchString DomainRegex domain)"

section \<open>Registered validators\<close>

definition emailRegex :: re where
  "emailRegex =
     Seq (Plus (Cls (\<lambda>c. is_alnum c \<or> c \<in> set ''._%+-''))) (Seq (lit CHR ''@'')
       (Seq (Plus (Cls (\<lambda>c. is_alnum c \<or> c \<in> set ''.-''))) (Seq (lit CHR ''.'')
         (Seq (rep 2 (Cls is_alpha)) (Star (Cls is_alpha))))))"

text \<open>The class \<open>\s\<close> of Go: tab, line feed, form feed, carriage return and space.\<close>

definition nameRegex :: re where
  "nameRegex =
     between 2 50 (Cls (\<lambda>c. is_alnum c \<or> (of_char c :: nat) \<in> {9, 10, 12, 13, 32} \<or> c \<in> set ''-_''))"

definition usernameRegex :: re where
  "usernameRegex = between 3 30 (Cls (\<lambda>c. is_alnum c \<or> c \<in> set ''_-''))"

definition validateEmail :: "string \<Rightarrow> bool" where
  "validateEmail email = MatchString emailRegex email"

definition validateName :: "string \<Rightarrow> bool" where
  "validateName name = MatchString nameRegex name"

definition validateUsername :: "string \<Rightarrow> bool" where
  "validateUsername username = MatchString usernameRegex username"

definition getValidationErrorMessage :: "string \<Rightarrow> string" where
  "getValidationErrorMessage tag =
     (if tag = ''required'' then ''This field is required''
      else if tag = ''email'' then ''Invalid email format''
      else if tag = ''name'' then ''Name must be 2-50 characters long and can only contain letters, numbers, spaces, hyphens, and underscores''
      else if tag = ''username'' then ''Username must be 3-30 characters long and can only contain letters, numbers, hyphens, and underscores''
      else if tag = ''url'' then ''Invalid URL format''
      else if tag = ''min'' then ''Value is too short''
      else if tag = ''max'' then ''Value is too long''
      else ''Invalid value'')"

section \<open>What a valid domain is\<close>

definition label_ok :: "string \<Rightarrow> bool" where
  "label_ok l \<longleftrightarrow> l \<noteq> [] \<and> length l \<le> 63 \<and> list_all is_alnum_hyphen l \<and> is_alnum (hd l) \<and> is_alnum (last l)"

definition domain_ok :: "string \<Rightarrow> bool" where
  "domain_ok d \<longleftrightarrow> (\<exists>ls tld. ls \<noteq> [] \<and> list_all label_ok ls \<and> d = concat (map (\<lambda>l. l @ ''.'') ls) @ tld \<and>
     2 \<le> length tld \<and> list_all is_alpha tld)"

lemma lang_domain_label: "l \<in> lang domain_label \<longleftrightarrow> label_ok l"
proof
  assume "l \<in> lang domain_label"
  then obtain c v where l: "l = c # v" "is_alnum c" and
    v: "v = [] \<or> v \<in> lang (Seq (upto_re 61 (Cls is_alnum_hyphen)) (Cls is_alnum))"
    unfolding domain_label_def lang_Seq_Cls lang.simps(2,5) by blast
  show "label_ok l"
  proof (cases "v = []")
    case True
    with l show ?thesis by (simp add: label_ok_def is_alnum_hyphen_def)
  next
    case False
    with v obtain w x where "v = w @ [x]" "w \<in> lang (upto_re 61 (Cls is_alnum_hyphen))" "is_alnum x" by auto
    with l show ?thesis by (simp add: label_ok_def lang_upto_Cls is_alnum_hyphen_def)
  qed
next
  assume ok: "label_ok l"
  then obtain c v where l: "l = c # v" by (cases l) (auto simp: label_ok_def)
  show "l \<in> lang domain_label"
  proof (cases v rule: rev_cases)
    case Nil
    with ok l show ?thesis unfolding domain_label_def lang_Seq_Cls by (simp add: label_ok_def)
  next
    case (snoc w x)
    with ok l have "w \<in> lang (upto_re 61 (Cls is_alnum_hyphen))" "[x] \<in> lang (Cls is_alnum)" "is_alnum c"
      by (simp_all add: label_ok_def lang_upto_Cls)
    with snoc have "v \<in> lang (Seq (upto_re 61 (Cls is_alnum_hyphen)) (Cls is_alnum))"
      unfolding lang.simps by blast
    with l \<open>is_alnum c\<close> show ?thesis unfolding domain_label_def lang_Seq_Cls by simp
  qed
qed

lemma lang_label_dot: "lang (Seq domain_label (lit CHR ''.'')) = (\<lambda>l. l @ ''.'') ` Collect label_ok"
  by (auto simp: lit_def lang_domain_label image_iff)

lemma lang_tld: "t \<in> lang (Seq (rep 2 (Cls is_alpha)) (Star (Cls is_alpha))) \<longleftrightarrow> 2 \<le> length t \<and> list_all is_alpha t"
proof
  assume "t \<in> lang (Seq (rep 2 (Cls is_alpha)) (Star (Cls is_alpha)))"
  then obtain u v where "t = u @ v" "u \<in> lang (rep 2 (Cls is_alpha))" "v \<in> lang (Star (Cls is_alpha))"
    unfolding lang.simps(4) by blast
  then show "2 \<le> length t \<and> list_all is_alpha t" by (simp add: lang_rep_Cls lang_star_Cls)
next
  assume "2 \<le> length t \<and> list_all is_alpha t"
  then have "take 2 t \<in> lang (rep 2 (Cls is_alpha))" "drop 2 t \<in> lang (Star (Cls is_alpha))"
    by (auto simp: lang_rep_Cls lang_star_Cls list_all_iff dest: in_set_takeD in_set_dropD)
  then show "t \<in> lang (Seq (rep 2 (Cls is_alpha)) (Star (Cls is_alpha)))"
    unfolding lang.simps(4) by (metis (mono_tags, lifting) append_take_drop_id mem_Collect_eq)
qed

lemma subset_image_map: "set us \<subseteq> f ` A \<Longrightarrow> \<exists>xs. us = map f xs \<and> set xs \<subseteq> A"
proof (induction us)
  case (Cons u us)
  then obtain xs x where "us = map f xs" "set xs \<subseteq> A" "u = f x" "x \<in> A" by auto
  then show ?case by (intro exI [of _ "x # xs"]) simp
qed simp

lemma IsValidDomain_iff: "IsValidDomain d \<longleftrightarrow> length d \<le> 253 \<and> domain_ok d"
proof -
  have "MatchString DomainRegex d \<longleftrightarrow> domain_ok d"
  proof
    assume "MatchString DomainRegex d"
    then obtain p t where "d = p @ t" and p: "p \<in> lang (Plus (Seq domain_label (lit CHR ''.'')))"
      and t: "t \<in> lang (Seq (rep 2 (Cls is_alpha)) (Star (Cls is_alpha)))"
      unfolding MatchString_lang DomainRegex_def lang.simps(4) [of "Plus r" for r] by blast
    from p obtain us where us: "us \<noteq> []" "set us \<subseteq> (\<lambda>l. l @ ''.'') ` Collect label_ok" "p = concat us"
      unfolding lang_Plus_concat lang_label_dot by blast
    from subset_image_map [OF us(2)] obtain ls where "us = map (\<lambda>l. l @ ''.'') ls" "set ls \<subseteq> Collect label_ok" by blast
    then show "domain_ok d"
      using us \<open>d = p @ t\<close> t [unfolded lang_tld] unfolding domain_ok_def
      by (intro exI [of _ ls] exI [of _ t]) (auto simp: list_all_iff)
  next
    assume "domain_ok d"
    then obtain ls t where d: "ls \<noteq> []" "list_all label_ok ls" "d = concat (map (\<lambda>l. l @ ''.'') ls) @ t"
      "2 \<le> length t \<and> list_all is_alpha t" unfolding domain_ok_def by blast
    then have "concat (map (\<lambda>l. l @ ''.'') ls) \<in> lang (Plus (Seq domain_label (lit CHR ''.'')))"
      unfolding lang_Plus_concat lang_label_dot
      by (intro exI [of _ "map (\<lambda>l. l @ ''.'') ls"]) (auto simp: list_all_iff)
    with d(3,4) show "MatchString DomainRegex d"
      unfolding MatchString_lang DomainRegex_def lang.simps(4) [of "Plus r" for r] lang_tld by blast
  qed
  then show ?thesis by (simp add: IsValidDomain_def)
qed

text \<open>
  \<open>IsValidDomain\<close> accepts exactly the strings of at most 253 bytes that consist of one or more
  dotted labels (1 to 63 letters, digits and inner hyphens) followed by a top-level domain of at
  least two letters.
\<close>

theorem valid_domain_characterised:
  "IsValidDomain d \<longleftrightarrow>
     length d \<le> 253 \<and>
     (\<exists>ls tld. ls \<noteq> [] \<and> list_all label_ok ls \<and> d = concat (map (\<lambda>l. l @ ''.'') ls) @ tld \<and>
        2 \<le> length tld \<and> list_all is_alpha tld)"
  using IsValidDomain_iff [of d] by (simp only: domain_ok_def)

lemma label_char_alnum: "label_char c \<Longrightarrow> is_alnum c"
  by (auto simp: label_char_def is_alnum_def is_alpha_def is_digit_def Let_def)

lemma dns_label_ok: "dns_label l \<Longrightarrow> label_ok l"
  by (auto simp: dns_label_def label_ok_def is_alnum_hyphen_def list_all_iff intro: label_char_alnum)

lemma domain_ok_prefix: "label_ok l \<Longrightarrow> domain_ok d \<Longrightarrow> domain_ok (l @ ''.'' @ d)"
  unfolding domain_ok_def
  by (elim exE conjE, rule_tac x = "l # ls" in exI, rule_tac x = tld in exI) simp

text \<open>
  The subdomain generated for a user passes the validation of the API handler whenever the base
  domain is itself a valid domain of at most 219 bytes.
\<close>

theorem generated_subdomain_valid:
  assumes "IsValidDomain (GetBaseDomain env)" "length (GetBaseDomain env) \<le> 219"
  shows "IsValidDomain (GenerateSubdomainForUser hmac env userID)"
proof -
  let ?l = "subdomain_label (hmac (getSubdomainSecret env) (PutUint32 userID))"
  obtain a n h where "?l = a @ ''-'' @ n @ ''-'' @ h" "word_ok a" "word_ok n" "length h \<le> 8"
    by (rule subdomain_label_parts)
  then have "length ?l \<le> 30" by (simp add: word_ok_def)
  moreover have "domain_ok (?l @ ''.'' @ GetBaseDomain env)"
    using assms(1) dns_label_subdomain by (intro domain_ok_prefix dns_label_ok) (auto simp: IsValidDomain_iff)
  ultimately show ?thesis
    using assms(2) by (simp add: IsValidDomain_iff GenerateSubdomainForUser_def)
qed

theorem generated_subdomain_valid_witness:
  "IsValidDomain (GenerateSubdomainForUser (\<lambda>secret msg. replicate 32 7)
     (\<lambda>k. if k = ''BASE_DOMAIN'' then ''giraffecloud.xyz'' else []) 5)"
proof -
  let ?env = "\<lambda>k. if k = ''BASE_DOMAIN'' then ''giraffecloud.xyz'' else []"
  have b: "GetBaseDomain ?env = ''giraffecloud.xyz''" by (simp add: GetBaseDomain_def)
  have "domain_ok ''giraffecloud.xyz''"
    unfolding domain_ok_def
    by (intro exI [of _ "[''giraffecloud'']"] exI [of _ "''xyz''"])
       (simp add: label_ok_def is_alnum_hyphen_def is_alnum_def is_alpha_def)
  then have "IsValidDomain (GetBaseDomain ?env)" unfolding b by (simp add: IsValidDomain_iff)
  then show ?thesis by (rule generated_subdomain_valid) (simp add: b)
qed

end
