(* ===== verification/Tunnel_Service.thy ===== *)
theory Tunnel_Service
  imports Tunnel_Repository Caddy Validation
begin

text \<open>
  \<open>internal/service/tunnel_service.go\<close>, the tunnel handlers of \<open>internal/api/handlers/tunnel.go\<close>, the
  on-demand TLS check of \<open>internal/api/handlers/caddy.go\<close> and the background task of
  \<open>internal/tasks/dns_monitor.go\<close>. The DNS resolvers, the random source and the proxy are parameters;
  the state is the tunnel table and the state of the proxy.
\<close>

section \<open>DNS and tokens\<close>

text \<open>\<open>internal/utils/dns.go\<close>: the resolvers in order, the first answer counts.\<close>

fun lookup_loop :: "(string \<Rightarrow> string \<Rightarrow> string list option) \<Rightarrow> string list \<Rightarrow> string \<Rightarrow> string list option" where
  "lookup_loop resolve [] domain = None"
| "lookup_loop resolve (addr # addrs) domain =
     (case resolve addr domain of Some ips \<Rightarrow> Some ips | None \<Rightarrow> lookup_loop resolve addrs domain)"

definition LookupHostGlobal :: "(string \<Rightarrow> string \<Rightarrow> string list option) \<Rightarrow> string \<Rightarrow> string list option" where
  "LookupHostGlobal resolve domain = lookup_loop resolve [''8.8.8.8:53'', ''1.1.1.1:53''] domain"

definition hex_digit :: "nat \<Rightarrow> char" where
  "hex_digit d = (if d < 10 then char_of (48 + d) else char_of (87 + d))"

definition hex_EncodeToString :: "byte list \<Rightarrow> string" where
  "hex_EncodeToString bs = concat (map (\<lambda>b. [hex_digit (unat b div 16), hex_digit (unat b mod 16)]) bs)"

text \<open>\<open>rand.Read\<close> yields 32 bytes or fails.\<close>

definition generateToken :: "byte list option \<Rightarrow> string option" where
  "generateToken rnd = map_option hex_EncodeToString rnd"

section \<open>The service\<close>

record 'c tunnel_service =
  s_env :: environ
  s_hmac :: hmac_fun
  s_BaseDomain :: string
  s_ServerIP :: string
  s_resolve :: "string \<Rightarrow> string \<Rightarrow> string list option"
  s_caddy :: "('c admin \<times> caddy_config) option"
  s_faults :: faults

record 'c svc_state =
  tdb :: tunnel_db
  proxy :: 'c

datatype svc_error =
    SvcValidation | SvcConflict | SvcNotFound | SvcToken
  | SvcRepo repo_error | SvcCaddy caddy_error | SvcPanic

definition GetFreeSubdomain :: "'c tunnel_service \<Rightarrow> u32 \<Rightarrow> tunnel_db \<Rightarrow> svc_error + (string \<times> bool)" where
  "GetFreeSubdomain s uid db =
     (case repo_GetByUserID (s_faults s) db uid of
        Inl e \<Rightarrow> Inl (SvcRepo e)
      | Inr tunnels \<Rightarrow>
          (case List.find (\<lambda>t. IsAutoGeneratedDomain (s_env s) (t_Domain t)) tunnels of
             Some t \<Rightarrow> Inr (t_Domain t, False)
           | None \<Rightarrow> Inr (GenerateSubdomainForUser (s_hmac s) (s_env s) uid, True)))"

definition isReservedDomain :: "'c tunnel_service \<Rightarrow> string \<Rightarrow> bool" where
  "isReservedDomain s domain =
     (let baseDomain = (if s_BaseDomain s = [] then GetBaseDomain (s_env s) else s_BaseDomain s)
      in if baseDomain = [] \<or> baseDomain = ''localhost'' then False
         else List.member [baseDomain, ''www.'' @ baseDomain, ''api.'' @ baseDomain, ''tunnel.'' @ baseDomain] domain)"

definition dnsVerified :: "'c tunnel_service \<Rightarrow> string \<Rightarrow> bool" where
  "dnsVerified s domain =
     (case LookupHostGlobal (s_resolve s) domain of
        None \<Rightarrow> False
      | Some ips \<Rightarrow> List.member ips (s_ServerIP s))"

definition new_tunnel :: "string \<Rightarrow> string \<Rightarrow> int \<Rightarrow> bool \<Rightarrow> dns_status \<Rightarrow> u32 \<Rightarrow> tunnel_row" where
  "new_tunnel domain tok port enabled st uid =
     \<lparr>t_ID = 0, t_Domain = domain, t_Token = tok, t_ClientIP = [], t_IsEnabled = enabled, t_DNS = st,
      t_TargetPort = port, t_UserID = uid, t_CreatedAt = 0, t_UpdatedAt = 0\<rparr>"

definition save_tunnel ::
    "'c tunnel_service \<Rightarrow> byte list option \<Rightarrow> u32 \<Rightarrow> string \<Rightarrow> int \<Rightarrow> bool \<Rightarrow> dns_status \<Rightarrow> tunnel_db
       \<Rightarrow> (svc_error + tunnel_row) \<times> tunnel_db" where
  "save_tunnel s rnd uid domain port enabled st db =
     (case generateToken rnd of
        None \<Rightarrow> (Inl SvcToken, db)
      | Some tok \<Rightarrow>
          (case repo_Create (s_faults s) (new_tunnel domain tok port enabled st uid) db of
             (Inl e, db1) \<Rightarrow> (Inl (SvcRepo e), db1)
           | (Inr t, db1) \<Rightarrow> (Inr t, db1)))"

definition CreateTunnel ::
    "'c tunnel_service \<Rightarrow> byte list option \<Rightarrow> u32 \<Rightarrow> string \<Rightarrow> int \<Rightarrow> tunnel_db
       \<Rightarrow> (svc_error + tunnel_row) \<times> tunnel_db" where
  "CreateTunnel s rnd uid domain targetPort db =
     (if isReservedDomain s domain then (Inl SvcValidation, db)
      else case repo_GetByUserID (s_faults s) db uid of
             Inl e \<Rightarrow> (Inl (SvcRepo e), db)
           | Inr tunnels \<Rightarrow>
               if list_ex (\<lambda>t. t_TargetPort t = targetPort) tunnels then (Inl SvcConflict, db)
               else if IsAutoGeneratedDomain (s_env s) domain then
                 (if list_ex (\<lambda>t. IsAutoGeneratedDomain (s_env s) (t_Domain t)) tunnels
                  then (Inl SvcConflict, db)
                  else if domain \<noteq> GenerateSubdomainForUser (s_hmac s) (s_env s) uid
                  then (Inl SvcValidation, db)
                  else save_tunnel s rnd uid domain targetPort True Verified db)
               else if s_ServerIP s \<noteq> [] \<and> \<not> dnsVerified s domain
               then save_tunnel s rnd uid domain targetPort False PendingDNS db
               else save_tunnel s rnd uid domain targetPort True Verified db)"

definition ListTunnels :: "'c tunnel_service \<Rightarrow> u32 \<Rightarrow> tunnel_db \<Rightarrow> repo_error + tunnel_row list" where
  "ListTunnels s uid db = repo_GetByUserID (s_faults s) db uid"

definition GetTunnel :: "'c tunnel_service \<Rightarrow> u32 \<Rightarrow> u32 \<Rightarrow> tunnel_db \<Rightarrow> repo_error + tunnel_row" where
  "GetTunnel s uid tid db = repo_GetByID (s_faults s) db tid"

definition svc_not_found :: "repo_error \<Rightarrow> svc_error" where
  "svc_not_found e = (if e = ErrNotFound then SvcNotFound else SvcRepo e)"

definition DeleteTunnel ::
    "'c tunnel_service \<Rightarrow> u32 \<Rightarrow> u32 \<Rightarrow> 'c svc_state \<Rightarrow> (svc_error + unit) \<times> 'c svc_state" where
  "DeleteTunnel s uid tid st =
     (case repo_GetByID (s_faults s) (tdb st) tid of
        Inl e \<Rightarrow> (Inl (svc_not_found e), st)
      | Inr t \<Rightarrow>
          (let st1 = (case s_caddy s of
                        Some (do, _) \<Rightarrow>
                          if t_IsEnabled t \<and> t_ClientIP t \<noteq> []
                          then st\<lparr>proxy := snd (RemoveRoute do (t_Domain t) (proxy st))\<rparr> else st
                      | None \<Rightarrow> st)
           in case repo_Delete (s_faults s) tid (tdb st1) of
                (Inl e, db) \<Rightarrow> (Inl (SvcRepo e), st1\<lparr>tdb := db\<rparr>)
              | (Inr _, db) \<Rightarrow> (Inr (), st1\<lparr>tdb := db\<rparr>)))"

text \<open>The checks of \<open>UpdateTunnel\<close> and the change it makes to the update.\<close>

definition check_update ::
    "'c tunnel_service \<Rightarrow> u32 \<Rightarrow> u32 \<Rightarrow> tunnel_row \<Rightarrow> tunnel_update \<Rightarrow> tunnel_db \<Rightarrow> svc_error + tunnel_update" where
  "check_update s uid tid cur u db =
     (let port_err =
        (case u_TargetPort u of
           None \<Rightarrow> None
         | Some newPort \<Rightarrow>
             if newPort = t_TargetPort cur then None
             else (case repo_GetByUserID (s_faults s) db uid of
                     Inl e \<Rightarrow> Some (SvcRepo e)
                   | Inr tunnels \<Rightarrow>
                       if list_ex (\<lambda>t. t_ID t \<noteq> unat tid \<and> t_TargetPort t = newPort) tunnels
                       then Some SvcConflict else None))
      in case port_err of
           Some e \<Rightarrow> Inl e
         | None \<Rightarrow>
             if u_IsEnabled u = Some True \<and> \<not> t_IsEnabled cur \<and>
                \<not> IsAutoGeneratedDomain (s_env s) (t_Domain cur) \<and> s_ServerIP s \<noteq> []
             then (if dnsVerified s (t_Domain cur) then Inr (u\<lparr>u_DNS := Some Verified\<rparr>) else Inl SvcValidation)
             else Inr u)"

definition sync_route :: "'c tunnel_service \<Rightarrow> bool \<Rightarrow> tunnel_row \<Rightarrow> 'c \<Rightarrow> svc_error option \<times> 'c" where
  "sync_route s was_enabled t c =
     (case s_caddy s of
        None \<Rightarrow> (None, c)
      | Some (do, cfg) \<Rightarrow>
          if t_ClientIP t = [] then (None, c)
          else if t_IsEnabled t then
            (case ConfigureRoute do cfg (t_Domain t) (t_ClientIP t) (t_TargetPort t) c of
               (Some CaddyPanic, c1) \<Rightarrow> (Some SvcPanic, c1)
             | (_, c1) \<Rightarrow> (None, c1))
          else if was_enabled then (None, snd (RemoveRoute do (t_Domain t) c))
          else (None, c))"

definition UpdateTunnel ::
    "'c tunnel_service \<Rightarrow> u32 \<Rightarrow> u32 \<Rightarrow> updates \<Rightarrow> 'c svc_state \<Rightarrow> (svc_error + tunnel_row) \<times> 'c svc_state" where
  "UpdateTunnel s uid tid updates st =
     (case repo_GetByID (s_faults s) (tdb st) tid of
        Inl e \<Rightarrow> (Inl (svc_not_found e), st)
      | Inr cur \<Rightarrow>
          (case (case updates of
                   OtherUpdates \<Rightarrow> Inr OtherUpdates
                 | TunnelUpdate u \<Rightarrow> map_sum id TunnelUpdate (check_update s uid tid cur u (tdb st))) of
             Inl e \<Rightarrow> (Inl e, st)
           | Inr updates' \<Rightarrow>
               (case repo_Update (s_faults s) tid updates' (tdb st) of
                  (Inl e, db) \<Rightarrow> (Inl (SvcRepo e), st\<lparr>tdb := db\<rparr>)
                | (Inr t, db) \<Rightarrow>
                    (case sync_route s (t_IsEnabled cur) t (proxy st) of
                       (Some e, c) \<Rightarrow> (Inl e, st\<lparr>tdb := db, proxy := c\<rparr>)
                     | (None, c) \<Rightarrow> (Inr t, st\<lparr>tdb := db, proxy := c\<rparr>)))))"

definition GetByToken :: "'c tunnel_service \<Rightarrow> string \<Rightarrow> tunnel_db \<Rightarrow> repo_error + tunnel_row" where
  "GetByToken s tok db = repo_GetByToken (s_faults s) db tok"

definition GetByDomain :: "'c tunnel_service \<Rightarrow> string \<Rightarrow> tunnel_db \<Rightarrow> repo_error + tunnel_row" where
  "GetByDomain s d db = repo_GetByDomain (s_faults s) db d"

definition GetActive :: "'c tunnel_service \<Rightarrow> tunnel_db \<Rightarrow> repo_error + tunnel_row list" where
  "GetActive s db = repo_GetActive (s_faults s) db"

definition UpdateClientIP ::
    "'c tunnel_service \<Rightarrow> u32 \<Rightarrow> string \<Rightarrow> 'c svc_state \<Rightarrow> (svc_error + unit) \<times> 'c svc_state" where
  "UpdateClientIP s tid clientIP st =
     (case repo_GetByID (s_faults s) (tdb st) tid of
        Inl e \<Rightarrow> (Inl (SvcRepo e), st)
      | Inr t \<Rightarrow>
          (case repo_UpdateClientIP (s_faults s) tid clientIP (tdb st) of
             (Inl e, db) \<Rightarrow> (Inl (SvcRepo e), st\<lparr>tdb := db\<rparr>)
           | (Inr _, db) \<Rightarrow>
               (case s_caddy s of
                  None \<Rightarrow> (Inr (), st\<lparr>tdb := db\<rparr>)
                | Some (do, cfg) \<Rightarrow>
                    (let targetIP = (if clientIP = [] then ''127.0.0.1'' else clientIP);
                         (err, c) = (if t_IsEnabled t
                                     then ConfigureRoute do cfg (t_Domain t) targetIP (t_TargetPort t) (proxy st)
                                     else RemoveRoute do (t_Domain t) (proxy st))
                     in case err of
                          None \<Rightarrow> (Inr (), st\<lparr>tdb := db, proxy := c\<rparr>)
                        | Some CaddyPanic \<Rightarrow> (Inl SvcPanic, st\<lparr>tdb := db, proxy := c\<rparr>)
                        | Some e \<Rightarrow> (Inl (SvcCaddy e), st\<lparr>tdb := db, proxy := c\<rparr>)))))"

section \<open>The DNS monitor\<close>

fun verify_loop ::
    "'c tunnel_service \<Rightarrow> tunnel_row list \<Rightarrow> 'c svc_state \<Rightarrow> svc_error option \<times> 'c svc_state" where
  "verify_loop s [] st = (None, st)"
| "verify_loop s (t # ts) st =
     (if \<not> dnsVerified s (t_Domain t) \<or> s_faults s (OpMonitorUpdate (t_ID t)) then verify_loop s ts st
      else case ent_UpdateOneID t_ID (t_ID t)
                  (apply_update (db_clock (tdb st),
                     \<lparr>u_IsEnabled = Some True, u_TargetPort = None, u_DNS = Some Verified\<rparr>)) (db_rows (tdb st)) of
             (Inl e, _) \<Rightarrow> verify_loop s ts st
           | (Inr _, rows) \<Rightarrow>
               (let st1 = st\<lparr>tdb := (tdb st)\<lparr>db_rows := rows\<rparr>\<rparr>
                in case s_caddy s of
                     None \<Rightarrow> verify_loop s ts st1
                   | Some (do, cfg) \<Rightarrow>
                       if t_ClientIP t = [] then verify_loop s ts st1
                       else (case ConfigureRoute do cfg (t_Domain t) (t_ClientIP t) (t_TargetPort t) (proxy st1) of
                               (Some CaddyPanic, c) \<Rightarrow> (Some SvcPanic, st1\<lparr>proxy := c\<rparr>)
                             | (_, c) \<Rightarrow> verify_loop s ts (st1\<lparr>proxy := c\<rparr>))))"

definition verifyTunnels :: "'c tunnel_service \<Rightarrow> 'c svc_state \<Rightarrow> svc_error option \<times> 'c svc_state" where
  "verifyTunnels s st =
     (if s_faults s OpMonitorQuery then (Some (SvcRepo DBError), st)
      else verify_loop s (filter (\<lambda>t. t_DNS t = PendingDNS \<and> \<not> t_IsEnabled t) (db_rows (tdb st))) st)"

section \<open>Handlers\<close>

datatype error_code =
    ErrCodeValidation | ErrCodeNotFound | ErrCodeUnauthorized | ErrCodeForbidden
  | ErrCodeInternalServer | ErrCodeBadRequest | ErrCodeTooManyRequests | ErrCodeConflict

fun errorStatusMap :: "error_code \<Rightarrow> nat" where
  "errorStatusMap ErrCodeValidation = 400"
| "errorStatusMap ErrCodeNotFound = 404"
| "errorStatusMap ErrCodeUnauthorized = 401"
| "errorStatusMap ErrCodeForbidden = 403"
| "errorStatusMap ErrCodeInternalServer = 500"
| "errorStatusMap ErrCodeBadRequest = 400"
| "errorStatusMap ErrCodeTooManyRequests = 429"
| "errorStatusMap ErrCodeConflict = 409"

record tunnel_response =
  r_ID :: nat
  r_Domain :: string
  r_TargetPort :: int
  r_IsEnabled :: bool
  r_ClientIP :: string
  r_CreatedAt :: time
  r_UpdatedAt :: time

record create_response =
  cr_ID :: nat
  cr_Domain :: string
  cr_Token :: string
  cr_TargetPort :: int
  cr_IsEnabled :: bool
  cr_CreatedAt :: time
  cr_UpdatedAt :: time

definition TunnelToCreateResponse :: "tunnel_row \<Rightarrow> create_response" where
  "TunnelToCreateResponse t =
     \<lparr>cr_ID = t_ID t, cr_Domain = t_Domain t, cr_Token = t_Token t, cr_TargetPort = t_TargetPort t,
      cr_IsEnabled = t_IsEnabled t, cr_CreatedAt = t_CreatedAt t, cr_UpdatedAt = t_UpdatedAt t\<rparr>"

definition TunnelToResponse :: "tunnel_row \<Rightarrow> tunnel_response" where
  "TunnelToResponse t =
     \<lparr>r_ID = t_ID t, r_Domain = t_Domain t, r_TargetPort = t_TargetPort t, r_IsEnabled = t_IsEnabled t,
      r_ClientIP = t_ClientIP t, r_CreatedAt = t_CreatedAt t, r_UpdatedAt = t_UpdatedAt t\<rparr>"

definition TunnelsToResponses :: "tunnel_row list \<Rightarrow> tunnel_response list" where
  "TunnelsToResponses ts = map TunnelToResponse ts"

text \<open>\<open>strconv.ParseUint(s, 10, 32)\<close>.\<close>

definition ParseUint32 :: "string \<Rightarrow> u32 option" where
  "ParseUint32 s =
     (if s = [] \<or> \<not> list_all is_digit s then None
      else if dec_value s < 2 ^ 32 then Some (of_nat (dec_value s)) else None)"

definition bind_port :: "int \<Rightarrow> bool" where
  "bind_port p \<longleftrightarrow> 1 \<le> p \<and> p \<le> 65535"

text \<open>A request body is the decoded JSON, or absent when it does not decode.\<close>

definition h_GetFreeSubdomain :: "'c tunnel_service \<Rightarrow> u32 \<Rightarrow> tunnel_db \<Rightarrow> nat \<times> (string \<times> bool) option" where
  "h_GetFreeSubdomain s uid db =
     (case GetFreeSubdomain s uid db of
        Inl _ \<Rightarrow> (errorStatusMap ErrCodeInternalServer, None)
      | Inr r \<Rightarrow> (200, Some r))"

definition h_CreateTunnel ::
    "'c tunnel_service \<Rightarrow> byte list option \<Rightarrow> u32 \<Rightarrow> (string \<times> int) option \<Rightarrow> tunnel_db
       \<Rightarrow> (nat \<times> create_response option) \<times> tunnel_db" where
  "h_CreateTunnel s rnd uid req db =
     (case req of
        None \<Rightarrow> ((errorStatusMap ErrCodeValidation, None), db)
      | Some (domain, port) \<Rightarrow>
          if \<not> bind_port port then ((errorStatusMap ErrCodeValidation, None), db)
          else if domain \<noteq> [] \<and> \<not> IsValidDomain domain then ((errorStatusMap ErrCodeValidation, None), db)
          else (case CreateTunnel s rnd uid domain port db of
                  (Inl SvcValidation, db1) \<Rightarrow> ((errorStatusMap ErrCodeValidation, None), db1)
                | (Inl SvcConflict, db1) \<Rightarrow> ((errorStatusMap ErrCodeConflict, None), db1)
                | (Inl _, db1) \<Rightarrow> ((errorStatusMap ErrCodeInternalServer, None), db1)
                | (Inr t, db1) \<Rightarrow> ((201, Some (TunnelToCreateResponse t)), db1)))"

definition h_ListTunnels :: "'c tunnel_service \<Rightarrow> u32 \<Rightarrow> tunnel_db \<Rightarrow> nat \<times> tunnel_response list option" where
  "h_ListTunnels s uid db =
     (case ListTunnels s uid db of
        Inl _ \<Rightarrow> (errorStatusMap ErrCodeInternalServer, None)
      | Inr ts \<Rightarrow> (200, Some (TunnelsToResponses ts)))"

definition h_GetTunnel :: "'c tunnel_service \<Rightarrow> u32 \<Rightarrow> string \<Rightarrow> tunnel_db \<Rightarrow> nat \<times> tunnel_response option" where
  "h_GetTunnel s uid idp db =
     (case ParseUint32 idp of
        None \<Rightarrow> (errorStatusMap ErrCodeValidation, None)
      | Some tid \<Rightarrow>
          (case GetTunnel s uid tid db of
             Inl _ \<Rightarrow> (errorStatusMap ErrCodeNotFound, None)
           | Inr t \<Rightarrow> (200, Some (TunnelToResponse t))))"

definition h_DeleteTunnel :: "'c tunnel_service \<Rightarrow> u32 \<Rightarrow> string \<Rightarrow> 'c svc_state \<Rightarrow> nat \<times> 'c svc_state" where
  "h_DeleteTunnel s uid idp st =
     (case ParseUint32 idp of
        None \<Rightarrow> (errorStatusMap ErrCodeValidation, st)
      | Some tid \<Rightarrow>
          (case DeleteTunnel s uid tid st of
             (Inl SvcNotFound, st1) \<Rightarrow> (errorStatusMap ErrCodeNotFound, st1)
           | (Inl _, st1) \<Rightarrow> (errorStatusMap ErrCodeInternalServer, st1)
           | (Inr _, st1) \<Rightarrow> (204, st1)))"

definition h_UpdateTunnel ::
    "'c tunnel_service \<Rightarrow> u32 \<Rightarrow> string \<Rightarrow> (bool option \<times> int option) option \<Rightarrow> 'c svc_state
       \<Rightarrow> (nat \<times> tunnel_response option) \<times> 'c svc_state" where
  "h_UpdateTunnel s uid idp req st =
     (case req of
        None \<Rightarrow> ((errorStatusMap ErrCodeValidation, None), st)
      | Some (en, port) \<Rightarrow>
          if (case port of None \<Rightarrow> False | Some p \<Rightarrow> \<not> bind_port p) then ((errorStatusMap ErrCodeValidation, None), st)
          else case ParseUint32 idp of
                 None \<Rightarrow> ((errorStatusMap ErrCodeValidation, None), st)
               | Some tid \<Rightarrow>
                   (case UpdateTunnel s uid tid
                           (TunnelUpdate \<lparr>u_IsEnabled = en, u_TargetPort = port, u_DNS = None\<rparr>) st of
                      (Inl SvcValidation, st1) \<Rightarrow> ((errorStatusMap ErrCodeValidation, None), st1)
                    | (Inl SvcConflict, st1) \<Rightarrow> ((errorStatusMap ErrCodeConflict, None), st1)
                    | (Inl _, st1) \<Rightarrow> ((errorStatusMap ErrCodeInternalServer, None), st1)
                    | (Inr t, st1) \<Rightarrow> ((200, Some (TunnelToResponse t)), st1)))"

definition CheckDomain :: "'c tunnel_service \<Rightarrow> string \<Rightarrow> tunnel_db \<Rightarrow> nat" where
  "CheckDomain s domain db =
     (if domain = [] then 400
      else case repo_GetByDomain (s_faults s) db domain of
             Inl _ \<Rightarrow> 404
           | Inr t \<Rightarrow> if \<not> t_IsEnabled t then 404 else 200)"

section \<open>What the operations do to the rows\<close>

lemma repo_Create_cases:
  assumes "repo_Create f t db = (res, db')"
  obtains e where "res = Inl e" "db' = db"
  | r where "res = Inr r" "db_rows db' = db_rows db @ [r]" "t_Domain r = t_Domain t" "t_UserID r = t_UserID t"
      "t_DNS r = Verified" "t_IsEnabled r = t_IsEnabled t" "t_TargetPort r = t_TargetPort t"
      "t_Token r = t_Token t" "t_Domain t \<noteq> []" "t_ID r = db_next_id db"
  using assms by (auto simp: repo_Create_def Let_def split: if_splits)

lemma repo_Create_Inl: "repo_Create f t db = (Inl e, db') \<Longrightarrow> db' = db"
  by (auto elim: repo_Create_cases)

lemma repo_Update_rows:
  assumes "repo_Update f i (TunnelUpdate u) db = (res, db')" "x \<in> set (db_rows db')"
  shows "\<exists>r \<in> set (db_rows db). x = r \<or> (t_ID r = unat i \<and> x = apply_update (db_clock db, u) r)"
proof -
  obtain res' rows where e: "ent_UpdateOneID t_ID (unat i) (apply_update (db_clock db, u)) (db_rows db) = (res', rows)"
    by force
  show ?thesis
    using assms e UpdateOneID_rows [OF e, of x] by (auto simp: repo_Update_def split: if_splits)
qed

lemma repo_Delete_rows:
  assumes "repo_Delete f i db = (res, db')"
  shows "set (db_rows db') \<subseteq> set (db_rows db)"
  using assms by (auto simp: repo_Delete_def ent_DeleteOneID_def Let_def split: if_splits)

lemma repo_UpdateClientIP_rows:
  assumes "repo_UpdateClientIP f i ip db = (res, db')" "x \<in> set (db_rows db')"
  shows "\<exists>r \<in> set (db_rows db). x = r \<or> x = set_client_ip (db_clock db, ip) r"
proof -
  obtain res' rows where e: "ent_UpdateOneID t_ID (unat i) (set_client_ip (db_clock db, ip)) (db_rows db) = (res', rows)"
    by force
  show ?thesis
    using assms e UpdateOneID_rows [OF e, of x] by (auto simp: repo_UpdateClientIP_def split: if_splits)
qed

text \<open>The properties of a row that an update of the API leaves alone.\<close>

definition row_ok :: "'c tunnel_service \<Rightarrow> tunnel_row \<Rightarrow> bool" where
  "row_ok s r \<longleftrightarrow>
     \<not> isReservedDomain s (t_Domain r) \<and> IsValidDomain (t_Domain r) \<and> t_DNS r = Verified \<and>
     (IsAutoGeneratedDomain (s_env s) (t_Domain r) \<longrightarrow>
        t_Domain r = GenerateSubdomainForUser (s_hmac s) (s_env s) (t_UserID r))"

definition same_config :: "'c tunnel_service \<Rightarrow> 'c tunnel_service \<Rightarrow> bool" where
  "same_config s s' \<longleftrightarrow> s_env s' = s_env s \<and> s_hmac s' = s_hmac s \<and> s_BaseDomain s' = s_BaseDomain s"

definition svc_inv :: "'c tunnel_service \<Rightarrow> 'c svc_state \<Rightarrow> bool" where
  "svc_inv s st \<longleftrightarrow> db_inv (tdb st) \<and> list_all (row_ok s) (db_rows (tdb st))"

lemma row_ok_same: "same_config s s' \<Longrightarrow> row_ok s' = row_ok s"
  by (rule ext) (simp add: same_config_def row_ok_def isReservedDomain_def)

lemma row_ok_update:
  "row_ok s r \<Longrightarrow> u_DNS u \<noteq> Some PendingDNS \<Longrightarrow> row_ok s (apply_update (now, u) r)"
  by (cases "u_DNS u"; cases "the (u_DNS u)") (auto simp: row_ok_def apply_update_def)

lemma row_ok_client_ip: "row_ok s (set_client_ip nu r) = row_ok s r"
  by (simp add: row_ok_def)

lemma save_tunnel_cases:
  assumes "save_tunnel s rnd uid domain port en dns db = (res, db')"
  obtains e where "res = Inl e" "db' = db"
  | r tok where "res = Inr r" "generateToken rnd = Some tok"
      "repo_Create (s_faults s) (new_tunnel domain tok port en dns uid) db = (Inr r, db')"
  using assms
  by (auto simp: save_tunnel_def split: option.splits prod.splits sum.splits dest: repo_Create_Inl)

lemma save_tunnel_row:
  assumes "save_tunnel s rnd uid domain port en dns db = (Inr r, db')"
  shows "db_rows db' = db_rows db @ [r] \<and> t_Domain r = domain \<and> t_UserID r = uid \<and> t_DNS r = Verified \<and>
    t_IsEnabled r = en \<and> t_TargetPort r = port \<and> generateToken rnd = Some (t_Token r) \<and> domain \<noteq> [] \<and>
    t_ID r = db_next_id db"
  using assms
proof (cases rule: save_tunnel_cases)
  case (2 r' tok)
  then show ?thesis by (auto simp: new_tunnel_def elim!: repo_Create_cases)
qed simp

lemma save_tunnel_inv:
  assumes "db_inv db" "save_tunnel s rnd uid domain port en dns db = (res, db')"
  shows "db_inv db'"
  using assms(2,1) by (cases rule: save_tunnel_cases) (auto intro: inv_intros)

text \<open>A successful \<open>CreateTunnel\<close> went through all the checks and then saved the row.\<close>

lemma CreateTunnel_cases:
  assumes "CreateTunnel s rnd uid domain port db = (res, db')"
  obtains e where "res = Inl e" "db' = db"
  | r en dns where "res = Inr r" "save_tunnel s rnd uid domain port en dns db = (Inr r, db')"
      "\<not> isReservedDomain s domain"
      "\<forall>t \<in> set (db_rows db). t_UserID t = uid \<longrightarrow> t_TargetPort t \<noteq> port"
      "IsAutoGeneratedDomain (s_env s) domain \<longrightarrow> en \<and> domain = GenerateSubdomainForUser (s_hmac s) (s_env s) uid \<and>
         (\<forall>t \<in> set (db_rows db). t_UserID t = uid \<longrightarrow> \<not> IsAutoGeneratedDomain (s_env s) (t_Domain t))"
      "\<not> IsAutoGeneratedDomain (s_env s) domain \<longrightarrow> en = (s_ServerIP s = [] \<or> dnsVerified s domain)"
proof (cases "isReservedDomain s domain")
  case True
  with assms that(1) show thesis by (auto simp: CreateTunnel_def)
next
  case nr: False
  show thesis
  proof (cases "repo_GetByUserID (s_faults s) db uid")
    case (Inl e)
    with assms nr that(1) show thesis by (auto simp: CreateTunnel_def)
  next
    case (Inr ts)
    note ts = repo_GetByUserID_set [OF Inr]
    note c = assms [unfolded CreateTunnel_def, unfolded Inr sum.case]
    consider e where "res = Inl e" "db' = db"
      | en dns where "save_tunnel s rnd uid domain port en dns db = (res, db')"
        "\<not> list_ex (\<lambda>t. t_TargetPort t = port) ts"
        "IsAutoGeneratedDomain (s_env s) domain \<longrightarrow> en \<and> domain = GenerateSubdomainForUser (s_hmac s) (s_env s) uid \<and>
           \<not> list_ex (\<lambda>t. IsAutoGeneratedDomain (s_env s) (t_Domain t)) ts"
        "\<not> IsAutoGeneratedDomain (s_env s) domain \<longrightarrow> en = (s_ServerIP s = [] \<or> dnsVerified s domain)"
      using c nr by (auto split: if_splits)
    then show thesis
    proof cases
      case 1
      then show thesis by (rule that(1))
    next
      case (2 en dns)
      from 2(1) show thesis
      proof (cases rule: save_tunnel_cases)
        case (1 e)
        then show thesis by (rule that(1))
      next
        case 3: (2 r tok)
        with 2 nr ts show thesis by (intro that(2) [of r en dns]) (auto simp: list_ex_iff)
      qed
    qed
  qed
qed

section \<open>The service as a transition system\<close>

lemma svc_inv_rows:
  assumes "svc_inv s st" "db_inv db" "\<And>x. x \<in> set (db_rows db) \<Longrightarrow> row_ok s x"
  shows "svc_inv s (st\<lparr>tdb := db\<rparr>)"
  using assms by (simp add: svc_inv_def list_all_iff)

lemma svc_inv_proxy [simp]: "svc_inv s (st\<lparr>proxy := c\<rparr>) = svc_inv s st"
  by (simp add: svc_inv_def)

lemma h_CreateTunnel_cases:
  assumes "h_CreateTunnel s rnd uid req db = (resp, db')"
  obtains "fst resp \<noteq> 201" "db' = db"
  | domain port r where "req = Some (domain, port)" "bind_port port" "domain = [] \<or> IsValidDomain domain"
      "CreateTunnel s rnd uid domain port db = (Inr r, db')" "resp = (201, Some (TunnelToCreateResponse r))"
proof (cases req)
  case None
  with assms that(1) show thesis by (auto simp: h_CreateTunnel_def)
next
  case (Some dp)
  obtain domain port where dp: "dp = (domain, port)" by force
  obtain res db1 where c: "CreateTunnel s rnd uid domain port db = (res, db1)" by force
  show thesis
  proof (cases "bind_port port \<and> (domain = [] \<or> IsValidDomain domain)")
    case False
    with assms Some dp have "resp = (400, None)" "db' = db" by (auto simp: h_CreateTunnel_def split: if_splits)
    then show thesis by (intro that(1)) simp_all
  next
    case True
    show thesis
    proof (cases res)
      case (Inl e)
      with c have "db1 = db" by (auto elim: CreateTunnel_cases)
      with True Inl c assms Some dp that(1) show thesis by (cases e) (auto simp: h_CreateTunnel_def)
    next
      case (Inr r)
      with True c assms Some dp show thesis by (intro that(2) [of domain port r]) (auto simp: h_CreateTunnel_def)
    qed
  qed
qed

lemma create_inv:
  assumes "svc_inv s0 st" "same_config s0 s" "h_CreateTunnel s rnd uid req (tdb st) = (resp, db')"
  shows "svc_inv s0 (st\<lparr>tdb := db'\<rparr>)"
  using assms(3)
proof (cases rule: h_CreateTunnel_cases)
  case 1
  with assms(1) show ?thesis by simp
next
  case (2 domain port r)
  from 2(4) show ?thesis
  proof (cases rule: CreateTunnel_cases)
    case 3: (2 r' en dns)
    note w = save_tunnel_row [OF 3(2)]
    have "row_ok s r'"
      using w 2(3) 3(3,5) by (auto simp: row_ok_def)
    with assms w show ?thesis
      by (intro svc_inv_rows save_tunnel_inv [OF _ 3(2)])
         (auto simp: svc_inv_def list_all_iff row_ok_same [OF assms(2)])
  qed simp
qed

lemma UpdateTunnel_check:
  assumes "UpdateTunnel s uid tid (TunnelUpdate u) st = (res, st')"
  shows "tdb st' = tdb st \<or>
    (\<exists>cur u' r. repo_GetByID (s_faults s) (tdb st) tid = Inr cur \<and>
       check_update s uid tid cur u (tdb st) = Inr u' \<and> repo_Update (s_faults s) tid (TunnelUpdate u') (tdb st) = (r, tdb st'))"
proof (cases "repo_GetByID (s_faults s) (tdb st) tid")
  case (Inr cur)
  show ?thesis
  proof (cases "check_update s uid tid cur u (tdb st)")
    case (Inl e)
    with Inr assms show ?thesis by (simp add: UpdateTunnel_def)
  next
    case u': (Inr u')
    obtain res' db where "repo_Update (s_faults s) tid (TunnelUpdate u') (tdb st) = (res', db)" by force
    with assms Inr u' show ?thesis
      by (auto simp: UpdateTunnel_def split: sum.splits prod.splits option.splits)
  qed
qed (use assms in \<open>simp add: UpdateTunnel_def\<close>)

lemma UpdateTunnel_tdb:
  assumes "UpdateTunnel s uid tid (TunnelUpdate u) st = (res, st')"
  shows "tdb st' = tdb st \<or>
    (\<exists>u' r. (u_DNS u' = u_DNS u \<or> u_DNS u' = Some Verified) \<and> repo_Update (s_faults s) tid (TunnelUpdate u') (tdb st) = (r, tdb st'))"
proof -
  have "u_DNS u' = u_DNS u \<or> u_DNS u' = Some Verified" if "check_update s uid tid cur u (tdb st) = Inr u'" for cur u'
    using that by (auto simp: check_update_def Let_def split: option.splits if_splits)
  with UpdateTunnel_check [OF assms] show ?thesis by blast
qed

lemma h_UpdateTunnel_state:
  assumes "h_UpdateTunnel s uid idp req st = (resp, st')"
  shows "st' = st \<or> (\<exists>tid en port. st' = snd (UpdateTunnel s uid tid
     (TunnelUpdate \<lparr>u_IsEnabled = en, u_TargetPort = port, u_DNS = None\<rparr>) st))"
proof (cases "req = None \<or> ParseUint32 idp = None \<or> st' = st")
  case True
  with assms show ?thesis by (auto simp: h_UpdateTunnel_def split: option.splits if_splits)
next
  case False
  then obtain en port tid where r: "req = Some (en, port)" "ParseUint32 idp = Some tid" "st' \<noteq> st" by auto
  obtain res st1 where u: "UpdateTunnel s uid tid (TunnelUpdate \<lparr>u_IsEnabled = en, u_TargetPort = port, u_DNS = None\<rparr>) st = (res, st1)"
    by force
  have "st' = st1"
  proof (cases res)
    case (Inl e)
    with assms r u show ?thesis by (cases e) (auto simp: h_UpdateTunnel_def split: if_splits)
  next
    case (Inr t)
    with assms r u show ?thesis by (auto simp: h_UpdateTunnel_def split: if_splits)
  qed
  with u show ?thesis by (metis snd_conv)
qed

lemma h_DeleteTunnel_state:
  assumes "h_DeleteTunnel s uid idp st = (code, st')"
  shows "st' = st \<or> (\<exists>tid. st' = snd (DeleteTunnel s uid tid st))"
proof (cases "ParseUint32 idp")
  case (Some tid)
  obtain res st1 where d: "DeleteTunnel s uid tid st = (res, st1)" by force
  have "st' = st1"
  proof (cases res)
    case (Inl e)
    with assms Some d show ?thesis by (cases e) (auto simp: h_DeleteTunnel_def)
  next
    case (Inr t)
    with assms Some d show ?thesis by (auto simp: h_DeleteTunnel_def)
  qed
  with d show ?thesis by (metis snd_conv)
qed (use assms in \<open>simp add: h_DeleteTunnel_def\<close>)

lemma update_inv:
  assumes "svc_inv s0 st" "h_UpdateTunnel s uid idp req st = (resp, st')"
  shows "svc_inv s0 st'"
proof -
  have inv: "svc_inv s0 st1" if "UpdateTunnel s uid tid (TunnelUpdate \<lparr>u_IsEnabled = en, u_TargetPort = port, u_DNS = None\<rparr>) st = (res, st1)"
    for tid en port res st1
    using UpdateTunnel_tdb [OF that]
  proof
    assume "tdb st1 = tdb st"
    with assms(1) show ?thesis by (simp add: svc_inv_def)
  next
    assume "\<exists>u' r. (u_DNS u' = u_DNS \<lparr>u_IsEnabled = en, u_TargetPort = port, u_DNS = None\<rparr> \<or> u_DNS u' = Some Verified) \<and>
      repo_Update (s_faults s) tid (TunnelUpdate u') (tdb st) = (r, tdb st1)"
    then obtain u' r where "u_DNS u' = None \<or> u_DNS u' = Some Verified"
      "repo_Update (s_faults s) tid (TunnelUpdate u') (tdb st) = (r, tdb st1)" by auto
    then have u': "u_DNS u' \<noteq> Some PendingDNS" "repo_Update (s_faults s) tid (TunnelUpdate u') (tdb st) = (r, tdb st1)"
      by auto
    have "row_ok s0 x" if "x \<in> set (db_rows (tdb st1))" for x
      using repo_Update_rows [OF u'(2) that] assms(1) row_ok_update [OF _ u'(1)] by (auto simp: svc_inv_def list_all_iff)
    moreover have "db_inv (tdb st1)" using db_inv_Update [OF _ u'(2)] assms(1) by (simp add: svc_inv_def)
    ultimately show ?thesis by (simp add: svc_inv_def list_all_iff)
  qed
  show ?thesis
  proof (cases "st' = st")
    case False
    with h_UpdateTunnel_state [OF assms(2)] show ?thesis using inv by (metis prod.collapse)
  qed (simp add: assms(1))
qed

lemma delete_inv:
  assumes "svc_inv s0 st" "h_DeleteTunnel s uid idp st = (code, st')"
  shows "svc_inv s0 st'"
proof -
  have d: "svc_inv s0 (st1\<lparr>tdb := db\<rparr>)" if "svc_inv s0 st1" "repo_Delete (s_faults s) tid (tdb st1) = (res, db)" for st1 tid res db
    using that repo_Delete_rows [OF that(2)] db_inv_Delete [OF _ that(2)]
    by (intro svc_inv_rows) (auto simp: svc_inv_def list_all_iff)
  have D: "svc_inv s0 st1" if e: "DeleteTunnel s uid tid st = (res, st1)" for tid res st1
  proof (cases "repo_GetByID (s_faults s) (tdb st) tid")
    case (Inr t)
    define st2 where "st2 = (case s_caddy s of
                        Some (do, _) \<Rightarrow>
                          if t_IsEnabled t \<and> t_ClientIP t \<noteq> []
                          then st\<lparr>proxy := snd (RemoveRoute do (t_Domain t) (proxy st))\<rparr> else st
                      | None \<Rightarrow> st)"
    have "svc_inv s0 st2" using assms(1) by (auto simp: st2_def split: option.split)
    moreover obtain r db where "repo_Delete (s_faults s) tid (tdb st2) = (r, db)" by force
    ultimately show ?thesis
      using e Inr d [of st2 tid r db] by (auto simp: DeleteTunnel_def st2_def [symmetric] split: sum.splits)
  qed (use e assms(1) in \<open>simp add: DeleteTunnel_def\<close>)
  show ?thesis
    using h_DeleteTunnel_state [OF assms(2)] assms(1) D by (metis prod.collapse)
qed

lemma client_ip_inv:
  assumes "svc_inv s0 st" "UpdateClientIP s tid ip st = (res, st')"
  shows "svc_inv s0 st'"
proof (cases "repo_GetByID (s_faults s) (tdb st) tid")
  case (Inr t)
  obtain r db where e: "repo_UpdateClientIP (s_faults s) tid ip (tdb st) = (r, db)" by force
  have "row_ok s0 x" if "x \<in> set (db_rows db)" for x
    using repo_UpdateClientIP_rows [OF e that] assms(1) by (auto simp: svc_inv_def list_all_iff row_ok_client_ip)
  then have "svc_inv s0 (st\<lparr>tdb := db\<rparr>)"
    using assms(1) db_inv_UpdateClientIP [OF _ e] by (intro svc_inv_rows) (auto simp: svc_inv_def)
  moreover from this have "svc_inv s0 (st\<lparr>tdb := db, proxy := c\<rparr>)" for c by simp
  ultimately show ?thesis
    using assms(2) Inr e
    by (auto simp: UpdateClientIP_def Let_def split: sum.splits option.splits prod.splits caddy_error.splits)
qed (use assms in \<open>simp add: UpdateClientIP_def\<close>)

lemma verifyTunnels_noop: "svc_inv s0 st \<Longrightarrow> snd (verifyTunnels s st) = st"
proof -
  assume "svc_inv s0 st"
  then have "filter (\<lambda>t. t_DNS t = PendingDNS \<and> \<not> t_IsEnabled t) (db_rows (tdb st)) = []"
    by (auto simp: svc_inv_def list_all_iff row_ok_def filter_empty_conv)
  then show ?thesis by (simp only: verifyTunnels_def verify_loop.simps split: if_split) simp
qed

definition svc_init :: "'c svc_state \<Rightarrow> bool" where
  "svc_init st \<longleftrightarrow> db_rows (tdb st) = []"

text \<open>
  The configuration \<open>s0\<close> is fixed when the server starts; the answers of the resolvers, the proxy
  and the database differ from call to call.
\<close>

inductive svc_step :: "'c tunnel_service \<Rightarrow> 'c svc_state \<Rightarrow> 'c svc_state \<Rightarrow> bool" for s0 where
  step_create: "same_config s0 s \<Longrightarrow> h_CreateTunnel s rnd uid req (tdb st) = (resp, db') \<Longrightarrow>
     svc_step s0 st (st\<lparr>tdb := db'\<rparr>)"
| step_update: "same_config s0 s \<Longrightarrow> h_UpdateTunnel s uid idp req' st = (resp', st') \<Longrightarrow> svc_step s0 st st'"
| step_delete: "same_config s0 s \<Longrightarrow> h_DeleteTunnel s uid idp st = (code, st') \<Longrightarrow> svc_step s0 st st'"
| step_client_ip: "same_config s0 s \<Longrightarrow> UpdateClientIP s tid ip st = (res, st') \<Longrightarrow> svc_step s0 st st'"
| step_monitor: "same_config s0 s \<Longrightarrow> svc_step s0 st (snd (verifyTunnels s st))"
| step_time: "svc_step s0 st (st\<lparr>tdb := (tdb st)\<lparr>db_clock := t\<rparr>\<rparr>)"

lemma svc_inv_time: "svc_inv s0 st \<Longrightarrow> svc_inv s0 (st\<lparr>tdb := (tdb st)\<lparr>db_clock := t\<rparr>\<rparr>)"
  by (simp add: svc_inv_def db_inv_def)

lemma svc_step_inv: "svc_step s0 st st' \<Longrightarrow> svc_inv s0 st \<Longrightarrow> svc_inv s0 st'"
  by (induction rule: svc_step.induct)
     (auto intro: create_inv update_inv delete_inv client_ip_inv svc_inv_time simp: verifyTunnels_noop)

lemma svc_init_inv: "svc_init st \<Longrightarrow> svc_inv s0 st"
  by (simp add: svc_init_def svc_inv_def db_inv_def keyed_def)

interpretation svc: transition_system svc_init "svc_step s0" "svc_inv s0" for s0
  by unfold_locales (rule svc_init_inv svc_step_inv; assumption)+

section \<open>Properties\<close>

text \<open>
  C19. Whatever requests the API serves, every tunnel of the table has a valid domain that is not
  reserved, no two tunnels share a domain, and a tunnel under the base domain carries the subdomain
  generated for its owner, so that a user has at most one of them.
\<close>

theorem tunnel_table_sound:
  assumes "reach svc_init (svc_step s) st" "r \<in> set (db_rows (tdb st))" "r' \<in> set (db_rows (tdb st))"
  shows "IsValidDomain (t_Domain r) \<and> \<not> isReservedDomain s (t_Domain r) \<and>
    (t_Domain r = t_Domain r' \<longrightarrow> r = r') \<and>
    (IsAutoGeneratedDomain (s_env s) (t_Domain r) \<longrightarrow>
       t_Domain r = GenerateSubdomainForUser (s_hmac s) (s_env s) (t_UserID r)) \<and>
    (IsAutoGeneratedDomain (s_env s) (t_Domain r) \<and> IsAutoGeneratedDomain (s_env s) (t_Domain r') \<and>
       t_UserID r = t_UserID r' \<longrightarrow> r = r')"
proof -
  have inv: "svc_inv s st" using svc.reach_invar [OF assms(1)] .
  then have ok: "row_ok s r" "row_ok s r'" using assms(2,3) by (auto simp: svc_inv_def list_all_iff)
  have "t_Domain r = t_Domain r' \<Longrightarrow> r = r'"
    using inv assms(2,3) by (auto simp: svc_inv_def db_inv_def keyed_def distinct_map inj_on_def)
  with ok show ?thesis by (auto simp: row_ok_def)
qed

text \<open>
  A tunnel waiting for its DNS records is never activated by the background task: the repository
  drops the status \<open>pending_dns\<close> when it creates the row, so that in every reachable state the monitor
  finds nothing to verify and changes nothing.
\<close>

theorem dns_monitor_never_acts:
  assumes "reach svc_init (svc_step s) st"
  shows "snd (verifyTunnels s' st) = st"
  by (rule verifyTunnels_noop [OF svc.reach_invar [OF assms]])

text \<open>
  C37. What a successful \<open>CreateTunnel\<close> means: the row is in the table under its domain and owner with
  the requested port, which no other tunnel of the owner had; the token is the encoding of the random
  bytes; the tunnel is enabled exactly if its domain is generated, or DNS is not checked, or the domain
  resolves to the server; and the TLS check approves the domain exactly if the tunnel is enabled.
\<close>

theorem create_tunnel_correct:
  assumes "svc_inv s st" "CreateTunnel s rnd uid domain port (tdb st) = (Inr r, db')" "\<not> s_faults s OpGetByDomain"
  shows "repo_GetByDomain (s_faults s) db' domain = Inr r \<and> t_UserID r = uid \<and> t_TargetPort r = port \<and>
    generateToken rnd = Some (t_Token r) \<and>
    (\<forall>t \<in> set (db_rows (tdb st)). t_UserID t = uid \<longrightarrow> t_TargetPort t \<noteq> port) \<and>
    (t_IsEnabled r \<longleftrightarrow> IsAutoGeneratedDomain (s_env s) domain \<or> s_ServerIP s = [] \<or> dnsVerified s domain) \<and>
    (CheckDomain s domain db' = 200 \<longleftrightarrow> t_IsEnabled r)"
  using assms(2)
proof (cases rule: CreateTunnel_cases)
  case (2 r' en dns)
  note w = save_tunnel_row [OF 2(2)]
  have inv: "db_inv db'" using save_tunnel_inv [OF _ 2(2)] assms(1) by (simp add: svc_inv_def)
  have g: "repo_GetByDomain (s_faults s) db' domain = Inr r"
    using 2(1) w repo_GetByDomain_Inr [of db' "s_faults s" domain r] inv assms(3) by simp
  then have "CheckDomain s domain db' = 200 \<longleftrightarrow> t_IsEnabled r" using w by (simp add: CheckDomain_def)
  with g w 2 show ?thesis by auto
qed simp

text \<open>
  A creation request without a domain never succeeds, although the handler documents that a
  subdomain is generated then: the table is unchanged and the status is not 201.
\<close>

theorem create_without_domain_fails:
  "fst (fst (h_CreateTunnel s rnd uid (Some ([], port)) db)) \<noteq> 201 \<and> snd (h_CreateTunnel s rnd uid (Some ([], port)) db) = db"
proof -
  obtain resp db' where h: "h_CreateTunnel s rnd uid (Some ([], port)) db = (resp, db')" by (rule prod.exhaust)
  then have "fst resp \<noteq> 201 \<and> db' = db"
  proof (cases rule: h_CreateTunnel_cases)
    case (2 domain p r)
    from 2(4) show ?thesis
    proof (cases rule: CreateTunnel_cases)
      case 3: (2 r' en dns)
      with save_tunnel_row [OF 3(2)] 2(1) show ?thesis by simp
    qed simp
  qed simp
  with h show ?thesis by simp
qed

definition effective_base :: "'c tunnel_service \<Rightarrow> bool" where
  "effective_base s \<longleftrightarrow> s_BaseDomain s = [] \<or> s_BaseDomain s = GetBaseDomain (s_env s)"

lemma generated_not_reserved:
  assumes "effective_base s"
  shows "\<not> isReservedDomain s (GenerateSubdomainForUser (s_hmac s) (s_env s) uid)"
proof -
  define l b where "l = subdomain_label (s_hmac s (getSubdomainSecret (s_env s)) (PutUint32 uid))" and "b = GetBaseDomain (s_env s)"
  have "length (filter (\<lambda>c. c = CHR ''-'') l) = 2" unfolding l_def by (rule two_hyphens)
  then have n: "l \<noteq> ''www''" "l \<noteq> ''api''" "l \<noteq> ''tunnel''" by auto
  have "l @ ''.'' @ b \<noteq> b" "l @ ''.'' @ b \<noteq> ''www.'' @ b" "l @ ''.'' @ b \<noteq> ''api.'' @ b" "l @ ''.'' @ b \<noteq> ''tunnel.'' @ b"
    using n append_same_eq [of "l @ ''.''" b "''www.''"] append_same_eq [of "l @ ''.''" b "''api.''"]
      append_same_eq [of "l @ ''.''" b "''tunnel.''"] append1_eq_conv [of l "CHR ''.''" "''www''"]
      append1_eq_conv [of l "CHR ''.''" "''api''"] append1_eq_conv [of l "CHR ''.''" "''tunnel''"]
    by (auto simp del: append_same_eq append1_eq_conv)
  then show ?thesis
    using assms
    by (auto simp: isReservedDomain_def effective_base_def GenerateSubdomainForUser_def Let_def l_def b_def)
qed

text \<open>
  The subdomain that \<open>GetFreeSubdomain\<close> offers as available can be created: if the database and the
  random source work, no other account holds the same generated domain, the token is fresh and the
  port is unused by the user, then \<open>CreateTunnel\<close> succeeds with it and the tunnel is enabled at once.
\<close>

theorem free_subdomain_creatable:
  assumes "effective_base s" "GetFreeSubdomain s uid db = Inr (d, True)"
    and "generateToken rnd = Some tok" "tok \<noteq> []" "tok \<notin> t_Token ` set (db_rows db)" "\<not> s_faults s OpCreate"
    and "d \<notin> t_Domain ` set (db_rows db)" "port > 0"
    and "\<forall>t \<in> set (db_rows db). t_UserID t = uid \<longrightarrow> t_TargetPort t \<noteq> port"
  shows "\<exists>r db'. CreateTunnel s rnd uid d port db = (Inr r, db') \<and> t_Domain r = d \<and> t_IsEnabled r"
proof -
  obtain ts where ts: "repo_GetByUserID (s_faults s) db uid = Inr ts"
    and d: "d = GenerateSubdomainForUser (s_hmac s) (s_env s) uid"
    and na: "\<forall>t \<in> set ts. \<not> IsAutoGeneratedDomain (s_env s) (t_Domain t)"
    using assms(2) by (auto simp: GetFreeSubdomain_def find_None_iff split: sum.splits option.splits)
  have auto: "IsAutoGeneratedDomain (s_env s) d" "d \<noteq> []"
    using HasSuffix_append [of "subdomain_label (s_hmac s (getSubdomainSecret (s_env s)) (PutUint32 uid))" "''.'' @ GetBaseDomain (s_env s)"]
    by (simp_all add: d IsAutoGeneratedDomain_def GenerateSubdomainForUser_def)
  have "CreateTunnel s rnd uid d port db = save_tunnel s rnd uid d port True Verified db"
    using generated_not_reserved [OF assms(1), of uid] ts na auto assms(9) repo_GetByUserID_set [OF ts]
    by (auto simp: CreateTunnel_def d [symmetric] list_ex_iff)
  also have "\<exists>r db'. \<dots> = (Inr r, db') \<and> t_Domain r = d \<and> t_IsEnabled r"
    using assms(3-8) auto by (simp add: save_tunnel_def repo_Create_def new_tunnel_def Let_def)
  finally show ?thesis .
qed

text \<open>
  No tenant isolation in the API: a user who does not own a tunnel deletes it with the ordinary
  delete request (status 204), and the row is gone.
\<close>

theorem foreign_tunnel_deleted:
  assumes "svc_inv s st" "r \<in> set (db_rows (tdb st))" "t_UserID r \<noteq> uid"
    and "ParseUint32 idp = Some tid" "unat tid = t_ID r" "\<not> s_faults s OpGetByID" "\<not> s_faults s OpDelete"
  shows "fst (h_DeleteTunnel s uid idp st) = 204 \<and> r \<notin> set (db_rows (tdb (snd (h_DeleteTunnel s uid idp st))))"
proof -
  have inv: "db_inv (tdb st)" using assms(1) by (simp add: svc_inv_def)
  then have d: "distinct (map t_ID (db_rows (tdb st)))" by (simp add: db_inv_def keyed_def)
  have g: "repo_GetByID (s_faults s) (tdb st) tid = Inr r"
    using assms(2,5,6) ent_Only_key [OF d] by (simp add: repo_GetByID_def)
  have "filter (\<lambda>x. t_ID x = t_ID r) (db_rows (tdb st)) = [r]" by (rule filter_key_distinct [OF d assms(2)])
  then have del: "repo_Delete (s_faults s) tid db = (Inr (), db\<lparr>db_rows := filter (\<lambda>x. t_ID x \<noteq> t_ID r) (db_rows db)\<rparr>)"
    if "db = tdb st" for db
    using assms(5,7) that by (simp add: repo_Delete_def ent_DeleteOneID_def)
  define st1 where "st1 = (case s_caddy s of
       Some (do, _) \<Rightarrow> if t_IsEnabled r \<and> t_ClientIP r \<noteq> []
         then st\<lparr>proxy := snd (RemoveRoute do (t_Domain r) (proxy st))\<rparr> else st
     | None \<Rightarrow> st)"
  have "tdb st1 = tdb st" by (simp add: st1_def split: option.split prod.split)
  then have "DeleteTunnel s uid tid st =
      (Inr (), st1\<lparr>tdb := (tdb st)\<lparr>db_rows := filter (\<lambda>x. t_ID x \<noteq> t_ID r) (db_rows (tdb st))\<rparr>\<rparr>)"
    using g del [of "tdb st"] by (simp add: DeleteTunnel_def st1_def [symmetric])
  then show ?thesis using assms(4) by (simp add: h_DeleteTunnel_def)
qed

section \<open>Ports of a user\<close>

definition ports_unique :: "tunnel_db \<Rightarrow> bool" where
  "ports_unique db \<longleftrightarrow>
     (\<forall>r \<in> set (db_rows db). \<forall>r' \<in> set (db_rows db).
        t_UserID r = t_UserID r' \<and> t_TargetPort r = t_TargetPort r' \<longrightarrow> t_ID r = t_ID r')"

lemma check_update_port:
  assumes "check_update s uid tid cur u db = Inr u'" "u_TargetPort u' = Some p" "p \<noteq> t_TargetPort cur"
    and "t \<in> set (db_rows db)" "t_UserID t = uid" "t_TargetPort t = p"
  shows "t_ID t = unat tid"
proof -
  have u: "u_TargetPort u = Some p"
    using assms(1,2) by (auto simp: check_update_def Let_def split: option.splits if_splits)
  obtain ts where ts: "repo_GetByUserID (s_faults s) db uid = Inr ts"
    using assms(1,3) u by (cases "repo_GetByUserID (s_faults s) db uid") (auto simp: check_update_def)
  then have "\<not> list_ex (\<lambda>t. t_ID t \<noteq> unat tid \<and> t_TargetPort t = p) ts"
    using assms(1,3) u by (auto simp: check_update_def)
  with repo_GetByUserID_set [OF ts] assms(4-6) show ?thesis by (auto simp: list_ex_iff)
qed

lemma ports_unique_create:
  assumes "ports_unique db"
  shows "ports_unique (snd (CreateTunnel s rnd uid domain port db))"
proof -
  obtain res db' where c: "CreateTunnel s rnd uid domain port db = (res, db')" by force
  then show ?thesis
  proof (cases rule: CreateTunnel_cases)
    case 1
    with c assms show ?thesis by simp
  next
    case (2 r en dns)
    have w: "set (db_rows db') = insert r (set (db_rows db))" "t_UserID r = uid" "t_TargetPort r = port"
      using save_tunnel_row [OF 2(2)] by auto
    have "t_ID a = t_ID b" if ab: "a = r \<or> a \<in> set (db_rows db)" "b = r \<or> b \<in> set (db_rows db)"
      "t_UserID a = t_UserID b" "t_TargetPort a = t_TargetPort b" for a b
      using ab 2(4) w(2,3) assms [unfolded ports_unique_def] by metis
    then show ?thesis unfolding c snd_conv ports_unique_def w(1) by blast
  qed
qed

text \<open>One row is replaced by a row of the same id and owner whose port does not clash.\<close>

lemma ports_unique_replace:
  assumes "ports_unique db" "cur \<in> set (db_rows db)" "t_ID n = t_ID cur" "t_UserID n = t_UserID cur"
    and clash: "\<And>y. y \<in> set (db_rows db) \<Longrightarrow> t_UserID y = t_UserID cur \<Longrightarrow> t_TargetPort y = t_TargetPort n \<Longrightarrow>
      t_ID y = t_ID cur"
    and rows: "\<And>x. x \<in> set (db_rows db') \<Longrightarrow> x \<in> set (db_rows db) \<or> x = n"
  shows "ports_unique db'"
proof -
  have old: "t_ID a = t_ID b" if "a \<in> set (db_rows db)" "b \<in> set (db_rows db)"
    "t_UserID a = t_UserID b" "t_TargetPort a = t_TargetPort b" for a b
    using assms(1) that unfolding ports_unique_def by blast
  have "t_ID x = t_ID y" if x: "x \<in> set (db_rows db) \<or> x = n" and y: "y \<in> set (db_rows db) \<or> y = n"
    and e: "t_UserID x = t_UserID y" "t_TargetPort x = t_TargetPort y" for x y
    using x y
  proof (elim disjE)
    assume "x \<in> set (db_rows db)" "y \<in> set (db_rows db)"
    then show ?thesis by (rule old [OF _ _ e])
  next
    assume "x \<in> set (db_rows db)" "y = n"
    then show ?thesis using clash [of x] e assms(3,4) by metis
  next
    assume "x = n" "y \<in> set (db_rows db)"
    then show ?thesis using clash [of y] e assms(3,4) by metis
  qed simp
  with rows show ?thesis unfolding ports_unique_def by blast
qed

lemma ports_unique_update:
  assumes inv: "svc_inv s st" and pu: "ports_unique (tdb st)"
    and own: "\<forall>r \<in> set (db_rows (tdb st)). t_ID r = unat tid \<longrightarrow> t_UserID r = uid"
  shows "ports_unique (tdb (snd (UpdateTunnel s uid tid (TunnelUpdate u) st)))"
proof -
  obtain res st' where up: "UpdateTunnel s uid tid (TunnelUpdate u) st = (res, st')" by force
  consider "tdb st' = tdb st" | cur u' r where "repo_GetByID (s_faults s) (tdb st) tid = Inr cur"
    "check_update s uid tid cur u (tdb st) = Inr u'" "repo_Update (s_faults s) tid (TunnelUpdate u') (tdb st) = (r, tdb st')"
    using UpdateTunnel_check [OF up] by blast
  then have "ports_unique (tdb st')"
  proof cases
    case 1
    with pu show ?thesis by simp
  next
    case c: 2
    let ?n = "apply_update (db_clock (tdb st), u') cur"
    have cur: "cur \<in> set (db_rows (tdb st))" "t_ID cur = unat tid" using repo_GetByID_Inr [OF c(1)] by auto
    have eq_cur: "x = cur" if "x \<in> set (db_rows (tdb st))" "t_ID x = unat tid" for x
      using inv cur that by (auto simp: svc_inv_def db_inv_def keyed_def distinct_map inj_on_def)
    show ?thesis
    proof (rule ports_unique_replace [OF pu cur(1), of ?n])
      fix y
      assume y: "y \<in> set (db_rows (tdb st))" "t_UserID y = t_UserID cur" "t_TargetPort y = t_TargetPort ?n"
      show "t_ID y = t_ID cur"
      proof (cases "t_TargetPort y = t_TargetPort cur")
        case True
        then show ?thesis using y cur pu [unfolded ports_unique_def] by metis
      next
        case False
        then obtain p where "u_TargetPort u' = Some p" "t_TargetPort y = p"
          using y(3) by (auto simp: apply_update_def split: option.splits)
        then show ?thesis using check_update_port [OF c(2) _ _ y(1)] False own cur y(2) by metis
      qed
    next
      fix x
      assume "x \<in> set (db_rows (tdb st'))"
      then show "x \<in> set (db_rows (tdb st)) \<or> x = ?n" using repo_Update_rows [OF c(3)] eq_cur by blast
    qed simp_all
  qed
  with up show ?thesis by simp
qed

text \<open>
  The ports of a user's tunnels stay pairwise different under \<open>CreateTunnel\<close>, and under
  \<open>UpdateTunnel\<close> when the caller owns the tunnel.
\<close>

theorem ports_stay_unique:
  assumes "svc_inv s st" "ports_unique (tdb st)"
  shows "ports_unique (snd (CreateTunnel s rnd uid domain port (tdb st))) \<and>
    ((\<forall>r \<in> set (db_rows (tdb st)). t_ID r = unat tid \<longrightarrow> t_UserID r = uid) \<longrightarrow>
       ports_unique (tdb (snd (UpdateTunnel s uid tid (TunnelUpdate u) st))))"
  using ports_unique_create ports_unique_update assms by blast

section \<open>Witnesses\<close>

definition demo_service :: "nat tunnel_service" where
  "demo_service =
     \<lparr>s_env = (\<lambda>k. if k = ''BASE_DOMAIN'' then ''g.io'' else []), s_hmac = (\<lambda>_ _. replicate 32 0),
      s_BaseDomain = ''g.io'', s_ServerIP = ''1.2.3.4'', s_resolve = (\<lambda>_ _. None), s_caddy = None,
      s_faults = (\<lambda>_. False)\<rparr>"

definition empty_db :: tunnel_db where
  "empty_db = \<lparr>db_rows = [], db_next_id = 1, db_clock = 0\<rparr>"

definition demo_row :: tunnel_row where
  "demo_row = \<lparr>t_ID = 1, t_Domain = ''my.org'', t_Token = ''0707'', t_ClientIP = [], t_IsEnabled = False,
     t_DNS = Verified, t_TargetPort = 80, t_UserID = 5, t_CreatedAt = 0, t_UpdatedAt = 0\<rparr>"

definition demo_db :: tunnel_db where
  "demo_db = \<lparr>db_rows = [demo_row], db_next_id = 2, db_clock = 0\<rparr>"

lemma valid_my_org: "IsValidDomain ''my.org''"
  unfolding IsValidDomain_iff domain_ok_def
  by (intro conjI exI [of _ "[''my'']"] exI [of _ "''org''"])
     (simp_all add: label_ok_def is_alnum_hyphen_def is_alnum_def is_alpha_def)

lemma demo_token: "generateToken (Some [7, 7]) = Some ''0707''"
  by code_simp

lemma demo_create:
  "CreateTunnel demo_service (Some [7, 7]) 5 ''my.org'' 80 empty_db = (Inr demo_row, demo_db)"
  by (simp add: CreateTunnel_def demo_service_def isReservedDomain_def GetBaseDomain_def repo_GetByUserID_def empty_db_def
      IsAutoGeneratedDomain_def HasSuffix_def dnsVerified_def LookupHostGlobal_def save_tunnel_def demo_token
      Let_def repo_Create_def new_tunnel_def demo_row_def demo_db_def numeral_2_eq_2)

lemma demo_reach_svc: "reach svc_init (svc_step demo_service) \<lparr>tdb = demo_db, proxy = 0\<rparr>"
proof -
  have "h_CreateTunnel demo_service (Some [7, 7]) 5 (Some (''my.org'', 80)) empty_db
    = ((201, Some (TunnelToCreateResponse demo_row)), demo_db)"
    using valid_my_org demo_create by (simp add: h_CreateTunnel_def bind_port_def)
  then have "svc_step demo_service \<lparr>tdb = empty_db, proxy = 0\<rparr> \<lparr>tdb = demo_db, proxy = 0\<rparr>"
    using step_create [of demo_service demo_service "Some [7, 7]" 5 "Some (''my.org'', 80)" "\<lparr>tdb = empty_db, proxy = 0\<rparr>"]
    by (simp add: same_config_def)
  moreover have "reach svc_init (svc_step demo_service) \<lparr>tdb = empty_db, proxy = 0\<rparr>"
    by (rule reach_init) (simp add: svc_init_def empty_db_def)
  ultimately show ?thesis by (rule reach_step [rotated])
qed

theorem tunnel_table_sound_witness:
  "IsValidDomain (t_Domain demo_row) \<and> \<not> isReservedDomain demo_service (t_Domain demo_row)"
  using tunnel_table_sound [OF demo_reach_svc, of demo_row demo_row] by (simp add: demo_db_def)

theorem dns_monitor_never_acts_witness:
  "snd (verifyTunnels demo_service \<lparr>tdb = demo_db, proxy = 0\<rparr>) = \<lparr>tdb = demo_db, proxy = 0\<rparr> \<and> \<not> t_IsEnabled demo_row"
  using dns_monitor_never_acts [OF demo_reach_svc] by (simp add: demo_row_def)

theorem create_tunnel_correct_witness:
  "repo_GetByDomain (\<lambda>_. False) demo_db ''my.org'' = Inr demo_row \<and> CheckDomain demo_service ''my.org'' demo_db = 404"
proof -
  have "svc_inv demo_service \<lparr>tdb = empty_db, proxy = 0\<rparr>"
    by (rule svc_init_inv) (simp add: svc_init_def empty_db_def)
  from create_tunnel_correct [OF this, of "Some [7, 7]" 5 "''my.org''" 80 demo_row demo_db] demo_create
  show ?thesis by (simp add: demo_service_def CheckDomain_def demo_row_def)
qed

theorem free_subdomain_creatable_witness:
  "\<exists>r db'. CreateTunnel demo_service (Some [7, 7]) 5 (GenerateSubdomainForUser (\<lambda>_ _. replicate 32 0) (s_env demo_service) 5) 80 empty_db
     = (Inr r, db') \<and> t_IsEnabled r"
proof -
  let ?d = "GenerateSubdomainForUser (\<lambda>_ _. replicate 32 0) (s_env demo_service) 5"
  have "\<exists>r db'. CreateTunnel demo_service (Some [7, 7]) 5 ?d 80 empty_db = (Inr r, db') \<and> t_Domain r = ?d \<and> t_IsEnabled r"
    by (rule free_subdomain_creatable [where tok = "''0707''"])
       (simp_all add: demo_service_def effective_base_def GetBaseDomain_def GetFreeSubdomain_def repo_GetByUserID_def
          empty_db_def demo_token)
  then show ?thesis by blast
qed

theorem foreign_tunnel_deleted_witness:
  "fst (h_DeleteTunnel demo_service 6 ''1'' \<lparr>tdb = demo_db, proxy = 0\<rparr>) = 204"
proof -
  have "svc_inv demo_service \<lparr>tdb = demo_db, proxy = 0\<rparr>" by (rule svc.reach_invar [OF demo_reach_svc])
  from foreign_tunnel_deleted [OF this, of demo_row 6 "''1''" 1] show ?thesis
    by (simp add: demo_db_def demo_row_def demo_service_def ParseUint32_def is_digit_def dec_value_def digit_val_def)
qed

theorem ports_stay_unique_witness:
  "ports_unique (snd (CreateTunnel demo_service (Some [8]) 5 ''b.org'' 81 demo_db)) \<and>
   ports_unique (tdb (snd (UpdateTunnel demo_service 5 1
     (TunnelUpdate \<lparr>u_IsEnabled = None, u_TargetPort = Some 90, u_DNS = None\<rparr>) \<lparr>tdb = demo_db, proxy = 0\<rparr>)))"
proof -
  let ?st = "\<lparr>tdb = demo_db, proxy = 0\<rparr>"
  have "svc_inv demo_service ?st" by (rule svc.reach_invar [OF demo_reach_svc])
  moreover have "ports_unique (tdb ?st)" by (simp add: ports_unique_def demo_db_def)
  ultimately show ?thesis
    using ports_stay_unique [of demo_service ?st "Some [8]" 5 "''b.org''" 81 1] by (simp add: demo_db_def demo_row_def)
qed

end
