(* ===== verification/Version.thy ===== *)
theory Version
  imports Go_Base
begin

text \<open>
  Version comparison of \<open>internal/version/version.go\<close>. Releases, that is versions made of numbers and
  dots with an optional leading \<open>v\<close>, are totally preordered by their numbers; for development builds the
  comparison is not an order.
\<close>

section \<open>Definitions\<close>

definition last_part :: "string \<Rightarrow> string" where
  "last_part version = last (Split version ''.'')"

definition extractCommitFromVersion :: "string \<Rightarrow> string" where
  "extractCommitFromVersion version =
     (if HasPrefix version ''dev-'' then TrimPrefix version ''dev-''
      else if Contains version ''-stable.'' then last_part version
      else if Contains version ''-test.'' then last_part version
      else [])"

definition extractCommitHash :: "string \<Rightarrow> string" where
  "extractCommitHash version =
     (let from_g = (if HasPrefix version ''test-'' then
                      (case LastIndex version ''-g'' of
                         Some idx \<Rightarrow> if idx + 2 < length version then Some (drop (idx + 2) version) else None
                       | None \<Rightarrow> None)
                    else None);
          from_segment = (if HasPrefix version ''test-'' \<and> length (Split version ''-'') > 1
                          then Some (Split version ''-'' ! 1) else None)
      in case from_g of
           Some h \<Rightarrow> h
         | None \<Rightarrow>
             (case from_segment of
                Some h \<Rightarrow> h
              | None \<Rightarrow> if Contains version ''-test.'' then last_part version else []))"

definition parseVersionPart :: "string \<Rightarrow> int" where
  "parseVersionPart part =
     (let ds = takeWhile is_digit part
      in if ds = [] then 0 else case ParseInt64 ds of Some num \<Rightarrow> num | None \<Rightarrow> 0)"

fun compare_parts :: "(string \<times> string) list \<Rightarrow> int" where
  "compare_parts [] = 0"
| "compare_parts ((p1, p2) # ps) =
     (let num1 = parseVersionPart p1; num2 = parseVersionPart p2
      in if num1 < num2 then -1 else if num1 > num2 then 1 else compare_parts ps)"

definition pad_parts :: "nat \<Rightarrow> string list \<Rightarrow> string list" where
  "pad_parts maxLen parts = parts @ replicate (maxLen - length parts) ''0''"

definition is_dev :: "string \<Rightarrow> bool" where
  "is_dev v \<longleftrightarrow> v = ''dev'' \<or> v = ''unknown'' \<or> HasPrefix v ''dev-''"

definition is_pre :: "string \<Rightarrow> bool" where
  "is_pre v \<longleftrightarrow> Contains v ''-test'' \<or> HasPrefix v ''test-''"

definition compare_numeric :: "string \<Rightarrow> string \<Rightarrow> int" where
  "compare_numeric v1 v2 =
     (let parts1 = Split v1 ''.''; parts2 = Split v2 ''.''; maxLen = max (length parts1) (length parts2)
      in compare_parts (zip (pad_parts maxLen parts1) (pad_parts maxLen parts2)))"

definition CompareVersions :: "string \<Rightarrow> string \<Rightarrow> int" where
  "CompareVersions w1 w2 =
     (let v1 = TrimPrefix w1 ''v''; v2 = TrimPrefix w2 ''v'';
          c1 = extractCommitFromVersion v1; c2 = extractCommitFromVersion v2;
          legacy1 = Contains v1 ''-stable.''; legacy2 = Contains v2 ''-stable.'';
          h1 = extractCommitHash v1; h2 = extractCommitHash v2
      in if v1 = v2 then 0
         else if c1 \<noteq> [] \<and> c2 \<noteq> [] \<and> c1 = c2 then 0
         else if legacy1 \<and> legacy2 \<and> hd (Split v1 ''-stable.'') = hd (Split v2 ''-stable.'') then 0
         else if \<not> legacy1 \<and> legacy2 \<and> c1 = [] then 1
         else if legacy1 \<and> \<not> legacy2 \<and> c2 = [] then -1
         else if is_dev v1 then -1
         else if is_dev v2 then 1
         else if is_pre v1 \<and> is_pre v2 then
           (if h1 \<noteq> [] \<and> h2 \<noteq> [] then (if h1 = h2 then 0 else -1)
            else if v1 = v2 then 0 else -1)
         else if h1 \<noteq> [] then -1
         else if h2 \<noteq> [] then 1
         else compare_numeric v1 v2)"

definition IsUpdateAvailable :: "string \<Rightarrow> string \<Rightarrow> bool" where
  "IsUpdateAvailable clientVersion serverVersion \<longleftrightarrow> CompareVersions clientVersion serverVersion < 0"

definition IsUpdateRequired :: "string \<Rightarrow> string \<Rightarrow> bool" where
  "IsUpdateRequired clientVersion minimumVersion =
     (if minimumVersion = [] \<or> minimumVersion = ''v0.0.0'' \<or> minimumVersion = ''0.0.0'' then False
      else CompareVersions clientVersion minimumVersion < 0)"

section \<open>Releases\<close>

definition plain :: "string \<Rightarrow> bool" where
  "plain w \<longleftrightarrow> list_all (\<lambda>c. is_digit c \<or> c = CHR ''.'') (TrimPrefix w ''v'')"

text \<open>Zero-padded lexicographic comparison of number lists.\<close>

fun cmp_nums :: "int list \<Rightarrow> int list \<Rightarrow> int" where
  "cmp_nums [] [] = 0"
| "cmp_nums (x # xs) [] = (if x < 0 then -1 else if x > 0 then 1 else cmp_nums xs [])"
| "cmp_nums [] (y # ys) = (if 0 < y then -1 else if 0 > y then 1 else cmp_nums [] ys)"
| "cmp_nums (x # xs) (y # ys) = (if x < y then -1 else if x > y then 1 else cmp_nums xs ys)"

definition nums :: "string \<Rightarrow> int list" where
  "nums w = map parseVersionPart (Split (TrimPrefix w ''v'') ''.'')"

lemma parse_zero [simp]: "parseVersionPart ''0'' = 0"
  by code_simp

lemma compare_parts_left:
  "compare_parts (zip xs (replicate (length xs) ''0'')) = cmp_nums (map parseVersionPart xs) []"
  by (induction xs) (auto simp: Let_def)

lemma compare_parts_right:
  "compare_parts (zip (replicate (length ys) ''0'') ys) = cmp_nums [] (map parseVersionPart ys)"
  by (induction ys) (auto simp: Let_def)

lemma compare_parts_padded:
  "compare_parts (zip (xs @ replicate (max (length xs) (length ys) - length xs) ''0'')
       (ys @ replicate (max (length xs) (length ys) - length ys) ''0''))
   = cmp_nums (map parseVersionPart xs) (map parseVersionPart ys)"
proof (induction xs ys rule: list_induct2')
  case (2 x xs)
  show ?case using compare_parts_left [of "x # xs"] by simp
next
  case (3 y ys)
  show ?case using compare_parts_right [of "y # ys"] by simp
next
  case (4 x xs y ys)
  then show ?case by (simp add: Let_def)
qed simp

lemma compare_numeric_nums:
  "compare_numeric (TrimPrefix w1 ''v'') (TrimPrefix w2 ''v'') = cmp_nums (nums w1) (nums w2)"
  by (simp add: compare_numeric_def pad_parts_def nums_def Let_def compare_parts_padded)

lemma cmp_nums_range: "cmp_nums xs ys \<in> {-1, 0, 1}"
  by (induction xs ys rule: cmp_nums.induct) auto

lemma cmp_nums_refl [simp]: "cmp_nums xs xs = 0"
  by (induction xs) auto

lemma cmp_nums_antisym: "cmp_nums ys xs = - cmp_nums xs ys"
  by (induction xs ys rule: cmp_nums.induct) auto

text \<open>A list and the list without its trailing zeros compare alike, so that the order can be
  studied on the values at each position.\<close>

definition at :: "int list \<Rightarrow> nat \<Rightarrow> int" where
  "at xs i = (if i < length xs then xs ! i else 0)"

lemma at_simps [simp]: "at [] i = 0" "at (x # xs) 0 = x" "at (x # xs) (Suc i) = at xs i"
  by (simp_all add: at_def)

lemma all_nat_Suc: "(\<forall>i. P i) \<longleftrightarrow> P 0 \<and> (\<forall>i. P (Suc i))"
  by (metis not0_implies_Suc)

lemma ex_less_Suc_split: "(\<exists>i. (\<forall>j < i. P j) \<and> Q i) \<longleftrightarrow> Q 0 \<or> (P 0 \<and> (\<exists>i. (\<forall>j < i. P (Suc j)) \<and> Q (Suc i)))"
proof
  assume "\<exists>i. (\<forall>j < i. P j) \<and> Q i"
  then obtain i where i: "\<forall>j < i. P j" "Q i" by blast
  show "Q 0 \<or> (P 0 \<and> (\<exists>i. (\<forall>j < i. P (Suc j)) \<and> Q (Suc i)))"
  proof (cases i)
    case (Suc k)
    then have "P 0" "(\<forall>j < k. P (Suc j)) \<and> Q (Suc k)" using i by auto
    then show ?thesis by blast
  qed (use i in simp)
next
  assume "Q 0 \<or> (P 0 \<and> (\<exists>i. (\<forall>j < i. P (Suc j)) \<and> Q (Suc i)))"
  then show "\<exists>i. (\<forall>j < i. P j) \<and> Q i"
  proof
    assume "P 0 \<and> (\<exists>i. (\<forall>j < i. P (Suc j)) \<and> Q (Suc i))"
    then obtain i where "P 0" "\<forall>j < i. P (Suc j)" "Q (Suc i)" by blast
    then show ?thesis by (intro exI [of _ "Suc i"]) (auto simp: less_Suc_eq_0_disj)
  qed auto
qed

lemma cmp_nums_neg: "cmp_nums xs ys = -1 \<longleftrightarrow> (\<exists>i. (\<forall>j < i. at xs j = at ys j) \<and> at xs i < at ys i)"
  by (induction xs ys rule: cmp_nums.induct; subst ex_less_Suc_split) auto

lemma cmp_nums_zero: "cmp_nums xs ys = 0 \<longleftrightarrow> (\<forall>i. at xs i = at ys i)"
  by (induction xs ys rule: cmp_nums.induct; subst all_nat_Suc) auto

lemma cmp_nums_cong:
  assumes "\<forall>i. at xs i = at ys i"
  shows "cmp_nums xs zs = cmp_nums ys zs"
proof -
  have "cmp_nums xs zs = -1 \<longleftrightarrow> cmp_nums ys zs = -1" "cmp_nums xs zs = 0 \<longleftrightarrow> cmp_nums ys zs = 0"
    using assms by (simp_all add: cmp_nums_neg cmp_nums_zero)
  then show ?thesis using cmp_nums_range [of xs zs] cmp_nums_range [of ys zs] by auto
qed

lemma cmp_nums_trans:
  assumes "cmp_nums xs ys \<le> 0" "cmp_nums ys zs \<le> 0"
  shows "cmp_nums xs zs \<le> 0"
proof (cases "cmp_nums xs ys = 0 \<or> cmp_nums ys zs = 0")
  case True
  then have "(\<forall>i. at xs i = at ys i) \<or> (\<forall>i. at ys i = at zs i)" by (simp add: cmp_nums_zero)
  then have "cmp_nums xs zs = cmp_nums ys zs \<or> cmp_nums zs xs = cmp_nums ys xs"
    using cmp_nums_cong [of xs ys zs] cmp_nums_cong [of zs ys xs] by auto
  with assms show ?thesis using cmp_nums_antisym [of xs zs] cmp_nums_antisym [of xs ys] by auto
next
  case False
  then have "cmp_nums xs ys = -1" "cmp_nums ys zs = -1"
    using assms cmp_nums_range [of xs ys] cmp_nums_range [of ys zs] by auto
  then obtain i k where i: "\<forall>j < i. at xs j = at ys j" "at xs i < at ys i"
    and k: "\<forall>j < k. at ys j = at zs j" "at ys k < at zs k" by (auto simp: cmp_nums_neg)
  have "(\<forall>j < min i k. at xs j = at zs j) \<and> at xs (min i k) < at zs (min i k)"
    using i k by (cases i k rule: linorder_cases) auto
  then have "cmp_nums xs zs = -1" unfolding cmp_nums_neg by blast
  then show ?thesis by simp
qed

lemma plain_no_hyphen: "plain w \<Longrightarrow> CHR ''-'' \<notin> set (TrimPrefix w ''v'') \<and> CHR ''d'' \<notin> set (TrimPrefix w ''v'')
    \<and> CHR ''t'' \<notin> set (TrimPrefix w ''v'') \<and> CHR ''u'' \<notin> set (TrimPrefix w ''v'')"
  by (auto simp: plain_def list_all_iff is_digit_def)

lemma not_Contains_char: "c \<notin> set s \<Longrightarrow> c \<in> set sub \<Longrightarrow> \<not> Contains s sub"
  by (auto simp: Contains_iff)

lemma not_HasPrefix_char: "c \<notin> set s \<Longrightarrow> c \<in> set p \<Longrightarrow> \<not> HasPrefix s p"
  by (auto simp: HasPrefix_iff)

lemma plain_special:
  assumes "plain w"
  defines "v \<equiv> TrimPrefix w ''v''"
  shows "extractCommitFromVersion v = []" "extractCommitHash v = []" "\<not> Contains v ''-stable.''"
    "\<not> is_dev v" "\<not> is_pre v"
proof -
  have n: "CHR ''-'' \<notin> set v" "CHR ''d'' \<notin> set v" "CHR ''t'' \<notin> set v" "CHR ''u'' \<notin> set v"
    using plain_no_hyphen [OF assms(1)] by (auto simp: v_def)
  have c: "\<not> Contains v ''-stable.''" "\<not> Contains v ''-test.''" "\<not> Contains v ''-test''"
    by (rule not_Contains_char [OF n(1)], simp)+
  have p: "\<not> HasPrefix v ''dev-''" "\<not> HasPrefix v ''test-''"
    by (rule not_HasPrefix_char [OF n(1)], simp)+
  show "\<not> Contains v ''-stable.''" by (rule c(1))
  show "extractCommitFromVersion v = []" using c p by (simp add: extractCommitFromVersion_def)
  show "extractCommitHash v = []" using c p by (simp add: extractCommitHash_def)
  show "\<not> is_dev v" using n p by (auto simp: is_dev_def)
  show "\<not> is_pre v" using c p by (auto simp: is_pre_def)
qed

lemma CompareVersions_plain:
  assumes "plain a" "plain b"
  shows "CompareVersions a b = cmp_nums (nums a) (nums b)"
proof -
  have "cmp_nums (nums a) (nums b) = 0" if "TrimPrefix a ''v'' = TrimPrefix b ''v''"
    using that by (simp add: nums_def)
  then show ?thesis
    using plain_special [OF assms(1)] plain_special [OF assms(2)] compare_numeric_nums [of a b]
    by (simp add: CompareVersions_def Let_def)
qed

text \<open>The text of a release from its numbers, and the value a release has at each position.\<close>

definition release :: "nat list \<Rightarrow> string" where
  "release ns = Join (map dec ns) ''.''"

definition part :: "nat list \<Rightarrow> nat \<Rightarrow> nat" where
  "part ns i = (if i < length ns then ns ! i else 0)"

lemma dec_chars: "set (dec n) \<subseteq> Collect is_digit"
  using dec_facts(2) [of n] by (auto simp: list_all_iff)

lemma parse_dec: "parseVersionPart (dec n) = (if n < 2 ^ 63 then int n else 0)"
proof -
  have all: "takeWhile is_digit (dec n) = dec n" using dec_chars [of n] by (auto simp: takeWhile_eq_all_conv)
  obtain c cs where c: "dec n = c # cs" using dec_facts(3) [of n] by (cases "dec n") auto
  then have "is_digit c" using dec_chars [of n] by auto
  then have sign: "c \<noteq> CHR ''-''" "c \<noteq> CHR ''+''" by (auto simp: is_digit_def)
  have "ParseInt64 (dec n) = (if n < 2 ^ 63 then Some (int n) else None)"
    using sign dec_facts [of n] by (simp add: ParseInt64_def c Let_def)
  then show ?thesis by (simp add: parseVersionPart_def all dec_facts(3))
qed

lemma Split_release: "ns \<noteq> [] \<Longrightarrow> Split (release ns) ''.'' = map dec ns"
proof (induction ns)
  case (Cons n ns)
  have dot: "CHR ''.'' \<notin> set (dec n)" using dec_chars [of n] by (auto simp: is_digit_def)
  show ?case
  proof (cases "ns = []")
    case True
    then show ?thesis using Split_absent [OF dot] by (simp add: release_def)
  next
    case False
    then show ?thesis using Cons.IH Split_char [OF dot, of "release ns"] by (simp add: release_def Join_Cons)
  qed
qed simp

lemma release_chars: "set (release ns) \<subseteq> Collect is_digit \<union> {CHR ''.''}"
proof (induction ns)
  case (Cons n ns)
  then show ?case using dec_chars [of n] by (cases "ns = []") (auto simp: release_def Join_Cons)
qed (simp add: release_def)

lemma TrimPrefix_release: "TrimPrefix (release ns) ''v'' = release ns" "TrimPrefix (''v'' @ release ns) ''v'' = release ns"
proof -
  have "CHR ''v'' \<notin> set (release ns)" using release_chars [of ns] by (auto simp: is_digit_def)
  then have "\<not> HasPrefix (release ns) ''v''" by (rule not_HasPrefix_char) simp
  then show "TrimPrefix (release ns) ''v'' = release ns" by (simp add: TrimPrefix_def)
  show "TrimPrefix (''v'' @ release ns) ''v'' = release ns" by (rule TrimPrefix_append)
qed

lemma release_plain:
  assumes "ns \<noteq> []" "w = release ns \<or> w = ''v'' @ release ns"
  shows "plain w" "nums w = map (\<lambda>n. if n < 2 ^ 63 then int n else 0) ns"
proof -
  have t: "TrimPrefix w ''v'' = release ns" using assms(2) TrimPrefix_release by blast
  show "plain w" using release_chars [of ns] by (auto simp: plain_def t list_all_iff)
  show "nums w = map (\<lambda>n. if n < 2 ^ 63 then int n else 0) ns" using assms(1) by (simp add: nums_def t Split_release parse_dec)
qed

lemma release_nums:
  assumes "ns \<noteq> []" "\<forall>n \<in> set ns. n < 2 ^ 63" "w = release ns \<or> w = ''v'' @ release ns"
  shows "plain w" "nums w = map int ns"
  using release_plain [OF assms(1,3)] assms(2) by simp_all

lemma at_map_int: "at (map int ns) i = int (part ns i)"
  by (simp add: at_def part_def)

text \<open>
  C38. Releases are compared by their numbers: for versions written as decimal numbers below \<open>2\<^sup>6\<^sup>3\<close> with dots between them, with or
  without a \<open>v\<close>, \<open>CompareVersions\<close> is negative exactly if the first number that differs is smaller, zero
  exactly if no number differs, and positive otherwise, a missing number being zero. So it is a total preorder,
  in which \<open>1.2\<close> and \<open>1.2.0\<close> are equivalent.
\<close>

theorem releases_totally_ordered:
  assumes "xs \<noteq> []" "ys \<noteq> []" "\<forall>n \<in> set xs \<union> set ys. n < 2 ^ 63"
    and "a = release xs \<or> a = ''v'' @ release xs" "b = release ys \<or> b = ''v'' @ release ys"
  shows "(CompareVersions a b = -1 \<longleftrightarrow> (\<exists>i. (\<forall>j < i. part xs j = part ys j) \<and> part xs i < part ys i)) \<and>
    (CompareVersions a b = 0 \<longleftrightarrow> (\<forall>i. part xs i = part ys i)) \<and>
    (CompareVersions a b = 1 \<longleftrightarrow> (\<exists>i. (\<forall>j < i. part xs j = part ys j) \<and> part ys i < part xs i)) \<and>
    CompareVersions a b \<in> {-1, 0, 1}"
proof -
  note x = release_nums [OF assms(1) _ assms(4)] and y = release_nums [OF assms(2) _ assms(5)]
  have c: "CompareVersions a b = cmp_nums (map int xs) (map int ys)" using x y assms(3) by (simp add: CompareVersions_plain)
  have "CompareVersions a b = 1 \<longleftrightarrow> cmp_nums (map int ys) (map int xs) = -1"
    using cmp_nums_antisym [of "map int ys" "map int xs"] by (simp add: c)
  also have "\<dots> \<longleftrightarrow> (\<exists>i. (\<forall>j < i. part xs j = part ys j) \<and> part ys i < part xs i)"
    unfolding cmp_nums_neg at_map_int of_nat_less_iff of_nat_eq_iff by (simp add: eq_commute)
  finally show ?thesis
    using cmp_nums_range [of "map int xs" "map int ys"] by (simp add: c cmp_nums_neg cmp_nums_zero at_map_int)
qed

theorem releases_totally_ordered_witness:
  "CompareVersions ''v1.2'' ''1.10.0'' = -1"
proof -
  have r: "release [1, 2] = ''1.2''" "release [1, 10, 0] = ''1.10.0''" by code_simp+
  have "part [1, 2] 0 = part [1, 10, 0] 0 \<and> part [1, 2] 1 < part [1, 10, 0] 1" by (simp add: part_def)
  then have "\<exists>i. (\<forall>j < i. part [1, 2] j = part [1, 10, 0] j) \<and> part [1, 2] i < part [1, 10, 0] i" by (intro exI [of _ 1]) auto
  then show ?thesis
    using releases_totally_ordered [of "[1, 2]" "[1, 10, 0]" "''v1.2''" "''1.10.0''"] by (simp add: r [simplified])
qed

text \<open>
  A number of \<open>2\<^sup>6\<^sup>3\<close> or more does not parse and counts as zero, so the larger release is the older one.
\<close>

theorem huge_part_is_zero:
  assumes "2 ^ 63 \<le> n" "0 < k" "k < 2 ^ 63"
  shows "CompareVersions (dec n) (dec k) = -1"
proof -
  have r: "dec n = release [n]" "dec k = release [k]" by (simp_all add: release_def)
  show ?thesis
    using assms release_plain [of "[n]" "dec n"] release_plain [of "[k]" "dec k"] r by (simp add: CompareVersions_plain)
qed

theorem huge_part_is_zero_witness: "CompareVersions (dec (2 ^ 63)) (dec 1) = -1"
  using huge_part_is_zero [of "2 ^ 63" 1] by simp

section \<open>Development builds\<close>

definition commit :: "string \<Rightarrow> bool" where
  "commit h \<longleftrightarrow> h \<noteq> [] \<and> list_all (\<lambda>c. c \<noteq> CHR ''.'') h"

text \<open>
  Two different local builds are each older than the other: an update is reported in both
  directions, so that \<open>CompareVersions\<close> is not an order on development versions.
\<close>

theorem dev_builds_mutually_older:
  assumes "commit h1" "commit h2" "h1 \<noteq> h2"
  shows "IsUpdateAvailable (''dev-'' @ h1) (''dev-'' @ h2) \<and> IsUpdateAvailable (''dev-'' @ h2) (''dev-'' @ h1)"
proof -
  have v: "TrimPrefix (''dev-'' @ h) ''v'' = ''dev-'' @ h" for h by (simp add: TrimPrefix_def HasPrefix_def)
  have c: "extractCommitFromVersion (''dev-'' @ h) = h" for h
    using HasPrefix_append [of "''dev-''" h] TrimPrefix_append [of "''dev-''" h] by (simp add: extractCommitFromVersion_def)
  have s: "\<not> Contains (''dev-'' @ h) ''-stable.''" if "commit h" for h
    by (rule not_Contains_char [of "CHR ''.''"]) (use that in \<open>auto simp: commit_def list_all_iff\<close>)
  have d: "is_dev (''dev-'' @ h)" for h using HasPrefix_append [of "''dev-''" h] by (simp add: is_dev_def)
  have "CompareVersions (''dev-'' @ a) (''dev-'' @ b) = -1" if "commit a" "commit b" "a \<noteq> b" for a b
    using that s [OF that(1)] s [OF that(2)] d [of a] c [of a] c [of b]
    unfolding CompareVersions_def v Let_def by simp
  with assms show ?thesis by (simp add: IsUpdateAvailable_def)
qed

theorem dev_builds_mutually_older_witness:
  "IsUpdateAvailable ''dev-a1'' ''dev-b2'' \<and> IsUpdateAvailable ''dev-b2'' ''dev-a1''"
  using dev_builds_mutually_older [of "''a1''" "''b2''"] by (simp add: commit_def)

end
