(* ===== verification/Version_Service.thy ===== *)
theory Version_Service
  imports Version Ent_Table Json
begin

text \<open>
  \<open>internal/service/version_service.go\<close> over the table of client versions
  (\<open>internal/db/ent/schema/client_version.go\<close>): the triple of channel, platform and architecture is
  unique. The database may fail at any query or change; where it fails is an argument.
\<close>

record cv_config =
  cc_Channel :: string
  cc_Platform :: string
  cc_Arch :: string
  cc_LatestVersion :: string
  cc_MinimumVersion :: string
  cc_DownloadURL :: string
  cc_ReleaseNotes :: string
  cc_AutoUpdateEnabled :: bool
  cc_ForceUpdate :: bool
  cc_Metadata :: "jmap option"

record cv_row = cv_config +
  cv_ID :: string
  cv_CreatedAt :: time
  cv_UpdatedAt :: time

type_synonym cv_key = "string \<times> string \<times> string"

datatype cv_op = CVQuery cv_key | CVExist cv_key | CVSave cv_key | CVGroup

type_synonym cv_faults = "cv_op \<Rightarrow> bool"

definition cv_key_of :: "('a) cv_config_scheme \<Rightarrow> cv_key" where
  "cv_key_of r = (cc_Channel r, cc_Platform r, cc_Arch r)"

record version_info =
  LatestVersion :: string
  MinimumVersion :: string
  CurrentVersion :: string
  UpdateAvailable :: bool
  UpdateRequired :: bool
  Channel :: string
  ReleaseTag :: string
  ShortVersion :: string
  DownloadURL :: string
  ReleaseNotes :: string

section \<open>Operations\<close>

definition cv_Only :: "cv_faults \<Rightarrow> cv_row list \<Rightarrow> cv_key \<Rightarrow> repo_error + cv_row" where
  "cv_Only f rows k = (if f (CVQuery k) then Inl DBError else ent_Only (\<lambda>r. cv_key_of r = k) rows)"

definition getClientVersionConfig ::
    "cv_faults \<Rightarrow> cv_row list \<Rightarrow> string \<Rightarrow> string \<Rightarrow> string \<Rightarrow> repo_error + cv_row" where
  "getClientVersionConfig f rows channel platform arch =
     (case cv_Only f rows (channel, platform, arch) of
        Inr r \<Rightarrow> Inr r
      | Inl _ \<Rightarrow>
          (case cv_Only f rows (channel, platform, ''all'') of
             Inr r \<Rightarrow> Inr r
           | Inl _ \<Rightarrow>
               (case cv_Only f rows (channel, ''all'', arch) of
                  Inr r \<Rightarrow> Inr r
                | Inl _ \<Rightarrow> cv_Only f rows (channel, ''all'', ''all''))))"

definition getFallbackVersionInfo :: "string \<Rightarrow> string \<Rightarrow> version_info" where
  "getFallbackVersionInfo clientVersion channel =
     \<lparr>LatestVersion = clientVersion, MinimumVersion = clientVersion, CurrentVersion = clientVersion,
      UpdateAvailable = False, UpdateRequired = False, Channel = channel, ReleaseTag = [],
      ShortVersion = clientVersion, DownloadURL = [],
      ReleaseNotes = ''Version service temporarily unavailable''\<rparr>"

definition meta_string :: "jmap option \<Rightarrow> string \<Rightarrow> string" where
  "meta_string md k = (case get md k of Some (JStr s) \<Rightarrow> s | _ \<Rightarrow> [])"

definition GetVersionInfo ::
    "string \<Rightarrow> string \<Rightarrow> cv_faults \<Rightarrow> cv_row list \<Rightarrow> string \<Rightarrow> string \<Rightarrow> string \<Rightarrow> string \<Rightarrow> version_info" where
  "GetVersionInfo goos goarch f rows clientVersion channel platform arch =
     (let channel = (if channel = [] then ''stable'' else channel);
          platform = (if platform = [] then goos else platform);
          arch = (if arch = [] then goarch else arch)
      in case getClientVersionConfig f rows channel platform arch of
           Inl _ \<Rightarrow> getFallbackVersionInfo clientVersion channel
         | Inr cfg \<Rightarrow>
             \<lparr>LatestVersion = cc_LatestVersion cfg, MinimumVersion = cc_MinimumVersion cfg,
              CurrentVersion = clientVersion,
              UpdateAvailable = IsUpdateAvailable clientVersion (cc_LatestVersion cfg),
              UpdateRequired =
                (if cc_ForceUpdate cfg \<and> IsUpdateAvailable clientVersion (cc_LatestVersion cfg) then True
                 else IsUpdateRequired clientVersion (cc_MinimumVersion cfg)),
              Channel = cc_Channel cfg,
              ReleaseTag = meta_string (cc_Metadata cfg) ''release_tag'',
              ShortVersion = meta_string (cc_Metadata cfg) ''short_version'',
              DownloadURL = cc_DownloadURL cfg, ReleaseNotes = cc_ReleaseNotes cfg\<rparr>)"

definition cv_apply :: "time \<times> cv_config \<Rightarrow> cv_row \<Rightarrow> cv_row" where
  "cv_apply = (\<lambda>(now, c) r.
     r\<lparr>cc_LatestVersion := cc_LatestVersion c, cc_MinimumVersion := cc_MinimumVersion c,
       cc_DownloadURL := cc_DownloadURL c, cc_ReleaseNotes := cc_ReleaseNotes c,
       cc_AutoUpdateEnabled := cc_AutoUpdateEnabled c, cc_ForceUpdate := cc_ForceUpdate c,
       cc_Metadata := cc_Metadata c, cv_UpdatedAt := now\<rparr>)"

definition cv_new :: "time \<Rightarrow> cv_config \<Rightarrow> cv_row" where
  "cv_new now c = cv_config.extend c
     \<lparr>cv_ID = cc_Channel c @ ''-'' @ cc_Platform c @ ''-'' @ cc_Arch c, cv_CreatedAt = now, cv_UpdatedAt = now\<rparr>"

definition UpdateClientVersionConfig ::
    "cv_faults \<Rightarrow> time \<Rightarrow> cv_config \<Rightarrow> cv_row list \<Rightarrow> repo_error option \<times> cv_row list" where
  "UpdateClientVersionConfig f now c rows =
     (case cv_Only f rows (cv_key_of c) of
        Inr existing \<Rightarrow>
          (if f (CVSave (cv_key_of c)) then (Some DBError, rows)
           else case ent_UpdateOneID cv_ID (cv_ID existing) (cv_apply (now, c)) rows of
                  (Inl e, rows') \<Rightarrow> (Some e, rows')
                | (Inr _, rows') \<Rightarrow> (None, rows'))
      | Inl ErrNotFound \<Rightarrow>
          (if f (CVSave (cv_key_of c)) then (Some DBError, rows)
           else if cv_ID (cv_new now c) \<in> cv_ID ` set rows \<or> cv_key_of c \<in> cv_key_of ` set rows
           then (Some ConstraintError, rows)
           else (None, rows @ [cv_new now c]))
      | Inl e \<Rightarrow> (Some e, rows))"

definition GetActiveChannels :: "cv_faults \<Rightarrow> cv_row list \<Rightarrow> string list \<times> repo_error option" where
  "GetActiveChannels f rows =
     (if f CVGroup then ([''stable''], Some DBError) else (remdups (map cc_Channel rows), None))"

definition default_configs :: "string \<Rightarrow> cv_config list" where
  "default_configs version =
     [\<lparr>cc_Channel = ''stable'', cc_Platform = ''all'', cc_Arch = ''all'', cc_LatestVersion = version,
       cc_MinimumVersion = ''v0.0.0'', cc_DownloadURL = ''https://github.com/osa911/giraffecloud/releases/latest'',
       cc_ReleaseNotes = ''GiraffeCloud CLI Client - Stable Channel'', cc_AutoUpdateEnabled = True,
       cc_ForceUpdate = False, cc_Metadata = Some [(''release_type'', JStr ''stable'')]\<rparr>,
      \<lparr>cc_Channel = ''test'', cc_Platform = ''all'', cc_Arch = ''all'', cc_LatestVersion = version,
       cc_MinimumVersion = ''v0.0.0'', cc_DownloadURL = ''https://github.com/osa911/giraffecloud/releases'',
       cc_ReleaseNotes = ''GiraffeCloud CLI Client - Test Channel'', cc_AutoUpdateEnabled = False,
       cc_ForceUpdate = False, cc_Metadata = Some [(''release_type'', JStr ''test'')]\<rparr>]"

fun init_loop :: "cv_faults \<Rightarrow> time \<Rightarrow> cv_config list \<Rightarrow> cv_row list \<Rightarrow> repo_error option \<times> cv_row list" where
  "init_loop f now [] rows = (None, rows)"
| "init_loop f now (c # cs) rows =
     (if f (CVExist (cv_key_of c)) then (Some DBError, rows)
      else if cv_key_of c \<in> cv_key_of ` set rows then init_loop f now cs rows
      else case UpdateClientVersionConfig f now c rows of
             (Some e, rows') \<Rightarrow> (Some e, rows')
           | (None, rows') \<Rightarrow> init_loop f now cs rows')"

definition InitializeDefaultConfigs ::
    "cv_faults \<Rightarrow> time \<Rightarrow> string \<Rightarrow> cv_row list \<Rightarrow> repo_error option \<times> cv_row list" where
  "InitializeDefaultConfigs f now version rows = init_loop f now (default_configs version) rows"

section \<open>The table\<close>

interpretation cv: ent_table cv_ID cv_key_of cv_apply
  by unfold_locales (auto simp: cv_apply_def cv_key_of_def)

lemma cv_new_sel [simp]:
  "cv_key_of (cv_new now c) = cv_key_of c" "cc_LatestVersion (cv_new now c) = cc_LatestVersion c"
  "cc_MinimumVersion (cv_new now c) = cc_MinimumVersion c" "cc_ForceUpdate (cv_new now c) = cc_ForceUpdate c"
  by (simp_all add: cv_new_def cv_config.defs cv_key_of_def)

lemma cv_Only_Inr:
  "keyed cv_ID cv_key_of rows \<Longrightarrow> cv_Only f rows k = Inr r \<longleftrightarrow> \<not> f (CVQuery k) \<and> r \<in> set rows \<and> cv_key_of r = k"
  by (simp add: cv_Only_def keyed_def ent_Only_key)

lemma cv_Only_Inl:
  "keyed cv_ID cv_key_of rows \<Longrightarrow>
   cv_Only f rows k = Inl e \<longleftrightarrow> f (CVQuery k) \<and> e = DBError \<or> \<not> f (CVQuery k) \<and> e = ErrNotFound \<and> k \<notin> cv_key_of ` set rows"
  by (auto simp: cv_Only_def keyed_def ent_Only_key_None)

lemma UpdateConfig_cases:
  assumes k: "keyed cv_ID cv_key_of rows" and u: "UpdateClientVersionConfig f now c rows = (res, rows')"
  obtains e where "res = Some e" "rows' = rows"
  | r where "res = None" "r \<in> set rows" "cv_key_of r = cv_key_of c"
      "rows' = map (\<lambda>x. if cv_ID x = cv_ID r then cv_apply (now, c) x else x) rows"
  | "res = None" "cv_key_of c \<notin> cv_key_of ` set rows" "cv_ID (cv_new now c) \<notin> cv_ID ` set rows" "rows' = rows @ [cv_new now c]"
proof (cases "cv_Only f rows (cv_key_of c)")
  case (Inl e)
  show thesis
  proof (cases "e = ErrNotFound")
    case True
    note u' = u [unfolded UpdateClientVersionConfig_def, unfolded Inl True sum.case repo_error.case]
    show thesis
    proof (cases "f (CVSave (cv_key_of c)) \<or> cv_ID (cv_new now c) \<in> cv_ID ` set rows \<or> cv_key_of c \<in> cv_key_of ` set rows")
      case True
      with u' that(1) show thesis by (metis (no_types, lifting) prod.inject)
    next
      case False
      with u' that(3) show thesis by simp
    qed
  next
    case False
    with u Inl have "res = Some e \<and> rows' = rows" by (cases e) (simp_all add: UpdateClientVersionConfig_def)
    with that(1) show thesis by blast
  qed
next
  case (Inr r)
  then have r: "r \<in> set rows" "cv_key_of r = cv_key_of c" using cv_Only_Inr [OF k] by auto
  have "filter (\<lambda>x. cv_ID x = cv_ID r) rows = [r]"
    using k r(1) by (intro filter_key_distinct) (simp_all add: keyed_def)
  with u Inr show thesis
    by (auto simp: UpdateClientVersionConfig_def ent_UpdateOneID_def split: if_splits intro: that(1) that(2) [OF _ r])
qed

lemma UpdateConfig_keyed:
  assumes "keyed cv_ID cv_key_of rows" "UpdateClientVersionConfig f now c rows = (res, rows')"
  shows "keyed cv_ID cv_key_of rows'"
  using assms
proof (cases rule: UpdateConfig_cases)
  case (2 r)
  show ?thesis unfolding 2(4) keyed_def cv.map_upd_if using assms(1) by (simp add: keyed_def)
next
  case 3
  with assms(1) show ?thesis by (auto intro: cv.keyed_insert)
qed (use assms in simp)

text \<open>What of a row the clients see.\<close>

definition same_config_as :: "cv_config \<Rightarrow> cv_row \<Rightarrow> bool" where
  "same_config_as c r \<longleftrightarrow> cv_key_of r = cv_key_of c \<and> cv_config.truncate r = c"

lemma same_config_new: "same_config_as c (cv_new now c)"
  by (simp add: same_config_as_def cv_new_def cv_config.defs cv_key_of_def)

lemma same_config_apply: "cv_key_of r = cv_key_of c \<Longrightarrow> same_config_as c (cv_apply (now, c) r)"
  by (simp add: same_config_as_def cv_apply_def cv_config.defs cv_key_of_def)

text \<open>
  A configuration saved by the administrator is the one that clients get: after a successful
  \<open>UpdateClientVersionConfig\<close> the exact look-up of its channel, platform and architecture returns a row
  with exactly the saved values, and every row with another key is untouched.
\<close>

theorem version_config_roundtrip:
  assumes "keyed cv_ID cv_key_of rows" "UpdateClientVersionConfig f now c rows = (None, rows')"
    and "\<not> f' (CVQuery (cv_key_of c))"
  shows "(\<exists>r. getClientVersionConfig f' rows' (cc_Channel c) (cc_Platform c) (cc_Arch c) = Inr r \<and> same_config_as c r) \<and>
    (\<forall>r. cv_key_of r \<noteq> cv_key_of c \<longrightarrow> (r \<in> set rows' \<longleftrightarrow> r \<in> set rows))"
proof -
  note k' = UpdateConfig_keyed [OF assms(1,2)]
  have key: "cv_key_of c = (cc_Channel c, cc_Platform c, cc_Arch c)" by (simp add: cv_key_of_def)
  have get: "getClientVersionConfig f' rows' (cc_Channel c) (cc_Platform c) (cc_Arch c) = Inr x"
    if "x \<in> set rows'" "cv_key_of x = cv_key_of c" for x
    using cv_Only_Inr [OF k', of f' "cv_key_of c" x] that assms(3) by (simp add: getClientVersionConfig_def key)
  from assms(1,2) show ?thesis
  proof (cases rule: UpdateConfig_cases)
    case (2 r)
    have id: "x = r" if "x \<in> set rows" "cv_ID x = cv_ID r" for x
      using assms(1) 2(2) that by (auto simp: keyed_def distinct_map inj_on_def)
    have "cv_apply (now, c) r \<in> set rows'" "cv_key_of (cv_apply (now, c) r) = cv_key_of c"
      using 2 by (auto simp: cv.upd_key)
    from get [OF this] same_config_apply [OF 2(3)]
    have "\<exists>r. getClientVersionConfig f' rows' (cc_Channel c) (cc_Platform c) (cc_Arch c) = Inr r \<and> same_config_as c r"
      by blast
    moreover have "x \<in> set rows' \<longleftrightarrow> x \<in> set rows" if x: "cv_key_of x \<noteq> cv_key_of c" for x
    proof
      assume "x \<in> set rows'"
      then obtain y where y: "y \<in> set rows" "x = (if cv_ID y = cv_ID r then cv_apply (now, c) y else y)"
        using 2(4) by auto
      with x id [of y] 2(3) show "x \<in> set rows" by (auto simp: cv.upd_key split: if_splits)
    next
      assume "x \<in> set rows"
      moreover from this x id [of x] 2(3) have "cv_ID x \<noteq> cv_ID r" by auto
      ultimately show "x \<in> set rows'" using 2(4) by force
    qed
    ultimately show ?thesis by blast
  next
    case 3
    then show ?thesis using get [of "cv_new now c"] same_config_new by auto
  qed simp
qed

lemma getClientVersionConfig_find:
  assumes "keyed cv_ID cv_key_of rows" "\<forall>op. \<not> f op"
  shows "getClientVersionConfig f rows ch pl ar =
    (case List.find (\<lambda>k. k \<in> cv_key_of ` set rows) [(ch, pl, ar), (ch, pl, ''all''), (ch, ''all'', ar), (ch, ''all'', ''all'')] of
       None \<Rightarrow> Inl ErrNotFound
     | Some k \<Rightarrow> Inr (hd (filter (\<lambda>r. cv_key_of r = k) rows)))"
proof -
  have only: "cv_Only f rows k = (if k \<in> cv_key_of ` set rows then Inr (hd (filter (\<lambda>r. cv_key_of r = k) rows)) else Inl ErrNotFound)" for k
  proof (cases "k \<in> cv_key_of ` set rows")
    case True
    then obtain r where r: "r \<in> set rows" "k = cv_key_of r" by auto
    have "filter (\<lambda>x. cv_key_of x = cv_key_of r) rows = [r]"
      using assms(1) r(1) by (intro filter_key_distinct) (simp_all add: keyed_def)
    then show ?thesis using cv_Only_Inr [OF assms(1), of f k r] assms(2) r by simp
  next
    case False
    then show ?thesis using cv_Only_Inl [OF assms(1), of f k ErrNotFound] assms(2) by auto
  qed
  show ?thesis by (simp add: getClientVersionConfig_def only)
qed

text \<open>
  The most specific configuration of the requested channel wins: a configuration for the exact
  platform and architecture first, then for the platform, then for the architecture, then the
  generic one; an answer never comes from another channel, and there is none only if the channel has
  no applicable configuration.
\<close>

theorem version_config_precedence:
  assumes "keyed cv_ID cv_key_of rows" "\<forall>op. \<not> f op"
  shows "getClientVersionConfig f rows ch pl ar =
    (case List.find (\<lambda>k. k \<in> cv_key_of ` set rows) [(ch, pl, ar), (ch, pl, ''all''), (ch, ''all'', ar), (ch, ''all'', ''all'')] of
       None \<Rightarrow> Inl ErrNotFound
     | Some k \<Rightarrow> Inr (hd (filter (\<lambda>r. cv_key_of r = k) rows)))"
  using assms by (rule getClientVersionConfig_find)

lemma init_loop_spec:
  assumes "init_loop f now cs rows = (res, rows')" "keyed cv_ID cv_key_of rows"
  shows "keyed cv_ID cv_key_of rows' \<and> set rows \<subseteq> set rows' \<and> (res = None \<longrightarrow> cv_key_of ` set cs \<subseteq> cv_key_of ` set rows')"
  using assms
proof (induction cs arbitrary: rows)
  case (Cons c cs)
  show ?case
  proof (cases "f (CVExist (cv_key_of c))")
    case True
    with Cons.prems show ?thesis by auto
  next
    case nf: False
    show ?thesis
    proof (cases "cv_key_of c \<in> cv_key_of ` set rows")
      case True
      with nf Cons.prems Cons.IH [of rows] show ?thesis by auto
    next
      case new: False
      obtain r1 rows1 where u: "UpdateClientVersionConfig f now c rows = (r1, rows1)" by force
      note k1 = UpdateConfig_keyed [OF Cons.prems(2) u]
      from Cons.prems(2) u show ?thesis
      proof (cases rule: UpdateConfig_cases)
        case (1 e)
        with nf new Cons.prems u show ?thesis by auto
      next
        case (2 r)
        with new show ?thesis by (metis image_eqI)
      next
        case 3
        then have "init_loop f now cs rows1 = (res, rows')" using nf new Cons.prems(1) u by simp
        note ih = Cons.IH [OF this k1]
        have "cv_new now c \<in> set rows'" using ih 3(4) by auto
        then have "cv_key_of c \<in> cv_key_of ` set rows'" by (metis cv_new_sel(1) image_eqI)
        with ih 3(4) show ?thesis by auto
      qed
    qed
  qed
qed simp

text \<open>
  Seeding the defaults never changes or removes a configuration; after a successful run the
  stable and the test channel have an applicable configuration for every platform and architecture,
  so that without database faults clients of these channels never get the fallback answer.
\<close>

theorem default_configs_serve_all:
  assumes "keyed cv_ID cv_key_of rows" "InitializeDefaultConfigs f now version rows = (None, rows')"
    and "\<forall>op. \<not> f' op" "ch = ''stable'' \<or> ch = ''test''"
  shows "set rows \<subseteq> set rows' \<and> (\<exists>r. getClientVersionConfig f' rows' ch pl ar = Inr r \<and> cc_Channel r = ch)"
proof -
  have i: "keyed cv_ID cv_key_of rows'" "set rows \<subseteq> set rows'"
    "cv_key_of ` set (default_configs version) \<subseteq> cv_key_of ` set rows'"
    using init_loop_spec [OF assms(2) [unfolded InitializeDefaultConfigs_def] assms(1)] by auto
  have "(ch, ''all'', ''all'') \<in> cv_key_of ` set (default_configs version)"
    using assms(4) by (auto simp: default_configs_def cv_key_of_def)
  then have all: "(ch, ''all'', ''all'') \<in> cv_key_of ` set rows'" using i(3) by blast
  obtain k where k: "List.find (\<lambda>k. k \<in> cv_key_of ` set rows') [(ch, pl, ar), (ch, pl, ''all''), (ch, ''all'', ar), (ch, ''all'', ''all'')] = Some k"
    using all by (cases "List.find (\<lambda>k. k \<in> cv_key_of ` set rows') [(ch, pl, ar), (ch, pl, ''all''), (ch, ''all'', ar), (ch, ''all'', ''all'')]")
      (auto simp: find_None_iff simp del: find.simps)
  then have "k \<in> cv_key_of ` set rows' \<and> fst k = ch" by (simp split: if_splits) (metis fst_conv)+
  then obtain r where r: "r \<in> set rows'" "cv_key_of r = k" "fst (cv_key_of r) = ch" by auto
  have "filter (\<lambda>x. cv_key_of x = cv_key_of r) rows' = [r]"
    using i(1) r(1) by (intro filter_key_distinct) (simp_all add: keyed_def)
  then have "getClientVersionConfig f' rows' ch pl ar = Inr r"
    using getClientVersionConfig_find [OF i(1) assms(3), of ch pl ar] k r(2) by simp
  then show ?thesis using i(2) r(3) by (simp add: cv_key_of_def)
qed

text \<open>
  The answer to a client is consistent on releases: if the minimum version of the configuration
  is not newer than its latest version, then an update that is required is also available.
\<close>

theorem required_update_available:
  assumes "getClientVersionConfig f rows ch pl ar = Inr cfg" "ch \<noteq> []" "pl \<noteq> []" "ar \<noteq> []"
    and "plain v" "plain (cc_MinimumVersion cfg)" "plain (cc_LatestVersion cfg)"
    and "CompareVersions (cc_MinimumVersion cfg) (cc_LatestVersion cfg) \<le> 0"
    and "UpdateRequired (GetVersionInfo goos goarch f rows v ch pl ar)"
  shows "UpdateAvailable (GetVersionInfo goos goarch f rows v ch pl ar)"
proof -
  let ?m = "cc_MinimumVersion cfg" and ?l = "cc_LatestVersion cfg"
  have "IsUpdateAvailable v ?l \<or> CompareVersions v ?m < 0"
    using assms(1-4,9) by (auto simp: GetVersionInfo_def Let_def IsUpdateRequired_def split: if_splits)
  moreover have "CompareVersions v ?l < 0" if "CompareVersions v ?m < 0"
  proof (rule ccontr)
    assume "\<not> CompareVersions v ?l < 0"
    then have "cmp_nums (nums ?l) (nums v) \<le> 0"
      using cmp_nums_antisym [of "nums v" "nums ?l"] assms(5-7) by (simp add: CompareVersions_plain)
    moreover have "cmp_nums (nums ?m) (nums ?l) \<le> 0" using assms(6-8) by (simp add: CompareVersions_plain)
    ultimately have "cmp_nums (nums ?m) (nums v) \<le> 0" by (rule cmp_nums_trans [rotated])
    then show False using that cmp_nums_antisym [of "nums v" "nums ?m"] assms(5-7) by (simp add: CompareVersions_plain)
  qed
  ultimately show ?thesis using assms(1-4) by (auto simp: GetVersionInfo_def Let_def IsUpdateAvailable_def)
qed

section \<open>Witnesses\<close>

definition demo_config :: cv_config where
  "demo_config = \<lparr>cc_Channel = ''stable'', cc_Platform = ''linux'', cc_Arch = ''amd64'', cc_LatestVersion = ''v1.3'',
     cc_MinimumVersion = ''v1.1'', cc_DownloadURL = ''u'', cc_ReleaseNotes = [], cc_AutoUpdateEnabled = True,
     cc_ForceUpdate = False, cc_Metadata = None\<rparr>"

lemma demo_key: "cv_key_of demo_config = (''stable'', ''linux'', ''amd64'')"
  by (simp add: cv_key_of_def demo_config_def)

lemma demo_update: "UpdateClientVersionConfig (\<lambda>_. False) 0 demo_config [] = (None, [cv_new 0 demo_config])"
  by (simp add: UpdateClientVersionConfig_def cv_Only_def ent_Only_def)

lemma demo_keyed: "keyed cv_ID cv_key_of []" "keyed cv_ID cv_key_of [cv_new 0 demo_config]"
  by (simp_all add: keyed_def)

lemma demo_lookup:
  "getClientVersionConfig (\<lambda>_. False) [cv_new 0 demo_config] ''stable'' ''linux'' ''amd64'' = Inr (cv_new 0 demo_config)"
  by (simp add: getClientVersionConfig_def cv_Only_def ent_Only_def demo_key)

theorem version_config_roundtrip_witness:
  "\<exists>r. getClientVersionConfig (\<lambda>_. False) [cv_new 0 demo_config] ''stable'' ''linux'' ''amd64'' = Inr r \<and> same_config_as demo_config r"
  using version_config_roundtrip [OF demo_keyed(1) demo_update, of "\<lambda>_. False"] by (simp add: demo_config_def)

theorem version_config_precedence_witness:
  "getClientVersionConfig (\<lambda>_. False) [cv_new 0 demo_config] ''beta'' ''linux'' ''amd64'' = Inl ErrNotFound"
  using version_config_precedence [OF demo_keyed(2), of "\<lambda>_. False" "''beta''" "''linux''" "''amd64''"]
  by (simp add: demo_key)

theorem default_configs_serve_all_witness:
  "\<exists>r. getClientVersionConfig (\<lambda>_. False) (snd (InitializeDefaultConfigs (\<lambda>_. False) 0 ''v1'' [])) ''test'' ''linux'' ''arm64'' = Inr r \<and>
     cc_Channel r = ''test''"
proof -
  obtain rows' where i: "InitializeDefaultConfigs (\<lambda>_. False) 0 ''v1'' [] = (None, rows')"
    by (simp add: InitializeDefaultConfigs_def default_configs_def UpdateClientVersionConfig_def cv_Only_def
        ent_Only_def cv_key_of_def cv_new_def cv_config.defs)
  from default_configs_serve_all [OF demo_keyed(1) this, of "\<lambda>_. False" "''test''" "''linux''" "''arm64''"]
  show ?thesis by (simp add: i)
qed

theorem required_update_available_witness:
  "UpdateAvailable (GetVersionInfo ''linux'' ''amd64'' (\<lambda>_. False) [cv_new 0 demo_config] ''v1.0'' ''stable'' ''linux'' ''amd64'')"
proof -
  have p: "plain ''v1.0''" "plain ''v1.1''" "plain ''v1.3''" by code_simp+
  have c: "CompareVersions ''v1.0'' ''v1.1'' = -1" "CompareVersions ''v1.1'' ''v1.3'' = -1"
    unfolding CompareVersions_plain [OF p(1,2)] CompareVersions_plain [OF p(2,3)] by code_simp+
  have v: "cc_LatestVersion demo_config = ''v1.3''" "cc_MinimumVersion demo_config = ''v1.1''" "cc_ForceUpdate demo_config = False"
    by (simp_all add: demo_config_def)
  show ?thesis
    by (rule required_update_available [OF demo_lookup])
       (simp_all add: p c v demo_lookup GetVersionInfo_def IsUpdateRequired_def Let_def)
qed

end
