(* ===== verification/Calendar.thy ===== *)
theory Calendar
  imports Go_Base
begin

text \<open>
  What the sources use of Go's \<open>time\<close> package besides comparing instants: the civil date of an instant
  in UTC, \<open>time.Date\<close>, \<open>AddDate(1, 0, 0)\<close> and \<open>Format("2006-01-02")\<close>. An instant is its number of
  seconds since 1970-01-01 00:00 UTC. The year is found the way the package finds it, by cycles of
  400, 100, 4 and 1 years; the lemmas show that this inverts the count of days.
\<close>

section \<open>Years\<close>

definition leap :: "int \<Rightarrow> bool" where
  "leap y \<longleftrightarrow> y mod 4 = 0 \<and> (y mod 100 \<noteq> 0 \<or> y mod 400 = 0)"

text \<open>Days from 0001-01-01 to the first day of the year \<open>y\<close>, and from there to 1970-01-01.\<close>

definition days_before :: "int \<Rightarrow> int" where
  "days_before y = 365 * (y - 1) + (y - 1) div 4 - (y - 1) div 100 + (y - 1) div 400"

definition epoch_days :: int where
  "epoch_days = 719162"

definition year_of :: "int \<Rightarrow> int" where
  "year_of d =
     (let a = d div 146097; r = d mod 146097;
          c = min 3 (r div 36524); s = r - 36524 * c;
          q = s div 1461; t = s mod 1461;
          k = min 3 (t div 365)
      in 400 * a + 100 * c + 4 * q + k + 1)"

lemma days_before_cycles:
  assumes "0 \<le> c" "c < 4" "0 \<le> q" "q < 25" "0 \<le> k" "k < 4"
  shows "days_before (400 * a + 100 * c + 4 * q + k + 1) = 146097 * a + 36524 * c + 1461 * q + 365 * k"
proof -
  let ?y = "400 * a + 100 * c + 4 * q + k"
  have "?y div 4 = 100 * a + 25 * c + q" "?y div 100 = 4 * a + c" "?y div 400 = a" using assms by linarith+
  then show ?thesis by (simp add: days_before_def)
qed

lemma div_pred: "y div n = (y - 1) div n + (if y mod n = 0 then 1 else 0)" if "n > 1" for y n :: int
proof (cases "y mod n = 0")
  case True
  then obtain k where y: "y = n * k" by (auto elim: dvdE)
  have "(n * k - 1) div n = (n * (k - 1) + (n - 1)) div n" by (simp add: algebra_simps)
  also have "\<dots> = k - 1" using that by (simp add: div_pos_pos_trivial)
  finally show ?thesis using True y that by simp
next
  case False
  have b: "0 < y mod n" "y mod n < n" using that False pos_mod_bound [of n y] pos_mod_sign [of n y] by linarith+
  have "(y - 1) div n = (n * (y div n) + (y mod n - 1)) div n" by (simp add: algebra_simps)
  also have "\<dots> = y div n" using that b by (simp add: div_pos_pos_trivial)
  finally show ?thesis using False by simp
qed

lemma mod_weaken: "(y :: int) mod 400 = 0 \<Longrightarrow> y mod 100 = 0" "(y :: int) mod 100 = 0 \<Longrightarrow> y mod 4 = 0"
  using dvd_trans [of 100 400 y] dvd_trans [of 4 100 y] by (auto simp: dvd_eq_mod_eq_0)

lemma days_before_Suc: "days_before (y + 1) = days_before y + (if leap y then 366 else 365)"
proof -
  have eq: "days_before (y + 1) - days_before y =
      365 + (y div 4 - (y - 1) div 4) - (y div 100 - (y - 1) div 100) + (y div 400 - (y - 1) div 400)"
    by (simp add: days_before_def)
  have d: "y div n - (y - 1) div n = (if y mod n = 0 then 1 else 0)" if "n > 1" for n
    using div_pred [OF that, of y] by (simp only: add_diff_cancel_left')
  have "days_before (y + 1) - days_before y = (if leap y then 366 else 365)"
    unfolding eq d [of 4, simplified] d [of 100, simplified] d [of 400, simplified] leap_def using mod_weaken [of y]
    by (cases "y mod 4 = 0"; cases "y mod 100 = 0"; cases "y mod 400 = 0") simp_all
  then show ?thesis by linarith
qed

lemma year_of_bounds: "days_before (year_of d) \<le> d \<and> d < days_before (year_of d + 1)"
proof -
  define a r where "a = d div 146097" and "r = d mod 146097"
  define c where "c = min 3 (r div 36524)"
  define s where "s = r - 36524 * c"
  define q t where "q = s div 1461" and "t = s mod 1461"
  define k where "k = min 3 (t div 365)"
  have d: "d = 146097 * a + r" "0 \<le> r" "r < 146097" unfolding a_def r_def by simp_all
  have c: "0 \<le> c" "c < 4" "0 \<le> s" "s \<le> 36524" "c < 3 \<Longrightarrow> s < 36524" unfolding c_def s_def using d by linarith+
  have q: "s = 1461 * q + t" "0 \<le> t" "t < 1461" "0 \<le> q" "q < 25"
    unfolding q_def t_def using c(3,4) by (simp_all add: pos_imp_zdiv_nonneg_iff div_less_iff_less_mult)
  have k: "0 \<le> k" "k < 4" "365 * k \<le> t" "t \<le> 365 * k + 365" "k < 3 \<Longrightarrow> t < 365 * k + 365" unfolding k_def using q by linarith+
  have y: "year_of d = 400 * a + 100 * c + 4 * q + k + 1"
    by (simp add: year_of_def Let_def a_def r_def c_def s_def q_def t_def k_def)
  have b: "days_before (year_of d) = 146097 * a + 36524 * c + 1461 * q + 365 * k"
    unfolding y using c q k by (intro days_before_cycles) auto
  have "leap (year_of d)" if "t = 365 * k + 365"
  proof -
    have k3: "k = 3" using that k by linarith
    have "q < 24 \<or> c = 3" using that k3 q c by linarith
    then have "\<not> (q = 24 \<and> c \<noteq> 3)" by blast
    moreover have "year_of d = 4 * (100 * a + 25 * c + q + 1)" "year_of d = 100 * (4 * a + c) + (4 * q + 4)"
        "year_of d = 400 * a + (100 * c + 4 * q + 4)" unfolding y k3 by simp_all
    moreover from this have "year_of d mod 4 = 0" "year_of d mod 100 = (4 * q + 4) mod 100"
        "year_of d mod 400 = (100 * c + 4 * q + 4) mod 400" by (metis mod_mult_self1_is_0 mod_mult_self4)+
    moreover have "(4 * q + 4) mod 100 \<noteq> 0" if "q \<noteq> 24" using that q(4,5) by simp
    ultimately show ?thesis using q(4,5) c(1,2) by (cases "q = 24") (simp_all add: leap_def)
  qed
  then have "t < 365 * k + (if leap (year_of d) then 366 else 365)" using k(4) by (cases "t = 365 * k + 365") auto
  then show ?thesis using k(3) d(1) q(1) s_def b days_before_Suc [of "year_of d"] by linarith
qed

section \<open>Months and days\<close>

definition month_lengths :: "bool \<Rightarrow> int list" where
  "month_lengths l = [31, if l then 29 else 28, 31, 30, 31, 30, 31, 31, 30, 31, 30, 31]"

fun month_loop :: "int \<Rightarrow> int list \<Rightarrow> int \<Rightarrow> int \<times> int" where
  "month_loop m [] r = (m, r)"
| "month_loop m (l # ls) r = (if r < l then (m, r) else month_loop (m + 1) ls (r - l))"

text \<open>Year, month and day of the day with number \<open>n\<close>, and the number of a date.\<close>

definition civil :: "int \<Rightarrow> int \<times> int \<times> int" where
  "civil n =
     (let y = year_of n; (m, r) = month_loop 1 (month_lengths (leap y)) (n - days_before y)
      in (y, m, r + 1))"

definition days_of :: "int \<Rightarrow> int \<Rightarrow> int \<Rightarrow> int" where
  "days_of y m d = days_before y + sum_list (take (nat (m - 1)) (month_lengths (leap y))) + (d - 1)"

definition day_number :: "time \<Rightarrow> int" where
  "day_number t = t div 86400 + epoch_days"

definition Date :: "int \<Rightarrow> int \<Rightarrow> int \<Rightarrow> time" where
  "Date y m d = (days_of y m d - epoch_days) * 86400"

definition month_start :: "time \<Rightarrow> time" where
  "month_start t = (let (y, m, d) = civil (day_number t) in Date y m 1)"

definition add_year :: "time \<Rightarrow> time" where
  "add_year t = (let (y, m, d) = civil (day_number t) in Date (y + 1) m d + t mod 86400)"

lemma month_loop_bounds:
  assumes "month_loop m ls r = (m', r')" "0 \<le> r" "r < sum_list ls"
  shows "m \<le> m' \<and> m' < m + int (length ls) \<and> 0 \<le> r' \<and> r' < ls ! nat (m' - m) \<and> r = sum_list (take (nat (m' - m)) ls) + r'"
  using assms
proof (induction m ls r rule: month_loop.induct)
  case (2 m l ls r)
  show ?case
  proof (cases "r < l")
    case False
    with 2 have IH: "m + 1 \<le> m' \<and> m' < m + 1 + int (length ls) \<and> 0 \<le> r' \<and> r' < ls ! nat (m' - (m + 1)) \<and>
        r - l = sum_list (take (nat (m' - (m + 1))) ls) + r'" by simp
    moreover from this have "nat (m' - m) = Suc (nat (m' - (m + 1)))" by linarith
    ultimately show ?thesis by simp
  qed (use 2 in simp)
qed simp

lemma month_lengths_bounds: "i < 12 \<Longrightarrow> month_lengths l ! i \<le> 31"
  by (auto simp: month_lengths_def less_Suc_eq numeral_eq_Suc)

lemma civil_days_of:
  assumes "civil n = (y, m, d)"
  shows "days_of y m d = n" "1 \<le> m" "m \<le> 12" "1 \<le> d" "d \<le> 31"
proof -
  let ?ls = "month_lengths (leap (year_of n))"
  obtain r where r: "month_loop 1 ?ls (n - days_before (year_of n)) = (m, r)" and yd: "y = year_of n" "d = r + 1"
    using assms by (auto simp: civil_def Let_def split: prod.splits)
  have "sum_list ?ls = (if leap (year_of n) then 366 else 365)" by (simp add: month_lengths_def)
  then have "0 \<le> n - days_before (year_of n)" "n - days_before (year_of n) < sum_list ?ls"
    using year_of_bounds [of n] days_before_Suc [of "year_of n"] by auto
  from month_loop_bounds [OF r this] have b: "1 \<le> m" "m < 13" "0 \<le> r" "r < ?ls ! nat (m - 1)"
      "n - days_before (year_of n) = sum_list (take (nat (m - 1)) ?ls) + r"
    by (simp_all add: month_lengths_def)
  then show "days_of y m d = n" "1 \<le> m" "m \<le> 12" "1 \<le> d" by (simp_all add: days_of_def yd)
  have "nat (m - 1) < 12" using b by linarith
  then show "d \<le> 31" using b month_lengths_bounds [of "nat (m - 1)" "leap (year_of n)"] by (simp add: yd)
qed

lemma month_start_le: "month_start t \<le> t"
proof -
  obtain y m d where c: "civil (day_number t) = (y, m, d)" by (metis prod_cases3)
  have "days_of y m 1 \<le> day_number t" using civil_days_of [OF c] by (simp add: days_of_def)
  then have "month_start t \<le> (day_number t - epoch_days) * 86400" by (simp add: month_start_def c Date_def)
  also have "\<dots> \<le> t" by (simp add: day_number_def)
  finally show ?thesis .
qed

lemma sum_months:
  assumes "k < 12"
  shows "sum_list (take k (month_lengths l)) = sum_list (take k (month_lengths False)) + (if l \<and> 2 \<le> k then 1 else 0)"
proof -
  consider "k = 0" | "k = 1" | "2 \<le> k" by linarith
  then show ?thesis
  proof cases
    case 3
    then obtain j where "k = Suc (Suc j)" by (metis add_2_eq_Suc le_Suc_ex)
    then show ?thesis by (simp add: month_lengths_def)
  qed (simp_all add: month_lengths_def)
qed

lemma leap_next: "leap y \<Longrightarrow> \<not> leap (y + 1)"
proof
  assume "leap y" "leap (y + 1)"
  then have "4 dvd y" "4 dvd y + 1" by (simp_all add: leap_def dvd_eq_mod_eq_0)
  then show False by presburger
qed

lemma add_year_bounds: "t + 365 * 86400 \<le> add_year t \<and> add_year t \<le> t + 366 * 86400"
proof -
  obtain y m d where c: "civil (day_number t) = (y, m, d)" by (metis prod_cases3)
  have k: "nat (m - 1) < 12" using civil_days_of(2,3) [OF c] by linarith
  have "days_of (y + 1) m d - days_of y m d \<in> {365, 366}"
    using days_before_Suc [of y] leap_next [of y] sum_months [OF k, of "leap y"] sum_months [OF k, of "leap (y + 1)"]
    by (auto simp: days_of_def)
  then have "365 \<le> days_of (y + 1) m d - day_number t \<and> days_of (y + 1) m d - day_number t \<le> 366"
    using civil_days_of(1) [OF c] by auto
  then have "365 * 86400 \<le> (days_of (y + 1) m d - day_number t) * 86400 \<and> (days_of (y + 1) m d - day_number t) * 86400 \<le> 366 * 86400"
    by (intro conjI mult_right_mono) auto
  moreover have "add_year t = (days_of (y + 1) m d - day_number t) * 86400 + t"
    unfolding add_year_def c Let_def prod.case Date_def
    using div_mult_mod_eq [of t 86400] by (simp add: day_number_def algebra_simps)
  ultimately show ?thesis by linarith
qed

section \<open>Formatting a day\<close>

definition pad_dec :: "nat \<Rightarrow> nat \<Rightarrow> string" where
  "pad_dec w n = replicate (w - length (dec n)) (digit_char 0) @ dec n"

definition format_year :: "int \<Rightarrow> string" where
  "format_year y = (if y < 0 then CHR ''-'' # pad_dec 4 (nat (- y)) else pad_dec 4 (nat y))"

text \<open>\<open>Format("2006-01-02")\<close>.\<close>

definition format_day :: "time \<Rightarrow> string" where
  "format_day t =
     (let (y, m, d) = civil (day_number t)
      in format_year y @ ''-'' @ pad_dec 2 (nat m) @ ''-'' @ pad_dec 2 (nat d))"

lemma dec_value_replicate: "dec_value (replicate k (digit_char 0) @ s) = dec_value s"
  by (induction k) (simp_all add: dec_value_Cons)

lemma pad_dec_facts:
  "dec_value (pad_dec w n) = n" "list_all is_digit (pad_dec w n)" "pad_dec w n \<noteq> []"
  using dec_facts(2) [of n] by (auto simp: pad_dec_def dec_value_replicate dec_facts(1,3) list_all_iff)

lemma pad_dec_inj: "pad_dec w m = pad_dec w n \<Longrightarrow> m = n"
  by (metis pad_dec_facts(1))

lemma length_pad_dec2: "n < 100 \<Longrightarrow> length (pad_dec 2 n) = 2"
  by (simp add: pad_dec_def dec.simps [of n] dec.simps [of "n div 10"])

lemma hyphen_not_digit: "\<not> is_digit CHR ''-''" "\<not> is_digit CHR '':''"
  by (simp_all add: is_digit_def)

lemma format_year_inj: "format_year y = format_year y' \<Longrightarrow> y = y'"
proof -
  have h: "CHR ''-'' # s \<noteq> pad_dec w n" for s w n using pad_dec_facts(2) [of w n] hyphen_not_digit(1) by (cases "pad_dec w n") auto
  show "format_year y = format_year y' \<Longrightarrow> y = y'"
    using h h [symmetric] by (auto simp: format_year_def dest: pad_dec_inj split: if_splits)
qed

lemma format_day_no_colon: "CHR '':'' \<notin> set (format_day t)"
  using pad_dec_facts(2) hyphen_not_digit(2)
  by (auto simp: format_day_def format_year_def list_all_iff split: prod.splits if_splits)

lemma format_day_inj: "format_day t = format_day t' \<Longrightarrow> day_number t = day_number t'"
proof -
  assume eq: "format_day t = format_day t'"
  obtain y m d y' m' d' where c: "civil (day_number t) = (y, m, d)" "civil (day_number t') = (y', m', d')"
    by (metis prod_cases3)
  note b = civil_days_of [OF c(1)] civil_days_of [OF c(2)]
  have l: "length (pad_dec 2 (nat x)) = 2" if "1 \<le> x" "x \<le> 31" for x using that by (intro length_pad_dec2) linarith
  have "pad_dec 2 (nat m) = pad_dec 2 (nat m')" "pad_dec 2 (nat d) = pad_dec 2 (nat d')" "format_year y = format_year y'"
    using eq l [of m] l [of d] l [of m'] l [of d'] b by (simp_all add: format_day_def c)
  then have "y = y'" "nat m = nat m'" "nat d = nat d'" by (auto dest: pad_dec_inj format_year_inj)
  with b show ?thesis by (simp add: eq_nat_nat_iff) 
qed

end
