(* ===== verification/Usage_Service.thy ===== *)
theory Usage_Service
  imports Ent_Table Calendar
begin

text \<open>
  \<open>internal/service/usage_service.go\<close>: traffic is aggregated in memory per UTC day, user and tunnel and
  flushed to the usage table in batches, one transaction each. Counters are 64-bit and wrap around. A transaction
  queries the row of a record and then writes the sums it has computed itself; the steps of several flushes
  interleave in \<open>usage_step\<close>, and \<open>FlushToDB\<close> is a flush that runs alone.
  The iteration order of the Go map is the order of the association list, of which no theorem assumes anything.
\<close>

section \<open>Data\<close>

record usage_record =
  PeriodStart :: time
  UserID :: u32
  TunnelID :: u32
  Domain :: string
  BytesIn :: i64
  BytesOut :: i64
  Requests :: i64

record usage_service =
  records :: "(string, usage_record) go_map"
  lastFlush :: time

definition batchSize :: nat where "batchSize = 1000"

definition flushInterval :: time where "flushInterval = 30"

record usage_row = usage_record +
  us_ID :: nat

record usage_db =
  us_rows :: "usage_row list"
  us_next :: nat

section \<open>Keys\<close>

function fmt_loop :: "u32 \<Rightarrow> string \<Rightarrow> string" where
  "fmt_loop v buf = (if v > 0 then fmt_loop (v div 10) (digit_char (unat (v mod 10)) # buf) else buf)"
  by pat_completeness auto
termination
proof (relation "measure (\<lambda>(v, _). unat v)")
  fix v :: u32 and buf :: string
  assume "0 < v"
  then have "unat v div 10 < unat v" by (simp add: word_less_nat_alt)
  then show "((v div 10, digit_char (unat (v mod 10)) # buf), v, buf) \<in> measure (\<lambda>(v, _). unat v)"
    by (simp add: unat_div_distrib)
qed simp

declare fmt_loop.simps [simp del]

definition fmtUint32 :: "u32 \<Rightarrow> string" where
  "fmtUint32 v = (if v = 0 then ''0'' else fmt_loop v [])"

definition usage_key :: "string \<Rightarrow> u32 \<Rightarrow> u32 \<Rightarrow> string" where
  "usage_key day userID tunnelID = day @ '':'' @ fmtUint32 userID @ '':'' @ fmtUint32 tunnelID"

section \<open>Aggregation\<close>

definition utc_day :: "time \<Rightarrow> time" where
  "utc_day now = now - now mod 86400"

definition should_flush :: "time \<Rightarrow> usage_service \<Rightarrow> bool" where
  "should_flush now s \<longleftrightarrow> length (records s) > batchSize \<or> now - lastFlush s > flushInterval"

text \<open>The second component says whether a background flush is started.\<close>

definition Increment ::
    "time \<Rightarrow> u32 \<Rightarrow> u32 \<Rightarrow> string \<Rightarrow> i64 \<Rightarrow> i64 \<Rightarrow> i64 \<Rightarrow> usage_service \<Rightarrow> usage_service \<times> bool" where
  "Increment now userID tunnelID domain bytesIn bytesOut requests s =
     (let day = utc_day now;
          k = usage_key (format_day day) userID tunnelID;
          rec = (case map_of (records s) k of
                   Some rec \<Rightarrow> rec
                 | None \<Rightarrow> \<lparr>PeriodStart = day, UserID = userID, TunnelID = tunnelID, Domain = domain,
                            BytesIn = 0, BytesOut = 0, Requests = 0\<rparr>);
          rec' = rec\<lparr>BytesIn := BytesIn rec + bytesIn, BytesOut := BytesOut rec + bytesOut,
                     Requests := Requests rec + requests\<rparr>;
          s' = s\<lparr>records := AList.update k rec' (records s)\<rparr>
      in (s', should_flush now s'))"

definition SnapshotAndReset :: "usage_service \<Rightarrow> usage_record list \<times> usage_service" where
  "SnapshotAndReset s = (map snd (records s), s\<lparr>records := []\<rparr>)"

section \<open>Flushing\<close>

definition row_key :: "('a) usage_record_scheme \<Rightarrow> time \<times> u32 \<times> u32 \<times> string" where
  "row_key r = (PeriodStart r, UserID r, TunnelID r, Domain r)"

definition find_existing :: "usage_record \<Rightarrow> usage_db \<Rightarrow> usage_row option" where
  "find_existing r db = (case ent_Only (\<lambda>x. row_key x = row_key r) (us_rows db) of Inr existing \<Rightarrow> Some existing | Inl _ \<Rightarrow> None)"

text \<open>The sums are those of the row that was queried; the row that is written may have changed since.\<close>

definition set_usage :: "usage_record \<Rightarrow> usage_row \<Rightarrow> usage_row \<Rightarrow> usage_row" where
  "set_usage r existing x = x\<lparr>BytesIn := BytesIn existing + BytesIn r, BytesOut := BytesOut existing + BytesOut r,
     Requests := Requests existing + Requests r\<rparr>"

definition write_row :: "usage_record \<times> usage_row option \<Rightarrow> usage_db \<Rightarrow> usage_db" where
  "write_row w db =
     (case w of
        (r, Some existing) \<Rightarrow>
          db\<lparr>us_rows := snd (ent_UpdateOneID us_ID (us_ID existing) (set_usage r existing) (us_rows db))\<rparr>
      | (r, None) \<Rightarrow>
          db\<lparr>us_rows := us_rows db @ [usage_record.extend r \<lparr>us_ID = us_next db\<rparr>], us_next := Suc (us_next db)\<rparr>)"

definition upsert :: "usage_record \<Rightarrow> usage_db \<Rightarrow> usage_db" where
  "upsert r db = write_row (r, find_existing r db) db"

text \<open>
  A transaction that fails, at its start, at a statement or at the commit, leaves the table as it was.
\<close>

definition processBatch :: "bool \<Rightarrow> usage_record list \<Rightarrow> usage_db \<Rightarrow> repo_error option \<times> usage_db" where
  "processBatch fault rs db = (if fault then (Some DBError, db) else (None, fold upsert rs db))"

text \<open>The loop over the batches; \<open>i\<close> is the start of the batch, \<open>fault i\<close> whether it fails.\<close>

function flush_loop :: "(nat \<Rightarrow> bool) \<Rightarrow> nat \<Rightarrow> usage_record list \<Rightarrow> usage_db \<Rightarrow> repo_error option \<times> usage_db" where
  "flush_loop fault i rs db =
     (if i < length rs then
        (case processBatch (fault i) (take (min (i + batchSize) (length rs) - i) (drop i rs)) db of
           (Some e, db') \<Rightarrow> (Some e, db')
         | (None, db') \<Rightarrow> flush_loop fault (i + batchSize) rs db')
      else (None, db))"
  by pat_completeness auto
termination
  by (relation "measure (\<lambda>(_, i, rs, _). length rs - i)") (auto simp: batchSize_def)

declare flush_loop.simps [simp del]

definition FlushToDB ::
    "(nat \<Rightarrow> bool) \<Rightarrow> time \<Rightarrow> usage_service \<Rightarrow> usage_db \<Rightarrow> repo_error option \<times> usage_service \<times> usage_db" where
  "FlushToDB fault now s db =
     (let (rs, s1) = SnapshotAndReset s
      in if rs = [] then (None, s1, db)
         else let (err, db') = flush_loop fault 0 rs db in (err, s1\<lparr>lastFlush := now\<rparr>, db'))"

definition triggerBackgroundFlush ::
    "bool \<Rightarrow> (nat \<Rightarrow> bool) \<Rightarrow> time \<Rightarrow> usage_service \<Rightarrow> usage_db \<Rightarrow> usage_service \<times> usage_db" where
  "triggerBackgroundFlush hasClient fault now s db =
     (if \<not> should_flush now s then (s, db)
      else let (s1, db1) = (if hasClient then snd (FlushToDB fault now s db) else (s, db))
           in (s1\<lparr>lastFlush := now\<rparr>, db1))"

definition usage_Stop ::
    "bool \<Rightarrow> (nat \<Rightarrow> bool) \<Rightarrow> time \<Rightarrow> usage_service \<Rightarrow> usage_db \<Rightarrow> repo_error option \<times> usage_service \<times> usage_db" where
  "usage_Stop hasClient fault now s db =
     (if hasClient then FlushToDB fault now s db else (None, s, db))"

section \<open>Keys are faithful\<close>

lemma unat_bound32: "unat (v :: u32) < 4294967296"
  using unsigned_less [where ?'a = nat and w = v] by simp

lemma fmt_loop_value: "dec_value (fmt_loop v buf) = unat v * 10 ^ length buf + dec_value buf"
proof (induction v buf rule: fmt_loop.induct)
  case (1 v buf)
  show ?case
  proof (cases "v > 0")
    case True
    have "unat (v mod 10) < 10" by (simp add: unat_mod_distrib)
    moreover have "unat v = unat (v div 10) * 10 + unat (v mod 10)"
      by (simp add: unat_div_distrib unat_mod_distrib)
    ultimately show ?thesis
      using 1 [OF True] True by (subst fmt_loop.simps) (simp add: dec_value_Cons algebra_simps)
  next
    case False
    then have "v = 0" by (simp add: word_gt_0)
    then show ?thesis by (subst fmt_loop.simps) simp
  qed
qed

lemma fmt_loop_digits: "list_all is_digit buf \<Longrightarrow> list_all is_digit (fmt_loop v buf)"
proof (induction v buf rule: fmt_loop.induct)
  case (1 v buf)
  have "unat (v mod 10) < 10" by (simp add: unat_mod_distrib)
  with 1 show ?case by (subst fmt_loop.simps) simp
qed

lemma fmt_loop_length: "unat v < 10 ^ k \<Longrightarrow> length (fmt_loop v buf) \<le> length buf + k"
proof (induction v buf arbitrary: k rule: fmt_loop.induct)
  case (1 v buf)
  show ?case
  proof (cases "v > 0")
    case True
    then have "0 < unat v" by (simp add: word_less_nat_alt)
    with 1(2) obtain j where k: "k = Suc j" by (cases k) auto
    then have "unat (v div 10) < 10 ^ j" using 1(2) by (simp add: unat_div_distrib)
    then show ?thesis using 1(1) [OF True, of j] True k by (subst fmt_loop.simps) simp
  next
    case False
    then show ?thesis by (subst fmt_loop.simps) simp
  qed
qed

lemma fmtUint32_facts:
  "dec_value (fmtUint32 v) = unat v" "list_all is_digit (fmtUint32 v)" "length (fmtUint32 v) \<le> 10" "fmtUint32 v \<noteq> []"
proof -
  have "unat v < 10 ^ 10" using unat_bound32 [of v] by simp
  then show "length (fmtUint32 v) \<le> 10" using fmt_loop_length [of v 10 "[]"] by (simp add: fmtUint32_def)
  show val: "dec_value (fmtUint32 v) = unat v"
    using fmt_loop_value [of v "[]"] by (auto simp: fmtUint32_def dec_value_def digit_val_def)
  show "list_all is_digit (fmtUint32 v)"
    using fmt_loop_digits [of "[]" v] by (simp add: fmtUint32_def is_digit_def)
  show "fmtUint32 v \<noteq> []"
    using fmt_loop_value [of v "[]"] by (auto simp: fmtUint32_def unat_eq_0)
qed

text \<open>
  \<open>fmtUint32\<close> prints the decimal representation: parsing it gives the number back, and at most ten
  bytes are written, so that the ten-byte buffer is never overrun.
\<close>

theorem fmtUint32_roundtrip:
  "ParseInt64 (fmtUint32 v) = Some (int (unat v)) \<and> length (fmtUint32 v) \<le> 10"
proof -
  have "int (unat v) < int 4294967296" using unat_bound32 [of v] by (simp only: of_nat_less_iff)
  then have b: "int (unat v) < 2 ^ 63" by (rule less_trans) simp
  have "- (2 ^ 63) \<le> (0 :: int)" by simp
  also have "0 \<le> int (unat v)" by (rule of_nat_0_le_iff)
  finally have a: "- (2 ^ 63) \<le> int (unat v)" .
  obtain c s where cs: "fmtUint32 v = c # s" using fmtUint32_facts(4) by (cases "fmtUint32 v") auto
  then have "is_digit c" using fmtUint32_facts(2) [of v] by simp
  then have "c \<noteq> CHR ''-''" "c \<noteq> CHR ''+''" by (auto simp: is_digit_def)
  then show ?thesis
    using fmtUint32_facts [of v] a b cs by (simp add: ParseInt64_def Let_def)
qed

lemma fmtUint32_inj: "fmtUint32 a = fmtUint32 b \<Longrightarrow> a = b"
  by (metis fmtUint32_facts(1) word_unat_eq_iff)

lemma fmtUint32_no_colon: "CHR '':'' \<notin> set (fmtUint32 v)"
  using fmtUint32_facts(2) [of v] by (auto simp: list_all_iff is_digit_def)

lemma utc_day_idem [simp]: "utc_day (utc_day t) = utc_day t"
  by (simp add: utc_day_def mod_diff_left_eq)

lemma utc_day_unique: "day_number d = day_number d' \<Longrightarrow> utc_day d = d \<Longrightarrow> utc_day d' = d' \<Longrightarrow> d = d'"
  by (simp add: utc_day_def day_number_def minus_mod_eq_mult_div)

lemma usage_key_inj:
  assumes "usage_key (format_day d) u t = usage_key (format_day d') u' t'" "utc_day d = d" "utc_day d' = d'"
  shows "d = d' \<and> u = u' \<and> t = t'"
proof -
  have "format_day d = format_day d' \<and> fmtUint32 u @ CHR '':'' # fmtUint32 t = fmtUint32 u' @ CHR '':'' # fmtUint32 t'"
    using assms by (intro sep_unique) (auto simp: usage_key_def format_day_no_colon)
  moreover from this have "fmtUint32 u = fmtUint32 u' \<and> fmtUint32 t = fmtUint32 t'"
    by (intro sep_unique) (auto simp: fmtUint32_no_colon)
  ultimately show ?thesis using assms(2,3) fmtUint32_inj format_day_inj [of d d'] by (auto intro: utc_day_unique)
qed

section \<open>Conservation\<close>

datatype counter = BytesInC | BytesOutC | RequestsC

fun cnt :: "counter \<Rightarrow> ('a) usage_record_scheme \<Rightarrow> i64" where
  "cnt BytesInC r = BytesIn r"
| "cnt BytesOutC r = BytesOut r"
| "cnt RequestsC r = Requests r"

definition key3 :: "('a) usage_record_scheme \<Rightarrow> time \<times> u32 \<times> u32" where
  "key3 r = (PeriodStart r, UserID r, TunnelID r)"

definition amount :: "counter \<Rightarrow> time \<times> u32 \<times> u32 \<Rightarrow> ('a) usage_record_scheme \<Rightarrow> i64" where
  "amount c K r = (if key3 r = K then cnt c r else 0)"

definition total :: "counter \<Rightarrow> time \<times> u32 \<times> u32 \<Rightarrow> ('a) usage_record_scheme list \<Rightarrow> i64" where
  "total c K rs = sum_list (map (amount c K) rs)"

definition usage_inv :: "usage_service \<Rightarrow> bool" where
  "usage_inv s \<longleftrightarrow> distinct (map fst (records s)) \<and>
     list_all (\<lambda>(k, r). k = usage_key (format_day (PeriodStart r)) (UserID r) (TunnelID r) \<and>
       utc_day (PeriodStart r) = PeriodStart r) (records s)"

definition usage_db_inv :: "usage_db \<Rightarrow> bool" where
  "usage_db_inv db \<longleftrightarrow> keyed us_ID row_key (us_rows db) \<and> list_all (\<lambda>r. us_ID r < us_next db) (us_rows db)"

definition add_usage :: "usage_record \<Rightarrow> usage_row \<Rightarrow> usage_row" where
  "add_usage r x = set_usage r x x"

interpretation usage: ent_table us_ID row_key add_usage
  by unfold_locales (auto simp: add_usage_def set_usage_def row_key_def)

lemma total_append [simp]: "total c K (xs @ ys) = total c K xs + total c K ys"
  by (simp add: total_def)

lemma total_Nil [simp]: "total c K [] = 0"
  by (simp add: total_def)

lemma cnt_add_usage: "cnt c (add_usage r x) = cnt c x + cnt c r"
  by (cases c) (simp_all add: add_usage_def set_usage_def)

lemma key3_row_key: "row_key x = row_key r \<Longrightarrow> key3 x = key3 r"
  by (simp add: row_key_def key3_def)

lemma upsert_cases:
  assumes "usage_db_inv db"
  obtains x where "x \<in> set (us_rows db)" "row_key x = row_key r"
      "upsert r db = db\<lparr>us_rows := map (\<lambda>y. if us_ID y = us_ID x then add_usage r y else y) (us_rows db)\<rparr>"
  | "row_key r \<notin> row_key ` set (us_rows db)"
      "upsert r db = db\<lparr>us_rows := us_rows db @ [usage_record.extend r \<lparr>us_ID = us_next db\<rparr>], us_next := Suc (us_next db)\<rparr>"
proof (cases "ent_Only (\<lambda>x. row_key x = row_key r) (us_rows db)")
  case (Inl e)
  then have "row_key r \<notin> row_key ` set (us_rows db)"
    using ent_Only_key_None [of row_key "us_rows db" "row_key r" e] assms by (simp add: usage_db_inv_def keyed_def)
  with Inl show thesis by (intro that(2)) (simp_all add: upsert_def find_existing_def write_row_def)
next
  case (Inr x)
  then have x: "x \<in> set (us_rows db)" "row_key x = row_key r" using ent_Only_Inr by fastforce+
  have one: "filter (\<lambda>y. us_ID y = us_ID x) (us_rows db) = [x]"
    using assms x(1) by (intro filter_key_distinct) (simp_all add: usage_db_inv_def keyed_def)
  have "y = x" if "y \<in> set (us_rows db)" "us_ID y = us_ID x" for y
    using that one filter_set [of "\<lambda>y. us_ID y = us_ID x" "us_rows db"] by auto
  then have "map (\<lambda>y. if us_ID y = us_ID x then set_usage r x y else y) (us_rows db) =
      map (\<lambda>y. if us_ID y = us_ID x then add_usage r y else y) (us_rows db)"
    by (intro map_cong) (auto simp: add_usage_def)
  with Inr x one show thesis by (intro that(1) [of x]) (simp_all add: upsert_def find_existing_def write_row_def ent_UpdateOneID_def)
qed

lemma total_replace:
  assumes "distinct (map us_ID rows)" "x \<in> set rows" "key3 x = key3 r"
  shows "total c K (map (\<lambda>y. if us_ID y = us_ID x then add_usage r y else y) rows) = total c K rows + amount c K r"
  using assms
proof (induction rows)
  case (Cons y rows)
  show ?case
  proof (cases "us_ID y = us_ID x")
    case True
    have rest: "us_ID z \<noteq> us_ID x" if "z \<in> set rows" for z
      using Cons.prems(1) that True by (metis distinct.simps(2) image_eqI list.set_map list.simps(9))
    with Cons.prems(2) have "y = x" by auto
    moreover have "map (\<lambda>y. if us_ID y = us_ID x then add_usage r y else y) rows = rows"
      using rest by (intro map_idI) simp
    moreover have "key3 (add_usage r x) = key3 x" by (simp add: key3_def add_usage_def set_usage_def)
    ultimately show ?thesis using Cons.prems(3) by (simp add: total_def amount_def cnt_add_usage)
  next
    case False
    with Cons.prems have "x \<in> set rows" by auto
    with False Cons show ?thesis by (simp add: total_def)
  qed
qed simp

lemma upsert_total:
  assumes "usage_db_inv db"
  shows "total c K (us_rows (upsert r db)) = total c K (us_rows db) + amount c K r \<and> usage_db_inv (upsert r db)"
  using assms
proof (cases rule: upsert_cases [where r = r])
  case (1 x)
  have "total c K (us_rows (upsert r db)) = total c K (us_rows db) + amount c K r"
    using total_replace [of "us_rows db" x r c K] assms 1(1) key3_row_key [OF 1(2)] unfolding 1(3)
    by (simp add: usage_db_inv_def keyed_def)
  moreover have "usage_db_inv (upsert r db)"
    using assms unfolding 1(3) usage_db_inv_def keyed_def by (auto simp: usage.map_upd_if list_all_iff usage.upd_id simp del: map_map)
  ultimately show ?thesis ..
next
  case 2
  have "total c K [usage_record.extend r \<lparr>us_ID = us_next db\<rparr>] = amount c K r"
    by (cases c) (simp_all add: total_def amount_def key3_def usage_record.defs)
  moreover have "usage_db_inv (upsert r db)"
    using assms 2(1) unfolding 2(2)
    by (auto simp: usage_db_inv_def keyed_def list_all_iff row_key_def usage_record.defs less_Suc_eq)
  ultimately show ?thesis using 2(2) by simp
qed

lemma fold_upsert_total:
  "usage_db_inv db \<Longrightarrow>
   total c K (us_rows (fold upsert rs db)) = total c K (us_rows db) + total c K rs \<and> usage_db_inv (fold upsert rs db)"
proof (induction rs arbitrary: db)
  case (Cons r rs)
  note u = upsert_total [OF Cons.prems, of c K r]
  then show ?case using Cons.IH [of "upsert r db"] by (simp add: total_def algebra_simps)
qed simp

text \<open>The batches together are the whole snapshot.\<close>

lemma flush_loop_all:
  "(\<And>i. \<not> fault i) \<Longrightarrow> flush_loop fault i rs db = (None, fold upsert (drop i rs) db)"
proof (induction fault i rs db rule: flush_loop.induct)
  case (1 fault i rs db)
  show ?case
  proof (cases "i < length rs")
    case True
    let ?b = "take (min (i + batchSize) (length rs) - i) (drop i rs)"
    have "?b = take batchSize (drop i rs)" using True by (simp add: min_def)
    then have split: "drop i rs = ?b @ drop (i + batchSize) rs"
      by (metis add.commute append_take_drop_id drop_drop)
    define db' where "db' = fold upsert ?b db"
    have p: "processBatch (fault i) ?b db = (None, db')" using 1(2) by (simp add: processBatch_def db'_def)
    have d: "fold upsert (drop i rs) db = fold upsert (drop (i + batchSize) rs) db'"
      unfolding db'_def by (subst (1) split) (simp only: fold_append o_apply)
    have "flush_loop fault i rs db = flush_loop fault (i + batchSize) rs db'"
      using True p by (subst flush_loop.simps) simp
    also have "\<dots> = (None, fold upsert (drop (i + batchSize) rs) db')"
      using 1(1) [OF True p [symmetric] refl 1(2)] .
    finally show ?thesis using d by simp
  next
    case False
    then show ?thesis by (subst flush_loop.simps) simp
  qed
qed

lemma FlushToDB_ok:
  assumes "usage_db_inv db" "\<And>i. \<not> fault i" "FlushToDB fault now s db = (err, s', db')"
  shows "err = None \<and> records s' = [] \<and> usage_db_inv db' \<and>
    total c K (us_rows db') = total c K (us_rows db) + total c K (map snd (records s))"
  using assms fold_upsert_total [OF assms(1), of c K "map snd (records s)"]
  by (auto simp: FlushToDB_def SnapshotAndReset_def flush_loop_all [of fault] Let_def split: if_splits)

lemma Increment_record:
  assumes "usage_inv s" "map_of (records s) (usage_key (format_day d) u t) = Some r" "utc_day d = d"
  shows "PeriodStart r = d \<and> UserID r = u \<and> TunnelID r = t"
proof -
  have "usage_key (format_day d) u t = usage_key (format_day (PeriodStart r)) (UserID r) (TunnelID r)"
    "utc_day (PeriodStart r) = PeriodStart r"
    using map_of_SomeD [OF assms(2)] assms(1) by (auto simp: usage_inv_def list_all_iff)
  from usage_key_inj [OF this(1) assms(3) this(2)] show ?thesis by simp
qed

lemma Increment_total:
  assumes inv: "usage_inv s"
    and i: "Increment now u t dmn bi bo rq s = (s', b)"
  shows "usage_inv s' \<and> total c K (map snd (records s')) = total c K (map snd (records s)) +
    amount c K \<lparr>PeriodStart = utc_day now, UserID = u, TunnelID = t, Domain = dmn, BytesIn = bi, BytesOut = bo, Requests = rq\<rparr>"
proof -
  define k where "k = usage_key (format_day (utc_day now)) u t"
  define rec where "rec = (case map_of (records s) k of
                   Some rec \<Rightarrow> rec
                 | None \<Rightarrow> \<lparr>PeriodStart = utc_day now, UserID = u, TunnelID = t, Domain = dmn,
                            BytesIn = 0, BytesOut = 0, Requests = 0\<rparr>)"
  define rec' where "rec' = rec\<lparr>BytesIn := BytesIn rec + bi, BytesOut := BytesOut rec + bo, Requests := Requests rec + rq\<rparr>"
  have s': "records s' = AList.update k rec' (records s)"
    using i by (auto simp: Increment_def Let_def k_def rec_def rec'_def)
  have key: "key3 rec = (utc_day now, u, t)"
    using Increment_record [OF inv, of "utc_day now" u t]
    by (auto simp: rec_def k_def key3_def split: option.split)
  then have sel: "PeriodStart rec = utc_day now" "UserID rec = u" "TunnelID rec = t" by (simp_all add: key3_def)
  have "usage_inv s'"
    using inv sel by (auto simp: usage_inv_def s' list_all_iff k_def rec'_def dest!: set_alist_update intro: distinct_keys_update)
  moreover have "cnt c rec' = cnt c rec + cnt c \<lparr>PeriodStart = utc_day now, UserID = u, TunnelID = t, Domain = dmn, BytesIn = bi, BytesOut = bo, Requests = rq\<rparr>"
    by (cases c) (simp_all add: rec'_def)
  moreover have "(case map_of (records s) k of None \<Rightarrow> 0 | Some v0 \<Rightarrow> amount c K v0) = (if key3 rec = K then cnt c rec else 0)"
    by (cases c) (auto simp: rec_def amount_def split: option.split)
  moreover have "key3 rec' = key3 rec" by (simp add: rec'_def key3_def)
  ultimately show ?thesis
    using inv sum_list_update [of "records s" "amount c K" k rec'] key
    by (simp add: total_def s' usage_inv_def amount_def o_def) (simp add: key3_def)
qed

section \<open>Reports and flushes interleaved\<close>

text \<open>
  A flush that is under way: the records of the running transaction it has not come to yet, the records
  of later batches, the record it has just queried with what it found, and the writes of the transaction so far,
  which nobody else sees before the commit.
\<close>

record flusher =
  fl_todo :: "usage_record list"
  fl_rest :: "usage_record list"
  fl_query :: "(usage_record \<times> usage_row option) option"
  fl_writes :: "(usage_record \<times> usage_row option) list"

definition next_batch :: "usage_record list \<Rightarrow> flusher" where
  "next_batch rs = \<lparr>fl_todo = take batchSize rs, fl_rest = drop batchSize rs, fl_query = None, fl_writes = []\<rparr>"

definition in_flight :: "flusher \<Rightarrow> usage_record list" where
  "in_flight f = map fst (fl_writes f) @ (case fl_query f of Some (r, _) \<Rightarrow> [r] | None \<Rightarrow> []) @ fl_todo f @ fl_rest f"

text \<open>
  The unique index on period, user, tunnel and domain refuses a row that another flush has created meanwhile.
\<close>

definition clashes :: "flusher \<Rightarrow> usage_db \<Rightarrow> bool" where
  "clashes f db \<longleftrightarrow> list_ex (\<lambda>(r, ex). ex = None \<and> row_key r \<in> row_key ` set (us_rows db)) (fl_writes f)"

text \<open>
  The steps: a report, a snapshot that begins a flush, the time stamp, and of any flush under way a query, a write and the commit
  of a batch. The history holds the reported records.
\<close>

type_synonym usage_state = "usage_record list \<times> usage_service \<times> usage_db \<times> flusher list"

inductive usage_step :: "usage_state \<Rightarrow> usage_state \<Rightarrow> bool" where
  u_report: "Increment now u t d bi bo rq s = (s', b) \<Longrightarrow>
    usage_step (H, s, db, fs)
      (\<lparr>PeriodStart = utc_day now, UserID = u, TunnelID = t, Domain = d, BytesIn = bi, BytesOut = bo, Requests = rq\<rparr> # H, s', db, fs)"
| u_snapshot: "SnapshotAndReset s = (rs, s') \<Longrightarrow> rs \<noteq> [] \<Longrightarrow> usage_step (H, s, db, fs) (H, s', db, fs @ [next_batch rs])"
| u_stamp: "usage_step (H, s, db, fs) (H, s\<lparr>lastFlush := now\<rparr>, db, fs)"
| u_query: "fl_query f = None \<Longrightarrow> fl_todo f = r # rs \<Longrightarrow>
    usage_step (H, s, db, fs @ f # gs)
      (H, s, db, fs @ f\<lparr>fl_todo := rs, fl_query := Some (r, find_existing r (fold write_row (fl_writes f) db))\<rparr> # gs)"
| u_write: "fl_query f = Some w \<Longrightarrow>
    usage_step (H, s, db, fs @ f # gs) (H, s, db, fs @ f\<lparr>fl_query := None, fl_writes := fl_writes f @ [w]\<rparr> # gs)"
| u_commit: "fl_query f = None \<Longrightarrow> fl_todo f = [] \<Longrightarrow> \<not> clashes f db \<Longrightarrow>
    usage_step (H, s, db, fs @ f # gs)
      (H, s, fold write_row (fl_writes f) db, fs @ (if fl_rest f = [] then [] else [next_batch (fl_rest f)]) @ gs)"

text \<open>A statement or a commit that fails ends the flush: \<open>FlushToDB\<close> returns at the first error.\<close>

inductive usage_fail :: "usage_state \<Rightarrow> usage_state \<Rightarrow> bool" where
  u_fail: "usage_fail (H, s, db, fs @ f # gs) (H, s, db, fs @ gs)"

text \<open>Flushes that do not overlap: at most one is under way.\<close>

definition solo_step :: "usage_state \<Rightarrow> usage_state \<Rightarrow> bool" where
  "solo_step st st' \<longleftrightarrow> usage_step st st' \<and> length (snd (snd (snd st'))) \<le> 1"

definition usage_begin :: "usage_service \<Rightarrow> usage_db \<Rightarrow> usage_state \<Rightarrow> bool" where
  "usage_begin s0 db0 st \<longleftrightarrow> usage_inv s0 \<and> usage_db_inv db0 \<and> st = ([], s0, db0, [])"

fun writes_ok :: "usage_db \<Rightarrow> (usage_record \<times> usage_row option) list \<Rightarrow> bool" where
  "writes_ok db [] \<longleftrightarrow> True"
| "writes_ok db (w # ws) \<longleftrightarrow> snd w = find_existing (fst w) db \<and> writes_ok (write_row w db) ws"

lemma writes_ok_snoc:
  "writes_ok db (ws @ [w]) \<longleftrightarrow> writes_ok db ws \<and> snd w = find_existing (fst w) (fold write_row ws db)"
  by (induction ws arbitrary: db) auto

lemma writes_ok_upserts: "writes_ok db ws \<Longrightarrow> fold write_row ws db = fold upsert (map fst ws) db"
  by (induction ws arbitrary: db) (auto simp: upsert_def)

definition flusher_ok :: "usage_db \<Rightarrow> flusher \<Rightarrow> bool" where
  "flusher_ok db f \<longleftrightarrow> writes_ok db (fl_writes f) \<and>
     (\<forall>r ex. fl_query f = Some (r, ex) \<longrightarrow> ex = find_existing r (fold write_row (fl_writes f) db))"

definition books :: "counter \<Rightarrow> time \<times> u32 \<times> u32 \<Rightarrow> usage_service \<Rightarrow> usage_db \<Rightarrow> flusher list \<Rightarrow> i64" where
  "books c K s db fs = total c K (us_rows db) + total c K (map snd (records s)) + total c K (concat (map in_flight fs))"

definition solo_inv :: "counter \<Rightarrow> time \<times> u32 \<times> u32 \<Rightarrow> usage_service \<Rightarrow> usage_db \<Rightarrow> usage_state \<Rightarrow> bool" where
  "solo_inv c K s0 db0 = (\<lambda>(H, s, db, fs). usage_inv s \<and> usage_db_inv db \<and> length fs \<le> 1 \<and> (\<forall>f \<in> set fs. flusher_ok db f) \<and>
     books c K s db fs = books c K s0 db0 [] + total c K H)"

lemma next_batch_facts [simp]: "flusher_ok db (next_batch rs)" "in_flight (next_batch rs) = rs"
  by (simp_all add: next_batch_def flusher_ok_def in_flight_def)

lemma total_Cons [simp]: "total c K (r # rs) = amount c K r + total c K rs"
  by (simp add: total_def)

lemma solo_alone:
  assumes "length (fs @ f # gs) \<le> 1"
  shows "fs = [] \<and> gs = []"
  using assms by simp

lemma solo_inv_step:
  assumes "solo_step st st'" "solo_inv c K s0 db0 st"
  shows "solo_inv c K s0 db0 st'"
proof -
  have "usage_step st st'" and len: "length (snd (snd (snd st'))) \<le> 1" using assms(1) by (simp_all add: solo_step_def)
  then show ?thesis
    using assms(2)
  proof (induction rule: usage_step.induct)
    case (u_report now u t d bi bo rq s s' b H db fs)
    then show ?case using Increment_total [OF _ u_report(1)] by (simp add: solo_inv_def books_def algebra_simps)
  next
    case (u_snapshot s rs s' H db fs)
    then have "fs = []" "records s' = []" "rs = map snd (records s)" by (auto simp: SnapshotAndReset_def)
    then show ?case using u_snapshot by (simp add: solo_inv_def books_def usage_inv_def)
  next
    case (u_stamp H s db fs now)
    then show ?case by (simp add: solo_inv_def books_def usage_inv_def)
  next
    case (u_query f r rs H s db fs gs)
    then show ?case by (auto simp: solo_inv_def books_def flusher_ok_def in_flight_def)
  next
    case (u_write f w H s db fs gs)
    then show ?case by (cases w) (auto simp: solo_inv_def books_def flusher_ok_def in_flight_def writes_ok_snoc)
  next
    case (u_commit f db H s fs gs)
    then have a: "fs = [] \<and> gs = []" and ok: "writes_ok db (fl_writes f)" and inv: "usage_db_inv db"
      by (auto simp: solo_inv_def flusher_ok_def)
    note t = fold_upsert_total [OF inv, of _ _ "map fst (fl_writes f)", folded writes_ok_upserts [OF ok]]
    have i: "in_flight f = map fst (fl_writes f) @ fl_rest f" using u_commit(1,2) by (simp add: in_flight_def)
    show ?case using u_commit a t by (auto simp: solo_inv_def books_def i algebra_simps)
  qed
qed

interpretation solo: transition_system "usage_begin s0 db0" solo_step "solo_inv c K s0 db0" for c K s0 db0
proof unfold_locales
  show "solo_inv c K s0 db0 st" if "usage_begin s0 db0 st" for st using that by (simp add: usage_begin_def solo_inv_def)
qed (rule solo_inv_step)


lemma find_existing_row:
  assumes "usage_db_inv db" "x \<in> set (us_rows db)" "row_key x = row_key r"
  shows "find_existing r db = Some x"
proof -
  have "filter (\<lambda>y. row_key y = row_key x) (us_rows db) = [x]"
    using assms by (intro filter_key_distinct) (simp_all add: usage_db_inv_def keyed_def)
  then have "ent_Only (\<lambda>y. row_key y = row_key r) (us_rows db) = Inr x" using assms(3) by (simp add: ent_Only_def)
  then show ?thesis by (simp add: find_existing_def)
qed

lemma write_existing:
  assumes "distinct (map us_ID (us_rows db))" "us_ID x \<in> us_ID ` set (us_rows db)"
  shows "write_row (r, Some x) db = db\<lparr>us_rows := map (\<lambda>y. if us_ID y = us_ID x then set_usage r x y else y) (us_rows db)\<rparr>"
proof -
  obtain z where z: "z \<in> set (us_rows db)" "us_ID z = us_ID x" using assms(2) by auto
  then have "filter (\<lambda>y. us_ID y = us_ID x) (us_rows db) = [z]" using filter_key_distinct [OF assms(1) z(1)] by simp
  then show ?thesis by (simp add: write_row_def ent_UpdateOneID_def)
qed

lemma two_writes_total:
  assumes "usage_db_inv db" "x \<in> set (us_rows db)" "row_key x = row_key rb"
  shows "total c K (us_rows (write_row (rb, Some x) (write_row (ra, Some x) db))) = total c K (us_rows db) + amount c K rb"
proof -
  have d: "distinct (map us_ID (us_rows db))" using assms(1) by (simp add: usage_db_inv_def keyed_def)
  define g where "g r y = (if us_ID y = us_ID x then set_usage r x y else y)" for r and y :: usage_row
  have id: "us_ID (g r y) = us_ID y" for r y by (simp add: g_def set_usage_def)
  have w: "write_row (r, Some x) db = db\<lparr>us_rows := map (g r) (us_rows db)\<rparr>"
    if "distinct (map us_ID (us_rows db))" "us_ID x \<in> us_ID ` set (us_rows db)" for r and db :: usage_db
    using write_existing [OF that] by (simp add: g_def [abs_def])
  have "us_rows (write_row (rb, Some x) (write_row (ra, Some x) db)) = map (g rb) (map (g ra) (us_rows db))"
    using d assms(2) by (simp add: w id o_def image_image)
  also have "\<dots> = map (\<lambda>y. if us_ID y = us_ID x then add_usage rb y else y) (us_rows db)"
  proof -
    have "g rb (g ra y) = (if us_ID y = us_ID x then add_usage rb y else y)" if "y \<in> set (us_rows db)" for y
    proof (cases "us_ID y = us_ID x")
      case True
      then have "y = x" using d that assms(2) by (auto simp: distinct_map dest: inj_onD)
      then show ?thesis by (simp add: g_def add_usage_def set_usage_def)
    qed (simp add: g_def)
    then show ?thesis by simp
  qed
  finally show ?thesis using total_replace [OF d assms(2) key3_row_key [OF assms(3)]] by simp
qed

text \<open>
  Overlapping flushes lose traffic: when two flushes have each taken a snapshot with a record of the same row, both
  can query the row before either commits. All their statements succeed, both flushes end, and the traffic of the one
  that commits first is gone.
\<close>

theorem overlapping_flushes_lose:
  assumes "usage_db_inv db" "x \<in> set (us_rows db)" "row_key x = row_key ra" "row_key x = row_key rb"
  shows "\<exists>db'. usage_step\<^sup>*\<^sup>* (H, s, db, [next_batch [ra], next_batch [rb]]) (H, s, db', []) \<and>
    total c K (us_rows db') = total c K (us_rows db) + amount c K rb"
proof -
  let ?q = "\<lambda>r. \<lparr>fl_todo = [], fl_rest = [], fl_query = Some (r, Some x), fl_writes = []\<rparr>"
  let ?w = "\<lambda>r. \<lparr>fl_todo = [], fl_rest = [], fl_query = None, fl_writes = [(r, Some x)]\<rparr>"
  let ?st = "\<lambda>db fs. (H, s, db, fs)"
  let ?db1 = "write_row (ra, Some x) db"
  have n: "next_batch [r] = \<lparr>fl_todo = [r], fl_rest = [], fl_query = None, fl_writes = []\<rparr>" for r
    by (simp add: next_batch_def batchSize_def)
  have "usage_step (?st db [next_batch [ra], next_batch [rb]]) (?st db [?q ra, next_batch [rb]])"
    using u_query [of "next_batch [ra]" ra "[]" H s db "[]"] find_existing_row [OF assms(1,2,3)] by (simp add: n)
  moreover have "usage_step (?st db [?q ra, next_batch [rb]]) (?st db [?q ra, ?q rb])"
    using u_query [of "next_batch [rb]" rb "[]" H s db "[?q ra]" "[]"] find_existing_row [OF assms(1,2,4)] by (simp add: n)
  moreover have "usage_step (?st db [?q ra, ?q rb]) (?st db [?w ra, ?q rb])"
    using u_write [of "?q ra" _ H s db "[]" "[?q rb]"] by simp
  moreover have "usage_step (?st db [?w ra, ?q rb]) (?st db [?w ra, ?w rb])"
    using u_write [of "?q rb" _ H s db "[?w ra]" "[]"] by simp
  moreover have "usage_step (?st db [?w ra, ?w rb]) (?st ?db1 [?w rb])"
    using u_commit [of "?w ra" db H s "[]" "[?w rb]"] by (simp add: clashes_def)
  moreover have "usage_step (?st ?db1 [?w rb]) (?st (write_row (rb, Some x) ?db1) [])"
    using u_commit [of "?w rb" ?db1 H s "[]" "[]"] by (simp add: clashes_def)
  ultimately have "usage_step\<^sup>*\<^sup>* (?st db [next_batch [ra], next_batch [rb]]) (?st (write_row (rb, Some x) ?db1) [])"
    by (meson converse_rtranclp_into_rtranclp rtranclp.rtrancl_refl)
  then show ?thesis using two_writes_total [OF assms(1,2,4)] by blast
qed

text \<open>
  A flush whose first batch fails loses everything that was in memory: the snapshot was taken, the
  table is unchanged, and nothing is put back.
\<close>

theorem failed_flush_loses_usage:
  assumes "records s \<noteq> []" "fault 0" "FlushToDB fault now s db = (err, s', db')"
  shows "err = Some DBError \<and> records s' = [] \<and> db' = db"
proof -
  have "flush_loop fault 0 (map snd (records s)) db = (Some DBError, db)"
    using assms(1,2) by (subst flush_loop.simps) (simp add: processBatch_def)
  with assms show ?thesis by (auto simp: FlushToDB_def SnapshotAndReset_def Let_def)
qed

section \<open>Witnesses\<close>


theorem overlapping_flushes_lose_witness:
  "\<exists>H s db db' ra rb. usage_step\<^sup>*\<^sup>* (H, s, db, [next_batch [ra], next_batch [rb]]) (H, s, db', []) \<and>
     BytesIn ra = 5 \<and> BytesIn rb = 7 \<and> total BytesInC (0, 1, 2) (us_rows db) = 10 \<and> total BytesInC (0, 1, 2) (us_rows db') = 17"
proof -
  let ?r = "\<lambda>n. \<lparr>PeriodStart = 0, UserID = 1, TunnelID = 2, Domain = ''d'', BytesIn = n, BytesOut = 0, Requests = 1\<rparr>"
  let ?x = "\<lparr>PeriodStart = 0, UserID = 1, TunnelID = 2, Domain = ''d'', BytesIn = 10, BytesOut = 0, Requests = 1, us_ID = 1\<rparr> :: usage_row"
  let ?db = "\<lparr>us_rows = [?x], us_next = 2\<rparr>"
  have "usage_db_inv ?db" by (simp add: usage_db_inv_def keyed_def)
  from overlapping_flushes_lose [OF this, of ?x "?r 5" "?r 7" "[]" "\<lparr>records = [], lastFlush = 0\<rparr>" BytesInC "(0, 1, 2)"]
  obtain db' where "usage_step\<^sup>*\<^sup>* ([], \<lparr>records = [], lastFlush = 0\<rparr>, ?db, [next_batch [?r 5], next_batch [?r 7]])
      ([], \<lparr>records = [], lastFlush = 0\<rparr>, db', [])" "total BytesInC (0, 1, 2) (us_rows db') = 17"
    by (auto simp: row_key_def amount_def key3_def)
  moreover have "total BytesInC (0, 1, 2) (us_rows ?db) = 10" by (simp add: amount_def key3_def)
  ultimately show ?thesis by (metis usage_record.select_convs(5))
qed

theorem failed_flush_loses_usage_witness:
  "let s = fst (Increment 5 1 2 ''d'' 10 20 1 \<lparr>records = [], lastFlush = 0\<rparr>)
   in records (fst (snd (FlushToDB (\<lambda>_. True) 6 s \<lparr>us_rows = [], us_next = 1\<rparr>))) = []"
proof -
  define s where "s = fst (Increment 5 1 2 ''d'' 10 20 1 \<lparr>records = [], lastFlush = 0\<rparr>)"
  have "records s \<noteq> []" by (simp add: s_def Increment_def Let_def)
  moreover obtain err s' db' where f: "FlushToDB (\<lambda>_. True) 6 s \<lparr>us_rows = [], us_next = 1\<rparr> = (err, s', db')"
    by (rule prod_cases3)
  ultimately have "records s' = []" using failed_flush_loses_usage [OF _ _ f] by simp
  then show ?thesis unfolding Let_def s_def [symmetric] f by simp
qed

end
