(* ===== verification/Quota.thy ===== *)
theory Quota
  imports Usage_Service "HOL-Library.Log_Nat"
begin

text \<open>
  \<open>internal/service/quota_service.go\<close> and \<open>internal/service/plan_service.go\<close>. A check reads the user's
  plan and the usage rows of the current month; the result is cached for 30 seconds. Sums and limits are
  64-bit integers compared as signed numbers. The threshold of the warning is a \<open>float64\<close>, compared after
  the roundings of the code: the conversions of the two integers and the product are rounded to 53 bits.
  \<open>strconv.ParseFloat\<close>, which reads the threshold from the environment, is an argument.
\<close>

section \<open>Double precision\<close>

text \<open>
  A \<open>float64\<close> is an integer times a power of two, an infinity (the flag says whether it is negative) or not a number.
  Results are rounded to the nearest number of at most 53 bits with exponent at least \<open>-1074\<close>, ties to even, and
  beyond \<open>2\<^sup>1\<^sup>0\<^sup>2\<^sup>4\<close> to an infinity. The sign of zero, which no comparison sees, is left out.
\<close>

datatype float64 = Fin int int | Inf bool | NaN

definition rne :: "int \<Rightarrow> nat \<Rightarrow> int" where
  "rne m s =
     (let q = m div 2 ^ s; r = m mod 2 ^ s
      in if 2 * r < 2 ^ s \<or> 2 * r = 2 ^ s \<and> even q then q else q + 1)"

definition round64 :: "int \<Rightarrow> int \<Rightarrow> float64" where
  "round64 m e =
     (let s = nat (max (bitlen \<bar>m\<bar> - 53) (-1074 - e)); m' = rne m s; e' = e + int s
      in if bitlen \<bar>m'\<bar> + e' > 1024 then Inf (m' < 0) else Fin m' e')"

definition float64_of :: "i64 \<Rightarrow> float64" where
  "float64_of n = round64 (sint n) 0"

fun float64_mul :: "float64 \<Rightarrow> float64 \<Rightarrow> float64" where
  "float64_mul (Fin m1 e1) (Fin m2 e2) = round64 (m1 * m2) (e1 + e2)"
| "float64_mul (Inf n) (Fin m e) = (if m = 0 then NaN else Inf (n \<noteq> (m < 0)))"
| "float64_mul (Fin m e) (Inf n) = (if m = 0 then NaN else Inf (n \<noteq> (m < 0)))"
| "float64_mul (Inf n1) (Inf n2) = Inf (n1 \<noteq> n2)"
| "float64_mul _ _ = NaN"

fun float64_le :: "float64 \<Rightarrow> float64 \<Rightarrow> bool" where
  "float64_le (Fin m1 e1) (Fin m2 e2) \<longleftrightarrow> m1 * 2 ^ nat (e1 - e2) \<le> m2 * 2 ^ nat (e2 - e1)"
| "float64_le (Inf n) (Fin m e) \<longleftrightarrow> n"
| "float64_le (Fin m e) (Inf n) \<longleftrightarrow> \<not> n"
| "float64_le (Inf n1) (Inf n2) \<longleftrightarrow> n1 \<or> \<not> n2"
| "float64_le _ _ \<longleftrightarrow> False"

section \<open>Data\<close>

datatype QuotaDecision = QuotaAllow | QuotaWarn | QuotaBlock

record quota_result =
  Decision :: QuotaDecision
  UsedBytes :: i64
  LimitBytes :: i64

record quota_cache_entry =
  e_result :: quota_result
  e_at :: time

record quota_service =
  defaultLimit :: i64
  warnThresholdPct :: float64
  q_cache :: "(u32, quota_cache_entry) go_map"

record plan_row =
  pl_Name :: string
  pl_MonthlyLimitBytes :: i64
  pl_OveragePerGBCents :: int
  pl_Active :: bool

text \<open>What the database answers: the plan name of a user (absent when the user is not found or the
  query fails, empty when it is not set), the plans, the usage rows, each query possibly failing.\<close>

record quota_db =
  qd_plan_name :: "u32 \<Rightarrow> string option"
  qd_plans :: "plan_row list option"
  qd_usage :: "usage_row list option"

section \<open>Operations\<close>

definition parseInt64Env :: "(string \<Rightarrow> string) \<Rightarrow> string \<Rightarrow> i64 \<Rightarrow> i64" where
  "parseInt64Env env key def =
     (if env key \<noteq> [] then case ParseInt64 (env key) of Some n \<Rightarrow> word_of_int n | None \<Rightarrow> def else def)"

definition parseFloatEnv :: "(string \<Rightarrow> float64 option) \<Rightarrow> (string \<Rightarrow> string) \<Rightarrow> string \<Rightarrow> float64 \<Rightarrow> float64" where
  "parseFloatEnv ParseFloat env key def =
     (if env key \<noteq> [] then case ParseFloat (env key) of Some n \<Rightarrow> n | None \<Rightarrow> def else def)"

text \<open>The constant \<open>0.9\<close>: the nearest number of 53 bits.\<close>

definition pct90 :: float64 where
  "pct90 = Fin 8106479329266893 (-53)"

definition NewQuotaService :: "(string \<Rightarrow> float64 option) \<Rightarrow> (string \<Rightarrow> string) \<Rightarrow> quota_service" where
  "NewQuotaService ParseFloat env =
     \<lparr>defaultLimit = parseInt64Env env ''QUOTA_DEFAULT_MONTHLY_BYTES'' (100 * 1024 * 1024 * 1024),
      warnThresholdPct = parseFloatEnv ParseFloat env ''QUOTA_SOFT_WARN_PCT'' pct90, q_cache = []\<rparr>"

definition plan_limit :: "quota_service \<Rightarrow> quota_db \<Rightarrow> u32 \<Rightarrow> i64" where
  "plan_limit q db userID =
     (case qd_plan_name db userID of
        Some name \<Rightarrow>
          (if name = [] then defaultLimit q
           else case qd_plans db of
                  None \<Rightarrow> defaultLimit q
                | Some plans \<Rightarrow>
                    (case ent_Only (\<lambda>p. pl_Name p = name \<and> pl_Active p) plans of
                       Inr p \<Rightarrow> pl_MonthlyLimitBytes p
                     | Inl _ \<Rightarrow> defaultLimit q))
      | None \<Rightarrow> defaultLimit q)"

definition used_bytes :: "usage_row list \<Rightarrow> i64" where
  "used_bytes rows = foldl (\<lambda>used r. used + (BytesIn r + BytesOut r)) 0 rows"

text \<open>The evaluation without the cache; the flag says whether the result is cached.\<close>

definition evaluate :: "quota_service \<Rightarrow> quota_db \<Rightarrow> time \<Rightarrow> u32 \<Rightarrow> quota_result \<times> bool" where
  "evaluate q db monthStart userID =
     (let limit = plan_limit q db userID
      in case qd_usage db of
           None \<Rightarrow> (\<lparr>Decision = QuotaAllow, UsedBytes = 0, LimitBytes = limit\<rparr>, False)
         | Some rows \<Rightarrow>
             (let used = used_bytes (filter (\<lambda>r. PeriodStart r \<ge> monthStart \<and> UserID r = userID) rows);
                  d1 = (if float64_le (float64_mul (float64_of limit) (warnThresholdPct q)) (float64_of used) \<and> used <s limit then QuotaWarn else QuotaAllow);
                  d2 = (if limit \<le>s used then QuotaBlock else d1)
              in (\<lparr>Decision = d2, UsedBytes = used, LimitBytes = limit\<rparr>, True)))"

definition trim_cache :: "time \<Rightarrow> (u32, quota_cache_entry) go_map \<Rightarrow> (u32, quota_cache_entry) go_map" where
  "trim_cache now cache =
     (if length cache > 10000 then filter (\<lambda>(_, e). \<not> e_at e < now - 300) cache else cache)"

definition CheckUser ::
    "quota_db \<Rightarrow> time \<Rightarrow> u32 \<Rightarrow> quota_service \<Rightarrow> quota_result \<times> quota_service" where
  "CheckUser db now userID q =
     (if defaultLimit q \<le>s 0 then (\<lparr>Decision = QuotaAllow, UsedBytes = 0, LimitBytes = 0\<rparr>, q)
      else case map_of (q_cache q) userID of
             Some e \<Rightarrow>
               if now - e_at e < 30 then (e_result e, q)
               else (let (res, keep) = evaluate q db (month_start now) userID
                     in (res, if keep then q\<lparr>q_cache := trim_cache now
                           (AList.update userID \<lparr>e_result = res, e_at = now\<rparr> (q_cache q))\<rparr> else q))
           | None \<Rightarrow>
               (let (res, keep) = evaluate q db (month_start now) userID
                in (res, if keep then q\<lparr>q_cache := trim_cache now
                      (AList.update userID \<lparr>e_result = res, e_at = now\<rparr> (q_cache q))\<rparr> else q)))"

section \<open>The decision\<close>

lemma used_bytes_sum: "used_bytes rows = (\<Sum>r\<leftarrow>rows. BytesIn r + BytesOut r)"
proof -
  have "foldl (\<lambda>used r. used + (BytesIn r + BytesOut r)) a rows = a + (\<Sum>r\<leftarrow>rows. BytesIn r + BytesOut r)" for a
    by (induction rows arbitrary: a) (simp_all add: ac_simps)
  then show ?thesis by (simp add: used_bytes_def)
qed

lemma used_bytes_int: "used_bytes rows = word_of_int (\<Sum>r\<leftarrow>rows. sint (BytesIn r) + sint (BytesOut r))"
  unfolding used_bytes_sum by (induction rows) simp_all

lemma rne_bound: "2 * (rne m s * 2 ^ s) \<le> 2 * m + 2 ^ s" "2 * m \<le> 2 * (rne m s * 2 ^ s) + 2 ^ s"
proof -
  define q r where "q = m div 2 ^ s" and "r = m mod 2 ^ s"
  have m: "m = q * 2 ^ s + r" "0 \<le> r" "r < 2 ^ s" by (simp_all add: q_def r_def div_mult_mod_eq)
  have "rne m s = q \<and> 2 * r \<le> 2 ^ s \<or> rne m s = q + 1 \<and> 2 ^ s \<le> 2 * r"
    by (auto simp: rne_def Let_def q_def r_def)
  then have "2 * (rne m s * 2 ^ s) \<le> 2 * m + 2 ^ s \<and> 2 * m \<le> 2 * (rne m s * 2 ^ s) + 2 ^ s"
    using m by (elim disjE conjE) (simp_all add: distrib_right)
  then show "2 * (rne m s * 2 ^ s) \<le> 2 * m + 2 ^ s" "2 * m \<le> 2 * (rne m s * 2 ^ s) + 2 ^ s" by simp_all
qed

lemma rne_0 [simp]: "rne m 0 = m"
  by (simp add: rne_def)

lemma bitlen_range:
  assumes "0 < m"
  shows "2 ^ nat (bitlen m - 1) \<le> m" "m < 2 ^ nat (bitlen m)" "1 \<le> bitlen m"
  using bitlen_bounds [OF assms] assms by (simp_all add: bitlen_le_iff_power bitlen_ge_iff_power)

lemma bitlen_le: "0 < m \<Longrightarrow> m < 2 ^ k \<Longrightarrow> bitlen m \<le> int k"
  by (simp add: bitlen_le_iff_power)

lemma float64_of_small:
  assumes "0 \<le> sint n" "sint n < 2 ^ 53"
  shows "float64_of n = Fin (sint n) 0"
proof -
  have "bitlen (sint n) \<le> 53"
  proof (cases "sint n = 0")
    case False
    then show ?thesis using bitlen_le [of "sint n" 53] assms by simp
  qed simp
  then show ?thesis using assms by (simp add: float64_of_def round64_def)
qed

text \<open>
  The product of a limit with the default threshold, rounded as the code rounds it, is at most \<open>used\<close> exactly if
  nine tenths of the limit are: up to \<open>2\<^sup>5\<^sup>0\<close> the rounding error stays below a tenth of a byte.
\<close>

lemma threshold_rounding:
  assumes m: "m = L * 8106479329266893" and L: "0 < L" "L \<le> 2 ^ 50" and s: "m < 2 ^ (s + 53)" "s \<le> 50"
  shows "rne m s \<le> u * 2 ^ (53 - s) \<longleftrightarrow> 9 * L \<le> 10 * u"
proof -
  let ?R = "rne m s * 2 ^ s"
  note bound = rne_bound [of m s]
  have pow: "(2::int) ^ (53 - s) * 2 ^ s = 2 ^ 53" using s(2) by (simp flip: power_add)
  have ten: "10 * m = 9 * L * 2 ^ 53 + 2 * L" by (simp add: m)
  have "L * 2 ^ 52 \<le> m" using L(1) by (simp add: m)
  then have "L * 2 ^ 52 < 2 ^ (s + 1) * 2 ^ 52" using s(1) by (simp add: power_add)
  then have L2: "2 * L < 4 * 2 ^ s" by simp
  have s50: "(2::int) ^ s \<le> 2 ^ 50" using s(2) by (intro power_increasing) simp_all
  have "rne m s \<le> u * 2 ^ (53 - s) \<longleftrightarrow> ?R \<le> u * 2 ^ 53"
    using pow by (metis mult.assoc mult_le_cancel_right_pos zero_less_numeral zero_less_power)
  also have "\<dots> \<longleftrightarrow> 9 * L \<le> 10 * u"
  proof
    assume "?R \<le> u * 2 ^ 53"
    then have "10 * m \<le> 10 * u * 2 ^ 53 + 5 * 2 ^ s" using bound(2) by simp
    then show "9 * L \<le> 10 * u" using ten s50 L(1) by simp
  next
    assume le: "9 * L \<le> 10 * u"
    show "?R \<le> u * 2 ^ 53"
    proof (rule ccontr)
      assume "\<not> ?R \<le> u * 2 ^ 53"
      then have "u * 2 ^ (53 - s) < rne m s" using pow
        by (metis mult.assoc mult_less_cancel_right_pos not_le zero_less_numeral zero_less_power)
      then have "(u * 2 ^ (53 - s) + 1) * 2 ^ s \<le> ?R" by (intro mult_right_mono) simp_all
      then have "u * 2 ^ 53 + 2 ^ s \<le> ?R" using pow by (simp add: algebra_simps)
      then have "10 * u * 2 ^ 53 + 5 * 2 ^ s \<le> 10 * m" using bound(1) by simp
      moreover have "(0::int) < 2 ^ s" by simp
      moreover have "9 * L * 2 ^ 53 \<le> 10 * u * 2 ^ 53" using le by (intro mult_right_mono) simp_all
      ultimately show False using ten L2 by linarith
    qed
  qed
  finally show ?thesis .
qed

lemma threshold_exact:
  assumes "0 < sint limit" "sint limit \<le> 2 ^ 50" "0 \<le> sint used" "sint used < sint limit"
  shows "float64_le (float64_mul (float64_of limit) pct90) (float64_of used) \<longleftrightarrow> 9 * sint limit \<le> 10 * sint used"
proof -
  define L u m where "L = sint limit" and "u = sint used" and "m = L * 8106479329266893"
  have f: "float64_of limit = Fin L 0" "float64_of used = Fin u 0"
    using assms by (simp_all add: L_def u_def float64_of_small)
  have m0: "0 < m" "m < 2 ^ 103" using assms by (simp_all add: m_def L_def)
  define s where "s = nat (bitlen m - 53)"
  have s50: "s \<le> 50" using bitlen_le [OF m0] by (simp add: s_def)
  have big: "m < 2 ^ (s + 53)"
  proof -
    have "(2::int) ^ nat (bitlen m) \<le> 2 ^ (s + 53)" by (intro power_increasing) (simp_all add: s_def)
    then show ?thesis using bitlen_range(2) [OF m0(1)] by linarith
  qed
  have r: "round64 m (-53) = Fin (rne m s) (int s - 53)"
  proof -
    have "nat (max (bitlen \<bar>m\<bar> - 53) (-1074 - - 53)) = s" using m0(1) bitlen_range(3) [OF m0(1)] by (simp add: s_def max_def)
    moreover have "rne m s < 2 ^ 104" "0 \<le> rne m s"
    proof -
      note b = rne_bound(1) [of m s]
      have p: "(1::int) \<le> 2 ^ s" "(2::int) ^ s \<le> 2 ^ 50" using s50 power_increasing [of s 50 "2::int"] by simp_all
      show "0 \<le> rne m s" using m0(1) by (auto simp: rne_def Let_def pos_imp_zdiv_nonneg_iff)
      then have "rne m s * 1 \<le> rne m s * 2 ^ s" using p by (intro mult_left_mono) simp_all
      then show "rne m s < 2 ^ 104" using b p m0 by simp
    qed
    then have "bitlen \<bar>rne m s\<bar> \<le> 104" by (cases "rne m s = 0") (auto intro: bitlen_le [of _ 104, simplified])
    ultimately show ?thesis using s50 by (simp add: round64_def Let_def)
  qed
  have "float64_le (float64_mul (float64_of limit) pct90) (float64_of used) \<longleftrightarrow> rne m s \<le> u * 2 ^ (53 - s)"
    using s50 r by (simp add: f pct90_def m_def nat_diff_distrib)
  also have "\<dots> \<longleftrightarrow> 9 * L \<le> 10 * u"
    using threshold_rounding [OF m_def _ _ big s50] assms by (simp add: L_def)
  finally show ?thesis by (simp add: L_def u_def)
qed


section \<open>Staleness\<close>

text \<open>The database over time, and the calls of the service at non-decreasing times.\<close>

inductive quota_step :: "(time \<Rightarrow> quota_db) \<Rightarrow> quota_service \<times> time \<Rightarrow> quota_service \<times> time \<Rightarrow> bool"
  for world where
  step_check: "t \<le> now \<Longrightarrow> CheckUser (world now) now uid q = (res, q') \<Longrightarrow> quota_step world (q, t) (q', now)"

definition quota_init :: "quota_service \<times> time \<Rightarrow> bool" where
  "quota_init = (\<lambda>(q, t). q_cache q = [])"

definition same_limits :: "quota_service \<Rightarrow> quota_service \<Rightarrow> bool" where
  "same_limits q q' \<longleftrightarrow> defaultLimit q' = defaultLimit q \<and> warnThresholdPct q' = warnThresholdPct q"

definition cache_fresh :: "(time \<Rightarrow> quota_db) \<Rightarrow> quota_service \<times> time \<Rightarrow> bool" where
  "cache_fresh world = (\<lambda>(q, t). distinct (map fst (q_cache q)) \<and>
     (\<forall>uid e. map_of (q_cache q) uid = Some e \<longrightarrow>
        e_at e \<le> t \<and> e_result e = fst (evaluate q (world (e_at e)) (month_start (e_at e)) uid)))"

lemma evaluate_same: "same_limits q q' \<Longrightarrow> evaluate q' db t uid = evaluate q db t uid"
  unfolding evaluate_def plan_limit_def same_limits_def by (elim conjE) (simp only:)

lemma CheckUser_cases:
  assumes "CheckUser db now uid q = (res, q')"
  obtains "defaultLimit q \<le>s 0" "q' = q" "res = \<lparr>Decision = QuotaAllow, UsedBytes = 0, LimitBytes = 0\<rparr>"
  | e where "map_of (q_cache q) uid = Some e" "now - e_at e < 30" "res = e_result e" "q' = q"
  | "res = fst (evaluate q db (month_start now) uid)" "q' = q"
  | "res = fst (evaluate q db (month_start now) uid)"
      "q' = q\<lparr>q_cache := trim_cache now (AList.update uid \<lparr>e_result = res, e_at = now\<rparr> (q_cache q))\<rparr>"
proof (cases "defaultLimit q \<le>s 0")
  case True
  with assms have "res = \<lparr>Decision = QuotaAllow, UsedBytes = 0, LimitBytes = 0\<rparr> \<and> q' = q"
    by (auto simp: CheckUser_def)
  with True show thesis by (intro that(1)) blast+
next
  case pos: False
  obtain r keep where ev: "evaluate q db (month_start now) uid = (r, keep)" by force
  note fresh_only = that(3) and fresh_cached = that(4)
  have miss: thesis if eq: "(res, q') = (r, if keep then q\<lparr>q_cache := trim_cache now
      (AList.update uid \<lparr>e_result = r, e_at = now\<rparr> (q_cache q))\<rparr> else q)"
    using eq ev by (cases keep) (auto intro: fresh_only fresh_cached)
  show thesis
  proof (cases "map_of (q_cache q) uid")
    case None
    show thesis by (rule miss) (use assms pos ev None in \<open>simp add: CheckUser_def\<close>)
  next
    case (Some e)
    show thesis
    proof (cases "now - e_at e < 30")
      case True
      have "res = e_result e \<and> q' = q" using assms pos Some True by (auto simp: CheckUser_def)
      with Some True show thesis by (intro that(2) [of e]) blast+
    next
      case False
      show thesis by (rule miss) (use assms pos ev Some False in \<open>simp add: CheckUser_def\<close>)
    qed
  qed
qed

lemma map_of_filter_snd: "distinct (map fst m) \<Longrightarrow> map_of (filter P m) k = Some v \<Longrightarrow> map_of m k = Some v"
  by (metis (no_types, lifting) filter_is_subset map_of_SomeD map_of_is_SomeI subsetD)

lemma trim_cache_facts:
  assumes "distinct (map fst m)"
  shows "distinct (map fst (trim_cache now m))" "map_of (trim_cache now m) k = Some v \<Longrightarrow> map_of m k = Some v"
  using assms by (auto simp: trim_cache_def distinct_map_filter dest: map_of_filter_snd split: if_splits)

lemma cache_fresh_step:
  assumes "quota_step world s s'" "cache_fresh world s"
  shows "cache_fresh world s'"
  using assms
proof (induction rule: quota_step.induct)
  case (step_check t now uid q res q')
  from step_check.hyps(2) show ?case
  proof (cases rule: CheckUser_cases)
    case 4
    let ?m = "AList.update uid \<lparr>e_result = res, e_at = now\<rparr> (q_cache q)"
    have d: "distinct (map fst ?m)" using step_check.prems by (auto simp: cache_fresh_def intro: distinct_keys_update)
    have "same_limits q q'" using 4 by (simp add: same_limits_def)
    note ev = evaluate_same [OF this]
    have old: "e_at e \<le> t \<and> e_result e = fst (evaluate q (world (e_at e)) (month_start (e_at e)) u)"
      if "map_of (q_cache q) u = Some e" for u e
      using step_check.prems that by (simp add: cache_fresh_def)
    have new: "e_at e \<le> now \<and> e_result e = fst (evaluate q' (world (e_at e)) (month_start (e_at e)) u)"
      if "map_of (q_cache q') u = Some e" for u e
    proof -
      have "map_of ?m u = Some e" using trim_cache_facts(2) [OF d] that 4(2) by simp
      then consider "u = uid" "e = \<lparr>e_result = res, e_at = now\<rparr>" | "map_of (q_cache q) u = Some e"
        unfolding map_of_update fun_upd_apply by (metis option.inject)
      then show ?thesis
      proof cases
        case 1
        then show ?thesis using 4(1) ev by simp
      next
        case 2
        then show ?thesis using old [OF 2] step_check.hyps(1) ev by simp
      qed
    qed
    show ?thesis
      unfolding cache_fresh_def prod.case using new trim_cache_facts(1) [OF d] 4(2) by simp
  qed (use step_check in \<open>force simp: cache_fresh_def\<close>)+
qed

lemma cache_fresh_init: "quota_init s \<Longrightarrow> cache_fresh world s"
  by (auto simp: quota_init_def cache_fresh_def)

interpretation quota: transition_system quota_init "quota_step world" "cache_fresh world" for world
  by unfold_locales (simp_all add: cache_fresh_init cache_fresh_step)

text \<open>
  A quota answer is never older than 30 seconds: in every reachable state, the answer given at
  time \<open>now\<close> is the evaluation of the database as it was at some time within the last 30 seconds (or
  the unlimited answer when quotas are switched off).
\<close>

theorem quota_answer_fresh:
  assumes "reach quota_init (quota_step world) (q, t)" "t \<le> now" "CheckUser (world now) now uid q = (res, q')"
  shows "defaultLimit q \<le>s 0 \<or> (\<exists>t'. now - 30 < t' \<and> t' \<le> now \<and> res = fst (evaluate q (world t') (month_start t') uid))"
proof -
  have f: "cache_fresh world (q, t)" by (rule quota.reach_invar [OF assms(1)])
  from assms(3) show ?thesis
  proof (cases rule: CheckUser_cases)
    case (2 e)
    then have "e_at e \<le> t" "e_result e = fst (evaluate q (world (e_at e)) (month_start (e_at e)) uid)"
      using f by (auto simp: cache_fresh_def)
    with 2 assms(2) show ?thesis by (intro disjI2 exI [of _ "e_at e"]) auto
  qed (use exI [of _ now] in simp_all)
qed

section \<open>Plans\<close>

definition default_plans :: "(string \<times> i64 \<times> int) list" where
  "default_plans =
     [(''Free'', 10 * 1024 * 1024 * 1024, 0), (''Pro'', 100 * 1024 * 1024 * 1024, 200),
      (''Business'', 1024 * 1024 * 1024 * 1024, 150)]"

text \<open>The database may fail at the existence query or at the insertion of a plan.\<close>

fun seed_loop ::
    "(string \<Rightarrow> bool) \<Rightarrow> (string \<Rightarrow> bool) \<Rightarrow> (string \<times> i64 \<times> int) list \<Rightarrow> plan_row list \<Rightarrow> repo_error option \<times> plan_row list" where
  "seed_loop qf cf [] rows = (None, rows)"
| "seed_loop qf cf ((name, limit, cents) # ps) rows =
     (if qf name then seed_loop qf cf ps rows
      else if name \<in> pl_Name ` set rows then seed_loop qf cf ps rows
      else if cf name then (Some DBError, rows)
      else seed_loop qf cf ps
             (rows @ [\<lparr>pl_Name = name, pl_MonthlyLimitBytes = limit, pl_OveragePerGBCents = cents, pl_Active = True\<rparr>]))"

definition SeedDefaultPlans ::
    "(string \<Rightarrow> bool) \<Rightarrow> (string \<Rightarrow> bool) \<Rightarrow> plan_row list \<Rightarrow> repo_error option \<times> plan_row list" where
  "SeedDefaultPlans qf cf rows = seed_loop qf cf default_plans rows"

lemma seed_loop_spec:
  assumes "seed_loop qf cf ps rows = (res, rows')" "distinct (map pl_Name rows)"
  shows "distinct (map pl_Name rows') \<and> set rows \<subseteq> set rows' \<and>
    (res = None \<and> (\<forall>n. \<not> qf n) \<longrightarrow> fst ` set ps \<subseteq> pl_Name ` set rows')"
  using assms
proof (induction ps arbitrary: rows)
  case (Cons p ps)
  obtain name limit cents where p: "p = (name, limit, cents)" by (cases p)
  let ?r = "\<lparr>pl_Name = name, pl_MonthlyLimitBytes = limit, pl_OveragePerGBCents = cents, pl_Active = True\<rparr>"
  consider "qf name" | "\<not> qf name" "name \<in> pl_Name ` set rows" | "\<not> qf name" "name \<notin> pl_Name ` set rows" "cf name"
    | "\<not> qf name" "name \<notin> pl_Name ` set rows" "\<not> cf name" by blast
  then show ?case
  proof cases
    case 2
    then have "seed_loop qf cf ps rows = (res, rows')" using Cons.prems(1) p by simp
    from Cons.IH [OF this Cons.prems(2)] have ih: "distinct (map pl_Name rows') \<and> set rows \<subseteq> set rows' \<and>
      (res = None \<and> (\<forall>n. \<not> qf n) \<longrightarrow> fst ` set ps \<subseteq> pl_Name ` set rows')" .
    then have "name \<in> pl_Name ` set rows'" using 2(2) by (meson image_mono subsetD)
    with ih p show ?thesis by simp
  next
    case 4
    then have "seed_loop qf cf ps (rows @ [?r]) = (res, rows')" using Cons.prems(1) p by simp
    from Cons.IH [OF this] 4 Cons.prems(2) have ih: "distinct (map pl_Name rows') \<and> set (rows @ [?r]) \<subseteq> set rows' \<and>
      (res = None \<and> (\<forall>n. \<not> qf n) \<longrightarrow> fst ` set ps \<subseteq> pl_Name ` set rows')" by auto
    then have "?r \<in> set rows'" by simp
    then have "name \<in> pl_Name ` set rows'" by (metis image_eqI plan_row.select_convs(1))
    with ih p show ?thesis by auto
  qed (use Cons p in auto)
qed simp

text \<open>
  Seeding is safe to repeat: it never changes or removes a plan and never creates a second plan of
  a name, and after a successful run in which every existence query was answered all default plans
  are there.
\<close>

theorem seed_plans_idempotent:
  assumes "distinct (map pl_Name rows)" "SeedDefaultPlans qf cf rows = (res, rows')"
  shows "distinct (map pl_Name rows') \<and> set rows \<subseteq> set rows' \<and>
    (res = None \<and> (\<forall>n. \<not> qf n) \<longrightarrow>
       {''Free'', ''Pro'', ''Business''} \<subseteq> pl_Name ` set rows' \<and> SeedDefaultPlans qf cf rows' = (None, rows'))"
proof -
  note s = seed_loop_spec [OF assms(2) [unfolded SeedDefaultPlans_def] assms(1)]
  have "seed_loop qf cf ps rows' = (None, rows')" if "fst ` set ps \<subseteq> pl_Name ` set rows'" for ps
    using that by (induction ps) auto
  with s show ?thesis by (auto simp: SeedDefaultPlans_def default_plans_def)
qed

section \<open>Witnesses\<close>

definition demo_quota :: quota_service where
  "demo_quota = \<lparr>defaultLimit = 100, warnThresholdPct = pct90, q_cache = []\<rparr>"

definition demo_qdb :: quota_db where
  "demo_qdb = \<lparr>qd_plan_name = (\<lambda>_. None), qd_plans = None,
     qd_usage = Some [\<lparr>PeriodStart = 5, UserID = 1, TunnelID = 2, Domain = ''d'', BytesIn = 60, BytesOut = 35, Requests = 1, us_ID = 1\<rparr>]\<rparr>"

lemma month_start_demo: "month_start 10 = 0"
  by code_simp


theorem quota_answer_fresh_witness:
  "\<exists>t'. -20 < t' \<and> t' \<le> 10 \<and>
     fst (CheckUser demo_qdb 10 1 demo_quota) = fst (evaluate demo_quota demo_qdb (month_start t') 1)"
proof -
  have "reach quota_init (quota_step (\<lambda>_. demo_qdb)) (demo_quota, 0)"
    by (rule reach_init) (simp add: quota_init_def demo_quota_def)
  moreover obtain res q' where c: "CheckUser demo_qdb 10 1 demo_quota = (res, q')" by force
  moreover have "\<not> defaultLimit demo_quota \<le>s 0" by (simp add: demo_quota_def word_sle_eq)
  ultimately show ?thesis
    using quota_answer_fresh [of "\<lambda>_. demo_qdb" demo_quota 0 10 1 res q'] by auto
qed

theorem seed_plans_idempotent_witness:
  "{''Free'', ''Pro'', ''Business''} \<subseteq> pl_Name ` set (snd (SeedDefaultPlans (\<lambda>_. False) (\<lambda>_. False) []))"
proof -
  obtain rows' where s: "SeedDefaultPlans (\<lambda>_. False) (\<lambda>_. False) [] = (None, rows')"
    by (simp add: SeedDefaultPlans_def default_plans_def)
  with seed_plans_idempotent [OF _ s] show ?thesis by simp
qed

end
