(* ===== verification/Base64.thy ===== *)
theory Base64
  imports Go_Base
begin

text \<open>
  \<open>base64.RawURLEncoding\<close> of Go's \<open>encoding/base64\<close>: \<open>EncodeToString\<close>, \<open>DecodeString\<close> and
  \<open>EncodedLen\<close>. The decoder skips carriage returns and line feeds, refuses every other byte outside
  the alphabet and a last group of one character, and does not look at the unused bits of the last
  group.
\<close>

section \<open>The alphabet\<close>

definition b64_char :: "nat \<Rightarrow> char" where
  "b64_char v =
     (if v < 26 then char_of (65 + v) else if v < 52 then char_of (71 + v)
      else if v < 62 then char_of (v - 4) else if v = 62 then CHR ''-'' else CHR ''_'')"

definition b64_val :: "char \<Rightarrow> nat option" where
  "b64_val c =
     (let n = (of_char c :: nat)
      in if 65 \<le> n \<and> n \<le> 90 then Some (n - 65) else if 97 \<le> n \<and> n \<le> 122 then Some (n - 71)
         else if 48 \<le> n \<and> n \<le> 57 then Some (n + 4) else if n = 45 then Some 62
         else if n = 95 then Some 63 else None)"

lemma b64_val_char [simp]: "v < 64 \<Longrightarrow> b64_val (b64_char v) = Some v"
  by (auto simp: b64_val_def b64_char_def Let_def)

lemma b64_char_not_newline: "v < 64 \<Longrightarrow> b64_char v \<noteq> CHR 0x0A \<and> b64_char v \<noteq> CHR 0x0D"
  using b64_val_char [of v] by (auto simp: b64_val_def Let_def split: if_splits)

section \<open>Groups of six bits\<close>

fun sextets :: "nat list \<Rightarrow> nat list" where
  "sextets [] = []"
| "sextets [a] = [a div 4, (a mod 4) * 16]"
| "sextets [a, b] = [a div 4, (a mod 4) * 16 + b div 16, (b mod 16) * 4]"
| "sextets (a # b # c # bs) =
     [a div 4, (a mod 4) * 16 + b div 16, (b mod 16) * 4 + c div 64, c mod 64] @ sextets bs"

fun octets :: "nat list \<Rightarrow> nat list option" where
  "octets [] = Some []"
| "octets [v] = None"
| "octets [v, w] = Some [v * 4 + w div 16]"
| "octets [v, w, x] = Some [v * 4 + w div 16, (w mod 16) * 16 + x div 4]"
| "octets (v # w # x # y # vs) =
     map_option (\<lambda>bs. [v * 4 + w div 16, (w mod 16) * 16 + x div 4, (x mod 4) * 64 + y] @ bs) (octets vs)"

definition EncodedLen :: "nat \<Rightarrow> nat" where
  "EncodedLen n = (n * 8 + 5) div 6"

definition EncodeToString :: "byte list \<Rightarrow> string" where
  "EncodeToString bs = map b64_char (sextets (map unat bs))"

definition DecodeString :: "string \<Rightarrow> byte list option" where
  "DecodeString s =
     (let vs = map b64_val (filter (\<lambda>c. c \<noteq> CHR 0x0A \<and> c \<noteq> CHR 0x0D) s)
      in if None \<in> set vs then None else map_option (map of_nat) (octets (map the vs)))"

lemma sextets_bound: "\<forall>b \<in> set bs. b < 256 \<Longrightarrow> v \<in> set (sextets bs) \<Longrightarrow> v < 64"
  by (induction bs rule: sextets.induct) auto

lemma length_sextets: "length (sextets bs) = EncodedLen (length bs)"
  by (induction bs rule: sextets.induct) (simp_all add: EncodedLen_def)

lemma octets_sextets: "\<forall>b \<in> set bs. b < 256 \<Longrightarrow> octets (sextets bs) = Some bs"
proof (induction bs rule: sextets.induct)
  case (4 a b c bs)
  then have b: "a < 256" "b < 256" "c < 256" by auto
  have "a div 4 * 4 + ((a mod 4) * 16 + b div 16) div 16 = a"
    "(((a mod 4) * 16 + b div 16) mod 16) * 16 + ((b mod 16) * 4 + c div 64) div 4 = b"
    "(((b mod 16) * 4 + c div 64) mod 4) * 64 + c mod 64 = c"
    using b by simp_all
  with 4 show ?case by simp
qed auto

lemma octets_length: "octets vs = Some bs \<Longrightarrow> length bs = length vs * 6 div 8"
  by (induction vs arbitrary: bs rule: octets.induct) auto

lemma unat_byte [simp]: "unat (b :: byte) < 256"
  using unsigned_less [where ?'a = nat and w = b] by simp

lemma length_EncodeToString [simp]: "length (EncodeToString bs) = EncodedLen (length bs)"
  by (simp add: EncodeToString_def length_sextets)

text \<open>Decoding inverts encoding.\<close>

lemma Decode_Encode: "DecodeString (EncodeToString bs) = Some bs"
proof -
  let ?vs = "sextets (map unat bs)"
  have b: "v < 64" if "v \<in> set ?vs" for v using sextets_bound [OF _ that] by auto
  have "filter (\<lambda>c. c \<noteq> CHR 0x0A \<and> c \<noteq> CHR 0x0D) (map b64_char ?vs) = map b64_char ?vs"
    using b b64_char_not_newline by (auto simp: filter_id_conv)
  moreover have "map b64_val (map b64_char ?vs) = map Some ?vs" using b by simp
  ultimately show ?thesis
    by (auto simp: DecodeString_def EncodeToString_def Let_def octets_sextets map_idI o_def)
qed

lemma EncodeToString_inj: "EncodeToString bs = EncodeToString bs' \<Longrightarrow> bs = bs'"
  by (metis Decode_Encode option.inject)

end
