(* ===== verification/Token_Service.thy ===== *)
theory Token_Service
  imports Tunnel_Service Base64 Calendar
begin

text \<open>
  API tokens: \<open>internal/repository/token_repository.go\<close> over the schema
  \<open>internal/db/ent/schema/token.go\<close>, \<open>internal/service/token_service.go\<close>, the handlers of
  \<open>internal/api/handlers/token.go\<close>, and \<open>AuthenticateTunnelByToken\<close> of
  \<open>internal/tunnel/auth_helpers.go\<close>, which both tunnel servers call for a connecting client.
  SHA-256, the random source, fresh UUIDs and the parser of UUIDs are parameters; an id is a string.
\<close>

section \<open>The repository\<close>

record api_token =
  tk_ID :: string
  tk_UserID :: u32
  tk_Name :: string
  tk_TokenHash :: string
  tk_CreatedAt :: time
  tk_LastUsedAt :: time
  tk_ExpiresAt :: time
  tk_RevokedAt :: "time option"

datatype token_op = TkCreate | TkList | TkGetByID | TkGetByToken | TkUpdateLastUsed | TkRevoke

type_synonym token_faults = "token_op \<Rightarrow> bool"
type_synonym sha256_fun = "string \<Rightarrow> byte list"

definition token_hash :: "sha256_fun \<Rightarrow> string \<Rightarrow> string" where
  "token_hash sha tok = hex_EncodeToString (sha tok)"

definition tk_Create :: "token_faults \<Rightarrow> api_token \<Rightarrow> api_token list \<Rightarrow> (repo_error + unit) \<times> api_token list" where
  "tk_Create f t rows =
     (if tk_Name t = [] \<or> tk_TokenHash t = [] then (Inl ValidationError, rows)
      else if f TkCreate then (Inl DBError, rows)
      else if tk_ID t \<in> tk_ID ` set rows then (Inl ConstraintError, rows)
      else (Inr (), rows @ [t\<lparr>tk_RevokedAt := None\<rparr>]))"

definition tk_List :: "token_faults \<Rightarrow> api_token list \<Rightarrow> u32 \<Rightarrow> repo_error + api_token list" where
  "tk_List f rows uid =
     (if f TkList then Inl DBError
      else Inr (sort_key (\<lambda>t. - tk_CreatedAt t) (filter (\<lambda>t. tk_UserID t = uid \<and> tk_RevokedAt t = None) rows)))"

definition tk_GetByID :: "token_faults \<Rightarrow> api_token list \<Rightarrow> string \<Rightarrow> repo_error + api_token" where
  "tk_GetByID f rows i = (if f TkGetByID then Inl DBError else ent_Only (\<lambda>t. tk_ID t = i) rows)"

definition tk_GetByToken :: "sha256_fun \<Rightarrow> token_faults \<Rightarrow> api_token list \<Rightarrow> string \<Rightarrow> repo_error + api_token" where
  "tk_GetByToken sha f rows tok =
     (if f TkGetByToken then Inl DBError
      else ent_Only (\<lambda>t. tk_TokenHash t = token_hash sha tok \<and> tk_RevokedAt t = None) rows)"

definition tk_touch :: "time \<Rightarrow> api_token \<Rightarrow> api_token" where
  "tk_touch now t = t\<lparr>tk_LastUsedAt := now\<rparr>"

definition tk_UpdateLastUsed :: "token_faults \<Rightarrow> time \<Rightarrow> string \<Rightarrow> api_token list \<Rightarrow> repo_error option \<times> api_token list" where
  "tk_UpdateLastUsed f now i rows =
     (if f TkUpdateLastUsed then (Some DBError, rows)
      else case ent_UpdateOneID tk_ID i (tk_touch now) rows of
             (Inl e, rows1) \<Rightarrow> (Some e, rows1)
           | (Inr _, rows1) \<Rightarrow> (None, rows1))"

text \<open>Every update of a token sets the time of its last use (the update default of the schema).\<close>

definition tk_revoke :: "time \<Rightarrow> api_token \<Rightarrow> api_token" where
  "tk_revoke now t = t\<lparr>tk_RevokedAt := Some now, tk_LastUsedAt := now\<rparr>"

definition tk_Revoke :: "token_faults \<Rightarrow> time \<Rightarrow> string \<Rightarrow> api_token list \<Rightarrow> repo_error option \<times> api_token list" where
  "tk_Revoke f now i rows =
     (if f TkRevoke then (Some DBError, rows)
      else case ent_UpdateOneID tk_ID i (tk_revoke now) rows of
             (Inl e, rows1) \<Rightarrow> (Some e, rows1)
           | (Inr _, rows1) \<Rightarrow> (None, rows1))"

section \<open>The service\<close>

datatype token_error =
    ErrTokenTooShort | ErrTokenInvalid | TokenRandom | TokenNotFound | TokenLookup
  | TokenRevoked | TokenExpired | TokenRepo repo_error

definition MinTokenBytes :: nat where
  "MinTokenBytes = 32"

definition validateTokenEntropy :: "string \<Rightarrow> token_error option" where
  "validateTokenEntropy token =
     (if length token < EncodedLen MinTokenBytes then Some ErrTokenTooShort
      else case DecodeString token of
             None \<Rightarrow> Some ErrTokenInvalid
           | Some decoded \<Rightarrow> if length decoded < MinTokenBytes then Some ErrTokenTooShort else None)"

record token_response =
  tr_Token :: string
  tr_ID :: string
  tr_Name :: string
  tr_CreatedAt :: time
  tr_ExpiresAt :: time

record token_list_response =
  tl_ID :: string
  tl_Name :: string
  tl_CreatedAt :: time
  tl_LastUsedAt :: time
  tl_ExpiresAt :: time
  tl_RevokedAt :: "time option"

definition ToTokenResponse :: "api_token \<Rightarrow> string \<Rightarrow> token_response" where
  "ToTokenResponse t plainToken =
     \<lparr>tr_Token = plainToken, tr_ID = tk_ID t, tr_Name = tk_Name t, tr_CreatedAt = tk_CreatedAt t,
      tr_ExpiresAt = tk_ExpiresAt t\<rparr>"

definition ToTokenListResponse :: "api_token \<Rightarrow> token_list_response" where
  "ToTokenListResponse t =
     \<lparr>tl_ID = tk_ID t, tl_Name = tk_Name t, tl_CreatedAt = tk_CreatedAt t, tl_LastUsedAt = tk_LastUsedAt t,
      tl_ExpiresAt = tk_ExpiresAt t, tl_RevokedAt = tk_RevokedAt t\<rparr>"

definition new_token :: "sha256_fun \<Rightarrow> string \<Rightarrow> time \<Rightarrow> u32 \<Rightarrow> string \<Rightarrow> string \<Rightarrow> api_token" where
  "new_token sha uuid now uid name plainToken =
     \<lparr>tk_ID = uuid, tk_UserID = uid, tk_Name = name, tk_TokenHash = token_hash sha plainToken,
      tk_CreatedAt = now, tk_LastUsedAt = now, tk_ExpiresAt = add_year now, tk_RevokedAt = None\<rparr>"

definition CreateToken ::
    "sha256_fun \<Rightarrow> token_faults \<Rightarrow> byte list option \<Rightarrow> string \<Rightarrow> time \<Rightarrow> u32 \<Rightarrow> string \<Rightarrow> api_token list
       \<Rightarrow> (token_error + token_response) \<times> api_token list" where
  "CreateToken sha f rnd uuid now uid name rows =
     (case rnd of
        None \<Rightarrow> (Inl TokenRandom, rows)
      | Some tokenBytes \<Rightarrow>
          (let plainToken = EncodeToString tokenBytes
           in case validateTokenEntropy plainToken of
                Some e \<Rightarrow> (Inl e, rows)
              | None \<Rightarrow>
                  (let tokenRecord = new_token sha uuid now uid name plainToken
                   in case tk_Create f tokenRecord rows of
                        (Inl e, rows1) \<Rightarrow> (Inl (TokenRepo e), rows1)
                      | (Inr _, rows1) \<Rightarrow> (Inr (ToTokenResponse tokenRecord plainToken), rows1))))"

definition ListTokens :: "token_faults \<Rightarrow> u32 \<Rightarrow> api_token list \<Rightarrow> repo_error + token_list_response list" where
  "ListTokens f uid rows = map_sum id (map ToTokenListResponse) (tk_List f rows uid)"

definition RevokeToken :: "token_faults \<Rightarrow> time \<Rightarrow> string \<Rightarrow> api_token list \<Rightarrow> token_error option \<times> api_token list" where
  "RevokeToken f now i rows =
     (case tk_Revoke f now i rows of
        (Some ErrNotFound, rows1) \<Rightarrow> (Some TokenNotFound, rows1)
      | (Some e, rows1) \<Rightarrow> (Some (TokenRepo e), rows1)
      | (None, rows1) \<Rightarrow> (None, rows1))"

definition ValidateToken ::
    "sha256_fun \<Rightarrow> token_faults \<Rightarrow> time \<Rightarrow> string \<Rightarrow> api_token list \<Rightarrow> (token_error + api_token) \<times> api_token list" where
  "ValidateToken sha f now tokenStr rows =
     (case validateTokenEntropy tokenStr of
        Some e \<Rightarrow> (Inl e, rows)
      | None \<Rightarrow>
          (case tk_GetByToken sha f rows tokenStr of
             Inl e \<Rightarrow> (Inl (if e = ErrNotFound then TokenNotFound else TokenLookup), rows)
           | Inr tokenRecord \<Rightarrow>
               if tk_RevokedAt tokenRecord \<noteq> None then (Inl TokenRevoked, rows)
               else if now > tk_ExpiresAt tokenRecord then (Inl TokenExpired, rows)
               else (case tk_UpdateLastUsed f now (tk_ID tokenRecord) rows of
                       (Some e, rows1) \<Rightarrow> (Inl (TokenRepo e), rows1)
                     | (None, rows1) \<Rightarrow> (Inr tokenRecord, rows1))))"

section \<open>The handlers\<close>

definition h_CreateToken ::
    "sha256_fun \<Rightarrow> token_faults \<Rightarrow> byte list option \<Rightarrow> string \<Rightarrow> time \<Rightarrow> u32 option \<Rightarrow> string option \<Rightarrow> api_token list
       \<Rightarrow> (nat \<times> token_response option) \<times> api_token list" where
  "h_CreateToken sha f rnd uuid now uid req rows =
     (case req of
        None \<Rightarrow> ((errorStatusMap ErrCodeBadRequest, None), rows)
      | Some name \<Rightarrow>
          (case uid of
             None \<Rightarrow> ((errorStatusMap ErrCodeUnauthorized, None), rows)
           | Some u \<Rightarrow>
               (case CreateToken sha f rnd uuid now u name rows of
                  (Inl _, rows1) \<Rightarrow> ((errorStatusMap ErrCodeInternalServer, None), rows1)
                | (Inr r, rows1) \<Rightarrow> ((201, Some r), rows1))))"

definition h_ListTokens ::
    "token_faults \<Rightarrow> u32 option \<Rightarrow> api_token list \<Rightarrow> nat \<times> token_list_response list option" where
  "h_ListTokens f uid rows =
     (case uid of
        None \<Rightarrow> (errorStatusMap ErrCodeUnauthorized, None)
      | Some u \<Rightarrow>
          (case ListTokens f u rows of
             Inl _ \<Rightarrow> (errorStatusMap ErrCodeInternalServer, None)
           | Inr ts \<Rightarrow> (200, Some ts)))"

definition h_RevokeToken ::
    "(string \<Rightarrow> string option) \<Rightarrow> token_faults \<Rightarrow> time \<Rightarrow> string \<Rightarrow> api_token list \<Rightarrow> nat \<times> api_token list" where
  "h_RevokeToken uuid_Parse f now param rows =
     (case uuid_Parse param of
        None \<Rightarrow> (errorStatusMap ErrCodeBadRequest, rows)
      | Some tokenID \<Rightarrow>
          (case RevokeToken f now tokenID rows of
             (Some TokenNotFound, rows1) \<Rightarrow> (errorStatusMap ErrCodeNotFound, rows1)
           | (Some _, rows1) \<Rightarrow> (errorStatusMap ErrCodeInternalServer, rows1)
           | (None, rows1) \<Rightarrow> (204, rows1)))"

section \<open>Authentication of a tunnel client\<close>

datatype auth_error =
    InvalidToken repo_error | TunnelsFailed repo_error | NoTunnels | NoEnabledTunnels
  | TunnelDisabled string | NoEnabledTunnelFor string | MultipleEnabled "string list"

definition AuthenticateTunnelByToken ::
    "sha256_fun \<Rightarrow> token_faults \<Rightarrow> faults \<Rightarrow> string \<Rightarrow> string \<Rightarrow> api_token list \<Rightarrow> tunnel_db \<Rightarrow> auth_error + tunnel_row" where
  "AuthenticateTunnelByToken sha ft f token domain tokens db =
     (case tk_GetByToken sha ft tokens token of
        Inl e \<Rightarrow> Inl (InvalidToken e)
      | Inr apiToken \<Rightarrow>
          (case repo_GetByUserID f db (tk_UserID apiToken) of
             Inl e \<Rightarrow> Inl (TunnelsFailed e)
           | Inr tunnels \<Rightarrow>
               (let enabledTunnels = filter t_IsEnabled tunnels
                in if tunnels = [] then Inl NoTunnels
                   else if enabledTunnels = [] then Inl NoEnabledTunnels
                   else if domain \<noteq> [] then
                     (case List.find (\<lambda>t. t_Domain t = domain) enabledTunnels of
                        Some t \<Rightarrow> Inr t
                      | None \<Rightarrow>
                          if list_ex (\<lambda>t. t_Domain t = domain \<and> \<not> t_IsEnabled t) tunnels
                          then Inl (TunnelDisabled domain) else Inl (NoEnabledTunnelFor domain))
                   else if length enabledTunnels > 1 then Inl (MultipleEnabled (map t_Domain enabledTunnels))
                   else Inr (enabledTunnels ! 0))))"

section \<open>The table of tokens\<close>

interpretation touch: ent_table tk_ID tk_TokenHash tk_touch
  by unfold_locales (auto simp: tk_touch_def)

interpretation revoke: ent_table tk_ID tk_TokenHash tk_revoke
  by unfold_locales (auto simp: tk_revoke_def)

text \<open>The rows a presented token is compared with.\<close>

definition live_rows :: "sha256_fun \<Rightarrow> string \<Rightarrow> api_token list \<Rightarrow> api_token list" where
  "live_rows sha tok rows = filter (\<lambda>t. tk_TokenHash t = token_hash sha tok \<and> tk_RevokedAt t = None) rows"

lemma ent_Only_Inr_filter: "ent_Only P rows = Inr r \<longleftrightarrow> filter P rows = [r]"
  by (cases "filter P rows"; cases "tl (filter P rows)") (auto simp: ent_Only_def)

lemma tk_GetByToken_Inr: "tk_GetByToken sha f rows tok = Inr a \<longleftrightarrow> \<not> f TkGetByToken \<and> live_rows sha tok rows = [a]"
  by (simp add: tk_GetByToken_def ent_Only_Inr_filter live_rows_def)

lemma tk_GetByToken_live:
  "\<not> f TkGetByToken \<Longrightarrow> live_rows sha tok rows = [] \<Longrightarrow> tk_GetByToken sha f rows tok = Inl ErrNotFound"
  by (simp add: tk_GetByToken_def ent_Only_def live_rows_def)

lemma tk_GetByToken_cong:
  "live_rows sha tok rows = live_rows sha tok rows' \<Longrightarrow> tk_GetByToken sha f rows tok = tk_GetByToken sha f rows' tok"
  by (simp add: tk_GetByToken_def ent_Only_def live_rows_def)

lemma UpdateOneID_member: "a \<in> set rows \<Longrightarrow> tk_ID a = i \<Longrightarrow>
    \<exists>r. ent_UpdateOneID tk_ID i g rows = (Inr r, map (\<lambda>r. if tk_ID r = i then g r else r) rows)"
  by (cases "filter (\<lambda>r. tk_ID r = i) rows") (auto simp: ent_UpdateOneID_def filter_empty_conv)

lemma entropy_created: "length bs = MinTokenBytes \<Longrightarrow> validateTokenEntropy (EncodeToString bs) = None"
  by (simp add: validateTokenEntropy_def Decode_Encode)

lemma token_hash_not_Nil: "length (sha x) = 32 \<Longrightarrow> token_hash sha x \<noteq> []"
  by (cases "sha x") (auto simp: token_hash_def hex_EncodeToString_def)

section \<open>Who may open a tunnel\<close>

lemma find_unique:
  assumes "distinct (map t_Domain rows)"
  shows "List.find (\<lambda>t. t_Domain t = d) rows = Some t \<longleftrightarrow> t \<in> set rows \<and> t_Domain t = d"
  using assms by (induction rows) (auto simp: image_iff)

lemma Authenticate_iff:
  assumes "db_inv db" "\<not> ft TkGetByToken" "\<not> f OpGetByUserID"
  shows "AuthenticateTunnelByToken sha ft f token domain tokens db = Inr t \<longleftrightarrow>
    (\<exists>a. filter (\<lambda>a. tk_TokenHash a = token_hash sha token \<and> tk_RevokedAt a = None) tokens = [a] \<and>
       t \<in> set (db_rows db) \<and> t_UserID t = tk_UserID a \<and> t_IsEnabled t \<and>
       (if domain = [] then \<forall>t' \<in> set (db_rows db). t_UserID t' = tk_UserID a \<and> t_IsEnabled t' \<longrightarrow> t' = t
        else t_Domain t = domain))"
proof (cases "tk_GetByToken sha ft tokens token")
  case (Inl e)
  then have "\<nexists>a. live_rows sha token tokens = [a]" using tk_GetByToken_Inr [of sha ft tokens token] assms(2) by auto
  with Inl show ?thesis by (simp add: AuthenticateTunnelByToken_def live_rows_def)
next
  case (Inr a)
  then have live: "filter (\<lambda>a. tk_TokenHash a = token_hash sha token \<and> tk_RevokedAt a = None) tokens = [a]"
    using tk_GetByToken_Inr [of sha ft tokens token a] by (simp add: live_rows_def)
  define ts where "ts = sort_key t_ID (filter (\<lambda>r. t_UserID r = tk_UserID a) (db_rows db))"
  define es where "es = filter t_IsEnabled ts"
  have g: "repo_GetByUserID f db (tk_UserID a) = Inr ts" using assms(3) by (simp add: repo_GetByUserID_def ts_def)
  have es: "set es = {r \<in> set (db_rows db). t_UserID r = tk_UserID a \<and> t_IsEnabled r}" by (auto simp: es_def ts_def)
  have "distinct (map t_Domain (db_rows db))" using assms(1) by (simp add: db_inv_def keyed_def)
  then have dd: "distinct (map t_Domain es)" "distinct es"
    by (auto simp: es_def ts_def distinct_map intro: inj_on_subset)
  have single: "es = [t] \<longleftrightarrow> t \<in> set es \<and> (\<forall>t' \<in> set es. t' = t)"
    using dd(2) by (cases es) (auto, metis list.set_intros(1) neq_Nil_conv)
  have "AuthenticateTunnelByToken sha ft f token domain tokens db = Inr t \<longleftrightarrow>
      (if domain = [] then es = [t] else t \<in> set es \<and> t_Domain t = domain)"
  proof (cases "es = []")
    case True
    then show ?thesis by (simp add: AuthenticateTunnelByToken_def Inr g es_def [symmetric])
  next
    case False
    then have "ts \<noteq> []" by (auto simp: es_def)
    with False find_unique [OF dd(1), of domain t] show ?thesis
      by (cases es; cases "tl es")
         (auto simp: AuthenticateTunnelByToken_def Inr g es_def [symmetric] Let_def split: option.split)
  qed
  then show ?thesis unfolding live single es by (auto simp: es)
qed

text \<open>
  C8. Authentication is exact: with an answering database, a client that presents a token and a domain
  gets a tunnel if and only if exactly one unrevoked token has the hash of the presented one, and the
  tunnel is an enabled tunnel of that token's owner, with the requested domain or, when no domain is
  given, the only enabled one. In particular a token never opens the tunnel of another user.
\<close>

theorem authentication_exact:
  assumes "db_inv db" "\<not> ft TkGetByToken" "\<not> f OpGetByUserID"
  shows "AuthenticateTunnelByToken sha ft f token domain tokens db = Inr t \<longleftrightarrow>
    (\<exists>a. filter (\<lambda>a. tk_TokenHash a = token_hash sha token \<and> tk_RevokedAt a = None) tokens = [a] \<and>
       t \<in> set (db_rows db) \<and> t_UserID t = tk_UserID a \<and> t_IsEnabled t \<and>
       (if domain = [] then \<forall>t' \<in> set (db_rows db). t_UserID t' = tk_UserID a \<and> t_IsEnabled t' \<longrightarrow> t' = t
        else t_Domain t = domain))"
  using assms by (rule Authenticate_iff)

lemma Authenticate_sound:
  assumes "AuthenticateTunnelByToken sha ft f token domain tokens db = Inr t"
  obtains a where "a \<in> set tokens" "tk_TokenHash a = token_hash sha token" "tk_RevokedAt a = None"
    "t \<in> set (db_rows db)" "t_UserID t = tk_UserID a" "t_IsEnabled t" "domain = [] \<or> t_Domain t = domain"
proof -
  obtain a ts where a: "tk_GetByToken sha ft tokens token = Inr a" and g: "repo_GetByUserID f db (tk_UserID a) = Inr ts"
    using assms by (auto simp: AuthenticateTunnelByToken_def split: sum.splits)
  have "a \<in> set (live_rows sha token tokens)" using a by (simp add: tk_GetByToken_Inr)
  moreover have "t \<in> set (filter t_IsEnabled ts) \<and> (domain = [] \<or> t_Domain t = domain)"
  proof -
    define es where "es = filter t_IsEnabled ts"
    have "List.find (\<lambda>t. t_Domain t = domain) es = Some t \<Longrightarrow> t \<in> set es \<and> t_Domain t = domain"
      by (auto simp: find_Some_iff)
    then show ?thesis
      using assms a g nth_mem [of 0 es] unfolding AuthenticateTunnelByToken_def Let_def
      by (auto simp: es_def [symmetric] split: if_splits option.splits)
  qed
  moreover have "set ts = {r \<in> set (db_rows db). t_UserID r = tk_UserID a}"
    using g by (auto simp: repo_GetByUserID_def split: if_splits)
  ultimately show thesis using that by (auto simp: live_rows_def)
qed

lemma Authenticate_owned:
  assumes "db_inv db" "\<not> f OpGetByUserID" "tk_GetByToken sha ft tokens token = Inr a"
    and "t \<in> set (db_rows db)" "t_UserID t = tk_UserID a" "t_IsEnabled t"
  shows "AuthenticateTunnelByToken sha ft f token (t_Domain t) tokens db = Inr t"
proof -
  have "t_Domain t \<noteq> []" using assms(1,4) by (auto simp: db_inv_def list_all_iff)
  moreover have "\<not> ft TkGetByToken" "live_rows sha token tokens = [a]" using assms(3) by (simp_all add: tk_GetByToken_Inr)
  ultimately show ?thesis
    using Authenticate_iff [of db ft f sha token "t_Domain t" tokens t] assms(1,2,4-6)
    by (simp add: live_rows_def)
qed

section \<open>The life of a token\<close>

lemma CreateToken_ok:
  assumes "length bs = 32" "\<And>x. length (sha x) = 32" "name \<noteq> []" "\<not> f TkCreate" "uuid \<notin> tk_ID ` set rows"
  shows "CreateToken sha f (Some bs) uuid now uid name rows =
    (Inr (ToTokenResponse (new_token sha uuid now uid name (EncodeToString bs)) (EncodeToString bs)),
     rows @ [new_token sha uuid now uid name (EncodeToString bs)])"
  using assms entropy_created [of bs] token_hash_not_Nil [of sha "EncodeToString bs"]
  by (simp add: CreateToken_def tk_Create_def new_token_def MinTokenBytes_def Let_def)

lemma live_rows_unused: "token_hash sha tok \<notin> tk_TokenHash ` set rows \<Longrightarrow> live_rows sha tok rows = []"
  by (force simp: live_rows_def filter_empty_conv)

lemma live_new_token:
  assumes "live_rows sha tok rows = []"
  shows "live_rows sha tok (rows @ [new_token sha uuid now uid name tok]) = [new_token sha uuid now uid name tok]"
  using assms by (simp add: live_rows_def new_token_def)

lemma ValidateToken_live:
  assumes "validateTokenEntropy tok = None" "live_rows sha tok rows = [a]" "\<And>op. \<not> f op"
  shows "ValidateToken sha f now tok rows =
    (if now > tk_ExpiresAt a then (Inl TokenExpired, rows)
     else (Inr a, map (\<lambda>r. if tk_ID r = tk_ID a then tk_touch now r else r) rows))"
proof -
  have g: "tk_GetByToken sha f rows tok = Inr a" using assms(2,3) by (simp add: tk_GetByToken_Inr)
  have "a \<in> set (live_rows sha tok rows)" using assms(2) by simp
  then have a: "a \<in> set rows" "tk_RevokedAt a = None" by (auto simp: live_rows_def)
  obtain r where "ent_UpdateOneID tk_ID (tk_ID a) (tk_touch now) rows = (Inr r, map (\<lambda>r. if tk_ID r = tk_ID a then tk_touch now r else r) rows)"
    using UpdateOneID_member [OF a(1) refl] by blast
  then show ?thesis using assms(1,3) g a(2) by (simp add: ValidateToken_def tk_UpdateLastUsed_def)
qed

text \<open>
  C36. With an answering database and random source, creating a token succeeds and hands out a text of 43
  characters that encodes the 32 random bytes; unless its hash is already in use, the text is accepted
  for its owner at every moment of the next 365 days, however often it was presented before.
\<close>

theorem created_token_valid:
  assumes "length bs = 32" "\<And>x. length (sha x) = 32" "name \<noteq> []" "\<And>op. \<not> f op" "uuid \<notin> tk_ID ` set rows"
    and "token_hash sha (EncodeToString bs) \<notin> tk_TokenHash ` set rows"
    and "t \<le> now + 365 * 86400"
  shows "\<exists>r rows'. CreateToken sha f (Some bs) uuid now uid name rows = (Inr r, rows') \<and>
    length (tr_Token r) = 43 \<and> DecodeString (tr_Token r) = Some bs \<and>
    (\<exists>rec. fst (ValidateToken sha f t (tr_Token r)
        (foldl (\<lambda>rows t. snd (ValidateToken sha f t (tr_Token r) rows)) rows' earlier)) = Inr rec \<and>
      tk_ID rec = uuid \<and> tk_UserID rec = uid)"
proof -
  let ?tok = "EncodeToString bs"
  let ?new = "new_token sha uuid now uid name ?tok"
  define ok where "ok rs \<longleftrightarrow> (\<exists>a. live_rows sha ?tok rs = [a] \<and> tk_ID a = uuid \<and> tk_UserID a = uid \<and> tk_ExpiresAt a = add_year now)" for rs
  have ent: "validateTokenEntropy ?tok = None" using assms(1) by (simp add: entropy_created MinTokenBytes_def)
  have "live_rows sha ?tok rows = []" by (rule live_rows_unused [OF assms(6)])
  then have init: "ok (rows @ [?new])" using live_new_token by (simp add: ok_def) (simp add: new_token_def)
  have step: "ok (snd (ValidateToken sha f t ?tok rs))" if o: "ok rs" for t rs
  proof -
    obtain a where a: "live_rows sha ?tok rs = [a]" "tk_ID a = uuid" "tk_UserID a = uid" "tk_ExpiresAt a = add_year now"
      using o by (auto simp: ok_def)
    let ?g = "\<lambda>r. if tk_ID r = uuid then tk_touch t r else r"
    have "live_rows sha ?tok (map ?g rs) = map ?g (live_rows sha ?tok rs)"
      by (simp add: live_rows_def filter_map o_def tk_touch_def if_distrib cong: if_cong)
    then have "ok (map ?g rs)" using a by (simp add: ok_def tk_touch_def)
    then show ?thesis using ValidateToken_live [where f = f and now = t, OF ent a(1) assms(4)] a o by simp
  qed
  have run: "ok rs \<Longrightarrow> ok (foldl (\<lambda>rows t. snd (ValidateToken sha f t ?tok rows)) rs ts)" for rs ts
    by (induction ts arbitrary: rs) (simp_all add: step)
  have valid: "\<exists>rec. fst (ValidateToken sha f t ?tok rs) = Inr rec \<and> tk_ID rec = uuid \<and> tk_UserID rec = uid"
    if "ok rs" "t \<le> now + 365 * 86400" for rs t
    using that add_year_bounds [of now] ValidateToken_live [where f = f and now = t and rows = rs and sha = sha, OF ent _ assms(4)] by (auto simp: ok_def)
  have c: "CreateToken sha f (Some bs) uuid now uid name rows = (Inr (ToTokenResponse ?new ?tok), rows @ [?new])"
    using assms by (intro CreateToken_ok) auto
  show ?thesis
    using assms(1) valid [OF run [OF init] assms(7)]
    by (intro exI [of _ "ToTokenResponse ?new ?tok"] exI [of _ "rows @ [?new]"] conjI c)
       (auto simp: ToTokenResponse_def EncodedLen_def Decode_Encode)
qed

text \<open>
  Revocation is immediate, final for the revoked text and harmless to others: after the owner's row is
  revoked, the text opens no tunnel and is not valid at any time, while every text with another hash is
  looked up as before.
\<close>

theorem revoked_token_refused:
  assumes "tk_GetByToken sha f rows tok = Inr a" "\<not> f TkRevoke"
  shows "\<exists>rows'. RevokeToken f now (tk_ID a) rows = (None, rows') \<and>
    AuthenticateTunnelByToken sha f g tok domain rows' db = Inl (InvalidToken ErrNotFound) \<and>
    (\<forall>t. \<exists>e. fst (ValidateToken sha f t tok rows') = Inl e) \<and>
    (distinct (map tk_ID rows) \<longrightarrow> (\<forall>tok'. token_hash sha tok' \<noteq> token_hash sha tok \<longrightarrow>
       tk_GetByToken sha f rows' tok' = tk_GetByToken sha f rows tok'))"
proof -
  let ?g = "\<lambda>r. if tk_ID r = tk_ID a then tk_revoke now r else r"
  have live: "live_rows sha tok rows = [a]" "\<not> f TkGetByToken" using assms(1) by (simp_all add: tk_GetByToken_Inr)
  then have "a \<in> set (live_rows sha tok rows)" by simp
  then have a: "a \<in> set rows" "tk_TokenHash a = token_hash sha tok" by (auto simp: live_rows_def)
  obtain r where "ent_UpdateOneID tk_ID (tk_ID a) (tk_revoke now) rows = (Inr r, map ?g rows)"
    using UpdateOneID_member [OF a(1) refl] by blast
  then have r: "RevokeToken f now (tk_ID a) rows = (None, map ?g rows)"
    using assms(2) by (simp add: RevokeToken_def tk_Revoke_def)
  have "\<forall>x \<in> set rows. tk_TokenHash x = token_hash sha tok \<and> tk_RevokedAt x = None \<longrightarrow> x = a"
    using arg_cong [OF live(1), of set] by (auto simp: live_rows_def)
  then have "live_rows sha tok (map ?g rows) = []" by (auto simp: live_rows_def filter_empty_conv tk_revoke_def split: if_splits)
  then have nf: "tk_GetByToken sha f (map ?g rows) tok = Inl ErrNotFound" using live(2) by (intro tk_GetByToken_live)
  have other: "tk_GetByToken sha f (map ?g rows) tok' = tk_GetByToken sha f rows tok'"
    if d: "distinct (map tk_ID rows)" and h: "token_hash sha tok' \<noteq> token_hash sha tok" for tok'
  proof (rule tk_GetByToken_cong)
    have "live_rows sha tok' (map ?g rs) = live_rows sha tok' rs" if "set rs \<subseteq> set rows" for rs
      using that
    proof (induction rs)
      case (Cons x rs)
      have "x = a" if "tk_ID x = tk_ID a" using that Cons.prems a(1) d by (auto simp: distinct_map inj_on_def)
      with Cons show ?case using h a(2) by (auto simp: live_rows_def tk_revoke_def)
    qed (simp add: live_rows_def)
    then show "live_rows sha tok' (map ?g rows) = live_rows sha tok' rows" by simp
  qed
  show ?thesis
    using r nf other
    by (intro exI [of _ "map ?g rows"])
       (auto simp: AuthenticateTunnelByToken_def ValidateToken_def split: option.split)
qed

text \<open>
  A token outlives its expiry for tunnels: more than 366 days after its creation a token is refused
  by \<open>ValidateToken\<close> as expired, and \<open>AuthenticateTunnelByToken\<close> still opens its owner's tunnel with it.
\<close>

theorem expired_token_opens_tunnel:
  assumes "length bs = 32" "\<And>x. length (sha x) = 32" "name \<noteq> []" "\<And>op. \<not> f op" "uuid \<notin> tk_ID ` set rows"
    and "token_hash sha (EncodeToString bs) \<notin> tk_TokenHash ` set rows"
    and "db_inv db" "\<not> g OpGetByUserID" "t \<in> set (db_rows db)" "t_UserID t = uid" "t_IsEnabled t"
    and "now' > now + 366 * 86400"
    and "CreateToken sha f (Some bs) uuid now uid name rows = (Inr r, rows')"
  shows "fst (ValidateToken sha f now' (tr_Token r) rows') = Inl TokenExpired \<and>
    AuthenticateTunnelByToken sha f g (tr_Token r) (t_Domain t) rows' db = Inr t"
proof -
  let ?tok = "EncodeToString bs"
  let ?new = "new_token sha uuid now uid name ?tok"
  have c: "r = ToTokenResponse ?new ?tok" "rows' = rows @ [?new]"
    using CreateToken_ok [OF assms(1-3), where f = f and uuid = uuid and rows = rows and now = now and uid = uid] assms(4,5,13)
    by auto
  have tok: "tr_Token r = ?tok" by (simp add: c ToTokenResponse_def)
  have ent: "validateTokenEntropy ?tok = None" using assms(1) by (simp add: entropy_created MinTokenBytes_def)
  have live: "live_rows sha ?tok rows' = [?new]" unfolding c by (rule live_new_token [OF live_rows_unused [OF assms(6)]])
  have "tk_ExpiresAt ?new < now'" using add_year_bounds [of now] assms(12) by (simp add: new_token_def)
  then have "fst (ValidateToken sha f now' ?tok rows') = Inl TokenExpired"
    using ValidateToken_live [where f = f and now = now', OF ent live assms(4)] by simp
  moreover have get: "tk_GetByToken sha f rows' ?tok = Inr ?new" using live assms(4) by (simp add: tk_GetByToken_Inr)
  have "AuthenticateTunnelByToken sha f g ?tok (t_Domain t) rows' db = Inr t"
    using Authenticate_owned [where f = g, OF assms(7,8) get] assms(9-11) by (simp add: new_token_def)
  ultimately show ?thesis by (simp add: tok)
qed

section \<open>Witnesses\<close>

definition demo_sha :: sha256_fun where
  "demo_sha x = replicate 32 (of_nat (length x))"

definition demo_bytes :: "byte list" where
  "demo_bytes = replicate 32 7"

definition demo_tunnel :: tunnel_row where
  "demo_tunnel = \<lparr>t_ID = 1, t_Domain = ''a.example.com'', t_Token = ''t'', t_ClientIP = [], t_IsEnabled = True, t_DNS = Verified,
     t_TargetPort = 80, t_UserID = 5, t_CreatedAt = 0, t_UpdatedAt = 0\<rparr>"

definition demo_tdb :: tunnel_db where
  "demo_tdb = \<lparr>db_rows = [demo_tunnel], db_next_id = 2, db_clock = 0\<rparr>"

definition demo_token :: api_token where
  "demo_token = new_token demo_sha ''id1'' 0 5 ''laptop'' (EncodeToString demo_bytes)"

lemma demo_lengths: "length demo_bytes = 32" "length (demo_sha x) = 32"
  by (simp_all add: demo_bytes_def demo_sha_def)

lemma demo_token_sel: "tk_TokenHash demo_token = token_hash demo_sha (EncodeToString demo_bytes)"
  "tk_RevokedAt demo_token = None" "tk_ID demo_token = ''id1''" "tk_UserID demo_token = 5"
  by (simp_all add: demo_token_def new_token_def)

lemma demo_tdb_inv: "db_inv demo_tdb"
  by (simp add: db_inv_def demo_tdb_def demo_tunnel_def keyed_def)

lemma demo_create_token:
  "CreateToken demo_sha (\<lambda>_. False) (Some demo_bytes) ''id1'' 0 5 ''laptop'' [] =
     (Inr (ToTokenResponse demo_token (EncodeToString demo_bytes)), [demo_token])"
  by (subst CreateToken_ok) (simp_all add: demo_bytes_def demo_sha_def demo_token_def)

theorem authentication_exact_witness:
  "AuthenticateTunnelByToken demo_sha (\<lambda>_. False) (\<lambda>_. False) (EncodeToString demo_bytes) [] [demo_token] demo_tdb = Inr demo_tunnel"
  by (subst authentication_exact [OF demo_tdb_inv]) (simp_all add: demo_token_sel demo_tdb_def, simp add: demo_tunnel_def)

theorem created_token_valid_witness:
  "\<exists>r rows'. CreateToken demo_sha (\<lambda>_. False) (Some demo_bytes) ''id1'' 0 5 ''laptop'' [] = (Inr r, rows') \<and>
     (\<exists>rec. fst (ValidateToken demo_sha (\<lambda>_. False) 1000 (tr_Token r) rows') = Inr rec \<and> tk_UserID rec = 5)"
  using created_token_valid [of demo_bytes demo_sha "''laptop''" "\<lambda>_. False" "''id1''" "[]" 1000 0 5 "[]"]
  by (auto simp: demo_bytes_def demo_sha_def)

theorem revoked_token_refused_witness:
  "\<exists>rows'. RevokeToken (\<lambda>_. False) 9 ''id1'' [demo_token] = (None, rows') \<and>
     AuthenticateTunnelByToken demo_sha (\<lambda>_. False) (\<lambda>_. False) (EncodeToString demo_bytes) [] rows' demo_tdb = Inl (InvalidToken ErrNotFound)"
proof -
  have "tk_GetByToken demo_sha (\<lambda>_. False) [demo_token] (EncodeToString demo_bytes) = Inr demo_token"
    by (simp add: tk_GetByToken_Inr live_rows_def demo_token_sel)
  from revoked_token_refused [OF this, of 9 "\<lambda>_. False" "[]" demo_tdb] show ?thesis by (auto simp: demo_token_sel)
qed

theorem expired_token_opens_tunnel_witness:
  "fst (ValidateToken demo_sha (\<lambda>_. False) (400 * 86400) (EncodeToString demo_bytes) [demo_token]) = Inl TokenExpired \<and>
   AuthenticateTunnelByToken demo_sha (\<lambda>_. False) (\<lambda>_. False) (EncodeToString demo_bytes) ''a.example.com'' [demo_token] demo_tdb = Inr demo_tunnel"
proof -
  have s: "tr_Token (ToTokenResponse demo_token (EncodeToString demo_bytes)) = EncodeToString demo_bytes"
    "t_Domain demo_tunnel = ''a.example.com''" by (simp_all add: ToTokenResponse_def demo_tunnel_def)
  have t: "demo_tunnel \<in> set (db_rows demo_tdb)" "t_UserID demo_tunnel = 5" "t_IsEnabled demo_tunnel"
    by (simp_all add: demo_tdb_def demo_tunnel_def)
  show ?thesis
    using expired_token_opens_tunnel [where f = "\<lambda>_. False" and g = "\<lambda>_. False" and now' = "400 * 86400",
        OF _ _ _ _ _ _ demo_tdb_inv _ t _ demo_create_token, unfolded s]
    by (simp add: demo_lengths)
qed

end
