(* ===== verification/Status_Cache.thy ===== *)
theory Status_Cache
  imports Tunnel_Service
begin

text \<open>
  \<open>internal/tunnel/tunnel_status_cache.go\<close>: the in-memory table of enabled domains that the gRPC server
  asks for every request. A refresh first reads the database and later, under the lock, writes the
  cache; refreshes of several goroutines interleave between the two. The table is a partial function,
  since it is only looked up.
\<close>

section \<open>The operations\<close>

type_synonym status_cache = "string \<Rightarrow> bool option"

definition NewTunnelStatusCache :: "time \<Rightarrow> status_cache \<times> time" where
  "NewTunnelStatusCache refreshInterval = (Map.empty, if refreshInterval = 0 then 5 else refreshInterval)"

definition IsEnabled :: "status_cache \<Rightarrow> string \<Rightarrow> bool" where
  "IsEnabled c domain = (case c domain of Some b \<Rightarrow> b | None \<Rightarrow> False)"

text \<open>What a refresh has read and is about to write: a whole table, one entry, or a removal.\<close>

datatype refresh = SwapAll status_cache | SetOne string bool | DropOne string

fun new_cache :: "tunnel_row list \<Rightarrow> status_cache \<Rightarrow> status_cache" where
  "new_cache [] c = c"
| "new_cache (t # ts) c = new_cache ts (c(t_Domain t \<mapsto> t_IsEnabled t))"

definition read_all :: "'c tunnel_service \<Rightarrow> tunnel_db \<Rightarrow> refresh option" where
  "read_all s db =
     (case GetActive s db of
        Inl _ \<Rightarrow> None
      | Inr tunnels \<Rightarrow> Some (SwapAll (new_cache tunnels Map.empty)))"

definition read_single :: "'c tunnel_service \<Rightarrow> string \<Rightarrow> tunnel_db \<Rightarrow> refresh" where
  "read_single s domain db =
     (case GetByDomain s domain db of
        Inl _ \<Rightarrow> DropOne domain
      | Inr t \<Rightarrow> SetOne domain (t_IsEnabled t))"

fun apply_refresh :: "refresh \<Rightarrow> status_cache \<Rightarrow> status_cache" where
  "apply_refresh (SwapAll c') c = c'"
| "apply_refresh (SetOne d b) c = c(d \<mapsto> b)"
| "apply_refresh (DropOne d) c = c(d := None)"

definition refreshAll :: "'c tunnel_service \<Rightarrow> tunnel_db \<Rightarrow> status_cache \<Rightarrow> status_cache" where
  "refreshAll s db c = (case read_all s db of None \<Rightarrow> c | Some r \<Rightarrow> apply_refresh r c)"

definition refreshSingle :: "'c tunnel_service \<Rightarrow> string \<Rightarrow> tunnel_db \<Rightarrow> status_cache \<Rightarrow> status_cache" where
  "refreshSingle s domain db c = apply_refresh (read_single s domain db) c"

section \<open>A single refresh\<close>

definition enabled_in :: "tunnel_db \<Rightarrow> string \<Rightarrow> bool" where
  "enabled_in db d \<longleftrightarrow> list_ex (\<lambda>t. t_Domain t = d \<and> t_IsEnabled t) (db_rows db)"

lemma IsEnabled_empty [simp]: "IsEnabled Map.empty d = False"
  by (simp add: IsEnabled_def)

lemma new_cache_enabled:
  "list_all t_IsEnabled ts \<Longrightarrow> IsEnabled (new_cache ts c) d \<longleftrightarrow> d \<in> t_Domain ` set ts \<or> IsEnabled c d"
  by (induction ts arbitrary: c) (auto simp: IsEnabled_def)

lemma read_all_enabled:
  "read_all s db = Some (SwapAll c) \<Longrightarrow> IsEnabled c d \<longleftrightarrow> enabled_in db d"
  by (auto simp: read_all_def GetActive_def repo_GetActive_def new_cache_enabled list_all_iff enabled_in_def list_ex_iff
      split: if_splits)

lemma read_single_sound:
  "read_single s d db = SetOne d' b \<Longrightarrow> d' = d \<and> (b \<longrightarrow> enabled_in db d)"
  using ent_Only_Inr [of "\<lambda>r. t_Domain r = d" "db_rows db"]
  by (auto simp: read_single_def GetByDomain_def repo_GetByDomain_def enabled_in_def list_ex_iff split: sum.splits if_splits)

lemma read_single_exact:
  assumes "db_inv db" "\<not> s_faults s OpGetByDomain"
  shows "read_single s d db = (if d \<in> t_Domain ` set (db_rows db) then SetOne d (enabled_in db d) else DropOne d)"
proof -
  have iff: "repo_GetByDomain (s_faults s) db d = Inr r \<longleftrightarrow> r \<in> set (db_rows db) \<and> t_Domain r = d" for r
    using assms by (intro repo_GetByDomain_Inr)
  show ?thesis
  proof (cases "repo_GetByDomain (s_faults s) db d")
    case (Inl e)
    then show ?thesis using iff by (auto simp: read_single_def GetByDomain_def)
  next
    case (Inr r)
    have "r' = r" if "r' \<in> set (db_rows db)" "t_Domain r' = d" for r' using that Inr iff by (metis sum.inject(2))
    with Inr iff [of r] show ?thesis
      by (auto simp: read_single_def GetByDomain_def enabled_in_def list_ex_iff)
  qed
qed

text \<open>
  A refresh that runs alone and reaches the database makes the cache exact: after \<open>refreshAll\<close> a
  domain is enabled in the cache if and only if the table has an enabled tunnel for it; after
  \<open>refreshSingle\<close> the same holds of that domain and every other entry is as before. A full refresh that
  fails keeps the old answers, a single one that fails switches the domain off.
\<close>

theorem status_refresh_exact:
  assumes "db_inv db"
  shows "(IsEnabled (refreshAll s db c) d \<longleftrightarrow> (if s_faults s OpGetActive then IsEnabled c d else enabled_in db d)) \<and>
    (IsEnabled (refreshSingle s d' db c) d \<longleftrightarrow>
      (if d = d' then \<not> s_faults s OpGetByDomain \<and> enabled_in db d else IsEnabled c d))"
proof (intro conjI)
  show "IsEnabled (refreshAll s db c) d \<longleftrightarrow> (if s_faults s OpGetActive then IsEnabled c d else enabled_in db d)"
    using read_all_enabled [of s db _ d]
    by (auto simp: refreshAll_def read_all_def GetActive_def repo_GetActive_def)
  have "IsEnabled (refreshSingle s d' db c) d \<longleftrightarrow> \<not> s_faults s OpGetByDomain \<and> enabled_in db d" if "d = d'"
    using read_single_exact [OF assms, of s d] that
    by (cases "s_faults s OpGetByDomain")
       (auto simp: refreshSingle_def IsEnabled_def read_single_def GetByDomain_def repo_GetByDomain_def enabled_in_def list_ex_iff)
  moreover have "IsEnabled (refreshSingle s d' db c) d = IsEnabled c d" if "d \<noteq> d'"
    using that by (auto simp: refreshSingle_def read_single_def IsEnabled_def split: sum.split)
  ultimately show "IsEnabled (refreshSingle s d' db c) d \<longleftrightarrow>
      (if d = d' then \<not> s_faults s OpGetByDomain \<and> enabled_in db d else IsEnabled c d)" by simp
qed

section \<open>Interleaved refreshes\<close>

text \<open>
  The periodic loop and the goroutines of \<open>Invalidate\<close> and \<open>InvalidateAll\<close>, while other requests change
  the table. \<open>cs_seen\<close> records the domains that were enabled at some time. The service of a step carries
  the faults of that moment.
\<close>

record cache_state =
  cs_cache :: status_cache
  cs_flight :: "refresh list"
  cs_db :: tunnel_db
  cs_seen :: "string \<Rightarrow> bool"

inductive cache_step :: "cache_state \<Rightarrow> cache_state \<Rightarrow> bool" where
  change: "cache_step st (st\<lparr>cs_db := db', cs_seen := (\<lambda>d. cs_seen st d \<or> enabled_in db' d)\<rparr>)"
| start_all: "read_all (s :: unit tunnel_service) (cs_db st) = Some r \<Longrightarrow> cache_step st (st\<lparr>cs_flight := cs_flight st @ [r]\<rparr>)"
| start_single: "cache_step st (st\<lparr>cs_flight := cs_flight st @ [read_single (s :: unit tunnel_service) d (cs_db st)]\<rparr>)"
| commit_one: "r \<in> set (cs_flight st) \<Longrightarrow>
    cache_step st (st\<lparr>cs_cache := apply_refresh r (cs_cache st), cs_flight := remove1 r (cs_flight st)\<rparr>)"

definition cache_init :: "cache_state \<Rightarrow> bool" where
  "cache_init st \<longleftrightarrow> cs_cache st = Map.empty \<and> cs_flight st = [] \<and> cs_seen st = enabled_in (cs_db st)"

fun refresh_ok :: "(string \<Rightarrow> bool) \<Rightarrow> refresh \<Rightarrow> bool" where
  "refresh_ok seen (SwapAll c) \<longleftrightarrow> (\<forall>d. IsEnabled c d \<longrightarrow> seen d)"
| "refresh_ok seen (SetOne d b) \<longleftrightarrow> (b \<longrightarrow> seen d)"
| "refresh_ok seen (DropOne d) \<longleftrightarrow> True"

definition cache_inv :: "cache_state \<Rightarrow> bool" where
  "cache_inv st \<longleftrightarrow> (\<forall>d. IsEnabled (cs_cache st) d \<longrightarrow> cs_seen st d) \<and>
     list_all (refresh_ok (cs_seen st)) (cs_flight st) \<and> (\<forall>d. enabled_in (cs_db st) d \<longrightarrow> cs_seen st d)"

lemma refresh_ok_mono: "refresh_ok seen r \<Longrightarrow> (\<And>d. seen d \<Longrightarrow> seen' d) \<Longrightarrow> refresh_ok seen' r"
  by (cases r) auto

lemma refresh_ok_commit:
  "refresh_ok seen r \<Longrightarrow> (\<And>d. IsEnabled c d \<Longrightarrow> seen d) \<Longrightarrow> IsEnabled (apply_refresh r c) d \<Longrightarrow> seen d"
  by (cases r) (auto simp: IsEnabled_def split: if_splits)

lemma read_all_ok: "read_all s db = Some r \<Longrightarrow> (\<And>d. enabled_in db d \<Longrightarrow> seen d) \<Longrightarrow> refresh_ok seen r"
  using read_all_enabled [of s db] by (auto simp: read_all_def split: sum.splits)

lemma read_single_ok: "(\<And>d. enabled_in db d \<Longrightarrow> seen d) \<Longrightarrow> refresh_ok seen (read_single s d db)"
  using read_single_sound [of s d db] by (cases "read_single s d db") (auto simp: read_single_def split: sum.splits)

lemma cache_step_inv: "cache_step st st' \<Longrightarrow> cache_inv st \<Longrightarrow> cache_inv st'"
proof (induction rule: cache_step.induct)
  case (change st db')
  then show ?case by (auto simp: cache_inv_def list_all_iff intro: refresh_ok_mono)
next
  case (start_all s st r)
  then show ?case by (auto simp: cache_inv_def intro: read_all_ok)
next
  case (start_single st s d)
  then show ?case by (auto simp: cache_inv_def intro: read_single_ok)
next
  case (commit_one r st)
  then have "refresh_ok (cs_seen st) r" by (auto simp: cache_inv_def list_all_iff)
  then have "cs_seen st d" if "IsEnabled (apply_refresh r (cs_cache st)) d" for d
    using that commit_one refresh_ok_commit [of "cs_seen st" r "cs_cache st" d] by (auto simp: cache_inv_def)
  with commit_one show ?case
    by (auto simp: cache_inv_def list_all_iff dest: set_remove1_subset [THEN subsetD])
qed

lemma cache_init_inv: "cache_init st \<Longrightarrow> cache_inv st"
  by (simp add: cache_inv_def cache_init_def)

interpretation cache: transition_system cache_init cache_step cache_inv
  by unfold_locales (auto intro: cache_step_inv cache_init_inv)

text \<open>
  C35. The cache never invents an enabled tunnel: whatever the interleaving of refreshes, invalidations and
  changes of the table, and whatever database operations fail, a domain the cache answers enabled for
  was enabled in the table at some earlier time.
\<close>

theorem status_cache_sound:
  assumes "reach cache_init cache_step st" "IsEnabled (cs_cache st) d"
  shows "cs_seen st d"
  using cache.reach_invar [OF assms(1)] assms(2) by (simp add: cache_inv_def)

section \<open>Witnesses\<close>

definition demo_status_row :: tunnel_row where
  "demo_status_row = \<lparr>t_ID = 1, t_Domain = ''d'', t_Token = ''t'', t_ClientIP = [], t_IsEnabled = True, t_DNS = Verified,
     t_TargetPort = 80, t_UserID = 5, t_CreatedAt = 0, t_UpdatedAt = 0\<rparr>"

definition demo_cache_db :: tunnel_db where
  "demo_cache_db = \<lparr>db_rows = [demo_status_row], db_next_id = 2, db_clock = 0\<rparr>"

definition demo_cache_service :: "unit tunnel_service" where
  "demo_cache_service = \<lparr>s_env = (\<lambda>_. []), s_hmac = (\<lambda>_ _. []), s_BaseDomain = [], s_ServerIP = [],
     s_resolve = (\<lambda>_ _. None), s_caddy = None, s_faults = (\<lambda>_. False)\<rparr>"

lemma demo_enabled: "enabled_in demo_cache_db ''d''"
  by (simp add: enabled_in_def demo_cache_db_def demo_status_row_def)

theorem status_refresh_exact_witness:
  "IsEnabled (refreshAll demo_cache_service demo_cache_db Map.empty) ''d''"
proof -
  have "db_inv demo_cache_db" by (simp add: db_inv_def keyed_def demo_cache_db_def demo_status_row_def)
  from status_refresh_exact [OF this, of demo_cache_service Map.empty "''d''"] show ?thesis
    by (simp add: demo_enabled demo_cache_service_def)
qed

theorem status_cache_sound_witness:
  "\<exists>st. reach cache_init cache_step st \<and> IsEnabled (cs_cache st) ''d'' \<and> cs_seen st ''d''"
proof -
  let ?st = "\<lparr>cs_cache = Map.empty, cs_flight = [], cs_db = demo_cache_db, cs_seen = enabled_in demo_cache_db\<rparr>"
  let ?r = "SwapAll (new_cache [demo_status_row] Map.empty)"
  have r: "read_all demo_cache_service demo_cache_db = Some ?r"
    by (simp add: read_all_def GetActive_def repo_GetActive_def demo_cache_service_def demo_cache_db_def demo_status_row_def)
  have 0: "reach cache_init cache_step ?st" by (rule reach_init) (simp add: cache_init_def)
  have 1: "reach cache_init cache_step (?st\<lparr>cs_flight := [?r]\<rparr>)"
    using reach_step [OF 0 start_all [of demo_cache_service ?st ?r]] r by simp
  have 2: "reach cache_init cache_step (?st\<lparr>cs_cache := apply_refresh ?r Map.empty\<rparr>)"
    using reach_step [OF 1 commit_one [of ?r]] by simp
  have e: "IsEnabled (cs_cache (?st\<lparr>cs_cache := apply_refresh ?r Map.empty\<rparr>)) ''d''" by (simp add: IsEnabled_def demo_status_row_def)
  from status_cache_sound [OF 2 e] e 2 show ?thesis by blast
qed

end
