(* ===== verification/Tunnel_Proto.thy ===== *)
theory Tunnel_Proto
  imports Go_Base
begin

text \<open>
  The messages of the gRPC tunnel (\<open>internal/tunnel/proto/tunnel.pb.go\<close>), with the fields the program
  reads; timestamps and version strings are left out. A payload (\<open>[]byte\<close>) is a \<^typ>\<open>string\<close>. A message
  that arrives has its oneof value set, as the protobuf decoder guarantees.
\<close>

type_synonym headers = "(string, string) go_map"

record http_request =
  rq_Method :: string
  rq_Path :: string
  rq_Headers :: headers
  rq_Body :: string
  rq_IsLargeFile :: bool
  rq_ClientIp :: string
  rq_Media :: bool

record http_response =
  rs_StatusCode :: int
  rs_StatusText :: string
  rs_Headers :: headers
  rs_Body :: string
  rs_IsChunked :: bool
  rs_ChunkId :: string

record request_start =
  st_RequestId :: string
  st_Method :: string
  st_Path :: string
  st_Headers :: headers
  st_ClientIp :: string
  st_IsLargeFile :: bool

record tunnel_handshake =
  hs_Token :: string
  hs_Domain :: string
  hs_TargetPort :: int

record establish_request =
  er_Domain :: string
  er_RequestId :: string
  er_TCP :: bool

text \<open>The status carries whether the state is \<open>TUNNEL_STATE_ACTIVE\<close>.\<close>

datatype control =
    CtlHandshake tunnel_handshake
  | CtlStatus bool
  | CtlConfig
  | CtlMetrics
  | CtlEstablishRequest establish_request
  | CtlCancelRequest string

datatype message_type =
    HttpRequest http_request
  | HttpResponse http_response
  | HttpRequestStart request_start
  | HttpRequestChunk string
  | HttpRequestEnd
  | Control control
  | ErrorMessage int string
  | OtherMessage

record tunnel_message =
  m_RequestId :: string
  m_Type :: message_type

definition is_chunked :: "tunnel_message \<Rightarrow> bool" where
  "is_chunked m = (case m_Type m of HttpResponse r \<Rightarrow> rs_IsChunked r | _ \<Rightarrow> False)"

section \<open>Header maps\<close>

text \<open>
  \<open>map[string]string\<close> read with the zero value for a missing key, and the loop that keeps the first
  value of every header of an \<open>http.Header\<close>. \<open>http.Header\<close> keys are in canonical form on both sides.
\<close>

definition header_get :: "headers \<Rightarrow> string \<Rightarrow> string" where
  "header_get h k = (case map_of h k of Some v \<Rightarrow> v | None \<Rightarrow> [])"

type_synonym http_headers = "(string, string list) go_map"

fun first_values :: "http_headers \<Rightarrow> headers" where
  "first_values [] = []"
| "first_values ((k, vs) # h) = (case vs of [] \<Rightarrow> first_values h | v # _ \<Rightarrow> (k, v) # first_values h)"

fun set_all :: "headers \<Rightarrow> http_headers \<Rightarrow> http_headers" where
  "set_all [] h = h"
| "set_all ((k, v) # kvs) h = set_all kvs (AList.update k [v] h)"

lemma keys_first_values: "fst ` set (first_values h) \<subseteq> fst ` set h"
  by (induction h rule: first_values.induct) (auto split: list.splits)

lemma map_of_first_values:
  "distinct (map fst h) \<Longrightarrow> map_of (first_values h) k = (case map_of h k of Some (v # _) \<Rightarrow> Some v | _ \<Rightarrow> None)"
proof (induction h rule: first_values.induct)
  case (2 k' vs h)
  then have "map_of (first_values h) k' = None" "map_of h k' = None"
    using keys_first_values [of h] by (auto simp: map_of_eq_None_iff)
  with 2 show ?case by (auto split: list.splits option.splits)
qed simp

lemma distinct_first_values: "distinct (map fst h) \<Longrightarrow> distinct (map fst (first_values h))"
proof (induction h rule: first_values.induct)
  case (2 k' vs h)
  then have "k' \<notin> fst ` set (first_values h)" using keys_first_values [of h] by auto
  with 2 show ?case by (auto split: list.splits)
qed simp

lemma map_of_set_all:
  "distinct (map fst kvs) \<Longrightarrow> map_of (set_all kvs h) k = (case map_of kvs k of Some v \<Rightarrow> Some [v] | None \<Rightarrow> map_of h k)"
proof (induction kvs h rule: set_all.induct)
  case (2 k' v kvs h)
  then have "map_of kvs k' = None" by (simp add: map_of_eq_None_iff)
  with 2 show ?case by (auto simp: go_simps split: option.splits)
qed simp

lemma header_roundtrip:
  "distinct (map fst h) \<Longrightarrow>
   map_of (set_all (first_values h) []) k = (case map_of h k of Some (v # _) \<Rightarrow> Some [v] | _ \<Rightarrow> None)"
  by (auto simp: map_of_set_all distinct_first_values map_of_first_values split: option.splits list.splits)

end
