(* ===== verification/Grpc_Client.thy ===== *)
theory Grpc_Client
  imports Tunnel_Proto
begin

text \<open>
  The client side of the gRPC tunnel (\<open>internal/tunnel/grpc_client.go\<close>): what the client does with a
  message of the server, from the request to the local service up to the messages it sends back. The
  local service is a parameter: a response is its status, headers and the results of the successive
  \<open>Read\<close> calls on its body, after which the body answers \<open>io.EOF\<close>. Which of the client's sends succeed, and when the server has cancelled the
  request or the time limit has passed, are parameters of a run too.
\<close>

section \<open>Data\<close>

datatype read_err = ReadOK | ReadEOF | ReadFail

record local_response =
  lr_StatusCode :: int
  lr_Status :: string
  lr_Header :: http_headers
  lr_ContentLength :: int
  lr_Reads :: "(string \<times> read_err) list"

record upload_session =
  up_data :: string
  up_closed :: bool

record grpc_client =
  gc_domain :: string
  gc_targetPort :: int
  gc_stream :: bool
  gc_sent :: "tunnel_message list"
  gc_uploads :: "string \<Rightarrow> upload_session option"
  gc_active :: "string \<Rightarrow> bool"
  gc_totalRequests :: i64
  gc_totalResponses :: i64

text \<open>
  The circumstances of one response: is the request cancelled before or after the \<open>k\<close>-th read, is the
  time limit exceeded before it, does the send of the \<open>k\<close>-th iteration succeed, does the send of an error succeed.
\<close>

record stream_env =
  se_cancelled :: "nat \<Rightarrow> bool"
  se_late :: "nat \<Rightarrow> bool"
  se_cancelled_after :: "nat \<Rightarrow> bool"
  se_send_ok :: "nat \<Rightarrow> bool"
  se_error_ok :: bool

datatype outcome = Completed | Failed | Cancelled | Panicked

section \<open>Sending\<close>

definition client_send :: "bool \<Rightarrow> tunnel_message \<Rightarrow> grpc_client \<Rightarrow> outcome \<times> grpc_client" where
  "client_send ok m c = (if ok then (Completed, c\<lparr>gc_sent := gc_sent c @ [m]\<rparr>) else (Failed, c))"

definition sendErrorResponse :: "stream_env \<Rightarrow> string \<Rightarrow> string \<Rightarrow> grpc_client \<Rightarrow> outcome \<times> grpc_client" where
  "sendErrorResponse e rid msg c =
     (if \<not> gc_stream c then (Failed, c)
      else client_send (se_error_ok e) \<lparr>m_RequestId = rid, m_Type = ErrorMessage 500 msg\<rparr> c)"

definition http_message :: "string \<Rightarrow> local_response \<Rightarrow> string \<Rightarrow> bool \<Rightarrow> string \<Rightarrow> tunnel_message" where
  "http_message rid r body chunked chunkId =
     \<lparr>m_RequestId = rid,
      m_Type = HttpResponse \<lparr>rs_StatusCode = lr_StatusCode r, rs_StatusText = lr_Status r,
        rs_Headers = first_values (lr_Header r), rs_Body = body, rs_IsChunked = chunked, rs_ChunkId = chunkId\<rparr>\<rparr>"

text \<open>A send on the nil stream of a reconnecting client is a nil dereference.\<close>

definition sendCompleteResponse :: "stream_env \<Rightarrow> string \<Rightarrow> local_response \<Rightarrow> string \<Rightarrow> grpc_client \<Rightarrow> outcome \<times> grpc_client" where
  "sendCompleteResponse e rid r body c =
     (let c1 = c\<lparr>gc_totalResponses := gc_totalResponses c + 1\<rparr>
      in if \<not> gc_stream c then (Panicked, c1)
         else client_send (se_send_ok e 0) (http_message rid r body False []) c1)"

definition chunk_id :: "nat \<Rightarrow> bool \<Rightarrow> string" where
  "chunk_id n final = ''chunk-'' @ dec n @ (if final then ''_final'' else [])"

text \<open>The loop of \<open>streamResponseInChunksWithContext\<close>; \<open>k\<close> counts reads, \<open>n\<close> the chunks sent before.\<close>

fun stream_loop ::
    "stream_env \<Rightarrow> string \<Rightarrow> local_response \<Rightarrow> nat \<Rightarrow> nat \<Rightarrow> (string \<times> read_err) list \<Rightarrow> grpc_client
       \<Rightarrow> outcome \<times> grpc_client" where
  "stream_loop e rid r k n reads c =
     (if se_cancelled e k then (Cancelled, c)
      else if se_late e k then (Failed, snd (sendErrorResponse e rid ''Streaming timeout exceeded'' c))
      else case reads of
             [] \<Rightarrow> (Completed, c)
           | (data, err) # reads' \<Rightarrow>
               if err = ReadFail then (Failed, snd (sendErrorResponse e rid ''Local service read failed'' c))
               else if data = [] then (if err = ReadEOF then (Completed, c) else stream_loop e rid r (Suc k) n reads' c)
               else if \<not> gc_stream c then (Failed, snd (sendErrorResponse e rid ''Stream connection lost'' c))
               else if se_cancelled_after e k then (Cancelled, c)
               else case client_send (se_send_ok e k)
                           (http_message rid r data True (chunk_id (Suc n) (err = ReadEOF))) c of
                      (Completed, c1) \<Rightarrow>
                        if err = ReadEOF then (Completed, c1) else stream_loop e rid r (Suc k) (Suc n) reads' c1
                    | (_, c1) \<Rightarrow> (Failed, snd (sendErrorResponse e rid ''Chunked streaming failed'' c1)))"

declare stream_loop.simps [simp del]

definition streamResponseInChunks ::
    "stream_env \<Rightarrow> string \<Rightarrow> local_response \<Rightarrow> grpc_client \<Rightarrow> outcome \<times> grpc_client" where
  "streamResponseInChunks e rid r c =
     (if lr_ContentLength r = 0 then sendCompleteResponse e rid r [] c
      else case stream_loop e rid r 0 0 (lr_Reads r) c of
             (Completed, c1) \<Rightarrow> (Completed, c1\<lparr>gc_totalResponses := gc_totalResponses c1 + 1\<rparr>)
           | x \<Rightarrow> x)"

section \<open>Requests\<close>

definition large_extensions :: "string list" where
  "large_extensions =
     [''.mp4'', ''.avi'', ''.mov'', ''.mkv'', ''.webm'', ''.m4v'', ''.flv'', ''.wmv'', ''.mpg'', ''.mpeg'', ''.m2v'',
      ''.zip'', ''.rar'', ''.7z'', ''.tar'', ''.gz'', ''.bz2'', ''.xz'',
      ''.iso'', ''.img'', ''.dmg'', ''.exe'', ''.msi'', ''.deb'', ''.rpm'', ''.appimage'',
      ''.wav'', ''.flac'', ''.ape'']"

definition large_paths :: "string list" where
  "large_paths =
     [''/video/'', ''/videos/'', ''/movie/'', ''/movies/'', ''/playback'',
      ''/download/'', ''/downloads/'', ''/file/'', ''/files/'',
      ''/original/'', ''/raw/'', ''/backup/'', ''/archive/'',
      ''/media/large/'', ''/assets/large/'', ''/content/large/'']"

definition shouldUseChunkedStreaming :: "http_request \<Rightarrow> bool" where
  "shouldUseChunkedStreaming req =
     (if rq_IsLargeFile req then True
      else let path = ToLower (rq_Path req)
           in if list_ex (HasSuffix path) large_extensions then True
              else if list_ex (Contains path) large_paths then True else False)"

text \<open>\<open>io.ReadAll\<close>: everything up to the end, or the error.\<close>

fun ReadAll :: "(string \<times> read_err) list \<Rightarrow> string option" where
  "ReadAll [] = Some []"
| "ReadAll ((d, e) # reads) =
     (case e of
        ReadFail \<Rightarrow> None
      | ReadEOF \<Rightarrow> Some d
      | ReadOK \<Rightarrow> map_option ((@) d) (ReadAll reads))"

definition set_active :: "string \<Rightarrow> bool \<Rightarrow> grpc_client \<Rightarrow> grpc_client" where
  "set_active rid b c = c\<lparr>gc_active := (gc_active c)(rid := b)\<rparr>"

definition forwardLargeFileWithChunking ::
    "(int \<Rightarrow> http_request \<Rightarrow> local_response option) \<Rightarrow> stream_env \<Rightarrow> string \<Rightarrow> http_request \<Rightarrow> grpc_client
       \<Rightarrow> outcome \<times> grpc_client" where
  "forwardLargeFileWithChunking service e rid req c =
     (let c1 = set_active rid True c;
          (out, c2) = (case service (gc_targetPort c) req of
                         None \<Rightarrow> sendErrorResponse e rid ''Local service request failed'' c1
                       | Some r \<Rightarrow> streamResponseInChunks e rid r c1)
      in (out, set_active rid False c2))"

definition forwardRegularRequest ::
    "(int \<Rightarrow> http_request \<Rightarrow> local_response option) \<Rightarrow> stream_env \<Rightarrow> string \<Rightarrow> http_request \<Rightarrow> grpc_client
       \<Rightarrow> outcome \<times> grpc_client" where
  "forwardRegularRequest service e rid req c =
     (case service (gc_targetPort c) req of
        None \<Rightarrow> sendErrorResponse e rid ''Local service request failed'' c
      | Some r \<Rightarrow>
          if lr_ContentLength r > 8 * 1024 * 1024 \<or> lr_ContentLength r = -1
          then (let (out, c1) = streamResponseInChunks e rid r (set_active rid True c) in (out, set_active rid False c1))
          else (case ReadAll (lr_Reads r) of
                  None \<Rightarrow> sendErrorResponse e rid ''Failed to read response'' c
                | Some body \<Rightarrow> sendCompleteResponse e rid r body c))"

definition forwardToLocalService ::
    "(int \<Rightarrow> http_request \<Rightarrow> local_response option) \<Rightarrow> stream_env \<Rightarrow> string \<Rightarrow> http_request \<Rightarrow> grpc_client
       \<Rightarrow> outcome \<times> grpc_client" where
  "forwardToLocalService service e rid req c =
     (if rq_IsLargeFile req \<and> shouldUseChunkedStreaming req then forwardLargeFileWithChunking service e rid req c
      else forwardRegularRequest service e rid req c)"

definition c_handleHTTPRequest ::
    "(int \<Rightarrow> http_request \<Rightarrow> local_response option) \<Rightarrow> stream_env \<Rightarrow> string \<Rightarrow> http_request \<Rightarrow> grpc_client
       \<Rightarrow> outcome \<times> grpc_client" where
  "c_handleHTTPRequest service e rid req c =
     forwardToLocalService service e rid req (c\<lparr>gc_totalRequests := gc_totalRequests c + 1\<rparr>)"

section \<open>Uploads\<close>

text \<open>
  The pipe to the local service collects what is written. \<open>valid\<close> says whether \<open>http.NewRequest\<close>
  accepts the method and the path; a write fails when the local request has already ended (\<open>reading\<close>
  is false).
\<close>

definition c_handleUploadStart :: "bool \<Rightarrow> stream_env \<Rightarrow> string \<Rightarrow> grpc_client \<Rightarrow> outcome \<times> grpc_client" where
  "c_handleUploadStart valid e rid c =
     (if \<not> valid then sendErrorResponse e rid ''failed to create local request'' c
      else (Completed, c\<lparr>gc_uploads := (gc_uploads c)(rid \<mapsto> \<lparr>up_data = [], up_closed = False\<rparr>),
                         gc_active := (gc_active c)(rid := True)\<rparr>))"

definition c_handleUploadChunk :: "bool \<Rightarrow> stream_env \<Rightarrow> string \<Rightarrow> string \<Rightarrow> grpc_client \<Rightarrow> outcome \<times> grpc_client" where
  "c_handleUploadChunk reading e rid data c =
     (case gc_uploads c rid of
        None \<Rightarrow> (Completed, c)
      | Some s \<Rightarrow>
          if data = [] then (Completed, c)
          else if \<not> reading then sendErrorResponse e rid ''Failed to write upload chunk'' c
          else (Completed, c\<lparr>gc_uploads := (gc_uploads c)(rid \<mapsto> s\<lparr>up_data := up_data s @ data\<rparr>)\<rparr>))"

text \<open>The end closes the pipe and forgets the session; what the local service then has read is returned.\<close>

definition c_handleUploadEnd :: "string \<Rightarrow> grpc_client \<Rightarrow> string option \<times> grpc_client" where
  "c_handleUploadEnd rid c = (map_option up_data (gc_uploads c rid), c\<lparr>gc_uploads := (gc_uploads c)(rid := None)\<rparr>)"

section \<open>Control messages\<close>

definition handleCancelRequest :: "string \<Rightarrow> grpc_client \<Rightarrow> grpc_client" where
  "handleCancelRequest rid c = (if rid = [] then c else if gc_active c rid then set_active rid False c else c)"

definition sendTunnelEstablishResponse :: "bool \<Rightarrow> string \<Rightarrow> bool \<Rightarrow> string \<Rightarrow> grpc_client \<Rightarrow> outcome \<times> grpc_client" where
  "sendTunnelEstablishResponse ok rid success message c =
     (if \<not> gc_stream c then (Failed, c)
      else client_send ok
        (if success then \<lparr>m_RequestId = rid, m_Type = Control (CtlStatus True)\<rparr>
         else \<lparr>m_RequestId = rid, m_Type = ErrorMessage 503 message\<rparr>) c)"

text \<open>The handler the tunnel has set, if any, with its result.\<close>

definition c_handleTunnelEstablishRequest ::
    "(establish_request \<Rightarrow> string option) option \<Rightarrow> bool \<Rightarrow> string \<Rightarrow> establish_request \<Rightarrow> grpc_client \<Rightarrow> outcome \<times> grpc_client" where
  "c_handleTunnelEstablishRequest handler ok rid req c =
     (case handler of
        None \<Rightarrow> sendTunnelEstablishResponse ok rid False ''No tunnel establishment handler available'' c
      | Some h \<Rightarrow>
          (case h req of
             Some err \<Rightarrow> sendTunnelEstablishResponse ok rid False err c
           | None \<Rightarrow> sendTunnelEstablishResponse ok rid True ''Tunnel established successfully'' c))"

definition c_handleControlMessage ::
    "(establish_request \<Rightarrow> string option) option \<Rightarrow> bool \<Rightarrow> string \<Rightarrow> control \<Rightarrow> grpc_client \<Rightarrow> outcome \<times> grpc_client" where
  "c_handleControlMessage handler ok rid ctl c =
     (case ctl of
        CtlEstablishRequest req \<Rightarrow> c_handleTunnelEstablishRequest handler ok rid req c
      | CtlCancelRequest r \<Rightarrow> (Completed, handleCancelRequest r c)
      | _ \<Rightarrow> (Completed, c))"

text \<open>\<open>handleMessage\<close>. The circumstances of the local service come with the message.\<close>

definition c_handleMessage ::
    "(int \<Rightarrow> http_request \<Rightarrow> local_response option) \<Rightarrow> (establish_request \<Rightarrow> string option) option \<Rightarrow> stream_env \<Rightarrow> bool \<Rightarrow> bool
       \<Rightarrow> tunnel_message \<Rightarrow> grpc_client \<Rightarrow> outcome \<times> grpc_client" where
  "c_handleMessage service handler e valid reading m c =
     (case m_Type m of
        HttpRequest req \<Rightarrow> c_handleHTTPRequest service e (m_RequestId m) req c
      | HttpRequestStart s \<Rightarrow> c_handleUploadStart valid e (m_RequestId m) c
      | HttpRequestChunk data \<Rightarrow> c_handleUploadChunk reading e (m_RequestId m) data c
      | HttpRequestEnd \<Rightarrow> (Completed, snd (c_handleUploadEnd (m_RequestId m) c))
      | Control ctl \<Rightarrow> c_handleControlMessage handler (se_error_ok e) (m_RequestId m) ctl c
      | _ \<Rightarrow> (Completed, c))"

section \<open>What is sent for a response\<close>

text \<open>The bytes of a body, and the chunk messages of a response whose streaming meets no obstacle.\<close>

fun body_of :: "(string \<times> read_err) list \<Rightarrow> string" where
  "body_of [] = []"
| "body_of ((d, e) # reads) = d @ (if e = ReadEOF then [] else body_of reads)"

fun chunk_messages :: "string \<Rightarrow> local_response \<Rightarrow> nat \<Rightarrow> (string \<times> read_err) list \<Rightarrow> tunnel_message list" where
  "chunk_messages rid r n [] = []"
| "chunk_messages rid r n ((d, e) # reads) =
     (let rest = (\<lambda>n. if e = ReadEOF then [] else chunk_messages rid r n reads)
      in if d = [] then rest n
         else http_message rid r d True (chunk_id (Suc n) (e = ReadEOF)) # rest (Suc n))"

definition calm :: "stream_env \<Rightarrow> bool" where
  "calm e \<longleftrightarrow> (\<forall>k. \<not> se_cancelled e k \<and> \<not> se_late e k \<and> \<not> se_cancelled_after e k \<and> se_send_ok e k)"

lemma stream_loop_calm:
  assumes "calm e" "gc_stream c" "ReadFail \<notin> snd ` set reads"
  shows "stream_loop e rid r k n reads c = (Completed, c\<lparr>gc_sent := gc_sent c @ chunk_messages rid r n reads\<rparr>)"
  using assms(2,3)
proof (induction reads arbitrary: k n c)
  case Nil
  then show ?case using assms(1) by (subst stream_loop.simps) (simp add: calm_def)
next
  case (Cons x reads)
  obtain d err where x: "x = (d, err)" by force
  have err: "err \<noteq> ReadFail" using Cons.prems x by auto
  have nf: "ReadFail \<notin> snd ` set reads" using Cons.prems(2) by simp
  let ?m = "http_message rid r d True (chunk_id (Suc n) False)"
  have "gc_stream (c\<lparr>gc_sent := gc_sent c @ [?m]\<rparr>)" using Cons.prems by simp
  note IH = Cons.IH [OF Cons.prems(1) nf] Cons.IH [OF this nf]
  show ?case
    using assms(1) Cons.prems(1) err IH
    by (cases "err = ReadEOF"; subst stream_loop.simps) (simp_all add: x calm_def client_send_def)
qed

text \<open>
  A small local response with a known length travels in one message: if the local service answers
  within the 8 MB limit and its body can be read, the client sends exactly one message, with the id of
  the request, the status, the first value of every header and the whole body.
\<close>

lemma regular_response_complete:
  assumes "service (gc_targetPort c) req = Some r" "0 \<le> lr_ContentLength r" "lr_ContentLength r \<le> 8 * 1024 * 1024"
    and "ReadAll (lr_Reads r) = Some body" "gc_stream c" "se_send_ok e 0" "\<not> rq_IsLargeFile req"
  shows "\<exists>c'. c_handleHTTPRequest service e rid req c = (Completed, c') \<and>
    gc_sent c' = gc_sent c @ [\<lparr>m_RequestId = rid, m_Type = HttpResponse
      \<lparr>rs_StatusCode = lr_StatusCode r, rs_StatusText = lr_Status r, rs_Headers = first_values (lr_Header r),
       rs_Body = body, rs_IsChunked = False, rs_ChunkId = []\<rparr>\<rparr>] \<and>
    gc_totalRequests c' = gc_totalRequests c + 1 \<and> gc_totalResponses c' = gc_totalResponses c + 1"
  using assms
  by (simp add: c_handleHTTPRequest_def forwardToLocalService_def forwardRegularRequest_def sendCompleteResponse_def
      client_send_def http_message_def Let_def)

section \<open>Uploads reassemble\<close>

fun upload_chunks :: "stream_env \<Rightarrow> string \<Rightarrow> string list \<Rightarrow> grpc_client \<Rightarrow> grpc_client" where
  "upload_chunks e rid [] c = c"
| "upload_chunks e rid (d # ds) c = upload_chunks e rid ds (snd (c_handleUploadChunk True e rid d c))"

lemma upload_chunks_data:
  "gc_uploads c rid = Some s \<Longrightarrow>
   gc_uploads (upload_chunks e rid ds c) rid = Some (s\<lparr>up_data := up_data s @ concat ds\<rparr>) \<and>
   (\<forall>rid'. rid' \<noteq> rid \<longrightarrow> gc_uploads (upload_chunks e rid ds c) rid' = gc_uploads c rid')"
proof (induction ds arbitrary: c s)
  case (Cons d ds)
  let ?c = "snd (c_handleUploadChunk True e rid d c)"
  have "gc_uploads ?c rid = Some (s\<lparr>up_data := up_data s @ d\<rparr>)"
    using Cons.prems by (auto simp: c_handleUploadChunk_def)
  moreover have "gc_uploads ?c rid' = gc_uploads c rid'" if "rid' \<noteq> rid" for rid'
    using that Cons.prems by (auto simp: c_handleUploadChunk_def)
  ultimately show ?case using Cons.IH [of ?c] by auto
qed simp

section \<open>Errors\<close>

text \<open>A Go error as the client and the server inspect it: its text, and the gRPC status it carries, if any.\<close>

datatype status_code = DeadlineExceeded | Unavailable | OtherCode

record go_error =
  er_text :: string
  er_status :: "status_code option"

definition timeoutKeywords :: "string list" where
  "timeoutKeywords =
     [''timeout'', ''deadline'', ''context deadline exceeded'', ''connection timed out'', ''i/o timeout'', ''tunnel inactive'']"

definition isTimeoutError :: "go_error option \<Rightarrow> bool" where
  "isTimeoutError err =
     (case err of
        None \<Rightarrow> False
      | Some e \<Rightarrow>
          if list_ex (\<lambda>keyword. Contains (ToLower (er_text e)) (ToLower keyword)) timeoutKeywords then True
          else case er_status e of
                 Some code \<Rightarrow> code = DeadlineExceeded \<or> code = Unavailable
               | None \<Rightarrow> False)"

end
