(* ===== verification/Grpc_Correlation.thy ===== *)
theory Grpc_Correlation
  imports Tunnel_Proto
begin

text \<open>
  Request correlation on one gRPC tunnel stream (\<open>grpc_service.go\<close>, \<open>grpc_service_helpers.go\<close>): every
  request registers a channel under its id in \<open>pendingRequests\<close>, sends its message and waits; the one
  goroutine that reads the stream (\<open>handleClientMessages\<close>) looks the channel up and delivers.
  The goroutines interleave at the critical sections of \<open>requestsMux\<close> and at the channel operations, so
  a lookup and the delivery that follows are separate steps. A send on or a close of a closed channel
  panics, which ends the process: nothing recovers in these goroutines.
\<close>

section \<open>Channels\<close>

record channel =
  ch_buf :: "tunnel_message list"
  ch_cap :: nat
  ch_closed :: bool

text \<open>The stage of the reading goroutine: what it has looked up, and whether it holds the mutex.\<close>

datatype handler_pc =
    HIdle
  | RespFound tunnel_message nat
  | RespLocked tunnel_message nat
  | ErrFound tunnel_message nat
  | ErrSent tunnel_message nat
  | UpFound tunnel_message nat

datatype wait_result = GotResponse tunnel_message | GotNil | SendFailed | TimedOut | Disconnected | StreamEnded

text \<open>
  The stages of a request: \<open>sendRequestAndWaitResponse\<close> sends, waits, and hands a chunked response over
  (\<open>WUpgrade\<close>) to the goroutine that forwards chunks, which streams and cleans up (\<open>WEnd\<close>); uploads and
  downloads send (\<open>WUpload\<close>, \<open>WDownload\<close>) and then stream.
\<close>

datatype waiter_pc =
    WSend | WWait | WUpgrade tunnel_message | WUpload | WDownload | WStream | WEnd | WDone wait_result

text \<open>
  A request is named by the channel it made: \<open>wid\<close> is its request id, \<open>wsrc\<close> the channel it streams
  from, \<open>got\<close> what it received so far.
\<close>

record stream_state =
  pendingRequests :: "string \<Rightarrow> nat option"
  chan :: "nat \<Rightarrow> channel"
  nchan :: nat
  wid :: "nat \<Rightarrow> string"
  wsrc :: "nat \<Rightarrow> nat"
  wpc :: "nat \<Rightarrow> waiter_pc"
  got :: "nat \<Rightarrow> tunnel_message list"
  hpc :: handler_pc
  panicked :: bool

definition put_chan :: "nat \<Rightarrow> channel \<Rightarrow> stream_state \<Rightarrow> stream_state" where
  "put_chan c x st = st\<lparr>chan := (chan st)(c := x)\<rparr>"

definition send_chan :: "nat \<Rightarrow> tunnel_message \<Rightarrow> stream_state \<Rightarrow> stream_state" where
  "send_chan c m st =
     (if ch_closed (chan st c) then st\<lparr>panicked := True\<rparr>
      else put_chan c ((chan st c)\<lparr>ch_buf := ch_buf (chan st c) @ [m]\<rparr>) st)"

definition close_chan :: "nat \<Rightarrow> stream_state \<Rightarrow> stream_state" where
  "close_chan c st =
     (if ch_closed (chan st c) then st\<lparr>panicked := True\<rparr>
      else put_chan c ((chan st c)\<lparr>ch_closed := True\<rparr>) st)"

text \<open>\<open>close\<close> under a deferred \<open>recover\<close>.\<close>

definition close_recover :: "nat \<Rightarrow> stream_state \<Rightarrow> stream_state" where
  "close_recover c st = put_chan c ((chan st c)\<lparr>ch_closed := True\<rparr>) st"

definition chan_full :: "stream_state \<Rightarrow> nat \<Rightarrow> bool" where
  "chan_full st c \<longleftrightarrow> length (ch_buf (chan st c)) \<ge> ch_cap (chan st c)"

definition del_pending :: "string \<Rightarrow> stream_state \<Rightarrow> stream_state" where
  "del_pending rid st = st\<lparr>pendingRequests := (pendingRequests st)(rid := None)\<rparr>"

section \<open>The waiting side\<close>

text \<open>\<open>make(chan, n)\<close> and its registration, under the mutex.\<close>

definition register_request :: "string \<Rightarrow> nat \<Rightarrow> waiter_pc \<Rightarrow> stream_state \<Rightarrow> stream_state" where
  "register_request rid cap pc st =
     (let c = nchan st
      in st\<lparr>pendingRequests := (pendingRequests st)(rid \<mapsto> c),
            chan := (chan st)(c := \<lparr>ch_buf = [], ch_cap = cap, ch_closed = False\<rparr>),
            nchan := Suc c, wid := (wid st)(c := rid), wsrc := (wsrc st)(c := c), wpc := (wpc st)(c := pc), got := (got st)(c := [])\<rparr>)"

definition set_wpc :: "nat \<Rightarrow> waiter_pc \<Rightarrow> stream_state \<Rightarrow> stream_state" where
  "set_wpc c pc st = st\<lparr>wpc := (wpc st)(c := pc)\<rparr>"

text \<open>The clean-up after a failed send, a timeout or a cancelled context: only if the channel is still registered.\<close>

definition cleanup_owned :: "nat \<Rightarrow> stream_state \<Rightarrow> stream_state" where
  "cleanup_owned c st =
     (if pendingRequests st (wid st c) = Some c then close_chan c (del_pending (wid st c) st) else st)"

definition take_message :: "nat \<Rightarrow> nat \<Rightarrow> tunnel_message \<Rightarrow> tunnel_message list \<Rightarrow> stream_state \<Rightarrow> stream_state" where
  "take_message c src m ms st =
     put_chan src ((chan st src)\<lparr>ch_buf := ms\<rparr>) (st\<lparr>got := (got st)(c := got st c @ [m])\<rparr>)"

text \<open>A receive yields the next message, or nil from a channel that is closed and empty.\<close>

definition receive :: "nat \<Rightarrow> stream_state \<Rightarrow> stream_state" where
  "receive c st =
     (case ch_buf (chan st c) of
        [] \<Rightarrow> set_wpc c (WDone GotNil) st
      | m # ms \<Rightarrow>
          set_wpc c (if is_chunked m then WUpgrade m else WDone (GotResponse m)) (take_message c c m ms st))"

definition is_final :: "tunnel_message \<Rightarrow> bool" where
  "is_final m =
     (case m_Type m of
        HttpResponse r \<Rightarrow> \<not> rs_IsChunked r \<or> HasSuffix (rs_ChunkId r) ''_final''
      | ErrorMessage _ _ \<Rightarrow> True
      | _ \<Rightarrow> False)"

text \<open>\<open>collectChunkedResponseNoSend\<close>: look the channel up again, then stream, unless the first chunk was the last.\<close>

definition start_collect :: "nat \<Rightarrow> tunnel_message option \<Rightarrow> stream_state \<Rightarrow> stream_state" where
  "start_collect c initial st =
     (case pendingRequests st (wid st c) of
        None \<Rightarrow> set_wpc c (WDone StreamEnded) st
      | Some src \<Rightarrow>
          set_wpc c (case initial of Some m \<Rightarrow> if is_final m then WEnd else WStream | None \<Rightarrow> WStream)
            (st\<lparr>wsrc := (wsrc st)(c := src)\<rparr>))"

definition stream_receive :: "nat \<Rightarrow> stream_state \<Rightarrow> stream_state" where
  "stream_receive c st =
     (case ch_buf (chan st (wsrc st c)) of
        [] \<Rightarrow> set_wpc c WEnd st
      | m # ms \<Rightarrow> set_wpc c (if is_final m then WEnd else WStream) (take_message c (wsrc st c) m ms st))"

text \<open>The clean-up of the goroutine that forwards chunks: it removes whatever is registered under the id.\<close>

definition end_stream :: "nat \<Rightarrow> stream_state \<Rightarrow> stream_state" where
  "end_stream c st =
     set_wpc c (WDone StreamEnded)
       (case pendingRequests st (wid st c) of
          Some ch \<Rightarrow> close_recover ch (del_pending (wid st c) st)
        | None \<Rightarrow> st)"

text \<open>\<open>cleanupTunnelStreamState\<close>: all registered channels are closed and removed.\<close>

definition cleanupTunnelStreamState :: "stream_state \<Rightarrow> stream_state" where
  "cleanupTunnelStreamState st =
     st\<lparr>pendingRequests := Map.empty,
        chan := (\<lambda>c. if c \<in> ran (pendingRequests st) then (chan st c)\<lparr>ch_closed := True\<rparr> else chan st c)\<rparr>"

section \<open>The reading side\<close>

definition handle_message :: "tunnel_message \<Rightarrow> stream_state \<Rightarrow> stream_state" where
  "handle_message m st =
     (case m_Type m of
        HttpResponse r \<Rightarrow>
          (case pendingRequests st (m_RequestId m) of
             None \<Rightarrow> st
           | Some c \<Rightarrow> st\<lparr>hpc := RespFound m c\<rparr>)
      | HttpRequestStart s \<Rightarrow>
          (if pendingRequests st (st_RequestId s) = None then register_request (st_RequestId s) 64 (WDone StreamEnded) st else st)
      | HttpRequestChunk _ \<Rightarrow>
          (case pendingRequests st (m_RequestId m) of None \<Rightarrow> st | Some c \<Rightarrow> st\<lparr>hpc := UpFound m c\<rparr>)
      | HttpRequestEnd \<Rightarrow>
          (case pendingRequests st (m_RequestId m) of None \<Rightarrow> st | Some c \<Rightarrow> st\<lparr>hpc := UpFound m c\<rparr>)
      | ErrorMessage _ _ \<Rightarrow>
          (if m_RequestId m = [] then st
           else case pendingRequests st (m_RequestId m) of None \<Rightarrow> st | Some c \<Rightarrow> st\<lparr>hpc := ErrFound m c\<rparr>)
      | _ \<Rightarrow> st)"

text \<open>\<open>handleRegularHTTPResponse\<close> after the lookup: take the mutex; a chunk checks the registration again.\<close>

definition resp_lock :: "tunnel_message \<Rightarrow> nat \<Rightarrow> stream_state \<Rightarrow> stream_state" where
  "resp_lock m c st =
     (if is_chunked m \<and> pendingRequests st (m_RequestId m) \<noteq> Some c then st\<lparr>hpc := HIdle\<rparr>
      else st\<lparr>hpc := RespLocked m c\<rparr>)"

definition resp_finish :: "tunnel_message \<Rightarrow> nat \<Rightarrow> stream_state \<Rightarrow> stream_state" where
  "resp_finish m c st =
     (if is_chunked m then st else close_chan c (del_pending (m_RequestId m) st))\<lparr>hpc := HIdle\<rparr>"

text \<open>The send, and the timeout of a send that blocks on a full channel.\<close>

definition resp_send :: "tunnel_message \<Rightarrow> nat \<Rightarrow> stream_state \<Rightarrow> stream_state" where
  "resp_send m c st =
     (if ch_closed (chan st c) then st\<lparr>panicked := True\<rparr> else resp_finish m c (send_chan c m st))"

text \<open>\<open>handleErrorMessage\<close> sends outside the mutex and then removes and closes the channel under it.\<close>

definition err_send :: "tunnel_message \<Rightarrow> nat \<Rightarrow> stream_state \<Rightarrow> stream_state" where
  "err_send m c st = (send_chan c m st)\<lparr>hpc := ErrSent m c\<rparr>"

definition err_finish :: "tunnel_message \<Rightarrow> nat \<Rightarrow> stream_state \<Rightarrow> stream_state" where
  "err_finish m c st = (close_chan c (del_pending (m_RequestId m) st))\<lparr>hpc := HIdle\<rparr>"

text \<open>\<open>handleUploadChunk\<close> and \<open>handleUploadEnd\<close>: a send that never blocks.\<close>

definition upload_send :: "tunnel_message \<Rightarrow> nat \<Rightarrow> stream_state \<Rightarrow> stream_state" where
  "upload_send m c st =
     (if \<not> ch_closed (chan st c) \<and> chan_full st c then st else send_chan c m st)\<lparr>hpc := HIdle\<rparr>"

section \<open>Interleaving\<close>

definition mutex_free :: "stream_state \<Rightarrow> bool" where
  "mutex_free st \<longleftrightarrow> (\<forall>m c. hpc st \<noteq> RespLocked m c)"

inductive handler_step :: "stream_state \<Rightarrow> stream_state \<Rightarrow> bool" where
  h_message: "hpc st = HIdle \<Longrightarrow> \<not> panicked st \<Longrightarrow> handler_step st (handle_message m st)"
| h_lock: "hpc st = RespFound m c \<Longrightarrow> \<not> panicked st \<Longrightarrow> handler_step st (resp_lock m c st)"
| h_send: "hpc st = RespLocked m c \<Longrightarrow> \<not> panicked st \<Longrightarrow> ch_closed (chan st c) \<or> \<not> chan_full st c \<Longrightarrow>
    handler_step st (resp_send m c st)"
| h_send_timeout: "hpc st = RespLocked m c \<Longrightarrow> \<not> panicked st \<Longrightarrow> \<not> ch_closed (chan st c) \<Longrightarrow> chan_full st c \<Longrightarrow>
    handler_step st (resp_finish m c st)"
| h_err_send: "hpc st = ErrFound m c \<Longrightarrow> \<not> panicked st \<Longrightarrow> ch_closed (chan st c) \<or> \<not> chan_full st c \<Longrightarrow>
    handler_step st (err_send m c st)"
| h_err_timeout: "hpc st = ErrFound m c \<Longrightarrow> \<not> panicked st \<Longrightarrow> \<not> ch_closed (chan st c) \<Longrightarrow> chan_full st c \<Longrightarrow>
    handler_step st (st\<lparr>hpc := ErrSent m c\<rparr>)"
| h_err_finish: "hpc st = ErrSent m c \<Longrightarrow> \<not> panicked st \<Longrightarrow> handler_step st (err_finish m c st)"
| h_upload: "hpc st = UpFound m c \<Longrightarrow> \<not> panicked st \<Longrightarrow> handler_step st (upload_send m c st)"

inductive waiter_step :: "stream_state \<Rightarrow> stream_state \<Rightarrow> bool" where
  w_register: "mutex_free st \<Longrightarrow> \<not> panicked st \<Longrightarrow> waiter_step st (register_request rid 1 WSend st)"
| w_register_stream: "mutex_free st \<Longrightarrow> \<not> panicked st \<Longrightarrow> pc \<in> {WUpload, WDownload} \<Longrightarrow>
    waiter_step st (register_request rid 250 pc st)"
| w_stream_failed: "c < nchan st \<Longrightarrow> wpc st c \<in> {WUpload, WDownload} \<Longrightarrow> \<not> panicked st \<Longrightarrow>
    waiter_step st (set_wpc c (WDone SendFailed) st)"
| w_uploaded: "c < nchan st \<Longrightarrow> wpc st c = WUpload \<Longrightarrow> mutex_free st \<Longrightarrow> \<not> panicked st \<Longrightarrow>
    waiter_step st (start_collect c None st)"
| w_requested: "c < nchan st \<Longrightarrow> wpc st c = WDownload \<Longrightarrow> \<not> panicked st \<Longrightarrow> waiter_step st (set_wpc c WStream st)"
| w_sent: "c < nchan st \<Longrightarrow> wpc st c = WSend \<Longrightarrow> \<not> panicked st \<Longrightarrow> waiter_step st (set_wpc c WWait st)"
| w_send_failed: "c < nchan st \<Longrightarrow> wpc st c = WSend \<Longrightarrow> mutex_free st \<Longrightarrow> \<not> panicked st \<Longrightarrow>
    waiter_step st (set_wpc c (WDone SendFailed) (cleanup_owned c st))"
| w_receive: "c < nchan st \<Longrightarrow> wpc st c = WWait \<Longrightarrow> \<not> panicked st \<Longrightarrow> ch_buf (chan st c) \<noteq> [] \<or> ch_closed (chan st c) \<Longrightarrow>
    waiter_step st (receive c st)"
| w_timeout: "c < nchan st \<Longrightarrow> wpc st c = WWait \<Longrightarrow> mutex_free st \<Longrightarrow> \<not> panicked st \<Longrightarrow> r \<in> {TimedOut, Disconnected} \<Longrightarrow>
    waiter_step st (set_wpc c (WDone r) (cleanup_owned c st))"
| w_upgrade: "c < nchan st \<Longrightarrow> wpc st c = WUpgrade m \<Longrightarrow> mutex_free st \<Longrightarrow> \<not> panicked st \<Longrightarrow>
    waiter_step st (start_collect c (Some m) st)"
| w_stream: "c < nchan st \<Longrightarrow> wpc st c = WStream \<Longrightarrow> \<not> panicked st \<Longrightarrow>
    ch_buf (chan st (wsrc st c)) \<noteq> [] \<or> ch_closed (chan st (wsrc st c)) \<Longrightarrow> waiter_step st (stream_receive c st)"
| w_stream_timeout: "c < nchan st \<Longrightarrow> wpc st c = WStream \<Longrightarrow> \<not> panicked st \<Longrightarrow> waiter_step st (set_wpc c WEnd st)"
| w_end: "c < nchan st \<Longrightarrow> wpc st c = WEnd \<Longrightarrow> mutex_free st \<Longrightarrow> \<not> panicked st \<Longrightarrow> waiter_step st (end_stream c st)"
| w_cleanup: "mutex_free st \<Longrightarrow> \<not> panicked st \<Longrightarrow> waiter_step st (cleanupTunnelStreamState st)"

definition corr_step :: "stream_state \<Rightarrow> stream_state \<Rightarrow> bool" where
  "corr_step st st' \<longleftrightarrow> handler_step st st' \<or> waiter_step st st'"

definition corr_init :: "stream_state \<Rightarrow> bool" where
  "corr_init st \<longleftrightarrow> pendingRequests st = Map.empty \<and> nchan st = 0 \<and> hpc st = HIdle \<and> \<not> panicked st"

lemmas corr_ops = put_chan_def send_chan_def close_chan_def close_recover_def del_pending_def set_wpc_def
  register_request_def cleanup_owned_def take_message_def receive_def start_collect_def stream_receive_def
  end_stream_def cleanupTunnelStreamState_def

lemmas handler_ops = resp_lock_def resp_finish_def resp_send_def err_send_def err_finish_def upload_send_def
  put_chan_def send_chan_def close_chan_def del_pending_def

section \<open>Responses reach only their request\<close>

fun target :: "handler_pc \<Rightarrow> (tunnel_message \<times> nat) option" where
  "target HIdle = None"
| "target (RespFound m c) = Some (m, c)"
| "target (RespLocked m c) = Some (m, c)"
| "target (ErrFound m c) = Some (m, c)"
| "target (ErrSent m c) = Some (m, c)"
| "target (UpFound m c) = Some (m, c)"

definition corr_inv :: "stream_state \<Rightarrow> bool" where
  "corr_inv st \<longleftrightarrow>
     (\<forall>rid c. pendingRequests st rid = Some c \<longrightarrow> c < nchan st \<and> wid st c = rid) \<and>
     (\<forall>c < nchan st. wsrc st c < nchan st \<and> wid st (wsrc st c) = wid st c) \<and>
     (\<forall>c < nchan st. \<forall>m \<in> set (ch_buf (chan st c)) \<union> set (got st c). m_RequestId m = wid st c) \<and>
     (\<forall>m c. target (hpc st) = Some (m, c) \<longrightarrow> c < nchan st \<and> wid st c = m_RequestId m)"

lemma corr_invI:
  assumes "\<And>rid c. pendingRequests st rid = Some c \<Longrightarrow> c < nchan st \<and> wid st c = rid"
    and "\<And>c. c < nchan st \<Longrightarrow> wsrc st c < nchan st \<and> wid st (wsrc st c) = wid st c"
    and "\<And>c m. c < nchan st \<Longrightarrow> m \<in> set (ch_buf (chan st c)) \<union> set (got st c) \<Longrightarrow> m_RequestId m = wid st c"
    and "\<And>m c. target (hpc st) = Some (m, c) \<Longrightarrow> c < nchan st \<and> wid st c = m_RequestId m"
  shows "corr_inv st"
  unfolding corr_inv_def using assms by blast

lemma corr_invD:
  assumes "corr_inv st"
  shows "pendingRequests st rid = Some c \<Longrightarrow> c < nchan st \<and> wid st c = rid"
    and "c < nchan st \<Longrightarrow> wsrc st c < nchan st \<and> wid st (wsrc st c) = wid st c"
    and "c < nchan st \<Longrightarrow> m \<in> set (ch_buf (chan st c)) \<Longrightarrow> m_RequestId m = wid st c"
    and "c < nchan st \<Longrightarrow> m \<in> set (got st c) \<Longrightarrow> m_RequestId m = wid st c"
    and "target (hpc st) = Some (m, c) \<Longrightarrow> c < nchan st \<and> wid st c = m_RequestId m"
  using assms unfolding corr_inv_def by blast+

text \<open>Operations that leave ids alone, and only remove registrations or messages, keep the invariant.\<close>

lemma corr_inv_shrink:
  assumes "corr_inv st" "nchan st' = nchan st" "wid st' = wid st" "wsrc st' = wsrc st"
    and "\<And>rid c. pendingRequests st' rid = Some c \<Longrightarrow> pendingRequests st rid = Some c"
    and "\<And>c m. c < nchan st \<Longrightarrow> m \<in> set (ch_buf (chan st' c)) \<union> set (got st' c) \<Longrightarrow>
      m \<in> set (ch_buf (chan st c)) \<union> set (got st c) \<or> m_RequestId m = wid st c"
    and "\<And>m c. target (hpc st') = Some (m, c) \<Longrightarrow> target (hpc st) = Some (m, c)"
  shows "corr_inv st'"
proof (rule corr_invI)
  fix c m assume c: "c < nchan st'" and m: "m \<in> set (ch_buf (chan st' c)) \<union> set (got st' c)"
  have "c < nchan st" using c assms(2) by simp
  with assms(6) [OF this m] show "m_RequestId m = wid st' c" using corr_invD(3,4) [OF assms(1), of c m] assms(3) by auto
next
  fix rid c assume "pendingRequests st' rid = Some c"
  then show "c < nchan st' \<and> wid st' c = rid" using corr_invD(1) [OF assms(1) assms(5)] assms(2,3) by simp
next
  fix m c assume "target (hpc st') = Some (m, c)"
  then show "c < nchan st' \<and> wid st' c = m_RequestId m" using corr_invD(5) [OF assms(1) assms(7)] assms(2,3) by simp
qed (use assms(2-4) corr_invD(2) [OF assms(1)] in simp)

lemma corr_inv_register:
  assumes "corr_inv st"
  shows "corr_inv (register_request rid cap pc st)"
proof (rule corr_invI)
  let ?st = "register_request rid cap pc st" and ?n = "nchan st"
  note sel = register_request_def Let_def
  fix r c assume p: "pendingRequests ?st r = Some c"
  show "c < nchan ?st \<and> wid ?st c = r"
  proof (cases "r = rid")
    case False
    with p have "pendingRequests st r = Some c" by (simp add: sel)
    from corr_invD(1) [OF assms this] show ?thesis by (simp add: sel)
  qed (use p in \<open>simp add: sel\<close>)
next
  fix c assume c: "c < nchan (register_request rid cap pc st)"
  show "wsrc (register_request rid cap pc st) c < nchan (register_request rid cap pc st) \<and>
      wid (register_request rid cap pc st) (wsrc (register_request rid cap pc st) c) = wid (register_request rid cap pc st) c"
  proof (cases "c = nchan st")
    case False
    then have "c < nchan st" using c by (simp add: register_request_def Let_def)
    from corr_invD(2) [OF assms this] False show ?thesis by (simp add: register_request_def Let_def)
  qed (simp add: register_request_def Let_def)
next
  fix c m assume c: "c < nchan (register_request rid cap pc st)"
    and m: "m \<in> set (ch_buf (chan (register_request rid cap pc st) c)) \<union> set (got (register_request rid cap pc st) c)"
  show "m_RequestId m = wid (register_request rid cap pc st) c"
  proof (cases "c = nchan st")
    case False
    then have "c < nchan st" "m \<in> set (ch_buf (chan st c)) \<or> m \<in> set (got st c)"
      using c m by (simp_all add: register_request_def Let_def)
    with corr_invD(3,4) [OF assms this(1), of m] False show ?thesis by (auto simp: register_request_def Let_def)
  qed (use m in \<open>simp add: register_request_def Let_def\<close>)
next
  fix m c assume "target (hpc (register_request rid cap pc st)) = Some (m, c)"
  then have "target (hpc st) = Some (m, c)" by (simp add: register_request_def Let_def)
  from corr_invD(5) [OF assms this]
  show "c < nchan (register_request rid cap pc st) \<and> wid (register_request rid cap pc st) c = m_RequestId m"
    by (simp add: register_request_def Let_def)
qed

lemma corr_inv_frame:
  assumes "corr_inv st" "pendingRequests st' = pendingRequests st" "nchan st' = nchan st" "wid st' = wid st" "wsrc st' = wsrc st"
    and "chan st' = chan st" "got st' = got st"
    and "\<And>m c. target (hpc st') = Some (m, c) \<Longrightarrow> c < nchan st \<and> wid st c = m_RequestId m"
  shows "corr_inv st'"
proof (rule corr_invI)
  show "pendingRequests st' rid = Some c \<Longrightarrow> c < nchan st' \<and> wid st' c = rid" for rid c
    unfolding assms(2-5) by (rule corr_invD(1) [OF assms(1)])
  show "c < nchan st' \<Longrightarrow> wsrc st' c < nchan st' \<and> wid st' (wsrc st' c) = wid st' c" for c
    unfolding assms(2-5) by (rule corr_invD(2) [OF assms(1)])
  show "c < nchan st' \<Longrightarrow> m \<in> set (ch_buf (chan st' c)) \<union> set (got st' c) \<Longrightarrow> m_RequestId m = wid st' c" for c m
    unfolding assms(2-7) using corr_invD(3,4) [OF assms(1), of c m] by blast
  show "target (hpc st') = Some (m, c) \<Longrightarrow> c < nchan st' \<and> wid st' c = m_RequestId m" for m c
    unfolding assms(2-5) by (rule assms(8))
qed

lemma corr_inv_message:
  assumes "corr_inv st" "hpc st = HIdle"
  shows "corr_inv (handle_message m st)"
proof -
  have found: "corr_inv (st\<lparr>hpc := pc\<rparr>)" if "target pc = Some (m, c)" "pendingRequests st (m_RequestId m) = Some c" for pc c
    by (rule corr_inv_frame [OF assms(1)]) (use that corr_invD(1) [OF assms(1)] in auto)
  show ?thesis
    using found corr_inv_register [OF assms(1)] assms(1)
    by (cases "m_Type m") (simp_all add: handle_message_def split: option.split)
qed

lemma corr_inv_handler: "handler_step st st' \<Longrightarrow> corr_inv st \<Longrightarrow> corr_inv st'"
proof (induction rule: handler_step.induct)
  case (h_message st m)
  then show ?case by (simp add: corr_inv_message)
next
  case (h_lock st m c)
  show ?case
    by (rule corr_inv_frame [OF h_lock(3)]) (use h_lock corr_invD(5) [OF h_lock(3)] in \<open>auto simp: handler_ops split: if_splits\<close>)
next
  case (h_send st m c)
  show ?case
    by (rule corr_inv_shrink [OF h_send(4)]) (use h_send corr_invD(5) [OF h_send(4)] in \<open>auto simp: handler_ops split: if_splits\<close>)
next
  case (h_send_timeout st m c)
  show ?case
    by (rule corr_inv_shrink [OF h_send_timeout(5)]) (use h_send_timeout in \<open>auto simp: handler_ops split: if_splits\<close>)
next
  case (h_err_send st m c)
  show ?case
    by (rule corr_inv_shrink [OF h_err_send(4)]) (use h_err_send corr_invD(5) [OF h_err_send(4)] in \<open>auto simp: handler_ops split: if_splits\<close>)
next
  case (h_err_timeout st m c)
  show ?case
    by (rule corr_inv_frame [OF h_err_timeout(5)]) (use h_err_timeout corr_invD(5) [OF h_err_timeout(5)] in auto)
next
  case (h_err_finish st m c)
  show ?case
    by (rule corr_inv_shrink [OF h_err_finish(3)]) (use h_err_finish in \<open>auto simp: handler_ops split: if_splits\<close>)
next
  case (h_upload st m c)
  show ?case
    by (rule corr_inv_shrink [OF h_upload(3)]) (use h_upload corr_invD(5) [OF h_upload(3)] in \<open>auto simp: handler_ops split: if_splits\<close>)
qed

lemma corr_inv_take:
  assumes "corr_inv st" "c < nchan st" "src = c \<or> src = wsrc st c" "ch_buf (chan st src) = m # ms"
  shows "corr_inv (take_message c src m ms st)"
proof (rule corr_inv_shrink [OF assms(1)])
  have src: "src < nchan st \<and> wid st src = wid st c" using assms(2,3) corr_invD(2) [OF assms(1,2)] by auto
  have m: "m_RequestId m = wid st c" using corr_invD(3) [OF assms(1), of src m] src assms(4) by auto
  fix c' m' assume "m' \<in> set (ch_buf (chan (take_message c src m ms st) c')) \<union> set (got (take_message c src m ms st) c')"
  then show "m' \<in> set (ch_buf (chan st c')) \<union> set (got st c') \<or> m_RequestId m' = wid st c'"
    using assms(4) m by (auto simp: take_message_def put_chan_def split: if_splits)
qed (auto simp: take_message_def put_chan_def)

lemma corr_inv_set_wpc: "corr_inv st \<Longrightarrow> corr_inv (set_wpc c pc st)"
  by (rule corr_inv_frame) (auto simp: set_wpc_def dest: corr_invD(5))

lemma corr_inv_del: "corr_inv st \<Longrightarrow> corr_inv (del_pending rid st)"
  by (rule corr_inv_shrink) (auto simp: del_pending_def split: if_splits)

lemma corr_inv_close: "corr_inv st \<Longrightarrow> corr_inv (close_chan c st) \<and> corr_inv (close_recover c st)"
  by (auto intro!: corr_inv_shrink [of st] simp: close_chan_def close_recover_def put_chan_def split: if_splits)

lemma corr_inv_start_collect: "corr_inv st \<Longrightarrow> c < nchan st \<Longrightarrow> corr_inv (start_collect c i st)"
proof -
  assume inv: "corr_inv st" and c: "c < nchan st"
  have "corr_inv (st\<lparr>wsrc := (wsrc st)(c := src)\<rparr>)" if "pendingRequests st (wid st c) = Some src" for src
  proof (rule corr_invI)
    let ?st = "st\<lparr>wsrc := (wsrc st)(c := src)\<rparr>"
    show "c' < nchan ?st \<Longrightarrow> wsrc ?st c' < nchan ?st \<and> wid ?st (wsrc ?st c') = wid ?st c'" for c'
      using corr_invD(2) [OF inv, of c'] corr_invD(1) [OF inv that] by (cases "c' = c") simp_all
    show "pendingRequests ?st rid = Some c' \<Longrightarrow> c' < nchan ?st \<and> wid ?st c' = rid" for rid c'
      using corr_invD(1) [OF inv, of rid c'] by simp
    show "c' < nchan ?st \<Longrightarrow> m \<in> set (ch_buf (chan ?st c')) \<union> set (got ?st c') \<Longrightarrow> m_RequestId m = wid ?st c'" for c' m
      using corr_invD(3,4) [OF inv, of c' m] by auto
    show "target (hpc ?st) = Some (m, c') \<Longrightarrow> c' < nchan ?st \<and> wid ?st c' = m_RequestId m" for m c'
      using corr_invD(5) [OF inv, of m c'] by simp
  qed
  with inv show ?thesis by (auto simp: start_collect_def intro: corr_inv_set_wpc split: option.split)
qed

lemma corr_inv_waiter: "waiter_step st st' \<Longrightarrow> corr_inv st \<Longrightarrow> corr_inv st'"
proof (induction rule: waiter_step.induct)
  case (w_receive c st)
  then show ?case
    by (auto simp: receive_def intro!: corr_inv_set_wpc corr_inv_take split: list.split)
next
  case (w_stream c st)
  then show ?case
    by (auto simp: stream_receive_def intro!: corr_inv_set_wpc corr_inv_take split: list.split)
next
  case (w_cleanup st)
  show ?case
    by (rule corr_inv_shrink [OF w_cleanup(3)]) (auto simp: cleanupTunnelStreamState_def split: if_splits)
qed (auto simp: cleanup_owned_def end_stream_def corr_inv_register corr_inv_set_wpc corr_inv_start_collect
      intro!: corr_inv_set_wpc corr_inv_close [THEN conjunct1] corr_inv_close [THEN conjunct2] corr_inv_del split: option.split)

lemma corr_init_inv: "corr_init st \<Longrightarrow> corr_inv st"
  by (auto simp: corr_init_def corr_inv_def)

interpretation corr: transition_system corr_init corr_step corr_inv
  by unfold_locales (auto simp: corr_step_def intro: corr_init_inv corr_inv_handler corr_inv_waiter)

text \<open>
  C1. Responses never cross: whatever the interleaving of requests, timeouts, chunked streams, messages
  from the client and disconnects, every message a request receives carries the id of that request.
\<close>

theorem response_isolation:
  assumes "reach corr_init corr_step st" "c < nchan st" "m \<in> set (got st c)"
  shows "m_RequestId m = wid st c"
  using corr_invD(4) [OF corr.reach_invar [OF assms(1)] assms(2,3)] .

section \<open>Panics\<close>

text \<open>
  The reading goroutine is doomed when it is about to send a response on a closed channel: nothing it or another
  goroutine can do from there leads anywhere but to a panic.
\<close>

definition doomed :: "tunnel_message \<Rightarrow> nat \<Rightarrow> stream_state \<Rightarrow> bool" where
  "doomed m c st \<longleftrightarrow> panicked st \<or> c < nchan st \<and> ch_closed (chan st c) \<and> hpc st \<in> {RespFound m c, RespLocked m c}"

lemma doomed_handler:
  assumes "handler_step st st'" "doomed m c st" "\<not> is_chunked m"
  shows "doomed m c st'"
  using assms by (induction rule: handler_step.induct) (auto simp: doomed_def resp_lock_def resp_send_def)

lemma doomed_waiter:
  assumes "waiter_step st st'" "doomed m c st"
  shows "doomed m c st'"
  using assms
  by (induction rule: waiter_step.induct) (auto simp: doomed_def corr_ops Let_def split: option.splits list.splits if_splits)

lemma doomed_steps:
  assumes "corr_step\<^sup>*\<^sup>* st st'" "doomed m c st" "\<not> is_chunked m"
  shows "doomed m c st'"
  using assms(1,2) by (induction rule: rtranclp_induct) (auto simp: corr_step_def intro: doomed_handler [OF _ _ assms(3)] doomed_waiter)

text \<open>
  C40. A response that arrives while its request times out stops the server: if the reading goroutine has
  looked up the channel of a waiting request and the timeout runs before the goroutine takes the mutex, the
  timeout closes the channel, the next two steps of the reading goroutine take the mutex and panic, and whatever the other
  goroutines do in between, the reading goroutine never gets past that send: the server has panicked or it still holds
  the closed channel to send on.
\<close>

theorem timeout_race_panics:
  assumes "hpc st = RespFound m c" "\<not> is_chunked m" "\<not> panicked st" "c < nchan st" "wpc st c = WWait"
    and "pendingRequests st (wid st c) = Some c" "\<not> ch_closed (chan st c)"
  shows "\<exists>st1. waiter_step st st1 \<and> wpc st1 c = WDone TimedOut \<and> \<not> panicked st1 \<and>
    (\<exists>st2. handler_step st1 st2 \<and> hpc st2 = RespLocked m c \<and> handler_step st2 (resp_send m c st2) \<and> panicked (resp_send m c st2)) \<and>
    (\<forall>st'. corr_step\<^sup>*\<^sup>* st1 st' \<longrightarrow> panicked st' \<or> ch_closed (chan st' c) \<and> (hpc st' = RespFound m c \<or> hpc st' = RespLocked m c))"
proof -
  let ?st1 = "set_wpc c (WDone TimedOut) (cleanup_owned c st)"
  let ?st2 = "resp_lock m c ?st1"
  have f: "hpc ?st1 = RespFound m c" "\<not> panicked ?st1" "ch_closed (chan ?st1 c)" "nchan ?st1 = nchan st" "wpc ?st1 c = WDone TimedOut"
    using assms by (simp_all add: corr_ops)
  have "waiter_step st ?st1" using assms by (intro w_timeout) (auto simp: mutex_free_def)
  moreover have "handler_step ?st1 ?st2" using f by (intro h_lock)
  moreover have l: "hpc ?st2 = RespLocked m c" "\<not> panicked ?st2" "ch_closed (chan ?st2 c)"
    using f assms(2) by (simp_all add: resp_lock_def)
  then have "handler_step ?st2 (resp_send m c ?st2)" by (intro h_send) auto
  moreover have "panicked (resp_send m c ?st2)" using l by (simp add: resp_send_def)
  moreover have "doomed m c ?st1" using f assms(4) by (simp add: doomed_def)
  then have "panicked st' \<or> ch_closed (chan st' c) \<and> (hpc st' = RespFound m c \<or> hpc st' = RespLocked m c)" if "corr_step\<^sup>*\<^sup>* ?st1 st'" for st'
    using doomed_steps [OF that] assms(2) by (auto simp: doomed_def)
  ultimately show ?thesis using f(2,5) l(1) by blast
qed

text \<open>
  The same goroutines without that race: while the reading goroutine handles a message, no other goroutine
  removes or replaces a registration (it may add one).
\<close>

definition serial_step :: "stream_state \<Rightarrow> stream_state \<Rightarrow> bool" where
  "serial_step st st' \<longleftrightarrow> handler_step st st' \<or>
     waiter_step st st' \<and> (hpc st = HIdle \<or> pendingRequests st \<subseteq>\<^sub>m pendingRequests st')"

definition registered_open :: "stream_state \<Rightarrow> bool" where
  "registered_open st \<longleftrightarrow> (\<forall>rid c. pendingRequests st rid = Some c \<longrightarrow> \<not> ch_closed (chan st c))"

definition open_inv :: "stream_state \<Rightarrow> bool" where
  "open_inv st \<longleftrightarrow> \<not> panicked st \<and> registered_open st \<and>
     (\<forall>m c. target (hpc st) = Some (m, c) \<longrightarrow> pendingRequests st (m_RequestId m) = Some c)"

lemma registered_open_register: "corr_inv st \<Longrightarrow> registered_open st \<Longrightarrow> registered_open (register_request rid cap pc st)"
  using corr_invD(1) [of st] by (fastforce simp: registered_open_def register_request_def Let_def)

lemma registered_open_remove:
  assumes "corr_inv st" "registered_open st" "pendingRequests st rid = Some c"
  shows "registered_open (put_chan c x (del_pending rid st))"
proof -
  have "c' \<noteq> c" if "pendingRequests st rid' = Some c'" "rid' \<noteq> rid" for rid' c'
    using that corr_invD(1) [OF assms(1) assms(3)] corr_invD(1) [OF assms(1) that(1)] by auto
  then show ?thesis using assms(2) by (auto simp: registered_open_def put_chan_def del_pending_def split: if_splits)
qed

lemma registered_open_same:
  "registered_open st \<Longrightarrow> pendingRequests st' = pendingRequests st \<Longrightarrow> (\<And>c. ch_closed (chan st' c) = ch_closed (chan st c)) \<Longrightarrow>
   registered_open st'"
  by (simp add: registered_open_def)

lemma cleanup_owned_open:
  assumes "corr_inv st" "registered_open st" "\<not> panicked st"
  shows "registered_open (cleanup_owned c st) \<and> \<not> panicked (cleanup_owned c st) \<and> hpc (cleanup_owned c st) = hpc st"
proof (cases "pendingRequests st (wid st c) = Some c")
  case True
  then have "\<not> ch_closed (chan st c)" using assms(2) by (simp add: registered_open_def)
  then have "cleanup_owned c st = put_chan c ((chan st c)\<lparr>ch_closed := True\<rparr>) (del_pending (wid st c) st)"
    using True by (simp add: cleanup_owned_def close_chan_def del_pending_def)
  with registered_open_remove [OF assms(1,2) True] assms(3) show ?thesis by (simp add: put_chan_def del_pending_def)
qed (use assms in \<open>simp add: cleanup_owned_def\<close>)

lemma end_stream_open:
  assumes "corr_inv st" "registered_open st" "\<not> panicked st"
  shows "registered_open (end_stream c st) \<and> \<not> panicked (end_stream c st) \<and> hpc (end_stream c st) = hpc st"
proof (cases "pendingRequests st (wid st c)")
  case (Some ch)
  let ?st = "put_chan ch ((chan st ch)\<lparr>ch_closed := True\<rparr>) (del_pending (wid st c) st)"
  have "end_stream c st = set_wpc c (WDone StreamEnded) ?st"
    using Some by (simp add: end_stream_def close_recover_def del_pending_def)
  moreover have "registered_open ?st" by (rule registered_open_remove [OF assms(1,2) Some])
  ultimately show ?thesis using assms(3) by (auto simp: set_wpc_def put_chan_def del_pending_def registered_open_def)
qed (use assms in \<open>simp add: end_stream_def set_wpc_def registered_open_def\<close>)

lemma set_wpc_sel [simp]:
  "registered_open (set_wpc c pc st) = registered_open st" "panicked (set_wpc c pc st) = panicked st" "hpc (set_wpc c pc st) = hpc st"
  "pendingRequests (set_wpc c pc st) = pendingRequests st"
  by (simp_all add: set_wpc_def registered_open_def)

lemma take_message_sel [simp]:
  "registered_open (take_message c src m ms st) = registered_open st" "panicked (take_message c src m ms st) = panicked st"
  "hpc (take_message c src m ms st) = hpc st"
  by (auto simp: take_message_def put_chan_def registered_open_def)

lemma waiter_open:
  "waiter_step st st' \<Longrightarrow> corr_inv st \<Longrightarrow> registered_open st \<Longrightarrow> registered_open st' \<and> \<not> panicked st' \<and> hpc st' = hpc st"
proof (induction rule: waiter_step.induct)
  case (w_receive c st)
  then show ?case by (auto simp: receive_def split: list.split)
next
  case (w_stream c st)
  then show ?case by (auto simp: stream_receive_def split: list.split)
next
  case (w_uploaded c st)
  then show ?case by (auto simp: start_collect_def registered_open_def set_wpc_def split: option.split)
next
  case (w_upgrade c st m)
  then show ?case by (auto simp: start_collect_def registered_open_def set_wpc_def split: option.split)
next
  case (w_cleanup st)
  then show ?case by (simp add: cleanupTunnelStreamState_def registered_open_def)
qed (auto simp: cleanup_owned_open end_stream_open registered_open_register register_request_def Let_def
      intro: registered_open_register [unfolded register_request_def Let_def])

lemma handler_open:
  assumes "handler_step st st'" "corr_inv st" "open_inv st"
  shows "open_inv st'"
proof -
  have tgt: "pendingRequests st (m_RequestId m) = Some c" "\<not> ch_closed (chan st c)" if "target (hpc st) = Some (m, c)" for m c
    using assms(3) that by (auto simp: open_inv_def registered_open_def)
  have np: "\<not> panicked st" and ro: "registered_open st" using assms(3) by (simp_all add: open_inv_def)
  have finish: "open_inv ((close_chan c (del_pending (m_RequestId m) s))\<lparr>hpc := HIdle\<rparr>)"
    if "target (hpc st) = Some (m, c)" "pendingRequests s = pendingRequests st" "\<And>c. ch_closed (chan s c) = ch_closed (chan st c)" "\<not> panicked s"
       "corr_inv s" for m c s
  proof -
    have "registered_open s" by (rule registered_open_same [OF ro]) (use that in auto)
    then have "registered_open (put_chan c ((chan s c)\<lparr>ch_closed := True\<rparr>) (del_pending (m_RequestId m) s))"
      using that tgt(1) by (intro registered_open_remove) auto
    then show ?thesis
      using that tgt(2) by (simp add: open_inv_def registered_open_def close_chan_def put_chan_def del_pending_def)
  qed
  from assms(1) show ?thesis
  proof cases
    case (h_message m)
    have "registered_open (register_request rid 64 (WDone StreamEnded) st)" for rid
      by (rule registered_open_register [OF assms(2) ro])
    with h_message np ro show ?thesis
      by (cases "m_Type m")
         (auto simp: handle_message_def open_inv_def registered_open_def register_request_def Let_def split: option.split)
  next
    case (h_lock m c)
    with np ro tgt show ?thesis by (auto simp: resp_lock_def open_inv_def registered_open_def)
  next
    case (h_send m c)
    let ?s = "put_chan c ((chan st c)\<lparr>ch_buf := ch_buf (chan st c) @ [m]\<rparr>) st"
    have t: "target (hpc st) = Some (m, c)" using h_send by simp
    have "corr_inv ?s"
      by (rule corr_inv_shrink [OF assms(2)]) (use corr_invD(5) [OF assms(2) t] in \<open>auto simp: put_chan_def split: if_splits\<close>)
    with finish [OF t, of ?s] have "open_inv ((close_chan c (del_pending (m_RequestId m) ?s))\<lparr>hpc := HIdle\<rparr>)"
      using np by (simp add: put_chan_def)
    then show ?thesis
      using h_send tgt [OF t] np ro
      by (auto simp: resp_send_def resp_finish_def send_chan_def open_inv_def registered_open_def put_chan_def)
  next
    case (h_send_timeout m c)
    then show ?thesis using finish [of m c st] np ro assms(2)
      by (auto simp: resp_finish_def open_inv_def registered_open_def)
  next
    case (h_err_send m c)
    then show ?thesis using tgt [of m c] np ro
      by (auto simp: err_send_def send_chan_def open_inv_def registered_open_def put_chan_def)
  next
    case (h_err_timeout m c)
    then show ?thesis using tgt [of m c] np ro by (auto simp: open_inv_def registered_open_def)
  next
    case (h_err_finish m c)
    then show ?thesis using finish [of m c st] np assms(2) by (simp add: err_finish_def)
  next
    case (h_upload m c)
    then show ?thesis using tgt [of m c] np ro
      by (auto simp: upload_send_def send_chan_def open_inv_def registered_open_def put_chan_def)
  qed
qed

lemma serial_open:
  assumes "serial_step st st'" "corr_inv st \<and> open_inv st"
  shows "corr_inv st' \<and> open_inv st'"
proof (cases "handler_step st st'")
  case True
  with assms(2) show ?thesis using corr_inv_handler handler_open by blast
next
  case False
  with assms(1) have w: "waiter_step st st'" "hpc st = HIdle \<or> pendingRequests st \<subseteq>\<^sub>m pendingRequests st'"
    by (auto simp: serial_step_def)
  have "registered_open st' \<and> \<not> panicked st' \<and> hpc st' = hpc st"
    using waiter_open [OF w(1)] assms(2) by (simp add: open_inv_def)
  with w(2) assms(2) corr_inv_waiter [OF w(1)] show ?thesis
    by (auto simp: open_inv_def map_le_def dom_def)
qed

interpretation serial: transition_system corr_init serial_step "\<lambda>st. corr_inv st \<and> open_inv st"
  by unfold_locales
     (auto simp: corr_init_inv open_inv_def registered_open_def corr_init_def dest: serial_open)

text \<open>
  The race is the only way to a panic: as long as no registration is removed or replaced while the
  reading goroutine handles a message, no schedule of requests, messages, timeouts and disconnects ever
  sends on or closes a closed channel, and every registered channel is open.
\<close>

theorem serial_never_panics:
  assumes "reach corr_init serial_step st"
  shows "\<not> panicked st \<and> (\<forall>rid c. pendingRequests st rid = Some c \<longrightarrow> \<not> ch_closed (chan st c))"
  using serial.reach_invar [OF assms] by (simp add: open_inv_def registered_open_def)

section \<open>Witnesses\<close>

definition demo_stream :: stream_state where
  "demo_stream = \<lparr>pendingRequests = Map.empty, chan = (\<lambda>_. \<lparr>ch_buf = [], ch_cap = 0, ch_closed = True\<rparr>), nchan = 0, wid = (\<lambda>_. []),
     wsrc = (\<lambda>c. c), wpc = (\<lambda>_. WDone GotNil), got = (\<lambda>_. []), hpc = HIdle, panicked = False\<rparr>"

definition demo_msg :: tunnel_message where
  "demo_msg = \<lparr>m_RequestId = ''r1'', m_Type = HttpResponse \<lparr>rs_StatusCode = 200, rs_StatusText = ''OK'', rs_Headers = [],
     rs_Body = ''hi'', rs_IsChunked = False, rs_ChunkId = []\<rparr>\<rparr>"

definition demo_waiting :: stream_state where
  "demo_waiting = set_wpc 0 WWait (register_request ''r1'' 1 WSend demo_stream)"

definition demo_found :: stream_state where
  "demo_found = handle_message demo_msg demo_waiting"

lemma demo_init: "corr_init demo_stream"
  by (simp add: corr_init_def demo_stream_def)

lemma demo_waiting_sel: "pendingRequests demo_waiting = [''r1'' \<mapsto> 0]" "nchan demo_waiting = 1" "wid demo_waiting 0 = ''r1''"
  "wpc demo_waiting 0 = WWait" "hpc demo_waiting = HIdle" "\<not> panicked demo_waiting"
  "chan demo_waiting 0 = \<lparr>ch_buf = [], ch_cap = 1, ch_closed = False\<rparr>" "got demo_waiting 0 = []"
  by (simp_all add: demo_waiting_def set_wpc_def register_request_def demo_stream_def)

lemma demo_msg_sel: "m_RequestId demo_msg = ''r1''" "\<not> is_chunked demo_msg"
  by (simp_all add: demo_msg_def is_chunked_def)

lemma demo_found_eq: "demo_found = demo_waiting\<lparr>hpc := RespFound demo_msg 0\<rparr>"
  by (simp add: demo_found_def handle_message_def demo_msg_def demo_waiting_sel)

lemma demo_waiting_steps: "reach corr_init corr_step demo_waiting" "reach corr_init serial_step demo_waiting"
proof -
  have a: "waiter_step demo_stream (register_request ''r1'' 1 WSend demo_stream)"
    by (rule w_register) (simp_all add: demo_stream_def mutex_free_def)
  have b: "waiter_step (register_request ''r1'' 1 WSend demo_stream) demo_waiting"
    unfolding demo_waiting_def by (rule w_sent) (simp_all add: demo_stream_def register_request_def)
  have h: "hpc demo_stream = HIdle" "hpc (register_request ''r1'' 1 WSend demo_stream) = HIdle"
    by (simp_all add: demo_stream_def register_request_def)
  have i: "reach corr_init step demo_stream" for step using demo_init by (rule reach_init)
  have "corr_step demo_stream (register_request ''r1'' 1 WSend demo_stream)"
    "corr_step (register_request ''r1'' 1 WSend demo_stream) demo_waiting" using a b by (simp_all add: corr_step_def)
  with i show "reach corr_init corr_step demo_waiting" by (meson reach_step)
  have "serial_step demo_stream (register_request ''r1'' 1 WSend demo_stream)"
    "serial_step (register_request ''r1'' 1 WSend demo_stream) demo_waiting" using a b h by (simp_all add: serial_step_def)
  with i show "reach corr_init serial_step demo_waiting" by (meson reach_step)
qed

lemma demo_found_step: "handler_step demo_waiting demo_found"
  unfolding demo_found_def by (rule h_message) (simp_all add: demo_waiting_sel)

theorem timeout_race_panics_witness:
  "\<exists>st. reach corr_init corr_step st \<and> panicked st"
proof -
  have r: "reach corr_init corr_step demo_found"
    using reach_step [OF demo_waiting_steps(1)] demo_found_step by (simp add: corr_step_def)
  obtain st1 st2 where "waiter_step demo_found st1" "handler_step st1 st2" "handler_step st2 (resp_send demo_msg 0 st2)"
      "panicked (resp_send demo_msg 0 st2)"
    using timeout_race_panics [of demo_found demo_msg 0] by (auto simp: demo_found_eq demo_waiting_sel demo_msg_sel)
  then show ?thesis using r by (meson corr_step_def reach_step)
qed

theorem serial_never_panics_witness: "\<not> panicked demo_found \<and> pendingRequests demo_found ''r1'' = Some 0 \<and> \<not> ch_closed (chan demo_found 0)"
proof -
  have r: "reach corr_init serial_step demo_found"
    using reach_step [OF demo_waiting_steps(2)] demo_found_step by (simp add: serial_step_def)
  have "pendingRequests demo_found ''r1'' = Some 0" by (simp add: demo_found_eq demo_waiting_sel)
  with serial_never_panics [OF r] show ?thesis by blast
qed

theorem response_isolation_witness:
  "\<exists>st. reach corr_init corr_step st \<and> got st 0 = [demo_msg] \<and> m_RequestId demo_msg = wid st 0"
proof -
  let ?l = "resp_lock demo_msg 0 demo_found"
  let ?d = "resp_send demo_msg 0 ?l"
  let ?g = "receive 0 ?d"
  have d: "?d = demo_waiting\<lparr>pendingRequests := Map.empty,
      chan := (chan demo_waiting)(0 := \<lparr>ch_buf = [demo_msg], ch_cap = 1, ch_closed = True\<rparr>)\<rparr>"
    by (simp add: handler_ops demo_found_eq demo_msg_sel demo_waiting_sel)
  have l: "hpc ?l = RespLocked demo_msg 0" "\<not> panicked ?l" "\<not> chan_full ?l 0" 
    by (simp_all add: resp_lock_def demo_found_eq demo_msg_sel demo_waiting_sel chan_full_def)
  have "handler_step demo_found ?l" by (rule h_lock) (simp_all add: demo_found_eq demo_waiting_sel)
  moreover have "handler_step ?l ?d" by (rule h_send) (use l in auto)
  moreover have "waiter_step ?d ?g" unfolding d by (rule w_receive) (simp_all add: demo_waiting_sel)
  ultimately have r: "reach corr_init corr_step ?g"
    using demo_waiting_steps(1) demo_found_step by (meson reach_step corr_step_def)
  have g: "got ?g 0 = [demo_msg]" "0 < nchan ?g"
    unfolding d by (simp_all add: receive_def take_message_def put_chan_def set_wpc_def demo_waiting_sel)
  from response_isolation [OF r g(2), of demo_msg] g r show ?thesis by auto
qed

end
