(* ===== verification/Chunked_Streaming.thy ===== *)
theory Chunked_Streaming
  imports Grpc_Client Grpc_Correlation
begin

text \<open>
  The server side of large transfers (\<open>internal/tunnel/grpc_chunked_streaming.go\<close>): which requests
  are streamed, how a stored response is cut into \<open>LargeFileChunk\<close> messages, and how the chunk messages
  of the client are collected into one response body. Together with the client of \<open>Grpc_Client\<close> the
  collected body is the body of the local service.
\<close>

section \<open>Which requests are large\<close>

definition DefaultChunkSize :: nat where
  "DefaultChunkSize = 4 * 1024 * 1024"

definition MaxChunkSize :: nat where
  "MaxChunkSize = 4 * 1024 * 1024"

definition ChunkedStreamingThreshold :: int where
  "ChunkedStreamingThreshold = 16 * 1024 * 1024"

text \<open>The HTTP request as the server uses it: the headers by canonical name, and the path of the URL.\<close>

record server_request =
  sr_Method :: string
  sr_Path :: string
  sr_RequestURI :: string
  sr_Header :: http_headers
  sr_Body :: "(string \<times> read_err) list"

definition Header_Get :: "server_request \<Rightarrow> string \<Rightarrow> string" where
  "Header_Get req k = (case map_of (sr_Header req) k of Some (v # _) \<Rightarrow> v | _ \<Rightarrow> [])"

definition content_length :: "server_request \<Rightarrow> int option" where
  "content_length req =
     (let contentLength = Header_Get req ''Content-Length''
      in if contentLength = [] then None else ParseInt64 contentLength)"

definition estimateResponseSize :: "server_request \<Rightarrow> int" where
  "estimateResponseSize req =
     (case content_length req of
        Some sz \<Rightarrow> sz
      | None \<Rightarrow>
          (let path = ToLower (sr_Path req)
           in if Contains path ''/video/'' \<or> Contains path ''/playback'' then 200 * 1024 * 1024
              else if Contains path ''/download/'' \<or> Contains path ''/file/'' then 100 * 1024 * 1024
              else if Contains path ''/original/'' \<or> Contains path ''/raw/'' then 50 * 1024 * 1024
              else 1024 * 1024))"

text \<open>The tables of extensions and paths are those of the client.\<close>

definition isLargeFileRequest :: "server_request \<Rightarrow> bool" where
  "isLargeFileRequest req =
     (case content_length req of
        Some sz \<Rightarrow> sz > ChunkedStreamingThreshold
      | None \<Rightarrow>
          (let path = ToLower (sr_Path req)
           in if list_ex (HasSuffix path) large_extensions then True
              else if list_ex (Contains path) large_paths then True
              else estimateResponseSize req > ChunkedStreamingThreshold))"

text \<open>
  The last step of the decision never decides: every pattern that is estimated above the threshold is
  already in the table of paths.
\<close>

lemma isLargeFileRequest_iff:
  "isLargeFileRequest req \<longleftrightarrow>
     (case content_length req of
        Some sz \<Rightarrow> sz > 16 * 1024 * 1024
      | None \<Rightarrow> (\<exists>ext \<in> set large_extensions. HasSuffix (ToLower (sr_Path req)) ext) \<or>
                (\<exists>p \<in> set large_paths. Contains (ToLower (sr_Path req)) p))"
proof (cases "content_length req")
  case None
  have "\<not> estimateResponseSize req > ChunkedStreamingThreshold"
    if "\<not> list_ex (Contains (ToLower (sr_Path req))) large_paths"
    using that None by (simp add: estimateResponseSize_def large_paths_def ChunkedStreamingThreshold_def)
  with None show ?thesis by (auto simp: isLargeFileRequest_def list_ex_iff Let_def)
qed (simp add: isLargeFileRequest_def ChunkedStreamingThreshold_def)

section \<open>Cutting a response into chunks\<close>

record large_file_chunk =
  lc_RequestId :: string
  lc_ChunkNumber :: nat
  lc_Data :: string
  lc_IsFinal :: bool
  lc_TotalSize :: nat
  lc_ContentType :: string
  lc_Headers :: headers
  lc_StatusCode :: int

definition chunk_size :: "int \<Rightarrow> nat" where
  "chunk_size requested = (if requested \<le> 0 \<or> requested > int MaxChunkSize then DefaultChunkSize else nat requested)"

definition num_chunks :: "nat \<Rightarrow> nat \<Rightarrow> nat" where
  "num_chunks totalSize chunkSize =
     (let n = (totalSize + chunkSize - 1) div chunkSize in if n = 0 then 1 else n)"

definition large_chunk :: "string \<Rightarrow> int \<Rightarrow> headers \<Rightarrow> string \<Rightarrow> nat \<Rightarrow> nat \<Rightarrow> large_file_chunk" where
  "large_chunk rid status h body sz i =
     (let start = i * sz; e = min (start + sz) (length body)
      in \<lparr>lc_RequestId = rid, lc_ChunkNumber = i + 1, lc_Data = drop start (take e body),
          lc_IsFinal = (i = num_chunks (length body) sz - 1), lc_TotalSize = length body,
          lc_ContentType = header_get h ''Content-Type'', lc_Headers = (if i = 0 then h else []),
          lc_StatusCode = (if i = 0 then status else 0)\<rparr>)"

text \<open>The loop, which stops at the first chunk that cannot be sent.\<close>

fun send_chunks :: "(nat \<Rightarrow> bool) \<Rightarrow> (nat \<Rightarrow> large_file_chunk) \<Rightarrow> nat list \<Rightarrow> large_file_chunk list \<times> bool" where
  "send_chunks ok mk [] = ([], True)"
| "send_chunks ok mk (i # is) =
     (if ok i then (let (cs, fin) = send_chunks ok mk is in (mk i # cs, fin)) else ([], False))"

definition streamResponseInChunks_server ::
    "(nat \<Rightarrow> bool) \<Rightarrow> string \<Rightarrow> int \<Rightarrow> http_headers \<Rightarrow> string \<Rightarrow> nat \<Rightarrow> large_file_chunk list \<times> bool" where
  "streamResponseInChunks_server ok rid status hdr body sz =
     send_chunks ok (large_chunk rid status (first_values hdr) body sz) [0..<num_chunks (length body) sz]"

lemma send_chunks_all: "(\<And>i. ok i) \<Longrightarrow> send_chunks ok mk is = (map mk is, True)"
  by (induction "is") simp_all

lemma num_chunks_bounds:
  assumes "0 < sz"
  shows "n \<le> num_chunks n sz * sz" "0 < num_chunks n sz"
proof -
  let ?k = "(n + sz - 1) div sz"
  have "n + sz - 1 < (?k + 1) * sz"
    using dividend_less_div_times [of sz "n + sz - 1"] assms by (simp add: algebra_simps)
  then show "n \<le> num_chunks n sz * sz" by (auto simp: num_chunks_def Let_def algebra_simps)
  show "0 < num_chunks n sz" by (simp add: num_chunks_def Let_def)
qed

lemma concat_slices: "concat (map (\<lambda>i. drop (i * sz) (take (min (i * sz + sz) (length s)) s)) [0..<k]) = take (k * sz) s"
proof (induction k)
  case (Suc k)
  have "take (k * sz) s @ drop (k * sz) (take (k * sz + sz) s) = take (k * sz + sz) s"
    by (metis append_take_drop_id min_absorb1 le_add1 take_take)
  moreover have "take (min (k * sz + sz) (length s)) s = take (k * sz + sz) s" by (simp add: min_def)
  ultimately show ?case using Suc by (simp add: add.commute)
qed simp

text \<open>
  The chunks of a stored response put together are its body: with the chunk size the server chooses
  for any requested size, there is at least one chunk, chunk numbers count from 1, no chunk is longer
  than 4 MB, exactly the last one is marked final, and only the first carries headers and status.
\<close>

theorem large_file_chunks_roundtrip:
  assumes "\<And>i. ok i" "sz = chunk_size requested"
  shows "\<exists>cs. streamResponseInChunks_server ok rid status hdr body sz = (cs, True) \<and>
    concat (map lc_Data cs) = body \<and> cs \<noteq> [] \<and>
    (\<forall>i < length cs. lc_ChunkNumber (cs ! i) = i + 1 \<and> length (lc_Data (cs ! i)) \<le> MaxChunkSize \<and>
       lc_IsFinal (cs ! i) = (i = length cs - 1) \<and> lc_TotalSize (cs ! i) = length body \<and>
       lc_StatusCode (cs ! i) = (if i = 0 then status else 0) \<and>
       lc_Headers (cs ! i) = (if i = 0 then first_values hdr else []))"
proof -
  let ?n = "num_chunks (length body) sz"
  let ?mk = "large_chunk rid status (first_values hdr) body sz"
  have sz: "0 < sz" "sz \<le> MaxChunkSize"
    using assms(2) by (auto simp: chunk_size_def DefaultChunkSize_def MaxChunkSize_def)
  have n: "length body \<le> ?n * sz" "0 < ?n" by (rule num_chunks_bounds [OF sz(1)])+
  have "concat (map lc_Data (map ?mk [0..<?n])) = take (?n * sz) body"
    by (simp add: large_chunk_def Let_def o_def concat_slices)
  moreover have "length (lc_Data (?mk i)) \<le> MaxChunkSize" for i using sz(2) by (simp add: large_chunk_def Let_def)
  ultimately show ?thesis
    using n assms(1)
    by (intro exI [of _ "map ?mk [0..<?n]"])
       (auto simp: streamResponseInChunks_server_def send_chunks_all large_chunk_def Let_def)
qed

theorem large_file_chunks_roundtrip_witness:
  "\<exists>cs. streamResponseInChunks_server (\<lambda>_. True) ''r'' 200 [] ''abcde'' 2 = (cs, True) \<and> concat (map lc_Data cs) = ''abcde''"
  using large_file_chunks_roundtrip [of "\<lambda>_. True" 2 2 "''r''" 200 "[]" "''abcde''"]
  by (auto simp: chunk_size_def MaxChunkSize_def)

section \<open>Collecting the chunks of the client\<close>

text \<open>
  The goroutine of \<open>collectChunkedResponse\<close> and \<open>collectChunkedResponseNoSend\<close> takes the messages of
  the request's channel until a final chunk, an error, a closed channel or the time limit, and writes the
  bodies into a pipe that the caller reads as the body of the response. \<open>reading n\<close> says whether the
  other end of the pipe is still being read after \<open>n\<close> bytes. The lengths handed to the usage
  recorder are logged in \<open>cl_counted\<close>.
\<close>

datatype chan_event = ChMsg tunnel_message | ChClosed | ChTimeout

datatype collect_error = TimedOut10m | TunnelGone | PipeBroken | ClientFailed string | NoChannel | NoMetadata | SendError | ReadError | NoTunnel

datatype collect_end = Collecting | Complete | Broken collect_error

record collected =
  cl_meta :: "http_response option"
  cl_pipe :: string
  cl_counted :: "nat list"
  cl_cancel :: bool
  cl_end :: collect_end

definition collect_start :: collected where
  "collect_start = \<lparr>cl_meta = None, cl_pipe = [], cl_counted = [], cl_cancel = False, cl_end = Collecting\<rparr>"

definition pipe_write :: "(nat \<Rightarrow> bool) \<Rightarrow> string \<Rightarrow> collected \<Rightarrow> collected option" where
  "pipe_write reading data st =
     (if reading (length (cl_pipe st)) then Some (st\<lparr>cl_pipe := cl_pipe st @ data\<rparr>) else None)"

definition note_meta :: "http_response \<Rightarrow> collected \<Rightarrow> collected" where
  "note_meta chunk st = (if cl_meta st = None then st\<lparr>cl_meta := Some chunk\<rparr> else st)"

definition count_out :: "string \<Rightarrow> collected \<Rightarrow> collected" where
  "count_out body st = (if body \<noteq> [] then st\<lparr>cl_counted := cl_counted st @ [length body]\<rparr> else st)"

text \<open>\<open>cancels\<close> tells the two functions apart: only \<open>collectChunkedResponse\<close> tells the client to stop.\<close>

definition on_response :: "(nat \<Rightarrow> bool) \<Rightarrow> bool \<Rightarrow> http_response \<Rightarrow> collected \<Rightarrow> collected" where
  "on_response reading cancels chunk st =
     (let body = rs_Body chunk; st1 = count_out body (note_meta chunk st)
      in if rs_IsChunked chunk then
           (case (if body \<noteq> [] then pipe_write reading body st1 else Some st1) of
              None \<Rightarrow> st1\<lparr>cl_cancel := cancels, cl_end := Broken PipeBroken\<rparr>
            | Some st2 \<Rightarrow> if HasSuffix (rs_ChunkId chunk) ''_final'' then st2\<lparr>cl_end := Complete\<rparr> else st2)
         else
           (case pipe_write reading body st1 of
              None \<Rightarrow> st1\<lparr>cl_end := Broken PipeBroken\<rparr>
            | Some st2 \<Rightarrow> st2\<lparr>cl_end := Complete\<rparr>))"

definition on_event :: "(nat \<Rightarrow> bool) \<Rightarrow> bool \<Rightarrow> chan_event \<Rightarrow> collected \<Rightarrow> collected" where
  "on_event reading cancels ev st =
     (case ev of
        ChTimeout \<Rightarrow> st\<lparr>cl_end := Broken TimedOut10m\<rparr>
      | ChClosed \<Rightarrow> st\<lparr>cl_end := Broken TunnelGone\<rparr>
      | ChMsg m \<Rightarrow>
          (case m_Type m of
             HttpResponse chunk \<Rightarrow> on_response reading cancels chunk st
           | ErrorMessage _ msg \<Rightarrow> st\<lparr>cl_end := Broken (ClientFailed msg)\<rparr>
           | _ \<Rightarrow> st))"

fun collect_loop :: "(nat \<Rightarrow> bool) \<Rightarrow> bool \<Rightarrow> chan_event list \<Rightarrow> collected \<Rightarrow> collected" where
  "collect_loop reading cancels [] st = st"
| "collect_loop reading cancels (ev # evs) st =
     (if cl_end st = Collecting then collect_loop reading cancels evs (on_event reading cancels ev st) else st)"

text \<open>
  The first chunk of a response that \<open>sendRequestAndWaitResponse\<close> upgrades is handled before the loop;
  its bytes are not counted here.
\<close>

definition collect_initial :: "(nat \<Rightarrow> bool) \<Rightarrow> tunnel_message option \<Rightarrow> collected \<Rightarrow> collected" where
  "collect_initial reading initial st =
     (case initial of
        None \<Rightarrow> st
      | Some m \<Rightarrow>
          (case m_Type m of
             HttpResponse chunk \<Rightarrow>
               (let st1 = st\<lparr>cl_meta := Some chunk\<rparr>
                in case (if rs_Body chunk \<noteq> [] then pipe_write reading (rs_Body chunk) st1 else Some st1) of
                     None \<Rightarrow> st1\<lparr>cl_end := Broken PipeBroken\<rparr>
                   | Some st2 \<Rightarrow> if HasSuffix (rs_ChunkId chunk) ''_final'' then st2\<lparr>cl_end := Complete\<rparr> else st2)
           | _ \<Rightarrow> st))"

definition collectChunkedResponseNoSend ::
    "(nat \<Rightarrow> bool) \<Rightarrow> bool \<Rightarrow> tunnel_message option \<Rightarrow> chan_event list \<Rightarrow> collected" where
  "collectChunkedResponseNoSend reading registered initial evs =
     (if \<not> registered then collect_start\<lparr>cl_end := Broken NoChannel\<rparr>
      else collect_loop reading False evs (collect_initial reading initial collect_start))"

text \<open>\<open>sent\<close>: whether the request could be sent to the client.\<close>

definition collectChunkedResponse :: "(nat \<Rightarrow> bool) \<Rightarrow> bool \<Rightarrow> chan_event list \<Rightarrow> collected" where
  "collectChunkedResponse reading sent evs =
     (if \<not> sent then collect_start\<lparr>cl_end := Broken SendError\<rparr> else collect_loop reading True evs collect_start)"

text \<open>
  What the caller gets: the response of the first chunk, an error that came before any chunk, or the
  time limit of 60 seconds. The body ends when the goroutine ends, however it ends: the pipe is closed
  without an error.
\<close>

record streamed_response =
  sp_StatusCode :: int
  sp_Status :: string
  sp_Header :: http_headers
  sp_Body :: string
  sp_EOF :: bool

definition stream_response :: "collected \<Rightarrow> collect_error + streamed_response" where
  "stream_response st =
     (case cl_meta st of
        Some first \<Rightarrow>
          Inr \<lparr>sp_StatusCode = rs_StatusCode first, sp_Status = rs_StatusText first,
               sp_Header = AList.delete ''Content-Length'' (set_all (rs_Headers first) []),
               sp_Body = cl_pipe st, sp_EOF = (cl_end st \<noteq> Collecting)\<rparr>
      | None \<Rightarrow> (case cl_end st of Broken err \<Rightarrow> Inl err | _ \<Rightarrow> Inl NoMetadata))"

section \<open>Downloads\<close>

text \<open>Does the read that reports the end of the body also deliver its last bytes?\<close>

fun ends_with_data :: "(string \<times> read_err) list \<Rightarrow> bool" where
  "ends_with_data [] \<longleftrightarrow> False"
| "ends_with_data ((d, e) # reads) \<longleftrightarrow> (if e = ReadEOF then d \<noteq> [] else ends_with_data reads)"

lemma ends_with_data_not_empty: "ends_with_data reads \<Longrightarrow> body_of reads \<noteq> []"
  by (induction reads rule: ends_with_data.induct) (auto split: if_splits)

lemma last_dec: "is_digit (last (dec n))"
  using dec_facts(2,3) [of n] by (auto simp: list_all_iff)

lemma HasSuffix_last: "HasSuffix s p \<Longrightarrow> p \<noteq> [] \<Longrightarrow> last s = last p"
  by (auto simp: HasSuffix_iff)

lemma chunk_id_final [simp]: "HasSuffix (chunk_id n final) ''_final'' \<longleftrightarrow> final"
proof (cases final)
  case True
  then show ?thesis using HasSuffix_append [of "''chunk-'' @ dec n" "''_final''"] by (simp add: chunk_id_def)
next
  case False
  have "last (''chunk-'' @ dec n) \<noteq> CHR ''l''"
    using last_dec [of n] dec_facts(3) [of n] by (auto simp: is_digit_def)
  then show ?thesis using False HasSuffix_last [of "chunk_id n final" "''_final''"] by (auto simp: chunk_id_def)
qed

definition meta_of :: "local_response \<Rightarrow> http_response \<Rightarrow> bool" where
  "meta_of r x \<longleftrightarrow> rs_StatusCode x = lr_StatusCode r \<and> rs_StatusText x = lr_Status r \<and> rs_Headers x = first_values (lr_Header r)"

lemma on_chunk:
  assumes "d \<noteq> []"
  shows "on_event (\<lambda>_. True) cancels (ChMsg (http_message rid r d True (chunk_id n final))) st =
    (let st1 = note_meta \<lparr>rs_StatusCode = lr_StatusCode r, rs_StatusText = lr_Status r, rs_Headers = first_values (lr_Header r),
           rs_Body = d, rs_IsChunked = True, rs_ChunkId = chunk_id n final\<rparr> st
     in st1\<lparr>cl_pipe := cl_pipe st @ d, cl_counted := cl_counted st @ [length d],
            cl_end := (if final then Complete else cl_end st)\<rparr>)"
  using assms by (auto simp: on_event_def on_response_def http_message_def pipe_write_def count_out_def note_meta_def Let_def)

lemma collect_chunks:
  assumes "cl_end st = Collecting"
  defines "st' \<equiv> \<lambda>cancels rid r n reads st. collect_loop (\<lambda>_. True) cancels (map ChMsg (chunk_messages rid r n reads)) st"
  shows "cl_pipe (st' cancels rid r n reads st) = cl_pipe st @ body_of reads \<and>
    sum_list (cl_counted (st' cancels rid r n reads st)) = sum_list (cl_counted st) + length (body_of reads) \<and>
    cl_cancel (st' cancels rid r n reads st) = cl_cancel st \<and>
    cl_end (st' cancels rid r n reads st) = (if ends_with_data reads then Complete else Collecting) \<and>
    (cl_meta (st' cancels rid r n reads st) = None \<longleftrightarrow> cl_meta st = None \<and> body_of reads = []) \<and>
    (pred_option (meta_of r) (cl_meta st) \<longrightarrow> pred_option (meta_of r) (cl_meta (st' cancels rid r n reads st)))"
  using assms(1)
proof (induction reads arbitrary: n st)
  case Nil
  then show ?case by (simp add: st'_def)
next
  case (Cons x reads)
  obtain d e where x: "x = (d, e)" by force
  show ?case
  proof (cases "d = []")
    case True
    have eq: "st' cancels rid r n (x # reads) st = (if e = ReadEOF then st else st' cancels rid r n reads st)"
      "body_of (x # reads) = (if e = ReadEOF then [] else body_of reads)"
      "ends_with_data (x # reads) \<longleftrightarrow> e \<noteq> ReadEOF \<and> ends_with_data reads"
      using True by (simp_all add: x st'_def)
    show ?thesis
    proof (cases "e = ReadEOF")
      case True
      then show ?thesis unfolding eq using Cons.prems by simp
    next
      case False
      then show ?thesis unfolding eq using Cons.IH [OF Cons.prems, of n] by simp
    qed
  next
    case False
    let ?st = "on_event (\<lambda>_. True) cancels (ChMsg (http_message rid r d True (chunk_id (Suc n) (e = ReadEOF)))) st"
    have st: "cl_pipe ?st = cl_pipe st @ d" "cl_counted ?st = cl_counted st @ [length d]" "cl_cancel ?st = cl_cancel st"
      "cl_end ?st = (if e = ReadEOF then Complete else Collecting)" "cl_meta ?st \<noteq> None"
      "pred_option (meta_of r) (cl_meta st) \<longrightarrow> pred_option (meta_of r) (cl_meta ?st)"
      using Cons.prems by (auto simp: on_chunk [OF False] note_meta_def meta_of_def Let_def)
    show ?thesis
    proof (cases "e = ReadEOF")
      case True
      then show ?thesis using st False Cons.prems by (simp add: x st'_def)
    next
      case False
      then have "cl_end ?st = Collecting" using st(4) by simp
      from Cons.IH [OF this, of "Suc n"] False \<open>d \<noteq> []\<close> st Cons.prems show ?thesis by (simp add: x st'_def)
    qed
  qed
qed

lemma collect_loop_append:
  "cl_end (collect_loop reading cancels evs st) = Collecting \<Longrightarrow>
   collect_loop reading cancels (evs @ evs') st = collect_loop reading cancels evs' (collect_loop reading cancels evs st)"
  by (induction evs arbitrary: st) (auto split: if_splits)

lemma large_file_messages:
  assumes "service (gc_targetPort c) req = Some r" "rq_IsLargeFile req" "lr_ContentLength r \<noteq> 0"
    and "ReadFail \<notin> snd ` set (lr_Reads r)" "calm e" "gc_stream c"
  shows "\<exists>c'. c_handleHTTPRequest service e rid req c = (Completed, c') \<and>
    gc_sent c' = gc_sent c @ chunk_messages rid r 0 (lr_Reads r)"
  using assms
  by (simp add: c_handleHTTPRequest_def forwardToLocalService_def shouldUseChunkedStreaming_def
      forwardLargeFileWithChunking_def streamResponseInChunks_def stream_loop_calm set_active_def Let_def)



text \<open>
  When the last read of the local body reports its end without data, the client sends no final
  chunk: the server has every byte but keeps collecting, so the body it forwards does not end, and for a
  body without bytes there is no response at all.
\<close>

theorem chunked_download_never_ends:
  assumes "service (gc_targetPort c) req = Some r" "rq_IsLargeFile req" "lr_ContentLength r \<noteq> 0"
    and "ReadFail \<notin> snd ` set (lr_Reads r)" "calm e" "gc_stream c" "\<not> ends_with_data (lr_Reads r)"
  shows "\<exists>c' ms. c_handleHTTPRequest service e rid req c = (Completed, c') \<and> gc_sent c' = gc_sent c @ ms \<and>
    (let st = collectChunkedResponse (\<lambda>_. True) True (map ChMsg ms)
     in cl_end st = Collecting \<and> cl_pipe st = body_of (lr_Reads r) \<and>
        (body_of (lr_Reads r) = [] \<longrightarrow> stream_response st = Inl NoMetadata))"
proof -
  obtain c' where c': "c_handleHTTPRequest service e rid req c = (Completed, c')"
    "gc_sent c' = gc_sent c @ chunk_messages rid r 0 (lr_Reads r)"
    using large_file_messages [where service = service and e = e, OF assms(1-6)] by blast
  let ?st = "collectChunkedResponse (\<lambda>_. True) True (map ChMsg (chunk_messages rid r 0 (lr_Reads r)))"
  have st: "cl_pipe ?st = body_of (lr_Reads r)" "cl_end ?st = Collecting" "cl_meta ?st = None \<longleftrightarrow> body_of (lr_Reads r) = []"
    using collect_chunks [of collect_start True rid r 0 "lr_Reads r"] assms(7)
    by (simp_all add: collectChunkedResponse_def collect_start_def)
  then show ?thesis using c' by (intro exI [of _ c']) (auto simp: stream_response_def Let_def)
qed

theorem chunked_download_never_ends_witness:
  "\<exists>c' ms. c_handleHTTPRequest
      (\<lambda>_ _. Some \<lparr>lr_StatusCode = 200, lr_Status = ''200 OK'', lr_Header = [], lr_ContentLength = -1, lr_Reads = [([], ReadEOF)]\<rparr>)
      \<lparr>se_cancelled = \<lambda>_. False, se_late = \<lambda>_. False, se_cancelled_after = \<lambda>_. False, se_send_ok = \<lambda>_. True, se_error_ok = True\<rparr>
      ''r1'' \<lparr>rq_Method = ''GET'', rq_Path = ''/a.zip'', rq_Headers = [], rq_Body = [], rq_IsLargeFile = True, rq_ClientIp = [], rq_Media = False\<rparr>
      \<lparr>gc_domain = ''d'', gc_targetPort = 80, gc_stream = True, gc_sent = [], gc_uploads = Map.empty, gc_active = \<lambda>_. False,
       gc_totalRequests = 0, gc_totalResponses = 0\<rparr> = (Completed, c') \<and> gc_sent c' = ms \<and>
    stream_response (collectChunkedResponse (\<lambda>_. True) True (map ChMsg ms)) = Inl NoMetadata"
  using chunked_download_never_ends
    [of "\<lambda>_ _. Some \<lparr>lr_StatusCode = 200, lr_Status = ''200 OK'', lr_Header = [], lr_ContentLength = -1, lr_Reads = [([], ReadEOF)]\<rparr>"
        "\<lparr>gc_domain = ''d'', gc_targetPort = 80, gc_stream = True, gc_sent = [], gc_uploads = Map.empty, gc_active = \<lambda>_. False,
       gc_totalRequests = 0, gc_totalResponses = 0\<rparr>"
        "\<lparr>rq_Method = ''GET'', rq_Path = ''/a.zip'', rq_Headers = [], rq_Body = [], rq_IsLargeFile = True, rq_ClientIp = [], rq_Media = False\<rparr>"
        "\<lparr>lr_StatusCode = 200, lr_Status = ''200 OK'', lr_Header = [], lr_ContentLength = -1, lr_Reads = [([], ReadEOF)]\<rparr>"
        "\<lparr>se_cancelled = \<lambda>_. False, se_late = \<lambda>_. False, se_cancelled_after = \<lambda>_. False, se_send_ok = \<lambda>_. True, se_error_ok = True\<rparr>"
        "''r1''"]
  by (simp add: calm_def Let_def) metis

text \<open>
  An interrupted download looks complete: once the first chunk has given the response its head, an
  error of the client, the end of the tunnel or the time limit ends the body like a final chunk does, and
  the reader gets the bytes received so far with no error.
\<close>

theorem interrupted_download_looks_complete:
  assumes "st = collectChunkedResponse (\<lambda>_. True) True evs" "cl_end st = Collecting" "cl_meta st = Some first"
    and "ev = ChClosed \<or> ev = ChTimeout \<or> (\<exists>rid code msg. ev = ChMsg \<lparr>m_RequestId = rid, m_Type = ErrorMessage code msg\<rparr>)"
  shows "\<exists>resp. stream_response (collectChunkedResponse (\<lambda>_. True) True (evs @ [ev])) = Inr resp \<and>
    sp_EOF resp \<and> sp_Body resp = cl_pipe st"
proof -
  let ?st = "collectChunkedResponse (\<lambda>_. True) True (evs @ [ev])"
  have "?st = on_event (\<lambda>_. True) True ev st"
    using assms(1,2) by (simp add: collectChunkedResponse_def collect_loop_append)
  then have "cl_meta ?st = Some first" "cl_pipe ?st = cl_pipe st" "cl_end ?st \<noteq> Collecting"
    using assms(3,4) by (auto simp: on_event_def)
  then show ?thesis by (simp add: stream_response_def)
qed

theorem interrupted_download_looks_complete_witness:
  "\<exists>resp. stream_response (collectChunkedResponse (\<lambda>_. True) True
     ([ChMsg \<lparr>m_RequestId = ''r'', m_Type = HttpResponse \<lparr>rs_StatusCode = 200, rs_StatusText = ''200 OK'', rs_Headers = [],
        rs_Body = ''half'', rs_IsChunked = True, rs_ChunkId = ''chunk-1''\<rparr>\<rparr>] @ [ChClosed])) = Inr resp \<and>
     sp_EOF resp \<and> sp_Body resp = ''half''"
  using interrupted_download_looks_complete
    [of _ "[ChMsg \<lparr>m_RequestId = ''r'', m_Type = HttpResponse \<lparr>rs_StatusCode = 200, rs_StatusText = ''200 OK'', rs_Headers = [],
        rs_Body = ''half'', rs_IsChunked = True, rs_ChunkId = ''chunk-1''\<rparr>\<rparr>]" _ ChClosed, OF refl]
  by (simp add: collectChunkedResponse_def collect_start_def on_event_def on_response_def note_meta_def count_out_def
      pipe_write_def HasSuffix_def Let_def)

section \<open>Uploads\<close>

text \<open>
  \<open>handleLargeFileUploadWithStreaming\<close>: the request is registered, then sent as a start message, one
  chunk per non-empty read of its body, and an end message. \<open>ok k\<close> says whether the \<open>k\<close>-th send
  succeeds. The result says whether the request waits for the response (no error), what was
  sent, what was counted as received, and whether the registered channel is still there.
\<close>

record upload_out =
  uo_err :: "collect_error option"
  uo_sent :: "tunnel_message list"
  uo_counted :: "nat list"
  uo_pending :: bool

definition upload_start :: "string \<Rightarrow> server_request \<Rightarrow> string \<Rightarrow> tunnel_message" where
  "upload_start rid req clientIP =
     \<lparr>m_RequestId = rid, m_Type = HttpRequestStart \<lparr>st_RequestId = rid, st_Method = sr_Method req, st_Path = sr_RequestURI req,
        st_Headers = first_values (sr_Header req), st_ClientIp = clientIP, st_IsLargeFile = True\<rparr>\<rparr>"

definition upload_chunk :: "string \<Rightarrow> string \<Rightarrow> tunnel_message" where
  "upload_chunk rid data = \<lparr>m_RequestId = rid, m_Type = HttpRequestChunk data\<rparr>"

definition upload_end :: "string \<Rightarrow> tunnel_message" where
  "upload_end rid = \<lparr>m_RequestId = rid, m_Type = HttpRequestEnd\<rparr>"

fun upload_loop ::
    "(nat \<Rightarrow> bool) \<Rightarrow> string \<Rightarrow> nat \<Rightarrow> (string \<times> read_err) list \<Rightarrow> collect_error option \<times> tunnel_message list \<times> nat list" where
  "upload_loop ok rid k [] = (None, [], [])"
| "upload_loop ok rid k ((data, er) # reads) =
     (if data \<noteq> [] \<and> \<not> ok k then (Some SendError, [], [length data])
      else let ms = (if data \<noteq> [] then [upload_chunk rid data] else []);
               cnt = (if data \<noteq> [] then [length data] else []);
               k' = (if data \<noteq> [] then Suc k else k)
           in case er of
                ReadEOF \<Rightarrow> (None, ms, cnt)
              | ReadFail \<Rightarrow> (Some ReadError, ms, cnt)
              | ReadOK \<Rightarrow>
                  (case upload_loop ok rid k' reads of (err, ms', cnt') \<Rightarrow> (err, ms @ ms', cnt @ cnt')))"

definition handleLargeFileUploadWithStreaming ::
    "bool \<Rightarrow> (nat \<Rightarrow> bool) \<Rightarrow> bool \<Rightarrow> string \<Rightarrow> server_request \<Rightarrow> string \<Rightarrow> upload_out" where
  "handleLargeFileUploadWithStreaming connected ok okEnd rid req clientIP =
     (if \<not> connected then \<lparr>uo_err = Some NoTunnel, uo_sent = [], uo_counted = [], uo_pending = False\<rparr>
      else if \<not> ok 0 then \<lparr>uo_err = Some SendError, uo_sent = [], uo_counted = [], uo_pending = True\<rparr>
      else let (err, ms, cnt) = upload_loop ok rid 1 (sr_Body req); pre = upload_start rid req clientIP # ms
           in case err of
                Some _ \<Rightarrow> \<lparr>uo_err = err, uo_sent = pre, uo_counted = cnt, uo_pending = True\<rparr>
              | None \<Rightarrow>
                  if \<not> okEnd then \<lparr>uo_err = Some SendError, uo_sent = pre, uo_counted = cnt, uo_pending = True\<rparr>
                  else \<lparr>uo_err = None, uo_sent = pre @ [upload_end rid], uo_counted = cnt, uo_pending = True\<rparr>)"

definition client_run ::
    "(int \<Rightarrow> http_request \<Rightarrow> local_response option) \<Rightarrow> (establish_request \<Rightarrow> string option) option \<Rightarrow> stream_env
       \<Rightarrow> tunnel_message list \<Rightarrow> grpc_client \<Rightarrow> grpc_client" where
  "client_run service handler e ms c = fold (\<lambda>m c. snd (c_handleMessage service handler e True True m c)) ms c"

lemma upload_loop_all:
  assumes "ReadFail \<notin> snd ` set reads"
  shows "\<exists>ds. upload_loop (\<lambda>_. True) rid k reads = (None, map (upload_chunk rid) ds, map length ds) \<and> concat ds = body_of reads"
  using assms
proof (induction reads arbitrary: k)
  case (Cons x reads)
  obtain d er where x: "x = (d, er)" by force
  obtain ds where ds: "upload_loop (\<lambda>_. True) rid (if d \<noteq> [] then Suc k else k) reads = (None, map (upload_chunk rid) ds, map length ds)"
    "concat ds = body_of reads"
    using Cons.IH Cons.prems by fastforce
  show ?case
  proof (cases er)
    case ReadOK
    then show ?thesis using ds by (intro exI [of _ "(if d \<noteq> [] then [d] else []) @ ds"]) (auto simp: x Let_def)
  next
    case ReadEOF
    then show ?thesis by (intro exI [of _ "if d \<noteq> [] then [d] else []"]) (auto simp: x Let_def)
  next
    case ReadFail
    then show ?thesis using Cons.prems by (auto simp: x)
  qed
qed simp

lemma client_run_chunks: "client_run service handler e (map (upload_chunk rid) ds) c = upload_chunks e rid ds c"
  by (induction ds arbitrary: c) (simp_all add: client_run_def upload_chunk_def c_handleMessage_def)

text \<open>
  C5. An upload reaches the local service whole and alone: when the body of the request can be read and
  every send succeeds, the client that handles the start and chunk messages holds exactly the body when
  the end message comes, no other upload of the client is changed on the way, the end hands the body
  over and forgets the session, and the bytes counted add up to the length of the body.
\<close>

theorem upload_roundtrip:
  assumes "ReadFail \<notin> snd ` set (sr_Body req)"
    and "out = handleLargeFileUploadWithStreaming True (\<lambda>_. True) True rid req clientIP"
    and "c1 = client_run service handler e (butlast (uo_sent out)) c"
  shows "uo_err out = None \<and> sum_list (uo_counted out) = length (body_of (sr_Body req)) \<and>
    last (uo_sent out) = upload_end rid \<and>
    fst (c_handleUploadEnd rid c1) = Some (body_of (sr_Body req)) \<and>
    gc_uploads (client_run service handler e (uo_sent out) c) = (gc_uploads c)(rid := None)"
proof -
  obtain ds where ds: "upload_loop (\<lambda>_. True) rid 1 (sr_Body req) = (None, map (upload_chunk rid) ds, map length ds)"
    "concat ds = body_of (sr_Body req)"
    using upload_loop_all [OF assms(1)] by blast
  then have out: "out = \<lparr>uo_err = None, uo_sent = upload_start rid req clientIP # map (upload_chunk rid) ds @ [upload_end rid],
      uo_counted = map length ds, uo_pending = True\<rparr>"
    using assms(2) by (simp add: handleLargeFileUploadWithStreaming_def)
  define c0 where "c0 = snd (c_handleUploadStart True e rid c)"
  have c0: "gc_uploads c0 = (gc_uploads c)(rid \<mapsto> \<lparr>up_data = [], up_closed = False\<rparr>)"
    by (simp add: c0_def c_handleUploadStart_def)
  have start: "snd (c_handleMessage service handler e True True (upload_start rid req clientIP) c) = c0"
    by (simp add: c_handleMessage_def upload_start_def c0_def)
  have c1: "c1 = upload_chunks e rid ds c0"
    using assms(3) client_run_chunks [of service handler e rid ds c0] start by (simp add: out client_run_def butlast_append)
  have fin: "client_run service handler e (uo_sent out) c = snd (c_handleUploadEnd rid c1)"
    using client_run_chunks [of service handler e rid ds c0] start
    by (simp add: out client_run_def c1) (simp add: c_handleMessage_def upload_end_def)
  have "gc_uploads c1 rid = Some \<lparr>up_data = body_of (sr_Body req), up_closed = False\<rparr>"
    "\<And>rid'. rid' \<noteq> rid \<Longrightarrow> gc_uploads c1 rid' = gc_uploads c rid'"
    using upload_chunks_data [of c0 rid _ e ds] c0 ds(2) by (auto simp: c1)
  then show ?thesis using ds(2) fin by (auto simp: out c_handleUploadEnd_def length_concat [symmetric] fun_eq_iff)
qed

theorem upload_roundtrip_witness:
  "\<exists>out. out = handleLargeFileUploadWithStreaming True (\<lambda>_. True) True ''r''
      \<lparr>sr_Method = ''POST'', sr_Path = ''/'', sr_RequestURI = ''/'', sr_Header = [], sr_Body = [(''ab'', ReadOK), (''c'', ReadEOF)]\<rparr> [] \<and>
    uo_err out = None \<and> sum_list (uo_counted out) = 3"
  using upload_roundtrip
    [of "\<lparr>sr_Method = ''POST'', sr_Path = ''/'', sr_RequestURI = ''/'', sr_Header = [], sr_Body = [(''ab'', ReadOK), (''c'', ReadEOF)]\<rparr>"
        _ "''r''" "[]", OF _ refl refl]
  by simp

end
