(* ===== verification/Grpc_Server.thy ===== *)
theory Grpc_Server
  imports Chunked_Streaming Status_Cache Quota Token_Service
begin

text \<open>
  The gRPC tunnel server (\<open>internal/tunnel/grpc_service.go\<close>, \<open>grpc_service_helpers.go\<close> and the entry
  points of \<open>grpc_chunked_streaming.go\<close>): the registry of tunnel streams, how a stream is opened,
  replaced and closed, and what a request passes on its way to a tunnel: registry, status cache,
  quota, rate limiter, and the usage recorder afterwards. What happens on one stream between sending a
  request and its answer is the subject of \<open>Grpc_Correlation\<close>; here the answer is an argument. The token
  bucket of \<open>golang.org/x/time/rate\<close> is a pair of functions: a new limiter of a rate per minute
  and a burst, and the answer and next state of \<open>Allow\<close> at a time.
\<close>

section \<open>State\<close>

text \<open>Streams are shared by reference: the registry maps a domain to the reference of its stream.\<close>

record tunnel_stream =
  ts_Domain :: string
  ts_TargetPort :: int
  ts_TunnelID :: u32
  ts_UserID :: u32
  ts_ControlStream :: "nat option"
  ts_connected :: bool

record ('c, 'l) grpc_server =
  tunnelStreams :: "(string, nat) go_map"
  streams :: "nat \<Rightarrow> tunnel_stream"
  next_stream :: nat
  totalRequests :: i64
  concurrentReqs :: i64
  totalResponses :: i64
  totalErrors :: i64
  timeoutErrors :: i64
  limiters :: "string \<Rightarrow> 'l option"
  statusCache :: "status_cache option"
  quota :: "quota_service option"
  usage :: "usage_service option"
  backend :: "'c svc_state"

record ('c, 'l) grpc_env =
  ge_service :: "'c tunnel_service option"
  ge_sha :: sha256_fun
  ge_token_faults :: token_faults
  ge_faults :: faults
  ge_RateLimitRPM :: int
  ge_RateLimitBurst :: int
  ge_NewLimiter :: "int \<Rightarrow> int \<Rightarrow> 'l"
  ge_Allow :: "time \<Rightarrow> 'l \<Rightarrow> bool \<times> 'l"

datatype grpc_code = InvalidArgument | Unauthenticated auth_error | Internal svc_error | FailedPrecondition | SendErr

definition stream_of :: "('c, 'l) grpc_server \<Rightarrow> string \<Rightarrow> tunnel_stream option" where
  "stream_of s domain = map_option (streams s) (map_of (tunnelStreams s) domain)"

section \<open>Opening and closing streams\<close>

definition authenticateTunnel :: "('c, 'l) grpc_env \<Rightarrow> api_token list \<Rightarrow> tunnel_db \<Rightarrow> tunnel_handshake \<Rightarrow> auth_error + tunnel_row" where
  "authenticateTunnel env tokens db hs =
     AuthenticateTunnelByToken (ge_sha env) (ge_token_faults env) (ge_faults env) (hs_Token hs) (hs_Domain hs) tokens db"

definition int32_of :: "int \<Rightarrow> int" where
  "int32_of n = sint (word_of_int n :: 32 word)"

definition new_stream :: "tunnel_row \<Rightarrow> tunnel_handshake \<Rightarrow> tunnel_stream" where
  "new_stream t hs =
     \<lparr>ts_Domain = t_Domain t,
      ts_TargetPort = (if hs_TargetPort hs = 0 then int32_of (t_TargetPort t) else hs_TargetPort hs),
      ts_TunnelID = of_nat (t_ID t), ts_UserID = t_UserID t, ts_ControlStream = None, ts_connected = True\<rparr>"

text \<open>
  \<open>EstablishTunnel\<close> up to the registration of the stream. \<open>first\<close> is the first message, absent when
  the receive failed. The result is the reference of the new stream.
\<close>

definition configure_route :: "('c, 'l) grpc_env \<Rightarrow> u32 \<Rightarrow> string \<Rightarrow> ('c, 'l) grpc_server \<Rightarrow> (svc_error + unit) \<times> ('c, 'l) grpc_server" where
  "configure_route env tid ip s =
     (case ge_service env of
        None \<Rightarrow> (Inr (), s)
      | Some svc \<Rightarrow> (case UpdateClientIP svc tid ip (backend s) of (res, b) \<Rightarrow> (res, s\<lparr>backend := b\<rparr>)))"

definition register_stream :: "tunnel_stream \<Rightarrow> ('c, 'l) grpc_server \<Rightarrow> ('c, 'l) grpc_server" where
  "register_stream ts s =
     s\<lparr>tunnelStreams := AList.update (ts_Domain ts) (next_stream s) (tunnelStreams s),
       streams := (streams s)(next_stream s := ts), next_stream := Suc (next_stream s)\<rparr>"

definition EstablishTunnel ::
    "('c, 'l) grpc_env \<Rightarrow> api_token list \<Rightarrow> string \<Rightarrow> tunnel_message option \<Rightarrow> ('c, 'l) grpc_server
       \<Rightarrow> (grpc_code + nat) \<times> ('c, 'l) grpc_server" where
  "EstablishTunnel env tokens peerIP first s =
     (case first of
        None \<Rightarrow> (Inl InvalidArgument, s)
      | Some m \<Rightarrow>
          (case m_Type m of
             Control (CtlHandshake hs) \<Rightarrow>
               (case authenticateTunnel env tokens (tdb (backend s)) hs of
                  Inl e \<Rightarrow> (Inl (Unauthenticated e), s)
                | Inr t \<Rightarrow>
                    (case configure_route env (of_nat (t_ID t)) peerIP s of
                       (Inl e, s1) \<Rightarrow> (Inl (Internal e), s1)
                     | (Inr _, s1) \<Rightarrow> (Inr (next_stream s1), register_stream (new_stream t hs) s1)))
           | _ \<Rightarrow> (Inl InvalidArgument, s)))"

text \<open>
  The deferred function of \<open>EstablishTunnel\<close>, which runs when the handshake answer cannot be sent, the
  context ends or a health check fails: it deletes the entry of the domain, whatever stream it names.
\<close>

definition close_tunnel :: "('c, 'l) grpc_env \<Rightarrow> nat \<Rightarrow> ('c, 'l) grpc_server \<Rightarrow> ('c, 'l) grpc_server" where
  "close_tunnel env ref s =
     (let ts = streams s ref; s1 = s\<lparr>tunnelStreams := AList.delete (ts_Domain ts) (tunnelStreams s)\<rparr>
      in snd (configure_route env (ts_TunnelID ts) [] s1))"

text \<open>\<open>handleClientMessages\<close> on a failed receive, and the control channel; \<open>cs\<close> names the control stream.\<close>

definition set_stream :: "nat \<Rightarrow> (tunnel_stream \<Rightarrow> tunnel_stream) \<Rightarrow> ('c, 'l) grpc_server \<Rightarrow> ('c, 'l) grpc_server" where
  "set_stream ref g s = s\<lparr>streams := (streams s)(ref := g (streams s ref))\<rparr>"

definition recv_failed :: "nat \<Rightarrow> ('c, 'l) grpc_server \<Rightarrow> ('c, 'l) grpc_server" where
  "recv_failed ref = set_stream ref (\<lambda>ts. ts\<lparr>ts_connected := False\<rparr>)"

definition ControlChannel :: "nat \<Rightarrow> string option \<Rightarrow> ('c, 'l) grpc_server \<Rightarrow> (grpc_code + nat) \<times> ('c, 'l) grpc_server" where
  "ControlChannel cs handshake s =
     (case handshake of
        None \<Rightarrow> (Inl InvalidArgument, s)
      | Some domain \<Rightarrow>
          if domain = [] then (Inl InvalidArgument, s)
          else case map_of (tunnelStreams s) domain of
                 None \<Rightarrow> (Inl FailedPrecondition, s)
               | Some ref \<Rightarrow> (Inr ref, set_stream ref (\<lambda>ts. ts\<lparr>ts_ControlStream := Some cs\<rparr>) s))"

definition detach_control :: "nat \<Rightarrow> ('c, 'l) grpc_server \<Rightarrow> ('c, 'l) grpc_server" where
  "detach_control ref = set_stream ref (\<lambda>ts. ts\<lparr>ts_ControlStream := None\<rparr>)"

definition IsTunnelActive :: "('c, 'l) grpc_server \<Rightarrow> string \<Rightarrow> bool" where
  "IsTunnelActive s domain = (case stream_of s domain of Some ts \<Rightarrow> ts_connected ts | None \<Rightarrow> False)"

text \<open>The status of \<open>HealthCheck\<close>: serving or not, and the number of tunnels it reports.\<close>

definition HealthCheck :: "('c, 'l) grpc_server \<Rightarrow> bool \<times> nat" where
  "HealthCheck s = (\<not> 10000 <s concurrentReqs s, length (tunnelStreams s))"

definition SendTunnelEstablishRequest ::
    "bool \<Rightarrow> string \<Rightarrow> establish_request \<Rightarrow> ('c, 'l) grpc_server \<Rightarrow> collect_error + tunnel_message" where
  "SendTunnelEstablishRequest ok domain req s =
     (if \<not> IsTunnelActive s domain then Inl NoTunnel
      else if \<not> ok then Inl SendError
      else Inr \<lparr>m_RequestId = er_RequestId req, m_Type = Control (CtlEstablishRequest req)\<rparr>)"

text \<open>\<open>handleControlMessage\<close>: the call of the establishment callback, if any: domain, request id, success.\<close>

definition handleControlMessage :: "bool \<Rightarrow> tunnel_stream \<Rightarrow> tunnel_message \<Rightarrow> (string \<times> string \<times> bool) option" where
  "handleControlMessage callback ts m =
     (case m_Type m of
        Control (CtlStatus active) \<Rightarrow>
          if m_RequestId m \<noteq> [] \<and> callback then Some (ts_Domain ts, m_RequestId m, active) else None
      | _ \<Rightarrow> None)"

section \<open>Rate limiting\<close>

definition Allow :: "('c, 'l) grpc_env \<Rightarrow> time \<Rightarrow> string \<Rightarrow> (string \<Rightarrow> 'l option) \<Rightarrow> bool \<times> (string \<Rightarrow> 'l option)" where
  "Allow env now domain ls =
     (let limiter = (case ls domain of
                       Some l \<Rightarrow> l
                     | None \<Rightarrow> ge_NewLimiter env (ge_RateLimitRPM env) (ge_RateLimitBurst env));
          (ok, limiter') = ge_Allow env now limiter
      in (ok, ls(domain \<mapsto> limiter')))"

section \<open>Converting requests and responses\<close>

definition fmt_int :: "int \<Rightarrow> string" where
  "fmt_int n = (if n < 0 then CHR ''-'' # dec (nat (- n)) else dec (nat n))"

definition is_media_path :: "string \<Rightarrow> bool" where
  "is_media_path p \<longleftrightarrow> Contains p ''/api/assets/'' \<or> Contains p ''/media/'' \<or> Contains p ''/static/''"

text \<open>The body is read to its end; \<open>rid\<close> is the generated request id.\<close>

definition httpToGRPC :: "string \<Rightarrow> server_request \<Rightarrow> string \<Rightarrow> tunnel_message option" where
  "httpToGRPC rid req clientIP =
     (case ReadAll (sr_Body req) of
        None \<Rightarrow> None
      | Some body \<Rightarrow>
          Some \<lparr>m_RequestId = rid, m_Type = HttpRequest \<lparr>rq_Method = sr_Method req, rq_Path = sr_RequestURI req,
            rq_Headers = first_values (sr_Header req), rq_Body = body, rq_IsLargeFile = False, rq_ClientIp = clientIP,
            rq_Media = is_media_path (sr_Path req)\<rparr>\<rparr>)"

text \<open>A response to the caller; \<open>hp_EOF\<close> says whether the end of its body has been reached.\<close>

record http_reply =
  hp_StatusCode :: int
  hp_Status :: string
  hp_Header :: http_headers
  hp_Body :: string
  hp_EOF :: bool

datatype proxy_error =
    NoActiveTunnel string | DisabledTunnel | RateLimited string | BadRequestBody
  | SendFailure go_error | RequestTimeout | TunnelDisconnected | ClientError string int | InvalidResponse
  | CollectFailed collect_error

text \<open>The text and status of an error, as \<open>isTimeoutError\<close> sees them; 30 seconds is the configured timeout.\<close>

definition collect_text :: "collect_error \<Rightarrow> string" where
  "collect_text e =
     (case e of
        TimedOut10m \<Rightarrow> ''timeout waiting for chunked response after 10 minutes''
      | TunnelGone \<Rightarrow> ''tunnel disconnected during chunked response collection''
      | PipeBroken \<Rightarrow> ''failed to write chunk to pipe: io: read/write on closed pipe''
      | ClientFailed msg \<Rightarrow> ''client error during chunked streaming: '' @ msg
      | NoMetadata \<Rightarrow> ''timeout waiting for chunked response metadata''
      | NoChannel \<Rightarrow> ''no pending request channel for request''
      | SendError \<Rightarrow> ''failed to send upload''
      | ReadError \<Rightarrow> ''read upload body failed''
      | NoTunnel \<Rightarrow> ''no active tunnel for domain'')"

definition go_error_of :: "proxy_error \<Rightarrow> go_error" where
  "go_error_of e =
     (case e of
        NoActiveTunnel d \<Rightarrow> \<lparr>er_text = ''no active tunnel for domain: '' @ d, er_status = None\<rparr>
      | DisabledTunnel \<Rightarrow> \<lparr>er_text = ''tunnel is disabled'', er_status = None\<rparr>
      | RateLimited d \<Rightarrow> \<lparr>er_text = ''rate limit exceeded for domain: '' @ d, er_status = None\<rparr>
      | BadRequestBody \<Rightarrow> \<lparr>er_text = ''failed to convert HTTP request'', er_status = None\<rparr>
      | SendFailure cause \<Rightarrow> cause\<lparr>er_text := ''failed to send request: '' @ er_text cause\<rparr>
      | RequestTimeout \<Rightarrow> \<lparr>er_text = ''request timeout after 30s'', er_status = None\<rparr>
      | TunnelDisconnected \<Rightarrow> \<lparr>er_text = ''tunnel disconnected'', er_status = None\<rparr>
      | ClientError msg code \<Rightarrow> \<lparr>er_text = ''tunnel error: '' @ msg @ '' (code: '' @ fmt_int code @ '')'', er_status = None\<rparr>
      | InvalidResponse \<Rightarrow> \<lparr>er_text = ''invalid response message'', er_status = None\<rparr>
      | CollectFailed c \<Rightarrow> \<lparr>er_text = collect_text c, er_status = None\<rparr>)"

definition count_usage ::
    "time \<Rightarrow> u32 \<Rightarrow> u32 \<Rightarrow> string \<Rightarrow> nat \<Rightarrow> nat \<Rightarrow> nat \<Rightarrow> ('c, 'l) grpc_server \<Rightarrow> ('c, 'l) grpc_server" where
  "count_usage now uid tid domain bytesIn bytesOut requests s =
     s\<lparr>usage := map_option (\<lambda>u. fst (Increment now uid tid domain (of_nat bytesIn) (of_nat bytesOut) (of_nat requests) u)) (usage s)\<rparr>"

text \<open>
  \<open>grpcToHTTP\<close>: the response, and the usage it records for the domain that the headers of the response name.
\<close>

definition response_domain :: "headers \<Rightarrow> string" where
  "response_domain h = (let d = header_get h ''X-Forwarded-Host'' in if d = [] then header_get h ''Host'' else d)"

definition grpcToHTTP ::
    "time \<Rightarrow> tunnel_message option \<Rightarrow> ('c, 'l) grpc_server \<Rightarrow> (proxy_error + http_reply) \<times> ('c, 'l) grpc_server" where
  "grpcToHTTP now msg s =
     (case map_option m_Type msg of
        Some (ErrorMessage code text) \<Rightarrow> (Inl (ClientError text code), s)
      | Some (HttpResponse r) \<Rightarrow>
          (let resp = \<lparr>hp_StatusCode = rs_StatusCode r, hp_Status = fmt_int (rs_StatusCode r) @ '' '' @ rs_StatusText r,
                       hp_Header = set_all (rs_Headers r) (set_all (rs_Headers r) []), hp_Body = rs_Body r, hp_EOF = True\<rparr>;
               domain = response_domain (rs_Headers r);
               (userID, tunnelID) = (case stream_of s domain of Some ts \<Rightarrow> (ts_UserID ts, ts_TunnelID ts) | None \<Rightarrow> (0, 0))
           in (Inr resp,
               if domain \<noteq> [] \<and> rs_Body r \<noteq> [] \<and> userID \<noteq> 0
               then count_usage now userID tunnelID domain 0 (length (rs_Body r)) 0 s else s))
      | _ \<Rightarrow> (Inl InvalidResponse, s))"

section \<open>Proxying a request\<close>

text \<open>
  How the exchange on the stream ended: the message received (absent from a closed channel) with the
  later events of its channel, a failed send, the timeout, or the end of the stream's context.
\<close>

datatype exchange = XReply "tunnel_message option" "chan_event list" | XSendFailed go_error | XTimeout | XDisconnected

definition count_chunks :: "time \<Rightarrow> tunnel_stream \<Rightarrow> nat list \<Rightarrow> ('c, 'l) grpc_server \<Rightarrow> ('c, 'l) grpc_server" where
  "count_chunks now ts ns s = fold (\<lambda>n. count_usage now (ts_UserID ts) (ts_TunnelID ts) (ts_Domain ts) 0 n 0) ns s"

definition streaming_reply :: "streamed_response \<Rightarrow> http_reply" where
  "streaming_reply sp = \<lparr>hp_StatusCode = sp_StatusCode sp, hp_Status = sp_Status sp, hp_Header = sp_Header sp,
     hp_Body = sp_Body sp, hp_EOF = sp_EOF sp\<rparr>"

definition collected_reply :: "collected \<Rightarrow> proxy_error + http_reply" where
  "collected_reply st = (case stream_response st of Inl e \<Rightarrow> Inl (CollectFailed e) | Inr sp \<Rightarrow> Inr (streaming_reply sp))"

definition sendRequestAndWaitResponse ::
    "time \<Rightarrow> tunnel_stream \<Rightarrow> exchange \<Rightarrow> ('c, 'l) grpc_server \<Rightarrow> (proxy_error + http_reply) \<times> ('c, 'l) grpc_server" where
  "sendRequestAndWaitResponse now ts x s =
     (case x of
        XSendFailed e \<Rightarrow> (Inl (SendFailure e), s)
      | XTimeout \<Rightarrow> (Inl RequestTimeout, s)
      | XDisconnected \<Rightarrow> (Inl TunnelDisconnected, s)
      | XReply msg evs \<Rightarrow>
          if (case msg of Some m \<Rightarrow> is_chunked m | None \<Rightarrow> False)
          then (let st = collectChunkedResponseNoSend (\<lambda>_. True) True msg evs
                in (collected_reply st, count_chunks now ts (cl_counted st) s))
          else grpcToHTTP now msg s)"

definition quota_reply :: http_reply where
  "quota_reply = \<lparr>hp_StatusCode = 402, hp_Status = ''402 Payment Required'', hp_Header = [], hp_Body = ''Quota exceeded'', hp_EOF = True\<rparr>"

definition add_error :: "proxy_error \<Rightarrow> ('c, 'l) grpc_server \<Rightarrow> (proxy_error + http_reply) \<times> ('c, 'l) grpc_server" where
  "add_error e s = (Inl e, s\<lparr>totalErrors := totalErrors s + 1\<rparr>)"

text \<open>\<open>ProxyHTTPRequest\<close> from the rate limiter on. The messages sent to the client come first in the result.\<close>

definition forward_request ::
    "('c, 'l) grpc_env \<Rightarrow> time \<Rightarrow> string \<Rightarrow> server_request \<Rightarrow> string \<Rightarrow> string \<Rightarrow> (tunnel_message \<Rightarrow> exchange) \<Rightarrow> tunnel_stream
       \<Rightarrow> ('c, 'l) grpc_server \<Rightarrow> tunnel_message list \<times> (proxy_error + http_reply) \<times> ('c, 'l) grpc_server" where
  "forward_request env now domain req clientIP rid xchg ts s =
     (let (ok, ls) = Allow env now domain (limiters s); s1 = s\<lparr>limiters := ls\<rparr>
      in if \<not> ok then ([], add_error (RateLimited domain) s1)
         else case httpToGRPC rid req clientIP of
                None \<Rightarrow> ([], add_error BadRequestBody s1)
              | Some m \<Rightarrow>
                  ([m],
                   case sendRequestAndWaitResponse now ts (xchg m) s1 of
                     (Inl e, s2) \<Rightarrow>
                       (let (err, s3) = add_error e s2
                        in (err, if isTimeoutError (Some (go_error_of e)) then s3\<lparr>timeoutErrors := timeoutErrors s3 + 1\<rparr> else s3))
                   | (Inr resp, s2) \<Rightarrow>
                       (Inr resp,
                        let reqBytes = (case m_Type m of HttpRequest r \<Rightarrow> length (rq_Body r) | _ \<Rightarrow> 0);
                            s3 = count_usage now (ts_UserID ts) (ts_TunnelID ts) domain reqBytes (length (hp_Body resp)) 1 s2
                        in s3\<lparr>totalResponses := totalResponses s3 + 1\<rparr>)))"

definition set_header :: "string \<Rightarrow> string \<Rightarrow> server_request \<Rightarrow> server_request" where
  "set_header k v req = req\<lparr>sr_Header := AList.update k [v] (sr_Header req)\<rparr>"

definition proxy_request ::
    "('c, 'l) grpc_env \<Rightarrow> quota_db \<Rightarrow> time \<Rightarrow> string \<Rightarrow> server_request \<Rightarrow> string \<Rightarrow> string \<Rightarrow> (tunnel_message \<Rightarrow> exchange)
       \<Rightarrow> ('c, 'l) grpc_server \<Rightarrow> tunnel_message list \<times> (proxy_error + http_reply) \<times> ('c, 'l) grpc_server" where
  "proxy_request env qdb now domain req clientIP rid xchg s =
     (case stream_of s domain of
        None \<Rightarrow> ([], add_error (NoActiveTunnel domain) s)
      | Some ts \<Rightarrow>
          if \<not> ts_connected ts then ([], add_error (NoActiveTunnel domain) s)
          else if (case statusCache s of Some c \<Rightarrow> \<not> IsEnabled c domain | None \<Rightarrow> False) then ([], add_error DisabledTunnel s)
          else case quota s of
                 None \<Rightarrow> forward_request env now domain req clientIP rid xchg ts s
               | Some q \<Rightarrow>
                   (case CheckUser qdb now (ts_UserID ts) q of
                      (res, q') \<Rightarrow>
                        (let s1 = s\<lparr>quota := Some q'\<rparr>
                         in case Decision res of
                              QuotaBlock \<Rightarrow> ([], Inr quota_reply, s1)
                            | QuotaWarn \<Rightarrow> forward_request env now domain (set_header ''X-Quota-Warn'' ''true'' req) clientIP rid xchg ts s1
                            | QuotaAllow \<Rightarrow> forward_request env now domain req clientIP rid xchg ts s1)))"

definition ProxyHTTPRequest ::
    "('c, 'l) grpc_env \<Rightarrow> quota_db \<Rightarrow> time \<Rightarrow> string \<Rightarrow> server_request \<Rightarrow> string \<Rightarrow> string \<Rightarrow> (tunnel_message \<Rightarrow> exchange)
       \<Rightarrow> ('c, 'l) grpc_server \<Rightarrow> tunnel_message list \<times> (proxy_error + http_reply) \<times> ('c, 'l) grpc_server" where
  "ProxyHTTPRequest env qdb now domain req clientIP rid xchg s =
     (case proxy_request env qdb now domain req clientIP rid xchg
             (s\<lparr>totalRequests := totalRequests s + 1, concurrentReqs := concurrentReqs s + 1\<rparr>) of
        (ms, res, s') \<Rightarrow> (ms, res, s'\<lparr>concurrentReqs := concurrentReqs s' - 1\<rparr>))"

section \<open>Large transfers\<close>

text \<open>How a large transfer went: do the sends succeed, and what arrived on the channel.\<close>

record transfer =
  tr_ok :: "nat \<Rightarrow> bool"
  tr_okEnd :: bool
  tr_events :: "chan_event list"

definition active_stream :: "('c, 'l) grpc_server \<Rightarrow> string \<Rightarrow> tunnel_stream option" where
  "active_stream s domain = (case stream_of s domain of Some ts \<Rightarrow> if ts_connected ts then Some ts else None | None \<Rightarrow> None)"

definition proxy_upload ::
    "time \<Rightarrow> string \<Rightarrow> server_request \<Rightarrow> string \<Rightarrow> string \<Rightarrow> transfer \<Rightarrow> ('c, 'l) grpc_server
       \<Rightarrow> tunnel_message list \<times> (proxy_error + http_reply) \<times> ('c, 'l) grpc_server" where
  "proxy_upload now domain req clientIP rid tr s =
     (case active_stream s domain of
        None \<Rightarrow> ([], Inl (NoActiveTunnel domain), s)
      | Some ts \<Rightarrow>
          (let out = handleLargeFileUploadWithStreaming True (tr_ok tr) (tr_okEnd tr) rid req clientIP;
               s1 = fold (\<lambda>n. count_usage now (ts_UserID ts) (ts_TunnelID ts) (ts_Domain ts) n 0 0) (uo_counted out) s
           in case uo_err out of
                Some e \<Rightarrow> (uo_sent out, Inl (CollectFailed e), s1)
              | None \<Rightarrow>
                  (let st = collectChunkedResponseNoSend (\<lambda>_. True) True None (tr_events tr)
                   in (uo_sent out, collected_reply st, count_chunks now ts (cl_counted st) s1))))"

definition mark_large :: "tunnel_message \<Rightarrow> tunnel_message" where
  "mark_large m = (case m_Type m of HttpRequest r \<Rightarrow> m\<lparr>m_Type := HttpRequest (r\<lparr>rq_IsLargeFile := True\<rparr>)\<rparr> | _ \<Rightarrow> m)"

definition handleLargeFileDownloadWithChunking ::
    "time \<Rightarrow> string \<Rightarrow> server_request \<Rightarrow> string \<Rightarrow> string \<Rightarrow> transfer \<Rightarrow> ('c, 'l) grpc_server
       \<Rightarrow> tunnel_message list \<times> (proxy_error + http_reply) \<times> ('c, 'l) grpc_server" where
  "handleLargeFileDownloadWithChunking now domain req clientIP rid tr s =
     (case active_stream s domain of
        None \<Rightarrow> ([], Inl (NoActiveTunnel domain), s)
      | Some ts \<Rightarrow>
          (case httpToGRPC rid req clientIP of
             None \<Rightarrow> ([], Inl BadRequestBody, s)
           | Some m \<Rightarrow>
               (let st = collectChunkedResponse (\<lambda>_. True) (tr_ok tr 0) (tr_events tr)
                in (if tr_ok tr 0 then [mark_large m] else [], collected_reply st, count_chunks now ts (cl_counted st) s))))"

definition to_upper_char :: "char \<Rightarrow> char" where
  "to_upper_char c = (let n = (of_char c :: nat) in if 97 \<le> n \<and> n \<le> 122 then char_of (n - 32) else c)"

definition ToUpper :: "string \<Rightarrow> string" where
  "ToUpper s = map to_upper_char s"

definition ProxyHTTPRequestWithChunking ::
    "('c, 'l) grpc_env \<Rightarrow> quota_db \<Rightarrow> time \<Rightarrow> string \<Rightarrow> server_request \<Rightarrow> string \<Rightarrow> string \<Rightarrow> (tunnel_message \<Rightarrow> exchange) \<Rightarrow> transfer
       \<Rightarrow> ('c, 'l) grpc_server \<Rightarrow> tunnel_message list \<times> (proxy_error + http_reply) \<times> ('c, 'l) grpc_server" where
  "ProxyHTTPRequestWithChunking env qdb now domain req clientIP rid xchg tr s =
     (if ToUpper (sr_Method req) \<in> {''POST'', ''PUT'', ''PATCH''} then proxy_upload now domain req clientIP rid tr s
      else if isLargeFileRequest req then handleLargeFileDownloadWithChunking now domain req clientIP rid tr s
      else ProxyHTTPRequest env qdb now domain req clientIP rid xchg s)"

text \<open>\<open>StreamLargeFile\<close>: the request is logged before it is checked, so an absent one is a nil dereference.\<close>

datatype large_error = LargePanic | NoDomain | LargeProxy proxy_error

definition extractDomainFromRequest :: "http_request \<Rightarrow> ('c, 'l) grpc_server \<Rightarrow> string" where
  "extractDomainFromRequest req s =
     (if header_get (rq_Headers req) ''Host'' \<noteq> [] then header_get (rq_Headers req) ''Host''
      else if header_get (rq_Headers req) ''X-Forwarded-Host'' \<noteq> [] then header_get (rq_Headers req) ''X-Forwarded-Host''
      else case tunnelStreams s of [] \<Rightarrow> [] | (domain, _) # _ \<Rightarrow> domain)"

definition StreamLargeFile ::
    "time \<Rightarrow> string \<Rightarrow> http_request option \<Rightarrow> int \<Rightarrow> exchange \<Rightarrow> (nat \<Rightarrow> bool) \<Rightarrow> ('c, 'l) grpc_server
       \<Rightarrow> (large_error + large_file_chunk list \<times> bool) \<times> ('c, 'l) grpc_server" where
  "StreamLargeFile now rid httpReq chunkSize x ok s =
     (case httpReq of
        None \<Rightarrow> (Inl LargePanic, s)
      | Some r \<Rightarrow>
          (let domain = extractDomainFromRequest r s
           in if domain = [] then (Inl NoDomain, s)
              else case active_stream s domain of
                     None \<Rightarrow> (Inl (LargeProxy (NoActiveTunnel domain)), s)
                   | Some ts \<Rightarrow>
                       (case sendRequestAndWaitResponse now ts x s of
                          (Inl e, s1) \<Rightarrow> (Inl (LargeProxy e), s1)
                        | (Inr resp, s1) \<Rightarrow>
                            (let n = length (hp_Body resp);
                                 s2 = (if n > 0 then count_usage now (ts_UserID ts) (ts_TunnelID ts) (ts_Domain ts) 0 n 0 s1 else s1)
                             in (Inr (streamResponseInChunks_server ok rid (hp_StatusCode resp) (hp_Header resp) (hp_Body resp)
                                   (chunk_size chunkSize)), s2)))))"

section \<open>What a request passes\<close>

lemma count_usage_frame [simp]:
  "tunnelStreams (count_usage now u t d i out r s) = tunnelStreams s" "streams (count_usage now u t d i out r s) = streams s"
  "next_stream (count_usage now u t d i out r s) = next_stream s" "concurrentReqs (count_usage now u t d i out r s) = concurrentReqs s"
  "totalRequests (count_usage now u t d i out r s) = totalRequests s" "limiters (count_usage now u t d i out r s) = limiters s"
  "quota (count_usage now u t d i out r s) = quota s" "statusCache (count_usage now u t d i out r s) = statusCache s"
  "backend (count_usage now u t d i out r s) = backend s"
  by (simp_all add: count_usage_def)

lemma count_chunks_frame [simp]:
  "tunnelStreams (count_chunks now ts ns s) = tunnelStreams s" "streams (count_chunks now ts ns s) = streams s"
  "next_stream (count_chunks now ts ns s) = next_stream s" "concurrentReqs (count_chunks now ts ns s) = concurrentReqs s"
  "totalRequests (count_chunks now ts ns s) = totalRequests s" "limiters (count_chunks now ts ns s) = limiters s"
  by (induction ns arbitrary: s) (simp_all add: count_chunks_def)

lemma grpcToHTTP_frame: "\<exists>u. snd (grpcToHTTP now msg s) = s\<lparr>usage := u\<rparr>"
proof -
  have "\<exists>u. count_usage now uid tid d i out r s = s\<lparr>usage := u\<rparr>" for uid tid d i out r
    by (auto simp: count_usage_def)
  moreover have "\<exists>u. s = s\<lparr>usage := u\<rparr>" by (rule exI [of _ "usage s"]) simp
  ultimately show ?thesis by (simp add: grpcToHTTP_def Let_def split: option.split message_type.split prod.split)
qed

lemma send_frame:
  assumes "sendRequestAndWaitResponse now ts x s = (res, s')"
  shows "tunnelStreams s' = tunnelStreams s" "streams s' = streams s" "next_stream s' = next_stream s"
    "concurrentReqs s' = concurrentReqs s" "totalRequests s' = totalRequests s" "limiters s' = limiters s"
proof -
  obtain msg where "s' = s \<or> s' = snd (grpcToHTTP now msg s) \<or> (\<exists>ns. s' = count_chunks now ts ns s)"
    using assms by (cases x) (auto simp: sendRequestAndWaitResponse_def Let_def split: if_splits, metis snd_conv)
  then show "tunnelStreams s' = tunnelStreams s" "streams s' = streams s" "next_stream s' = next_stream s"
    "concurrentReqs s' = concurrentReqs s" "totalRequests s' = totalRequests s" "limiters s' = limiters s"
    using grpcToHTTP_frame [of now msg s] by auto
qed

definition cache_enabled :: "('c, 'l) grpc_server \<Rightarrow> string \<Rightarrow> bool" where
  "cache_enabled s domain = (case statusCache s of Some c \<Rightarrow> IsEnabled c domain | None \<Rightarrow> True)"

definition quota_blocks :: "quota_db \<Rightarrow> time \<Rightarrow> tunnel_stream \<Rightarrow> ('c, 'l) grpc_server \<Rightarrow> bool" where
  "quota_blocks qdb now ts s =
     (case quota s of Some q \<Rightarrow> Decision (fst (CheckUser qdb now (ts_UserID ts) q)) = QuotaBlock | None \<Rightarrow> False)"

definition same_registry :: "('c, 'l) grpc_server \<Rightarrow> ('c, 'l) grpc_server \<Rightarrow> bool" where
  "same_registry s s' \<longleftrightarrow> tunnelStreams s' = tunnelStreams s \<and> streams s' = streams s \<and> next_stream s' = next_stream s"

lemma same_registry_stream: "same_registry s s' \<Longrightarrow> stream_of s' = stream_of s"
  by (auto simp: same_registry_def stream_of_def)

lemma httpToGRPC_None: "httpToGRPC rid req ip = None \<longleftrightarrow> ReadAll (sr_Body req) = None"
  by (simp add: httpToGRPC_def split: option.split)

lemma sr_Body_set_header [simp]: "sr_Body (set_header k v req) = sr_Body req"
  by (simp add: set_header_def)

lemma forward_request_spec:
  assumes "forward_request env now domain req ip rid xchg ts s = (ms, res, s')"
  shows "ms \<noteq> [] \<longleftrightarrow> fst (Allow env now domain (limiters s)) \<and> ReadAll (sr_Body req) \<noteq> None"
    and "ms = [] \<Longrightarrow> res = Inl (if fst (Allow env now domain (limiters s)) then BadRequestBody else RateLimited domain)"
    and "same_registry s s'" "concurrentReqs s' = concurrentReqs s" "totalRequests s' = totalRequests s"
    and "limiters s' = snd (Allow env now domain (limiters s))"
proof -
  obtain ok ls where al: "Allow env now domain (limiters s) = (ok, ls)" by force
  let ?s1 = "s\<lparr>limiters := ls\<rparr>"
  have "(ms \<noteq> [] \<longleftrightarrow> ok \<and> ReadAll (sr_Body req) \<noteq> None) \<and>
      (ms = [] \<longrightarrow> res = Inl (if ok then BadRequestBody else RateLimited domain)) \<and>
      same_registry s s' \<and> concurrentReqs s' = concurrentReqs s \<and> totalRequests s' = totalRequests s \<and> limiters s' = ls"
  proof (cases "httpToGRPC rid req ip")
    case None
    moreover from this have "ReadAll (sr_Body req) = None" by (simp add: httpToGRPC_None)
    ultimately show ?thesis using assms by (auto simp: forward_request_def al add_error_def same_registry_def split: if_splits)
  next
    case m: (Some m)
    obtain r s2 where x: "sendRequestAndWaitResponse now ts (xchg m) ?s1 = (r, s2)" by force
    have "ReadAll (sr_Body req) \<noteq> None" using m httpToGRPC_None [of rid req ip] by auto
    then show ?thesis
      using assms send_frame [OF x]
      by (auto simp: forward_request_def al m x add_error_def same_registry_def Let_def split: sum.splits if_splits)
  qed
  then show "ms \<noteq> [] \<longleftrightarrow> fst (Allow env now domain (limiters s)) \<and> ReadAll (sr_Body req) \<noteq> None"
    "ms = [] \<Longrightarrow> res = Inl (if fst (Allow env now domain (limiters s)) then BadRequestBody else RateLimited domain)"
    "same_registry s s'" "concurrentReqs s' = concurrentReqs s" "totalRequests s' = totalRequests s"
    "limiters s' = snd (Allow env now domain (limiters s))"
    by (simp_all add: al)
qed

lemma proxy_request_cases:
  assumes "proxy_request env qdb now domain req ip rid xchg s = (ms, res, s')"
  obtains (refused) e where "ms = []" "res = Inl e" "s' = s\<lparr>totalErrors := totalErrors s + 1\<rparr>"
      "e = (case active_stream s domain of None \<Rightarrow> NoActiveTunnel domain | Some _ \<Rightarrow> DisabledTunnel)"
      "active_stream s domain = None \<or> \<not> cache_enabled s domain"
  | (blocked) ts q where "ms = []" "res = Inr quota_reply" "s' = s\<lparr>quota := q\<rparr>"
      "active_stream s domain = Some ts" "cache_enabled s domain" "quota_blocks qdb now ts s"
  | (passed) ts q req' where "forward_request env now domain req' ip rid xchg ts (s\<lparr>quota := q\<rparr>) = (ms, res, s')"
      "active_stream s domain = Some ts" "cache_enabled s domain" "\<not> quota_blocks qdb now ts s" "sr_Body req' = sr_Body req"
proof (cases "active_stream s domain")
  case None
  with assms refused [of "NoActiveTunnel domain"] show thesis
    by (auto simp: proxy_request_def active_stream_def add_error_def split: option.splits if_splits)
next
  case (Some ts)
  then have ts: "stream_of s domain = Some ts" "ts_connected ts" by (auto simp: active_stream_def split: option.splits if_splits)
  show thesis
  proof (cases "cache_enabled s domain")
    case False
    with assms ts Some refused [of DisabledTunnel] show thesis
      by (auto simp: proxy_request_def add_error_def cache_enabled_def split: option.splits)
  next
    case en: True
    show thesis
    proof (cases "quota s")
      case None
      then have eq: "s\<lparr>quota := None\<rparr> = s" by (cases s) simp
      have "forward_request env now domain req ip rid xchg ts s = (ms, res, s')"
        using assms ts None en by (simp add: proxy_request_def cache_enabled_def split: option.splits)
      then show thesis using passed [of req ts None] Some en None by (simp add: quota_blocks_def eq)
    next
      case q: (Some q)
      obtain r q' where c: "CheckUser qdb now (ts_UserID ts) q = (r, q')" by force
      show thesis
        using assms ts en q c blocked [of "Some q'" ts] passed [of req ts "Some q'"]
          passed [of "set_header ''X-Quota-Warn'' ''true'' req" ts "Some q'"] Some
        by (cases "Decision r") (auto simp: proxy_request_def cache_enabled_def quota_blocks_def Let_def split: option.splits)
    qed
  qed
qed

text \<open>
  C3. What a request passes: \<open>ProxyHTTPRequest\<close> sends a message to the client of the domain if and only if
  the domain has a connected stream, the status cache says its tunnel is enabled, the quota of the
  stream's user does not block, the rate limiter of the domain lets it pass and its body can be read.
  Otherwise nothing is sent and the caller gets the error of the first failing check, or a 402 response
  when it is the quota. In every case the count of concurrent requests is restored, the request is
  counted once, the streams are unchanged, and no other domain's limiter is touched.
\<close>

theorem proxy_gate:
  assumes "ProxyHTTPRequest env qdb now domain req ip rid xchg s = (ms, res, s')"
  shows "(ms \<noteq> [] \<longleftrightarrow> (\<exists>ts. active_stream s domain = Some ts \<and> cache_enabled s domain \<and> \<not> quota_blocks qdb now ts s \<and>
      fst (Allow env now domain (limiters s)) \<and> ReadAll (sr_Body req) \<noteq> None)) \<and>
    (ms = [] \<longrightarrow> res =
       (case active_stream s domain of
          None \<Rightarrow> Inl (NoActiveTunnel domain)
        | Some ts \<Rightarrow>
            if \<not> cache_enabled s domain then Inl DisabledTunnel
            else if quota_blocks qdb now ts s then Inr quota_reply
            else if \<not> fst (Allow env now domain (limiters s)) then Inl (RateLimited domain)
            else Inl BadRequestBody)) \<and>
    concurrentReqs s' = concurrentReqs s \<and> totalRequests s' = totalRequests s + 1 \<and> same_registry s s' \<and>
    (\<forall>d. d \<noteq> domain \<longrightarrow> limiters s' d = limiters s d)"
proof -
  let ?s = "s\<lparr>totalRequests := totalRequests s + 1, concurrentReqs := concurrentReqs s + 1\<rparr>"
  obtain s1 where p: "proxy_request env qdb now domain req ip rid xchg ?s = (ms, res, s1)"
    and s': "s' = s1\<lparr>concurrentReqs := concurrentReqs s1 - 1\<rparr>"
    using assms by (auto simp: ProxyHTTPRequest_def split: prod.splits)
  have same: "active_stream ?s = active_stream s" "cache_enabled ?s = cache_enabled s"
    "quota_blocks qdb now ts ?s = quota_blocks qdb now ts s" for ts
    by (simp_all add: active_stream_def stream_of_def cache_enabled_def quota_blocks_def fun_eq_iff)
  have other: "snd (Allow env now domain ls) d = ls d" if "d \<noteq> domain" for d ls
    using that by (simp add: Allow_def Let_def split: prod.split)
  from p show ?thesis
  proof (cases rule: proxy_request_cases)
    case (refused e)
    then show ?thesis using s' same by (auto simp: same_registry_def split: option.splits)
  next
    case (blocked ts q)
    then show ?thesis using s' same by (auto simp: same_registry_def)
  next
    case (passed ts q req')
    note f = forward_request_spec [OF passed(1)]
    show ?thesis using f passed s' same other by (auto simp: same_registry_def)
  qed
qed

section \<open>Rate limiters are independent\<close>

fun allow_run :: "('c, 'l) grpc_env \<Rightarrow> (time \<times> string) list \<Rightarrow> (string \<Rightarrow> 'l option) \<Rightarrow> (string \<times> bool) list" where
  "allow_run env [] ls = []"
| "allow_run env ((now, d) # calls) ls = (let (ok, ls') = Allow env now d ls in (d, ok) # allow_run env calls ls')"

text \<open>
  The limiter of a domain sees only that domain: in any sequence of requests, the decisions for a
  domain are those its own requests alone would get, so no tenant can use up another tenant's rate.
\<close>

theorem rate_limit_isolated:
  "filter (\<lambda>(d', _). d' = d) (allow_run env calls ls) = allow_run env (filter (\<lambda>(_, d'). d' = d) calls) ls"
proof -
  have step: "Allow env now d ls1 = (fst (Allow env now d ls2), (ls1)(d := snd (Allow env now d ls2) d))"
    if "ls1 d = ls2 d" for ls1 ls2 now
    using that by (simp add: Allow_def Let_def split: prod.split)
  have "filter (\<lambda>(d', _). d' = d) (allow_run env calls ls1) = allow_run env (filter (\<lambda>(_, d'). d' = d) calls) ls2"
    if "ls1 d = ls2 d" for ls1 ls2
    using that
  proof (induction calls arbitrary: ls1 ls2)
    case (Cons x calls)
    obtain now d' where x: "x = (now, d')" by force
    show ?case
    proof (cases "d' = d")
      case True
      obtain ok ls2' where a2: "Allow env now d ls2 = (ok, ls2')" by force
      define ls1' where "ls1' = ls1(d := ls2' d)"
      have "Allow env now d ls1 = (ok, ls1')" using step [of ls1 ls2 now] Cons.prems a2 by (simp add: ls1'_def)
      moreover have "ls1' d = ls2' d" by (simp add: ls1'_def)
      ultimately show ?thesis using Cons.IH [of ls1' ls2'] a2 by (simp add: x True)
    next
      case False
      obtain ok ls1' where a1: "Allow env now d' ls1 = (ok, ls1')" by force
      then have "ls1' d = ls2 d" using Cons.prems False by (auto simp: Allow_def Let_def split: prod.splits)
      then show ?thesis using Cons.IH False a1 by (simp add: x)
    qed
  qed simp
  then show ?thesis by simp
qed

section \<open>The registry\<close>

text \<open>
  The registry is well formed when its domains are distinct and every entry names an existing stream
  of its domain.
\<close>

definition registry_inv :: "('c, 'l) grpc_server \<Rightarrow> bool" where
  "registry_inv s \<longleftrightarrow> distinct (map fst (tunnelStreams s)) \<and>
     (\<forall>d ref. map_of (tunnelStreams s) d = Some ref \<longrightarrow> ref < next_stream s \<and> ts_Domain (streams s ref) = d)"

text \<open>
  The steps of the server that open no stream, in any order; the database may also change behind its
  back. A step of the whole server is one of them or a call of \<open>EstablishTunnel\<close>; the history records, newest first,
  the first message of every such call with the tokens and tunnels that stood in the tables at that moment.
\<close>

inductive quiet_step :: "('c, 'l) grpc_env \<Rightarrow> ('c, 'l) grpc_server \<Rightarrow> ('c, 'l) grpc_server \<Rightarrow> bool" for env where
  step_close: "ref < next_stream s \<Longrightarrow> quiet_step env s (close_tunnel env ref s)"
| step_recv: "ref < next_stream s \<Longrightarrow> quiet_step env s (recv_failed ref s)"
| step_control: "ControlChannel cs handshake s = (res, s') \<Longrightarrow> quiet_step env s s'"
| step_detach: "ref < next_stream s \<Longrightarrow> quiet_step env s (detach_control ref s)"
| step_proxy: "ProxyHTTPRequestWithChunking env qdb now domain req ip rid xchg tr s = (ms, res, s') \<Longrightarrow> quiet_step env s s'"
| step_large: "StreamLargeFile now rid httpReq sz x ok s = (res, s') \<Longrightarrow> quiet_step env s s'"
| step_backend: "quiet_step env s (s\<lparr>backend := b\<rparr>)"
| step_cache: "quiet_step env s (s\<lparr>statusCache := c\<rparr>)"

type_synonym handshake_log = "(api_token list \<times> tunnel_db \<times> tunnel_message option) list"

inductive server_step ::
    "('c, 'l) grpc_env \<Rightarrow> handshake_log \<times> ('c, 'l) grpc_server \<Rightarrow> handshake_log \<times> ('c, 'l) grpc_server \<Rightarrow> bool" for env where
  step_open: "EstablishTunnel env tokens ip first s = (res, s') \<Longrightarrow>
    server_step env (H, s) ((tokens, tdb (backend s), first) # H, s')"
| step_quiet: "quiet_step env s s' \<Longrightarrow> server_step env (H, s) (H, s')"

text \<open>A stream is accounted for when a handshake of the history was authenticated to the tunnel it serves.\<close>

definition authentic :: "('c, 'l) grpc_env \<Rightarrow> handshake_log \<Rightarrow> tunnel_stream \<Rightarrow> bool" where
  "authentic env H ts \<longleftrightarrow>
     (\<exists>tokens db m hs t. (tokens, db, Some m) \<in> set H \<and> m_Type m = Control (CtlHandshake hs) \<and>
        authenticateTunnel env tokens db hs = Inr t \<and>
        ts_Domain ts = t_Domain t \<and> ts_UserID ts = t_UserID t \<and> ts_TunnelID ts = of_nat (t_ID t))"

definition accounted_inv :: "('c, 'l) grpc_env \<Rightarrow> handshake_log \<times> ('c, 'l) grpc_server \<Rightarrow> bool" where
  "accounted_inv env hs \<longleftrightarrow> registry_inv (snd hs) \<and> (\<forall>ref \<in> snd ` set (tunnelStreams (snd hs)). authentic env (fst hs) (streams (snd hs) ref))"

definition server_init :: "handshake_log \<times> ('c, 'l) grpc_server \<Rightarrow> bool" where
  "server_init hs \<longleftrightarrow> fst hs = [] \<and> tunnelStreams (snd hs) = []"

lemma registry_inv_same: "registry_inv s \<Longrightarrow> same_registry s s' \<Longrightarrow> registry_inv s'"
  by (simp add: registry_inv_def same_registry_def)

lemma configure_route_registry: "configure_route env tid ip s = (res, s') \<Longrightarrow> same_registry s s'"
  by (auto simp: configure_route_def same_registry_def split: option.splits prod.splits)

lemma configure_route_backend: "configure_route env tid ip s = (res, s') \<Longrightarrow> s' = s\<lparr>backend := backend s'\<rparr>"
  by (auto simp: configure_route_def split: option.splits prod.splits)

lemma close_registry:
  "same_registry (s\<lparr>tunnelStreams := AList.delete (ts_Domain (streams s ref)) (tunnelStreams s)\<rparr>) (close_tunnel env ref s)"
  by (simp add: close_tunnel_def Let_def configure_route_registry [OF prod.collapse [symmetric]])

lemma EstablishTunnel_cases:
  assumes "EstablishTunnel env tokens ip first s = (res, s')"
  obtains (failed) e where "res = Inl e" "same_registry s s'" "s' = s\<lparr>backend := backend s'\<rparr>"
      "(\<nexists>e'. e = Internal e') \<Longrightarrow> s' = s"
  | (opened) m hs t s1 where "first = Some m" "m_Type m = Control (CtlHandshake hs)"
      "authenticateTunnel env tokens (tdb (backend s)) hs = Inr t" "same_registry s s1"
      "res = Inr (next_stream s)" "s' = register_stream (new_stream t hs) s1"
proof -
  have sr: "same_registry s s" "s\<lparr>backend := backend s\<rparr> = s" by (simp_all add: same_registry_def)
  show thesis
  proof (cases "\<exists>m hs t. first = Some m \<and> m_Type m = Control (CtlHandshake hs) \<and>
      authenticateTunnel env tokens (tdb (backend s)) hs = Inr t")
    case True
    then obtain m hs t where h: "first = Some m" "m_Type m = Control (CtlHandshake hs)"
      "authenticateTunnel env tokens (tdb (backend s)) hs = Inr t" by blast
    obtain r s1 where c: "configure_route env (of_nat (t_ID t)) ip s = (r, s1)" by force
    note s1 = configure_route_registry [OF c] configure_route_backend [OF c]
    show thesis
      using assms h c s1 failed opened [OF h s1(1)]
      by (cases r) (auto simp: EstablishTunnel_def same_registry_def)
  next
    case False
    then show thesis using assms failed sr
      by (cases first) (auto simp: EstablishTunnel_def split: message_type.splits control.splits sum.splits)
  qed
qed

lemma authentic_mono: "authentic env H ts \<Longrightarrow> authentic env (x # H) ts"
  unfolding authentic_def by (metis list.set_intros(2))

lemma authentic_new_stream:
  assumes "authenticateTunnel env tokens db hs = Inr t" "m_Type m = Control (CtlHandshake hs)"
  shows "authentic env ((tokens, db, Some m) # H) (new_stream t hs)"
  unfolding authentic_def using assms by (intro exI [of _ tokens] exI [of _ db] exI [of _ m] exI [of _ hs] exI [of _ t]) (simp add: new_stream_def)

lemma registry_inv_register: "registry_inv s \<Longrightarrow> registry_inv (register_stream ts s)"
  by (auto simp: registry_inv_def register_stream_def go_simps distinct_keys_update less_SucI) (metis less_irrefl)

lemma registry_inv_delete: "registry_inv s \<Longrightarrow> registry_inv (s\<lparr>tunnelStreams := AList.delete d (tunnelStreams s)\<rparr>)"
  by (auto simp: registry_inv_def go_simps distinct_keys_delete)

lemma registry_inv_set_stream: "registry_inv s \<Longrightarrow> (\<And>ts. ts_Domain (g ts) = ts_Domain ts) \<Longrightarrow> registry_inv (set_stream ref g s)"
  by (auto simp: registry_inv_def set_stream_def)

text \<open>What a step that opens no stream keeps: every entry was there before, with the same domain, user and tunnel.\<close>

definition shrinks :: "('c, 'l) grpc_server \<Rightarrow> ('c, 'l) grpc_server \<Rightarrow> bool" where
  "shrinks s s' \<longleftrightarrow> set (tunnelStreams s') \<subseteq> set (tunnelStreams s) \<and>
     (\<forall>ref. ts_Domain (streams s' ref) = ts_Domain (streams s ref) \<and> ts_UserID (streams s' ref) = ts_UserID (streams s ref) \<and>
        ts_TunnelID (streams s' ref) = ts_TunnelID (streams s ref))"

lemma shrinks_same: "same_registry s s' \<Longrightarrow> shrinks s s'"
  by (simp add: same_registry_def shrinks_def)

lemma shrinks_set_stream:
  "(\<And>ts. ts_Domain (g ts) = ts_Domain ts \<and> ts_UserID (g ts) = ts_UserID ts \<and> ts_TunnelID (g ts) = ts_TunnelID ts) \<Longrightarrow>
    shrinks s (set_stream ref g s)"
  by (simp add: shrinks_def set_stream_def)

lemma authentic_shrinks: "shrinks s s' \<Longrightarrow> authentic env H (streams s' ref) = authentic env H (streams s ref)"
  by (simp add: authentic_def shrinks_def)

lemma proxy_registry:
  assumes "ProxyHTTPRequestWithChunking env qdb now domain req ip rid xchg tr s = (ms, res, s')"
  shows "same_registry s s'"
proof -
  have sr: "same_registry s s" by (simp add: same_registry_def)
  have fold: "same_registry s (fold (\<lambda>n. count_usage now u t d n 0 0) ns s')" if "same_registry s s'" for u t d ns s'
    using that by (induction ns arbitrary: s') (simp_all add: same_registry_def)
  have chunks: "same_registry s (count_chunks now ts ns s')" if "same_registry s s'" for ts ns s'
    using that by (simp add: same_registry_def)
  consider "proxy_upload now domain req ip rid tr s = (ms, res, s')"
    | "handleLargeFileDownloadWithChunking now domain req ip rid tr s = (ms, res, s')"
    | "ProxyHTTPRequest env qdb now domain req ip rid xchg s = (ms, res, s')"
    using assms by (auto simp: ProxyHTTPRequestWithChunking_def split: if_splits)
  then show ?thesis
  proof cases
    case 1
    then show ?thesis using sr fold chunks by (auto simp: proxy_upload_def Let_def split: option.splits)
  next
    case 2
    then show ?thesis using sr chunks by (auto simp: handleLargeFileDownloadWithChunking_def Let_def split: option.splits)
  next
    case 3
    then obtain s1 where p: "proxy_request env qdb now domain req ip rid xchg
        (s\<lparr>totalRequests := totalRequests s + 1, concurrentReqs := concurrentReqs s + 1\<rparr>) = (ms, res, s1)"
      and s': "s' = s1\<lparr>concurrentReqs := concurrentReqs s1 - 1\<rparr>"
      by (auto simp: ProxyHTTPRequest_def split: prod.splits)
    from p show ?thesis
      by (cases rule: proxy_request_cases) (auto simp: s' same_registry_def dest: forward_request_spec(3))
  qed
qed

lemma large_registry: "StreamLargeFile now rid httpReq sz x ok s = (res, s') \<Longrightarrow> same_registry s s'"
  by (auto simp: StreamLargeFile_def same_registry_def Let_def dest: send_frame split: option.splits if_splits prod.splits sum.splits)

lemma quiet_step_keeps:
  assumes "quiet_step env s s'" "registry_inv s"
  shows "registry_inv s' \<and> shrinks s s'"
  using assms
proof (induction rule: quiet_step.induct)
  case (step_close ref s)
  have "shrinks s (close_tunnel env ref s)"
    using close_registry [of s ref env]
    by (auto simp: AList.delete_eq same_registry_def shrinks_def)
  then show ?case using registry_inv_same registry_inv_delete close_registry step_close.prems by blast
next
  case (step_recv ref s)
  then show ?case by (simp add: recv_failed_def registry_inv_set_stream shrinks_set_stream)
next
  case (step_control cs handshake s res s')
  have "shrinks s s" by (simp add: shrinks_def)
  with step_control show ?case
    by (auto simp: ControlChannel_def registry_inv_set_stream shrinks_set_stream split: option.splits if_splits)
next
  case (step_detach ref s)
  then show ?case by (simp add: detach_control_def registry_inv_set_stream shrinks_set_stream)
next
  case (step_proxy qdb now domain req ip rid xchg tr s ms res s')
  then show ?case using proxy_registry registry_inv_same shrinks_same by blast
next
  case (step_large now rid httpReq sz x ok s res s')
  then show ?case using large_registry registry_inv_same shrinks_same by blast
qed (simp_all add: registry_inv_def shrinks_def)

lemma EstablishTunnel_keeps:
  assumes "EstablishTunnel env tokens ip first s = (res, s')" "registry_inv s"
  shows "registry_inv s'"
  using assms(1)
proof (cases rule: EstablishTunnel_cases)
  case (failed e)
  then show ?thesis using registry_inv_same assms(2) by blast
next
  case (opened m hs t s1)
  then show ?thesis using registry_inv_register registry_inv_same assms(2) by metis
qed

lemma EstablishTunnel_authentic:
  assumes "EstablishTunnel env tokens ip first s = (res, s')" "ref \<in> snd ` set (tunnelStreams s')"
    and "\<forall>ref \<in> snd ` set (tunnelStreams s). authentic env H (streams s ref)"
  shows "authentic env ((tokens, tdb (backend s), first) # H) (streams s' ref)"
  using assms(1)
proof (cases rule: EstablishTunnel_cases)
  case (failed e)
  then show ?thesis using assms(2,3) by (force simp: same_registry_def intro: authentic_mono)
next
  case (opened m hs t s1)
  let ?H = "(tokens, tdb (backend s), first) # H"
  have new: "authentic env ?H (new_stream t hs)" using authentic_new_stream opened(1-3) by metis
  show ?thesis
  proof (cases "ref = next_stream s1")
    case True
    then show ?thesis using new by (simp add: opened(6) register_stream_def)
  next
    case False
    then have "ref \<in> snd ` set (tunnelStreams s)"
      using assms(2) opened(4)
      by (auto dest!: set_alist_update simp: opened(6) register_stream_def new_stream_def same_registry_def)
    then show ?thesis using assms(3) opened(4) False by (force simp: opened(6) register_stream_def same_registry_def intro: authentic_mono)
  qed
qed

lemma server_step_inv:
  assumes "server_step env hs hs'" "accounted_inv env hs"
  shows "accounted_inv env hs'"
  using assms
proof (induction rule: server_step.induct)
  case (step_open tokens ip first s res s' H)
  then have "registry_inv s" "\<forall>ref \<in> snd ` set (tunnelStreams s). authentic env H (streams s ref)" by (simp_all add: accounted_inv_def)
  with EstablishTunnel_keeps [OF step_open.hyps] EstablishTunnel_authentic [OF step_open.hyps] show ?case
    unfolding accounted_inv_def fst_conv snd_conv by blast
next
  case (step_quiet s s' H)
  then have inv: "registry_inv s" "\<forall>ref \<in> snd ` set (tunnelStreams s). authentic env H (streams s ref)" by (simp_all add: accounted_inv_def)
  have k: "registry_inv s'" "shrinks s s'" using quiet_step_keeps [OF step_quiet(1) inv(1)] by simp_all
  then have "snd ` set (tunnelStreams s') \<subseteq> snd ` set (tunnelStreams s)" by (auto simp: shrinks_def)
  then show ?case using inv(2) k authentic_shrinks [OF k(2)] unfolding accounted_inv_def fst_conv snd_conv by blast
qed

interpretation grpc_registry: transition_system server_init "server_step env" "accounted_inv env"
  by unfold_locales (simp add: server_init_def accounted_inv_def registry_inv_def, rule server_step_inv)

text \<open>
  C2. Tenants are separated: whatever tunnels are opened, replaced and closed and whatever requests are
  proxied, the stream that serves a domain belongs to that domain, and it goes back to a handshake made
  in this run: its token was a live, unrevoked row of the token table at that moment, whose owner is the
  stream's user, and the stream's tunnel was an enabled row of the tunnel table, of that owner and of that
  domain, which is the domain the handshake asked for if it asked for one.
\<close>

theorem streams_authentic:
  assumes "reach server_init (server_step env) (H, s)" "active_stream s domain = Some ts"
  shows "ts_Domain ts = domain \<and>
    (\<exists>tokens db m hs a t. (tokens, db, Some m) \<in> set H \<and> m_Type m = Control (CtlHandshake hs) \<and>
       a \<in> set tokens \<and> tk_TokenHash a = token_hash (ge_sha env) (hs_Token hs) \<and> tk_RevokedAt a = None \<and>
       t \<in> set (db_rows db) \<and> t_IsEnabled t \<and> t_Domain t = domain \<and> (hs_Domain hs = [] \<or> hs_Domain hs = domain) \<and>
       t_UserID t = tk_UserID a \<and> ts_UserID ts = tk_UserID a \<and> ts_TunnelID ts = of_nat (t_ID t))"
proof -
  obtain ref where ref: "map_of (tunnelStreams s) domain = Some ref" "ts = streams s ref"
    using assms(2) by (auto simp: active_stream_def stream_of_def split: option.splits if_splits)
  have inv: "accounted_inv env (H, s)" using assms(1) by (rule grpc_registry.reach_invar)
  have dom: "ts_Domain ts = domain" using inv ref by (auto simp: accounted_inv_def registry_inv_def)
  have "authentic env H ts" using inv ref map_of_SomeD [OF ref(1)] by (force simp: accounted_inv_def)
  then obtain tokens db m hs t where h: "(tokens, db, Some m) \<in> set H" "m_Type m = Control (CtlHandshake hs)"
      "authenticateTunnel env tokens db hs = Inr t"
      "ts_Domain ts = t_Domain t" "ts_UserID ts = t_UserID t" "ts_TunnelID ts = of_nat (t_ID t)"
    unfolding authentic_def by blast
  obtain a where "a \<in> set tokens" "tk_TokenHash a = token_hash (ge_sha env) (hs_Token hs)" "tk_RevokedAt a = None"
      "t \<in> set (db_rows db)" "t_UserID t = tk_UserID a" "t_IsEnabled t" "hs_Domain hs = [] \<or> t_Domain t = hs_Domain hs"
    using Authenticate_sound [OF h(3) [unfolded authenticateTunnel_def]] by metis
  with h dom show ?thesis
    by (intro conjI exI [of _ tokens] exI [of _ db] exI [of _ m] exI [of _ hs] exI [of _ a] exI [of _ t]) auto
qed

section \<open>The life of a stream\<close>

lemma stream_of_close:
  "stream_of (close_tunnel env ref s) d = (if d = ts_Domain (streams s ref) then None else stream_of s d)"
proof -
  have "stream_of (close_tunnel env ref s) =
      stream_of (s\<lparr>tunnelStreams := AList.delete (ts_Domain (streams s ref)) (tunnelStreams s)\<rparr>)"
    by (rule same_registry_stream [OF close_registry])
  then show ?thesis by (simp add: stream_of_def go_simps)
qed

lemma streams_close [simp]: "streams (close_tunnel env ref s) = streams s"
  by (auto simp: close_tunnel_def configure_route_def Let_def split: option.split prod.split)

lemma stream_of_register:
  assumes "registry_inv s"
  shows "stream_of (register_stream ts s) d = (if d = ts_Domain ts then Some ts else stream_of s d)"
proof -
  have "map_of (tunnelStreams s) d \<noteq> Some (next_stream s)" using assms unfolding registry_inv_def by (metis less_irrefl)
  then show ?thesis by (cases "map_of (tunnelStreams s) d") (auto simp: stream_of_def register_stream_def go_simps)
qed


text \<open>
  A reconnecting client loses its tunnel: when a client opens a second stream for its domain before the
  server has noticed the end of the first, the close of the first removes the entry of the second,
  so that the domain is inactive although the second stream is connected.
\<close>

theorem reconnect_loses_stream:
  assumes "registry_inv s" "EstablishTunnel env tokens ip first s = (Inr old, s1)"
    and "EstablishTunnel env tokens' ip' first' s1 = (Inr new, s2)"
    and "ts_Domain (streams s2 old) = ts_Domain (streams s2 new)"
  shows "IsTunnelActive s2 (ts_Domain (streams s2 new)) \<and> old \<noteq> new \<and>
    ts_connected (streams (close_tunnel env old s2) new) \<and>
    \<not> IsTunnelActive (close_tunnel env old s2) (ts_Domain (streams s2 new))"
proof -
  obtain ts1 s0 where s0: "same_registry s s0" "old = next_stream s" "s1 = register_stream ts1 s0"
    using assms(2) by (cases rule: EstablishTunnel_cases) auto
  have inv1: "registry_inv s1" using EstablishTunnel_keeps [OF assms(2,1)] .
  have next1: "next_stream s1 = Suc old" using s0 by (simp add: register_stream_def same_registry_def)
  obtain ts s1' where n: "same_registry s1 s1'" "new = next_stream s1" "s2 = register_stream ts s1'" "ts_connected ts"
    using assms(3) by (cases rule: EstablishTunnel_cases) (auto simp: new_stream_def)
  have inv: "registry_inv s1'" using n(1) inv1 registry_inv_same by blast
  have new: "streams s2 new = ts" using n by (simp add: register_stream_def same_registry_def)
  then have "IsTunnelActive s2 (ts_Domain (streams s2 new))"
    using n(3,4) by (simp add: IsTunnelActive_def stream_of_register [OF inv])
  moreover have "\<not> IsTunnelActive (close_tunnel env old s2) (ts_Domain (streams s2 new))"
    using assms(4) by (simp add: IsTunnelActive_def stream_of_close)
  ultimately show ?thesis using new n(2,4) next1 by simp
qed

section \<open>Uploads and large downloads pass unchecked\<close>

text \<open>
  Uploads skip the checks: for a connected tunnel that the status cache says is disabled, or whose
  user the quota blocks, \<open>ProxyHTTPRequest\<close> sends nothing, but the same upload through
  \<open>ProxyHTTPRequestWithChunking\<close>, the entry point the router uses, is sent to the client whole.
\<close>

theorem uploads_skip_checks:
  assumes "active_stream s domain = Some ts" "\<not> cache_enabled s domain \<or> quota_blocks qdb now ts s"
    and "ToUpper (sr_Method req) \<in> {''POST'', ''PUT'', ''PATCH''}" "ReadFail \<notin> snd ` set (sr_Body req)"
    and "tr_ok tr = (\<lambda>_. True)" "tr_okEnd tr"
  shows "fst (ProxyHTTPRequest env qdb now domain req ip rid xchg s) = [] \<and>
    (\<exists>ds. fst (ProxyHTTPRequestWithChunking env qdb now domain req ip rid xchg tr s) =
       upload_start rid req ip # map (upload_chunk rid) ds @ [upload_end rid] \<and> concat ds = body_of (sr_Body req))"
proof -
  let ?s = "s\<lparr>totalRequests := totalRequests s + 1, concurrentReqs := concurrentReqs s + 1\<rparr>"
  obtain ms res s' where p: "proxy_request env qdb now domain req ip rid xchg ?s = (ms, res, s')" by (metis prod_cases3)
  have same: "active_stream ?s = active_stream s" "cache_enabled ?s = cache_enabled s"
    "quota_blocks qdb now ts ?s = quota_blocks qdb now ts s" for ts
    by (simp_all add: active_stream_def stream_of_def cache_enabled_def quota_blocks_def fun_eq_iff)
  from p have "ms = []"
  proof (cases rule: proxy_request_cases)
    case (passed ts' q req')
    then show ?thesis using assms(1,2) by (simp add: same)
  qed
  moreover obtain ds where "upload_loop (\<lambda>_. True) rid 1 (sr_Body req) = (None, map (upload_chunk rid) ds, map length ds)"
    "concat ds = body_of (sr_Body req)" using upload_loop_all [OF assms(4)] by blast
  ultimately show ?thesis
    using assms(1,3,5,6) p
    by (auto simp: ProxyHTTPRequest_def ProxyHTTPRequestWithChunking_def proxy_upload_def handleLargeFileUploadWithStreaming_def Let_def)
qed

section \<open>Who is charged\<close>

text \<open>
  A response can be charged to another tenant: when the response of a local service carries the
  header \<open>X-Forwarded-Host\<close> with the domain of any connected tunnel, its bytes are added to the traffic
  of that tunnel's user, whichever tunnel the response came through.
\<close>

theorem response_charges_named_tenant:
  assumes "usage s = Some u" "usage_inv u" "stream_of s victim = Some tv" "ts_UserID tv \<noteq> 0" "victim \<noteq> []"
    and "header_get (rs_Headers r) ''X-Forwarded-Host'' = victim" "rs_Body r \<noteq> []" "\<not> rs_IsChunked r"
  shows "\<exists>resp s' u'. sendRequestAndWaitResponse now ts (XReply (Some \<lparr>m_RequestId = rid, m_Type = HttpResponse r\<rparr>) evs) s = (Inr resp, s') \<and>
    usage s' = Some u' \<and>
    total BytesOutC (utc_day now, ts_UserID tv, ts_TunnelID tv) (map snd (records u')) =
      total BytesOutC (utc_day now, ts_UserID tv, ts_TunnelID tv) (map snd (records u)) + of_nat (length (rs_Body r))"
proof -
  obtain u' b where i: "Increment now (ts_UserID tv) (ts_TunnelID tv) victim 0 (of_nat (length (rs_Body r))) 0 u = (u', b)" by force
  from Increment_total [OF assms(2) this, of BytesOutC "(utc_day now, ts_UserID tv, ts_TunnelID tv)"]
  show ?thesis
    using assms i
    by (auto simp: sendRequestAndWaitResponse_def is_chunked_def grpcToHTTP_def response_domain_def count_usage_def amount_def
        key3_def Let_def)
qed

section \<open>Witnesses\<close>

definition demo_grpc_env :: "(unit, nat) grpc_env" where
  "demo_grpc_env = \<lparr>ge_service = None, ge_sha = demo_sha, ge_token_faults = (\<lambda>_. False), ge_faults = (\<lambda>_. False),
     ge_RateLimitRPM = 5000, ge_RateLimitBurst = 500, ge_NewLimiter = (\<lambda>rpm burst. nat burst), ge_Allow = (\<lambda>now l. (l > 0, l - 1))\<rparr>"

definition demo_server :: "(unit, nat) grpc_server" where
  "demo_server = \<lparr>tunnelStreams = [], streams = (\<lambda>_. \<lparr>ts_Domain = [], ts_TargetPort = 0, ts_TunnelID = 0, ts_UserID = 0,
      ts_ControlStream = None, ts_connected = False\<rparr>), next_stream = 0, totalRequests = 0, concurrentReqs = 0,
     totalResponses = 0, totalErrors = 0, timeoutErrors = 0, limiters = Map.empty, statusCache = None, quota = None,
     usage = Some \<lparr>records = [], lastFlush = 0\<rparr>, backend = \<lparr>tdb = demo_tdb, proxy = ()\<rparr>\<rparr>"

definition demo_hs :: tunnel_handshake where
  "demo_hs = \<lparr>hs_Token = EncodeToString demo_bytes, hs_Domain = [], hs_TargetPort = 0\<rparr>"

definition demo_open :: "(unit, nat) grpc_server" where
  "demo_open = register_stream (new_stream demo_tunnel demo_hs) demo_server"

definition demo_request :: server_request where
  "demo_request = \<lparr>sr_Method = ''POST'', sr_Path = ''/'', sr_RequestURI = ''/'', sr_Header = [], sr_Body = [(''x'', ReadEOF)]\<rparr>"

lemma demo_authenticate:
  "AuthenticateTunnelByToken demo_sha (\<lambda>_. False) (\<lambda>_. False) (EncodeToString demo_bytes) [] [demo_token] demo_tdb = Inr demo_tunnel"
  by (subst Authenticate_iff [OF demo_tdb_inv]) (simp_all add: demo_token_sel demo_tdb_def, simp add: demo_tunnel_def)

lemma demo_establish:
  assumes "tdb (backend s) = demo_tdb"
  shows "EstablishTunnel demo_grpc_env [demo_token] ''1.2.3.4'' (Some \<lparr>m_RequestId = [], m_Type = Control (CtlHandshake demo_hs)\<rparr>) s =
     (Inr (next_stream s), register_stream (new_stream demo_tunnel demo_hs) s)"
  using assms demo_authenticate
  by (simp add: EstablishTunnel_def authenticateTunnel_def demo_grpc_env_def demo_hs_def configure_route_def)

lemma demo_server_sel: "tdb (backend demo_server) = demo_tdb" "tunnelStreams demo_server = []" "next_stream demo_server = 0"
  by (simp_all add: demo_server_def)

lemma demo_inv: "registry_inv demo_server"
  by (simp add: registry_inv_def demo_server_sel)

lemma demo_stream: "stream_of demo_open ''a.example.com'' = Some (new_stream demo_tunnel demo_hs)"
  by (simp add: demo_open_def stream_of_register [OF demo_inv]) (simp add: new_stream_def demo_tunnel_def)

lemma demo_active: "active_stream demo_open ''a.example.com'' = Some (new_stream demo_tunnel demo_hs)"
  by (simp add: active_stream_def demo_stream) (simp add: new_stream_def)

definition demo_log :: handshake_log where
  "demo_log = [([demo_token], demo_tdb, Some \<lparr>m_RequestId = [], m_Type = Control (CtlHandshake demo_hs)\<rparr>)]"

lemma demo_reach_server: "reach server_init (server_step demo_grpc_env) (demo_log, demo_open)"
proof -
  have "reach server_init (server_step demo_grpc_env) ([], demo_server)"
    by (rule reach_init) (simp add: server_init_def demo_server_sel)
  then show ?thesis
    unfolding demo_open_def demo_log_def
    by (rule reach_step) (use step_open [OF demo_establish [OF demo_server_sel(1)]] demo_server_sel(1) in simp)
qed

theorem proxy_gate_witness:
  "fst (ProxyHTTPRequest demo_grpc_env demo_qdb 0 ''b.example.com'' demo_request [] ''r'' (\<lambda>_. XTimeout) demo_open) = []"
proof -
  obtain ms res s' where p: "ProxyHTTPRequest demo_grpc_env demo_qdb 0 ''b.example.com'' demo_request [] ''r'' (\<lambda>_. XTimeout) demo_open = (ms, res, s')"
    by (metis prod_cases3)
  have "active_stream demo_open ''b.example.com'' = None"
    by (simp add: active_stream_def demo_open_def stream_of_register [OF demo_inv])
       (simp add: new_stream_def demo_tunnel_def stream_of_def demo_server_sel)
  with proxy_gate [OF p] show ?thesis by (simp add: p)
qed

theorem streams_authentic_witness:
  "ts_Domain (new_stream demo_tunnel demo_hs) = ''a.example.com'' \<and> ts_UserID (new_stream demo_tunnel demo_hs) = tk_UserID demo_token"
  using streams_authentic [OF demo_reach_server demo_active] by (auto simp: demo_log_def)


theorem reconnect_loses_stream_witness:
  "\<not> IsTunnelActive (close_tunnel demo_grpc_env 0 (register_stream (new_stream demo_tunnel demo_hs) demo_open)) ''a.example.com''"
proof -
  have o: "tdb (backend demo_open) = demo_tdb" "next_stream demo_open = 1" "ts_Domain (streams demo_open 0) = ''a.example.com''"
    by (simp_all add: demo_open_def register_stream_def demo_server_sel) (simp add: new_stream_def demo_tunnel_def)
  have d: "ts_Domain (new_stream demo_tunnel demo_hs) = ''a.example.com''" by (simp add: new_stream_def demo_tunnel_def)
  show ?thesis
    using reconnect_loses_stream [OF demo_inv demo_establish [OF demo_server_sel(1)], folded demo_open_def, OF demo_establish [OF o(1)]] o d
    by (simp add: demo_server_sel register_stream_def)
qed

theorem uploads_skip_checks_witness:
  "fst (ProxyHTTPRequestWithChunking demo_grpc_env demo_qdb 0 ''a.example.com'' demo_request [] ''r'' (\<lambda>_. XTimeout)
     \<lparr>tr_ok = (\<lambda>_. True), tr_okEnd = True, tr_events = []\<rparr> (demo_open\<lparr>statusCache := Some Map.empty\<rparr>)) \<noteq> []"
proof -
  let ?s = "demo_open\<lparr>statusCache := Some Map.empty\<rparr>"
  have a: "active_stream ?s ''a.example.com'' = Some (new_stream demo_tunnel demo_hs)"
    using demo_active by (simp add: active_stream_def stream_of_def)
  have "\<not> cache_enabled ?s ''a.example.com''" by (simp add: cache_enabled_def)
  moreover have "ToUpper (sr_Method demo_request) = ''POST''" by (simp add: demo_request_def ToUpper_def to_upper_char_def Let_def)
  ultimately show ?thesis
    using uploads_skip_checks [OF a, where req = demo_request and tr = "\<lparr>tr_ok = (\<lambda>_. True), tr_okEnd = True, tr_events = []\<rparr>"
        and qdb = demo_qdb and now = 0 and env = demo_grpc_env and ip = "[]" and rid = "''r''" and xchg = "\<lambda>_. XTimeout"]
    by (auto simp: demo_request_def)
qed

theorem response_charges_named_tenant_witness:
  "\<exists>resp s' u'. sendRequestAndWaitResponse 0 (new_stream demo_tunnel demo_hs)
     (XReply (Some \<lparr>m_RequestId = ''r'', m_Type = HttpResponse \<lparr>rs_StatusCode = 200, rs_StatusText = ''200 OK'',
        rs_Headers = [(''X-Forwarded-Host'', ''a.example.com'')], rs_Body = ''abc'', rs_IsChunked = False, rs_ChunkId = []\<rparr>\<rparr>) []) demo_open =
     (Inr resp, s') \<and> usage s' = Some u' \<and> total BytesOutC (0, 5, 1) (map snd (records u')) = 3"
proof -
  have u: "usage demo_open = Some \<lparr>records = [], lastFlush = 0\<rparr>" by (simp add: demo_open_def register_stream_def demo_server_def)
  have i: "usage_inv \<lparr>records = [], lastFlush = 0\<rparr>" by (simp add: usage_inv_def)
  have v: "ts_UserID (new_stream demo_tunnel demo_hs) = 5" "ts_TunnelID (new_stream demo_tunnel demo_hs) = 1"
    by (simp_all add: new_stream_def demo_tunnel_def)
  show ?thesis
    using response_charges_named_tenant [OF u i demo_stream, where now = 0 and ts = "new_stream demo_tunnel demo_hs" and rid = "''r''" and evs = "[]"
      and r = "\<lparr>rs_StatusCode = 200, rs_StatusText = ''200 OK'', rs_Headers = [(''X-Forwarded-Host'', ''a.example.com'')],
        rs_Body = ''abc'', rs_IsChunked = False, rs_ChunkId = []\<rparr>"]
    by (simp add: v header_get_def utc_day_def)
qed

end
