(* ===== verification/Tcp_Server.thy ===== *)
theory Tcp_Server
  imports Connection_Manager Token_Service Quota
begin

text \<open>
  The TCP tunnel server (\<open>internal/tunnel/server.go\<close>) as the router uses it: the handshake that puts a
  connection into the pools of the connection manager, and the proxying of a WebSocket upgrade, which
  takes a pooled connection, uses it for one session and closes it. The client's
  connection is modelled by what is written to it until it is closed; writes after that are lost.
  What the network does in a session is an argument.
\<close>

section \<open>State\<close>

record 'c tcp_server =
  tcp_conns :: conn_manager
  tcp_net :: net_state
  tcp_usage :: "usage_service option"
  tcp_quota :: "quota_service option"
  tcp_backend :: "'c svc_state"

datatype written = HttpError int string | UpgradeResponse int | NotConnectedPage string | ProxiedResponse int string

record client_conn =
  cc_out :: "written list"
  cc_closed :: bool

definition cc_write :: "written \<Rightarrow> client_conn \<Rightarrow> client_conn" where
  "cc_write x cc = (if cc_closed cc then cc else cc\<lparr>cc_out := cc_out cc @ [x]\<rparr>)"

definition cc_close :: "client_conn \<Rightarrow> client_conn" where
  "cc_close cc = cc\<lparr>cc_closed := True\<rparr>"

section \<open>The handshake\<close>

record handshake_request =
  hr_Token :: string
  hr_Domain :: string
  hr_ConnectionType :: string

datatype handshake_result =
    BadHandshake | RejectedHandshake auth_error | NoClientIP | RouteFailed | ReplyFailed
  | Established string conn_type bool

text \<open>
  \<open>handleConnection\<close> up to the point where it blocks for ever. \<open>c\<close> is the accepted connection, which
  the deferred call closes when the handshake fails. The last component of \<^const>\<open>Established\<close> says
  whether the router is told of a new WebSocket tunnel.
\<close>

definition handleConnection ::
    "'c tunnel_service \<Rightarrow> sha256_fun \<Rightarrow> token_faults \<Rightarrow> api_token list \<Rightarrow> netconn \<Rightarrow> handshake_request option \<Rightarrow> string option
       \<Rightarrow> bool \<Rightarrow> bool \<Rightarrow> 'c tcp_server \<Rightarrow> handshake_result \<times> 'c tcp_server" where
  "handleConnection svc sha ft tokens c request clientIP replyOK callback s =
     (let closed = (\<lambda>r s. (r, s\<lparr>tcp_net := close_conn c (tcp_net s)\<rparr>))
      in case request of
           None \<Rightarrow> closed BadHandshake s
         | Some req \<Rightarrow>
             (case AuthenticateTunnelByToken sha ft (s_faults svc) (hr_Token req) (hr_Domain req) tokens (tdb (tcp_backend s)) of
                Inl e \<Rightarrow> closed (RejectedHandshake e) s
              | Inr t \<Rightarrow>
                  (case clientIP of
                     None \<Rightarrow> closed NoClientIP s
                   | Some ip \<Rightarrow>
                       (case UpdateClientIP svc (of_nat (t_ID t)) ip (tcp_backend s) of
                          (Inl e, b) \<Rightarrow> closed RouteFailed (s\<lparr>tcp_backend := b\<rparr>)
                        | (Inr _, b) \<Rightarrow>
                            (let s1 = s\<lparr>tcp_backend := b\<rparr>;
                                 connType = (if hr_ConnectionType req = ''websocket'' then ConnectionTypeWebSocket else ConnectionTypeHTTP)
                             in if \<not> replyOK then closed ReplyFailed s1
                                else let (p, m, w) = AddConnection (t_Domain t) c (t_TargetPort t) connType (t_UserID t)
                                                       (of_nat (t_ID t)) (tcp_conns s1) (tcp_net s1)
                                     in (Established (t_Domain t) connType (connType = ConnectionTypeWebSocket \<and> callback),
                                         s1\<lparr>tcp_conns := m, tcp_net := w\<rparr>))))))"

definition RemoveDeadConnection :: "string \<Rightarrow> 'c tcp_server \<Rightarrow> 'c tcp_server" where
  "RemoveDeadConnection domain s =
     (case GetWebSocketConnection domain (tcp_conns s) (tcp_net s) of
        (None, m) \<Rightarrow> s\<lparr>tcp_conns := m\<rparr>
      | (Some p, m) \<Rightarrow>
          (case RemoveSpecificWebSocketConnection domain p m (tcp_net s) of
             (m', w') \<Rightarrow> s\<lparr>tcp_conns := m', tcp_net := w'\<rparr>))"

section \<open>WebSocket sessions\<close>

text \<open>
  An upgrade calls the connection manager several times, and between two calls other goroutines use the
  manager: before the tunnel is looked up, before each poll for a new one, between looking the tunnel up and removing
  it from its pool, and while the session runs.
\<close>

datatype ws_gap = BeforeGet | BeforePoll nat | BeforeRemove | InSession

text \<open>
  One upgrade: the callback that asks the client for a new tunnel (absent when it is not set; its
  result is an error text), what others do to the pools in each gap, the results of writing the request to the
  tunnel, reading the answer (an error text or a status) and writing it to the client, and the bytes copied in each direction.
\<close>

record ws_env =
  we_callback :: "(string \<Rightarrow> string option) option"
  we_others :: "ws_gap \<Rightarrow> conn_manager \<times> net_state \<Rightarrow> conn_manager \<times> net_state"
  we_write :: "string option"
  we_answer :: "string + int"
  we_client_ok :: bool
  we_bytes_in :: nat
  we_bytes_out :: nat

definition quota_check :: "quota_db \<Rightarrow> time \<Rightarrow> string \<Rightarrow> 'c tcp_server \<Rightarrow> bool \<times> 'c tcp_server" where
  "quota_check qdb now domain s =
     (case tcp_quota s of
        None \<Rightarrow> (False, s)
      | Some q \<Rightarrow>
          (case GetDomainOwner (tcp_conns s) domain of
             (uid, _, ok) \<Rightarrow>
               if \<not> ok then (False, s)
               else case CheckUser qdb now uid q of (res, q') \<Rightarrow> (Decision res = QuotaBlock, s\<lparr>tcp_quota := Some q'\<rparr>)))"

definition set_pools :: "conn_manager \<times> net_state \<Rightarrow> 'c tcp_server \<Rightarrow> 'c tcp_server" where
  "set_pools mw s = s\<lparr>tcp_conns := fst mw, tcp_net := snd mw\<rparr>"

definition others_act :: "ws_env \<Rightarrow> ws_gap \<Rightarrow> 'c tcp_server \<Rightarrow> 'c tcp_server" where
  "others_act e g s = set_pools (we_others e g (tcp_conns s, tcp_net s)) s"

text \<open>The polling loop: every 50 ms for at most 5 seconds, that is \<open>n = 100\<close> polls.\<close>

fun poll_tunnel :: "ws_env \<Rightarrow> string \<Rightarrow> nat \<Rightarrow> nat \<Rightarrow> 'c tcp_server \<Rightarrow> tc_ptr option \<times> 'c tcp_server" where
  "poll_tunnel e domain k 0 s = (None, s)"
| "poll_tunnel e domain k (Suc n) s =
     (let s1 = others_act e (BeforePoll k) s
      in case GetWebSocketConnection domain (tcp_conns s1) (tcp_net s1) of
           (Some p, m) \<Rightarrow> (Some p, s1\<lparr>tcp_conns := m\<rparr>)
         | (None, m) \<Rightarrow> poll_tunnel e domain (Suc k) n (s1\<lparr>tcp_conns := m\<rparr>))"

definition acquire_tunnel :: "ws_env \<Rightarrow> string \<Rightarrow> 'c tcp_server \<Rightarrow> ((int \<times> string \<times> string) + tc_ptr) \<times> 'c tcp_server" where
  "acquire_tunnel e domain s =
     (let s0 = others_act e BeforeGet s
      in case GetWebSocketConnection domain (tcp_conns s0) (tcp_net s0) of
        (Some p, m) \<Rightarrow> (Inr p, s0\<lparr>tcp_conns := m\<rparr>)
      | (None, m) \<Rightarrow>
          (let s1 = s0\<lparr>tcp_conns := m\<rparr>
           in case we_callback e of
                None \<Rightarrow> (Inl (502, ''Bad Gateway - WebSocket tunnel not connected'', ''no WebSocket tunnel connection found''), s1)
              | Some request \<Rightarrow>
                  (case request domain of
                     Some err \<Rightarrow> (Inl (502, ''Bad Gateway - Failed to request WebSocket tunnel'', ''failed to request WebSocket tunnel: '' @ err), s1)
                   | None \<Rightarrow>
                       (case poll_tunnel e domain 0 100 s1 of
                          (Some p, s2) \<Rightarrow> (Inr p, s2)
                        | (None, s2) \<Rightarrow> (Inl (504, ''Gateway Timeout - WebSocket tunnel establishment timeout'',
                            ''timeout waiting for WebSocket tunnel establishment''), s2)))))"

text \<open>The two copies at their end: the owner is looked up in the pools of the domain.\<close>

definition count_copied :: "time \<Rightarrow> string \<Rightarrow> nat \<Rightarrow> nat \<Rightarrow> nat \<Rightarrow> 'c tcp_server \<Rightarrow> 'c tcp_server" where
  "count_copied now domain bytesIn bytesOut requests s =
     (case GetDomainOwner (tcp_conns s) domain of
        (uid, tid, ok) \<Rightarrow>
          if ok \<and> bytesIn + bytesOut > 0
          then s\<lparr>tcp_usage := map_option (\<lambda>u. fst (Increment now uid tid domain (of_nat bytesIn) (of_nat bytesOut) (of_nat requests) u)) (tcp_usage s)\<rparr>
          else s)"

definition copy_both :: "ws_env \<Rightarrow> time \<Rightarrow> string \<Rightarrow> 'c tcp_server \<Rightarrow> 'c tcp_server" where
  "copy_both e now domain s = count_copied now domain 0 (we_bytes_out e) 1 (count_copied now domain (we_bytes_in e) 0 0 s)"

definition err_if :: "bool \<Rightarrow> string \<Rightarrow> string option" where
  "err_if returnError msg = (if returnError then Some msg else None)"

definition ws_session ::
    "ws_env \<Rightarrow> time \<Rightarrow> string \<Rightarrow> bool \<Rightarrow> 'c tcp_server \<Rightarrow> client_conn \<Rightarrow> string option \<times> 'c tcp_server \<times> client_conn" where
  "ws_session e now domain returnError s cc =
     (case we_write e of
        Some err \<Rightarrow>
          if Contains err ''broken pipe'' \<or> Contains err ''connection reset''
          then (Some (''failed to write upgrade request to tunnel: '' @ err), s, cc)
          else (err_if returnError (''failed to write upgrade request to tunnel: '' @ err), s, cc_write (HttpError 502 ''Bad Gateway'') cc)
      | None \<Rightarrow>
          (case we_answer e of
             Inl err \<Rightarrow>
               if Contains err ''malformed HTTP response'' then (None, copy_both e now domain s, cc)
               else (err_if returnError (''failed to read upgrade response from tunnel: '' @ err), s, cc_write (HttpError 502 ''Bad Gateway'') cc)
           | Inr status \<Rightarrow>
               if \<not> we_client_ok e then (err_if returnError ''failed to write upgrade response to client'', s, cc)
               else let cc' = cc_write (UpgradeResponse status) cc
                    in if status \<noteq> 101 then (err_if returnError ''WebSocket upgrade failed with status'', s, cc')
                       else (None, copy_both e now domain s, cc')))"

definition take_tunnel :: "string \<Rightarrow> tc_ptr \<Rightarrow> 'c tcp_server \<Rightarrow> 'c tcp_server" where
  "take_tunnel domain p s = set_pools (RemoveSpecificWebSocketConnectionWithoutClosing domain p (tcp_conns s) (tcp_net s)) s"

text \<open>The deferred calls close the tunnel connection and the client's connection on every path.\<close>

definition proxyWebSocketConnectionInternal ::
    "quota_db \<Rightarrow> ws_env \<Rightarrow> time \<Rightarrow> string \<Rightarrow> bool \<Rightarrow> 'c tcp_server \<Rightarrow> client_conn \<Rightarrow> string option \<times> 'c tcp_server \<times> client_conn" where
  "proxyWebSocketConnectionInternal qdb e now domain returnError s cc =
     (let (blocked, s0) = quota_check qdb now domain s
      in if blocked then (err_if returnError ''quota exceeded'', s0, cc_close (cc_write (HttpError 402 ''Quota exceeded'') cc))
         else if GetWebSocketPoolSize (tcp_conns s0) domain \<ge> MaxWebSocketTunnelsPerDomain
         then (err_if returnError ''WebSocket tunnel limit reached'', s0,
               cc_close (cc_write (HttpError 503 ''Service Unavailable - Too many concurrent WebSocket connections'') cc))
         else case acquire_tunnel e domain s0 of
                (Inl (code, msg, err), s1) \<Rightarrow> (err_if returnError err, s1, cc_close (cc_write (HttpError code msg) cc))
              | (Inr p, s1) \<Rightarrow>
                  (let s2 = take_tunnel domain p (others_act e BeforeRemove s1)
                   in case ws_session e now domain returnError (others_act e InSession s2) cc of
                        (err, s3, cc1) \<Rightarrow> (err, s3\<lparr>tcp_net := tc_Close p (tcp_net s3)\<rparr>, cc_close cc1)))"

section \<open>What a session does to the pools\<close>

lemma GetWebSocketConnection_some:
  assumes "cm_inv (m, w)" "cm_ws m d \<noteq> []"
  obtains p m' where "GetWebSocketConnection d m w = (Some p, m')" "p \<in> set (cm_ws m d)" "tc_GetConn w p \<noteq> None"
    "cm_ws m' = cm_ws m" "cm_http m' = cm_http m" "GetDomainOwner m' = GetDomainOwner m"
proof -
  obtain dc where dc: "map_of m d = Some dc" "connections (wsPool dc) \<noteq> []"
    using assms(2) by (auto simp: cm_ws_def split: option.splits)
  obtain r pool b where g: "pool_GetConnection w (wsPool dc) = (r, pool, b)" by (metis prod_cases3)
  let ?p = "connections (wsPool dc) ! unat ((roundRobin (wsPool dc) + 1) mod of_nat (length (connections (wsPool dc))))"
  have "?p \<in> set (connections (wsPool dc))"
    using pool_index_bound [of "length (connections (wsPool dc))" "roundRobin (wsPool dc) + 1"] dc(2) by simp
  then have "tc_GetConn w ?p \<noteq> None" using cm_invE(2) [OF assms(1) dc(1), of ?p] by (simp add: dc_ptrs_def)
  then obtain p where p: "r = Some p" using g dc(2) by (auto simp: pool_GetConnection_def Let_def)
  let ?m = "AList.update d (dc\<lparr>wsPool := pool\<rparr>) m"
  note f = pool_GetConnection_frame(1) [OF g] pool_GetConnection_member [OF g [unfolded p]]
  have "GetWebSocketConnection d m w = (Some p, ?m)"
    using dc g p by (simp add: GetWebSocketConnection_def GetConnection_def)
  moreover have "cm_ws ?m = cm_ws m" "cm_http ?m = cm_http m" "GetDomainOwner ?m = GetDomainOwner m"
    using f dc by (auto simp: cm_ws_def cm_http_def GetDomainOwner_def map_of_update fun_eq_iff)
  ultimately show thesis using that f dc by (simp add: cm_ws_def)
qed

lemma contents_TakeWS:
  "cm_ws (fst (RemoveSpecificWebSocketConnectionWithoutClosing d p m w)) = (cm_ws m)(d := remove1 p (cm_ws m d))"
  "cm_http (fst (RemoveSpecificWebSocketConnectionWithoutClosing d p m w)) = cm_http m"
  "snd (RemoveSpecificWebSocketConnectionWithoutClosing d p m w) = w"
proof (atomize (full), cases "map_of m d")
  case (Some dc)
  then show "cm_ws (fst (RemoveSpecificWebSocketConnectionWithoutClosing d p m w)) = (cm_ws m)(d := remove1 p (cm_ws m d)) \<and>
    cm_http (fst (RemoveSpecificWebSocketConnectionWithoutClosing d p m w)) = cm_http m \<and>
    snd (RemoveSpecificWebSocketConnectionWithoutClosing d p m w) = w"
    by (simp add: RemoveSpecificWebSocketConnectionWithoutClosing_def contents_drop_if_empty tp.contents_remove)
       (auto simp: cm_http_def cm_ws_def fun_eq_iff drop_if_empty_def pool_Close_def pool_Size_def)
qed (auto simp: RemoveSpecificWebSocketConnectionWithoutClosing_def cm_http_def cm_ws_def fun_eq_iff)

lemma count_copied_frame [simp]: "tcp_conns (count_copied now d i out r s) = tcp_conns s" "tcp_net (count_copied now d i out r s) = tcp_net s"
  by (auto simp: count_copied_def split: prod.split)

lemma ws_session_frame:
  assumes "ws_session e now d returnError s cc = (err, s', cc')"
  shows "tcp_conns s' = tcp_conns s" "tcp_net s' = tcp_net s"
  using assms by (auto simp: ws_session_def copy_both_def Let_def split: option.splits sum.splits if_splits)

lemma quota_check_frame: "quota_check qdb now d s = (b, s') \<Longrightarrow> tcp_conns s' = tcp_conns s \<and> tcp_net s' = tcp_net s \<and> tcp_usage s' = tcp_usage s"
  by (auto simp: quota_check_def split: option.splits prod.splits if_splits)

lemma pool_size_ws: "GetWebSocketPoolSize m d = length (cm_ws m d)"
  by (simp add: GetWebSocketPoolSize_def cm_ws_def pool_Size_def split: option.split)

lemma proxy_ws_unfold:
  assumes "cm_inv (tcp_conns s, tcp_net s)" "\<not> fst (quota_check qdb now d s)"
    and "cm_ws (tcp_conns s) d \<noteq> []" "length (cm_ws (tcp_conns s) d) < MaxWebSocketTunnelsPerDomain"
    and "we_others e = (\<lambda>_ mw. mw)"
  obtains (taken) p c m0 s0 m where "p \<in> set (cm_ws (tcp_conns s) d)" "tc_GetConn (tcp_net s) p = Some c"
    "tcp_usage s0 = tcp_usage s" "tcp_net s0 = tcp_net s" "tcp_conns s0 = m"
    "cm_ws m = (cm_ws (tcp_conns s))(d := remove1 p (cm_ws (tcp_conns s) d))" "cm_http m = cm_http (tcp_conns s)"
    "m = fst (RemoveSpecificWebSocketConnectionWithoutClosing d p m0 (tcp_net s))" "cm_ws m0 = cm_ws (tcp_conns s)" "cm_http m0 = cm_http (tcp_conns s)"
    "\<And>returnError cc. proxyWebSocketConnectionInternal qdb e now d returnError s cc =
       (case ws_session e now d returnError s0 cc of (err, s2, cc1) \<Rightarrow> (err, s2\<lparr>tcp_net := tc_Close p (tcp_net s2)\<rparr>, cc_close cc1))"
proof -
  obtain sq where q: "quota_check qdb now d s = (False, sq)" using assms(2) by (cases "quota_check qdb now d s") auto
  note qf = quota_check_frame [OF q]
  obtain p m0 where g: "GetWebSocketConnection d (tcp_conns s) (tcp_net s) = (Some p, m0)" "p \<in> set (cm_ws (tcp_conns s) d)"
    "tc_GetConn (tcp_net s) p \<noteq> None" "cm_ws m0 = cm_ws (tcp_conns s)" "cm_http m0 = cm_http (tcp_conns s)"
    using GetWebSocketConnection_some [OF assms(1,3)] by metis
  then obtain c where c: "tc_GetConn (tcp_net s) p = Some c" by blast
  obtain m where t: "RemoveSpecificWebSocketConnectionWithoutClosing d p m0 (tcp_net s) = (m, tcp_net s)"
    using contents_TakeWS(3) [of d p m0 "tcp_net s"] by (metis prod.collapse)
  let ?s0 = "sq\<lparr>tcp_conns := m, tcp_net := tcp_net s\<rparr>"
  have "proxyWebSocketConnectionInternal qdb e now d returnError s cc =
       (case ws_session e now d returnError ?s0 cc of (err, s2, cc1) \<Rightarrow> (err, s2\<lparr>tcp_net := tc_Close p (tcp_net s2)\<rparr>, cc_close cc1))"
    for returnError cc
    using assms(4,5) qf g(1)
    by (simp add: proxyWebSocketConnectionInternal_def q pool_size_ws acquire_tunnel_def others_act_def take_tunnel_def set_pools_def t)
  moreover have "cm_ws m = (cm_ws (tcp_conns s))(d := remove1 p (cm_ws (tcp_conns s) d))" "cm_http m = cm_http (tcp_conns s)"
    using contents_TakeWS(1,2) [of d p m0 "tcp_net s"] unfolding t g(4,5) by simp_all
  moreover have "m = fst (RemoveSpecificWebSocketConnectionWithoutClosing d p m0 (tcp_net s))" unfolding t by simp
  moreover have "tcp_usage ?s0 = tcp_usage s" "tcp_net ?s0 = tcp_net s" "tcp_conns ?s0 = m" using qf by simp_all
  ultimately show thesis by (intro that [OF g(2) c _ _ _ _ _ _ g(4,5)])
qed

text \<open>What others may do in a gap: any calls of the connection manager, in any order.\<close>

definition managed :: "ws_env \<Rightarrow> bool" where
  "managed e \<longleftrightarrow> (\<forall>g mw. cm_step\<^sup>*\<^sup>* mw (we_others e g mw))"

abbreviation pools :: "'c tcp_server \<Rightarrow> conn_manager \<times> net_state" where
  "pools s \<equiv> (tcp_conns s, tcp_net s)"

lemma managed_act: "managed e \<Longrightarrow> cm_step\<^sup>*\<^sup>* (pools s) (pools (others_act e g s))"
  by (simp add: managed_def others_act_def set_pools_def)

lemma get_steps:
  assumes "managed e" "GetWebSocketConnection d (tcp_conns (others_act e g s)) (tcp_net (others_act e g s)) = (r, m)"
  shows "cm_step\<^sup>*\<^sup>* (pools s) (m, tcp_net (others_act e g s))"
  using managed_act [OF assms(1), of s g] step_get [OF assms(2) [unfolded GetWebSocketConnection_def]] by (rule rtranclp.rtrancl_into_rtrancl)

lemma poll_tunnel_some:
  assumes "managed e" "poll_tunnel e d k n s = (Some p, s')"
  shows "\<exists>m w. cm_step\<^sup>*\<^sup>* (pools s) (m, w) \<and> GetWebSocketConnection d m w = (Some p, tcp_conns s') \<and> tcp_net s' = w"
  using assms(2)
proof (induction n arbitrary: k s)
  case (Suc n)
  let ?s1 = "others_act e (BeforePoll k) s"
  obtain r m where g: "GetWebSocketConnection d (tcp_conns ?s1) (tcp_net ?s1) = (r, m)" by force
  show ?case
  proof (cases r)
    case None
    then have "poll_tunnel e d (Suc k) n (?s1\<lparr>tcp_conns := m\<rparr>) = (Some p, s')" using Suc.prems g by simp
    from Suc.IH [OF this] get_steps [OF assms(1) g] show ?thesis by (auto intro: rtranclp_trans)
  next
    case (Some q)
    then show ?thesis using Suc.prems g managed_act [OF assms(1), of s "BeforePoll k"] by auto
  qed
qed simp

lemma acquire_tunnel_some:
  assumes "managed e" "acquire_tunnel e d s = (Inr p, s')"
  shows "\<exists>m w. cm_step\<^sup>*\<^sup>* (pools s) (m, w) \<and> GetWebSocketConnection d m w = (Some p, tcp_conns s') \<and> tcp_net s' = w"
proof -
  let ?s0 = "others_act e BeforeGet s"
  obtain r m where g: "GetWebSocketConnection d (tcp_conns ?s0) (tcp_net ?s0) = (r, m)" by force
  show ?thesis
  proof (cases r)
    case None
    then have "poll_tunnel e d 0 100 (?s0\<lparr>tcp_conns := m\<rparr>) = (Some p, s')"
      using assms(2) g by (auto simp: acquire_tunnel_def Let_def simp del: poll_tunnel.simps split: option.splits prod.splits)
    from poll_tunnel_some [OF assms(1) this] get_steps [OF assms(1) g] show ?thesis by (auto intro: rtranclp_trans)
  next
    case (Some q)
    then show ?thesis using assms(2) g managed_act [OF assms(1), of s BeforeGet] by (auto simp: acquire_tunnel_def)
  qed
qed

text \<open>The HTTP pools only ever gain new connections, so a WebSocket tunnel is never in one of them.\<close>

lemma http_step:
  assumes "cm_step (m, w) (m', w')"
  shows "set (cm_http m' d) \<subseteq> insert (tc_next w) (set (cm_http m d))"
  using assms
proof cases
  case (step_add d' c port ty uid tid r)
  then show ?thesis
    by (cases "map_of m d'")
       (auto simp: AddConnection_def pool_AddConnection_def NewTunnelConnection_def pool_append_def new_domain_conns_def
         NewTunnelConnectionPool_def set_owner_def cm_http_def map_of_update Let_def split: conn_type.splits if_splits)
next
  case (step_remove d' ty)
  then show ?thesis
    by (auto simp: RemoveConnection_def drop_if_empty_def cm_http_def map_of_update map_of_delete split: option.splits if_splits)
next
  case (step_remove_http d' p)
  then have "m' = fst (RemoveSpecificHTTPConnection d' p m w)" by simp
  then show ?thesis using set_remove1_subset [of p "cm_http m d'"] by (auto simp: contents_RemoveHTTP)
next
  case (step_remove_ws d' p)
  then have "m' = fst (RemoveSpecificWebSocketConnection d' p m w)" by simp
  then show ?thesis by (auto simp: contents_RemoveWS)
next
  case (step_take_ws d' p)
  then have "m' = fst (RemoveSpecificWebSocketConnectionWithoutClosing d' p m w)" by simp
  then show ?thesis by (auto simp: contents_TakeWS)
next
  case (step_get d' ty r)
  then show ?thesis
    by (cases "map_of m d'"; cases ty)
       (auto simp: GetConnection_def cm_http_def map_of_update pool_GetConnection_frame(1) split: conn_type.splits prod.splits if_splits)
next
  case (step_cleanup rd st)
  note f = CleanupDeadConnections_spec [OF step_cleanup(1)]
  have "map_of m' d = map_option (clean_dc rd w) (map_of m d)" using f by (simp add: map_of_map)
  then show ?thesis by (auto simp: cm_http_def clean_dc_def split: option.split)
next
  case step_close
  then have "m' = []" by (induction m w rule: cm_Close.induct) (auto simp: pool_Close_def)
  then show ?thesis by (simp add: cm_http_def)
qed (auto simp: cm_http_def)

lemma http_steps:
  assumes "cm_step\<^sup>*\<^sup>* s t" "p < tc_next (snd s)" "p \<notin> set (cm_http (fst s) d)"
  shows "p \<notin> set (cm_http (fst t) d)"
  using assms
proof (induction rule: rtranclp_induct)
  case (step t u)
  then show ?case using http_step [of "fst t" "snd t" "fst u" "snd u" d] handle_steps [OF step.hyps(1) assms(2)] by force
qed simp

lemma take_unpooled:
  assumes "cm_inv (m, w)" "tc_GetDomain w p = Some d" "p \<notin> set (cm_http m d)"
    and "RemoveSpecificWebSocketConnectionWithoutClosing d p m w = (m1, w1)"
  shows "p \<notin> pooled m1"
proof
  assume "p \<in> pooled m1"
  then obtain d' where at: "p \<in> set (cm_http m1 d') \<or> p \<in> set (cm_ws m1 d')"
    by (auto simp: pooled_def cm_http_def cm_ws_def dc_ptrs_def split: option.splits) (metis option.case(2))+
  have m1: "cm_http m1 = cm_http m" "cm_ws m1 = (cm_ws m)(d := remove1 p (cm_ws m d))"
    using contents_TakeWS [of d p m w] assms(4) by simp_all
  have "d' = d"
  proof (rule ccontr)
    assume "d' \<noteq> d"
    then have "p \<in> set (cm_http m d') \<or> p \<in> set (cm_ws m d')" using at m1 by auto
    then obtain dc where "map_of m d' = Some dc" "p \<in> set (dc_ptrs dc)"
      by (cases "map_of m d'") (auto simp: cm_http_def cm_ws_def dc_ptrs_def)
    from cm_invE(1) [OF assms(1) this] assms(2) \<open>d' \<noteq> d\<close> show False by simp
  qed
  moreover have "distinct (cm_ws m d)"
    using cm_inv_lookup [OF assms(1)] by (auto simp: cm_ws_def dc_ok_def dc_ptrs_def split: option.split)
  ultimately show False using at m1 assms(3) by simp
qed

lemma Get_contents:
  assumes "GetWebSocketConnection d m w = (r, m')"
  shows "cm_ws m' = cm_ws m" "cm_http m' = cm_http m" "r = Some p \<Longrightarrow> p \<in> set (cm_ws m d)"
proof (atomize (full), cases "map_of m d")
  case (Some dc)
  obtain r1 pool b where g: "pool_GetConnection w (wsPool dc) = (r1, pool, b)" by (rule prod_cases3)
  note f = pool_GetConnection_frame(1) [OF g]
  have "p \<in> set (connections (wsPool dc))" if "r1 = Some p" using pool_GetConnection_member g that by blast
  then show "cm_ws m' = cm_ws m \<and> cm_http m' = cm_http m \<and> (r = Some p \<longrightarrow> p \<in> set (cm_ws m d))"
    using assms Some g f by (auto simp: GetWebSocketConnection_def GetConnection_def cm_ws_def cm_http_def map_of_update fun_eq_iff)
qed (use assms in \<open>auto simp: GetWebSocketConnection_def GetConnection_def cm_ws_def\<close>)

lemma others_alone: "we_others e = (\<lambda>_ mw. mw) \<Longrightarrow> others_act e g s = s"
  by (simp add: others_act_def set_pools_def)

lemma poll_alone:
  assumes "we_others e = (\<lambda>_ mw. mw)" "poll_tunnel e d k n s = (r, s')"
  shows "cm_ws (tcp_conns s') = cm_ws (tcp_conns s) \<and> cm_http (tcp_conns s') = cm_http (tcp_conns s) \<and>
    (\<forall>p. r = Some p \<longrightarrow> p \<in> set (cm_ws (tcp_conns s) d))"
  using assms(2)
proof (induction n arbitrary: k s)
  case (Suc n)
  obtain r1 m where g: "GetWebSocketConnection d (tcp_conns s) (tcp_net s) = (r1, m)" by force
  show ?case
  proof (cases r1)
    case None
    then show ?thesis using Suc.IH [of "Suc k" "s\<lparr>tcp_conns := m\<rparr>"] Suc.prems g Get_contents [OF g] by (simp add: others_alone [OF assms(1)])
  next
    case (Some q)
    then show ?thesis using Suc.prems g Get_contents [OF g] by (auto simp: others_alone [OF assms(1)])
  qed
qed simp

lemma acquire_alone:
  assumes "we_others e = (\<lambda>_ mw. mw)" "acquire_tunnel e d s = (Inr p, s')"
  shows "cm_ws (tcp_conns s') = cm_ws (tcp_conns s)" "cm_http (tcp_conns s') = cm_http (tcp_conns s)" "p \<in> set (cm_ws (tcp_conns s) d)"
proof (atomize (full))
  obtain r m where g: "GetWebSocketConnection d (tcp_conns s) (tcp_net s) = (r, m)" by force
  show "cm_ws (tcp_conns s') = cm_ws (tcp_conns s) \<and> cm_http (tcp_conns s') = cm_http (tcp_conns s) \<and> p \<in> set (cm_ws (tcp_conns s) d)"
  proof (cases r)
    case None
    then have "poll_tunnel e d 0 100 (s\<lparr>tcp_conns := m\<rparr>) = (Some p, s')"
      using assms(2) g
      by (auto simp: acquire_tunnel_def Let_def others_alone [OF assms(1)] simp del: poll_tunnel.simps split: option.splits prod.splits)
    from poll_alone [OF assms(1) this] Get_contents [OF g] show ?thesis by simp
  next
    case (Some q)
    then show ?thesis using assms(2) g Get_contents [OF g] by (auto simp: acquire_tunnel_def others_alone [OF assms(1)])
  qed
qed

lemma session_end:
  assumes "quota_check qdb now d s = (False, s0)" "GetWebSocketPoolSize (tcp_conns s0) d < MaxWebSocketTunnelsPerDomain"
    and "acquire_tunnel e d s0 = (Inr p, s1)" "proxyWebSocketConnectionInternal qdb e now d returnError s cc = (err, s', cc')"
  defines "s4 \<equiv> others_act e InSession (take_tunnel d p (others_act e BeforeRemove s1))"
  shows "tcp_conns s' = tcp_conns s4" "tcp_net s' = tc_Close p (tcp_net s4)" "cc_closed cc'"
proof -
  obtain err2 s5 cc2 where w: "ws_session e now d returnError s4 cc = (err2, s5, cc2)" by (metis prod_cases3)
  have "s' = s5\<lparr>tcp_net := tc_Close p (tcp_net s5)\<rparr>" "cc' = cc_close cc2"
    using assms(1-4) w by (simp_all add: proxyWebSocketConnectionInternal_def s4_def)
  then show "tcp_conns s' = tcp_conns s4" "tcp_net s' = tc_Close p (tcp_net s4)" "cc_closed cc'"
    using ws_session_frame [OF w] by (simp_all add: cc_close_def)
qed

lemma acquired_tunnel:
  assumes "cm_inv (pools s)" "managed e" "acquire_tunnel e d s = (Inr p, s1)"
  shows "cm_inv (pools s1)" "p < tc_next (tcp_net s1)" "tc_GetDomain (tcp_net s1) p = Some d" "tc_GetConn (tcp_net s1) p \<noteq> None"
    "p \<notin> set (cm_http (tcp_conns s1) d)"
proof -
  obtain m w where a: "cm_step\<^sup>*\<^sup>* (pools s) (m, w)" "GetWebSocketConnection d m w = (Some p, tcp_conns s1)" "tcp_net s1 = w"
    using acquire_tunnel_some [OF assms(2,3)] by blast
  have inv: "cm_inv (m, w)" using cm.steps_invar [OF a(1) assms(1)] .
  have "p \<in> set (cm_ws m d)" using Get_contents(3) [OF a(2)] by simp
  then obtain dc where dc: "map_of m d = Some dc" "p \<in> set (connections (wsPool dc))" by (cases "map_of m d") (auto simp: cm_ws_def)
  then have "p \<notin> set (cm_http m d)" "p \<in> set (dc_ptrs dc)"
    using cm_inv_lookup [OF inv dc(1)] by (auto simp: cm_http_def dc_ok_def dc_ptrs_def)
  then have "p < tc_next w \<and> tc_GetDomain w p = Some d \<and> tc_GetConn w p \<noteq> None \<and> p \<notin> set (cm_http (tcp_conns s1) d)"
    using cm_invE [OF inv dc(1)] Get_contents(2) [OF a(2)] by simp
  then show "p < tc_next (tcp_net s1)" "tc_GetDomain (tcp_net s1) p = Some d" "tc_GetConn (tcp_net s1) p \<noteq> None"
    "p \<notin> set (cm_http (tcp_conns s1) d)" by (simp_all add: a(3))
  show "cm_inv (pools s1)" using cm_step_inv [OF step_get [OF a(2) [unfolded GetWebSocketConnection_def]] inv] by (simp add: a(3))
qed

text \<open>
  C18. A WebSocket session uses up exactly one tunnel, whatever other goroutines do to the pools between its own calls
  of the manager: the tunnel it was handed, from the pool at once or by polling, is one of its domain; when the session
  ends, successful or not, the handle of that tunnel is closed, as is the client's connection, and the
  manager never hands the tunnel out again. When nobody else uses the manager meanwhile, exactly that tunnel
  has left the pool of the domain and every other pool is as it was. Between the hand-out and the removal
  from the pool the tunnel is not protected (\<open>upgrades_share_tunnel\<close>).
\<close>

theorem ws_session_uses_one_tunnel:
  assumes "cm_inv (pools s)" "managed e" "quota_check qdb now d s = (False, s0)"
    and "GetWebSocketPoolSize (tcp_conns s0) d < MaxWebSocketTunnelsPerDomain" "acquire_tunnel e d s0 = (Inr p, s1)"
    and "proxyWebSocketConnectionInternal qdb e now d returnError s cc = (err, s', cc')"
  shows "(\<exists>c cs. tc_GetDomain (tcp_net s1) p = Some d \<and> tc_GetConn (tcp_net s1) p = Some c \<and> closed_conns (tcp_net s') = cs @ [c]) \<and>
    cc_closed cc' \<and>
    (\<forall>m w d' ty. cm_step\<^sup>*\<^sup>* (pools s') (m, w) \<longrightarrow> fst (GetConnection d' ty m w) \<noteq> Some p) \<and>
    (we_others e = (\<lambda>_ mw. mw) \<longrightarrow> p \<in> set (cm_ws (tcp_conns s) d) \<and>
       cm_ws (tcp_conns s') = (cm_ws (tcp_conns s))(d := remove1 p (cm_ws (tcp_conns s) d)) \<and> cm_http (tcp_conns s') = cm_http (tcp_conns s))"
proof -
  let ?s2 = "others_act e BeforeRemove s1"
  let ?s3 = "take_tunnel d p ?s2"
  let ?s4 = "others_act e InSession ?s3"
  note q = quota_check_frame [OF assms(3)] and fin = session_end [OF assms(3-6)]
  have inv0: "cm_inv (pools s0)" using assms(1) q by simp
  note a = acquired_tunnel [OF inv0 assms(2,5)]
  note g2 = managed_act [OF assms(2), of s1 BeforeRemove] and g4 = managed_act [OF assms(2), of ?s3 InSession]
  have h2: "tc_GetConn (tcp_net ?s2) p = tc_GetConn (tcp_net s1) p" "tc_GetDomain (tcp_net ?s2) p = Some d" "p < tc_next (tcp_net ?s2)"
    using handle_steps [OF g2, of p] a by simp_all
  obtain m3 w3 where r: "RemoveSpecificWebSocketConnectionWithoutClosing d p (tcp_conns ?s2) (tcp_net ?s2) = (m3, w3)" by force
  then have s3: "tcp_conns ?s3 = m3" "tcp_net ?s3 = tcp_net ?s2"
    using contents_TakeWS(3) [of d p "tcp_conns ?s2" "tcp_net ?s2"] by (simp_all add: take_tunnel_def set_pools_def)
  have "p \<notin> pooled m3"
    using take_unpooled [OF cm.steps_invar [OF g2 a(1)] h2(2) _ r] http_steps [OF g2, of p d] a by simp
  then have u4: "p < tc_next (tcp_net ?s4) \<and> p \<notin> pooled (tcp_conns ?s4)" using unpooled_steps [OF g4, of p] s3 h2 by simp
  have "fst (GetConnection d' ty m w) \<noteq> Some p" if "cm_step\<^sup>*\<^sup>* (pools s') (m, w)" for m w d' ty
    using unpooled_steps [OF that, of p] u4 fin GetConnection_member [of d' ty m w p] by (auto simp: pooled_def prod_eq_iff)
  moreover have "tc_GetConn (tcp_net ?s4) p = tc_GetConn (tcp_net s1) p" using handle_steps [OF g4, of p] s3 h2 by simp
  then have "\<exists>c cs. tc_GetDomain (tcp_net s1) p = Some d \<and> tc_GetConn (tcp_net s1) p = Some c \<and> closed_conns (tcp_net s') = cs @ [c]"
    using a(3,4) fin(2) by (auto simp: tc_Close_def close_conn_def)
  moreover have "p \<in> set (cm_ws (tcp_conns s) d) \<and> cm_http (tcp_conns s') = cm_http (tcp_conns s) \<and>
      cm_ws (tcp_conns s') = (cm_ws (tcp_conns s))(d := remove1 p (cm_ws (tcp_conns s) d))" if "we_others e = (\<lambda>_ mw. mw)"
    using acquire_alone [OF that assms(5)] q fin(1) s3(1) r contents_TakeWS(1,2) [of d p "tcp_conns s1" "tcp_net s1"]
    by (simp add: others_alone [OF that])
  ultimately show ?thesis using fin(3) by blast
qed

text \<open>
  Two upgrades can be handed the same tunnel: the code says that the tunnel is removed from its pool at once so that
  no other request uses it, but an upgrade that looks a tunnel up before the first one has removed it gets the
  same tunnel when it is the only one. Both sessions then write their requests to one connection, and
  the one that ends first closes it.
\<close>

theorem upgrades_share_tunnel:
  assumes "cm_inv (m, w)" "cm_ws m d = [p]"
  shows "\<exists>m1 m2. GetWebSocketConnection d m w = (Some p, m1) \<and> GetWebSocketConnection d m1 w = (Some p, m2)"
proof -
  obtain m1 where g1: "GetWebSocketConnection d m w = (Some p, m1)"
    using GetWebSocketConnection_some [OF assms(1), of d] assms(2) by fastforce
  have inv: "cm_inv (m1, w)" using cm_step_inv [OF step_get assms(1)] g1 unfolding GetWebSocketConnection_def by metis
  have "cm_ws m1 d = [p]" using Get_contents(1) [OF g1] assms(2) by simp
  then obtain m2 where "GetWebSocketConnection d m1 w = (Some p, m2)"
    using GetWebSocketConnection_some [OF inv, of d] by fastforce
  with g1 show ?thesis by blast
qed

text \<open>
  The limit counts the wrong tunnels: the pool holds the idle tunnels only, since a session takes its
  tunnel out. When 25 tunnels are idle, an upgrade is refused with 503 as if 25 were in use, although
  the manager would hand one out; nothing is taken or closed.
\<close>

theorem idle_tunnels_refused:
  assumes "cm_inv (tcp_conns s, tcp_net s)" "\<not> fst (quota_check qdb now d s)"
    and "length (cm_ws (tcp_conns s) d) = MaxWebSocketTunnelsPerDomain" "\<not> cc_closed cc"
  shows "(\<exists>p m. GetWebSocketConnection d (tcp_conns s) (tcp_net s) = (Some p, m)) \<and>
    (\<exists>err s' cc'. proxyWebSocketConnectionInternal qdb e now d returnError s cc = (err, s', cc') \<and>
       tcp_conns s' = tcp_conns s \<and> tcp_net s' = tcp_net s \<and>
       cc_out cc' = cc_out cc @ [HttpError 503 ''Service Unavailable - Too many concurrent WebSocket connections''])"
proof -
  have "cm_ws (tcp_conns s) d \<noteq> []" using assms(3) by (auto simp: MaxWebSocketTunnelsPerDomain_def)
  then have "\<exists>p m. GetWebSocketConnection d (tcp_conns s) (tcp_net s) = (Some p, m)"
    using GetWebSocketConnection_some [OF assms(1)] by metis
  moreover obtain s0 where "quota_check qdb now d s = (False, s0)" using assms(2) by (cases "quota_check qdb now d s") auto
  ultimately show ?thesis
    using assms(3,4) quota_check_frame [of qdb now d s False s0]
    by (simp add: proxyWebSocketConnectionInternal_def pool_size_ws cc_write_def cc_close_def)
qed

lemma owner_after_take:
  assumes "cm_ws m0 d = [p]" "cm_http m0 d = []"
  shows "GetDomainOwner (fst (RemoveSpecificWebSocketConnectionWithoutClosing d p m0 w)) d = (0, 0, False)"
proof -
  obtain dc where "map_of m0 d = Some dc" "connections (wsPool dc) = [p]" "connections (httpPool dc) = []"
    using assms by (auto simp: cm_ws_def cm_http_def split: option.splits)
  then show ?thesis
    by (simp add: RemoveSpecificWebSocketConnectionWithoutClosing_def drop_if_empty_def pool_Size_def tp.contents_remove
        GetDomainOwner_def map_of_delete)
qed

text \<open>
  The traffic of the last tunnel is free: the session that takes the only connection of a domain
  removes the entry that names its owner, so a successful session, however many bytes it copies, is not
  counted for anyone.
\<close>

theorem last_tunnel_uncounted:
  assumes "cm_inv (tcp_conns s, tcp_net s)" "\<not> fst (quota_check qdb now d s)"
    and "cm_ws (tcp_conns s) d = [p]" "cm_http (tcp_conns s) d = []"
    and "we_write e = None" "we_answer e = Inr 101" "we_client_ok e" "we_others e = (\<lambda>_ mw. mw)"
  shows "\<exists>s' cc'. proxyWebSocketConnectionInternal qdb e now d returnError s cc = (None, s', cc') \<and> tcp_usage s' = tcp_usage s"
proof -
  have idle: "cm_ws (tcp_conns s) d \<noteq> []" "length (cm_ws (tcp_conns s) d) < MaxWebSocketTunnelsPerDomain"
    using assms(3) by (simp_all add: MaxWebSocketTunnelsPerDomain_def)
  from assms(1,2) idle assms(8) show ?thesis
  proof (cases rule: proxy_ws_unfold)
    case (taken p' c m0 s0 m)
    have "p' = p" using taken(1) assms(3) by simp
    moreover have "cm_ws m0 d = [p]" "cm_http m0 d = []" using taken(9,10) assms(3,4) by simp_all
    ultimately have "GetDomainOwner (tcp_conns s0) d = (0, 0, False)"
      using owner_after_take [of m0 d p "tcp_net s"] taken(5,8) by simp
    then have "copy_both e now d s0 = s0" by (simp add: copy_both_def count_copied_def)
    then show ?thesis using assms(5-7) taken(3) unfolding taken(11) by (simp add: ws_session_def Let_def)
  qed
qed

section \<open>The handshake and the pools\<close>

lemma contents_AddWS:
  assumes "AddConnection d c port ConnectionTypeWebSocket uid tid m w = (r, m', w')"
  shows "cm_http m' = cm_http m \<and>
    (if length (cm_ws m d) < MaxWebSocketTunnelsPerDomain
     then cm_ws m' = (cm_ws m)(d := cm_ws m d @ [tc_next w]) \<and> closed_conns w' = closed_conns w
     else cm_ws m' = cm_ws m \<and> closed_conns w' = closed_conns w @ [c])"
proof (cases "map_of m d")
  case None
  then show ?thesis
    using assms
    by (auto simp: AddConnection_def new_domain_conns_def NewTunnelConnectionPool_def pool_Size_def pool_AddConnection_def
        NewTunnelConnection_def pool_append_def set_owner_def cm_ws_def cm_http_def map_of_update fun_eq_iff
        MaxWebSocketTunnelsPerDomain_def)
next
  case (Some dc)
  then show ?thesis
    using assms
    by (auto simp: AddConnection_def pool_Size_def pool_AddConnection_def NewTunnelConnection_def pool_append_def
        set_owner_def cm_ws_def cm_http_def map_of_update fun_eq_iff close_conn_def Let_def split: if_splits)
qed

text \<open>
  A WebSocket tunnel is registered only for an authenticated client: a handshake that fails closes the
  connection and changes no pool; one that succeeds was authenticated for an enabled tunnel, and
  appends the connection to the pool of exactly that tunnel's domain. When the pool is full the
  connection is closed instead, although the client was told that it succeeded and the router that
  a tunnel was established.
\<close>

theorem ws_handshake_registers:
  assumes "handleConnection svc sha ft tokens c request clientIP replyOK callback s = (res, s')"
  shows "case res of
      Established d ty notify \<Rightarrow>
        (\<exists>req t. request = Some req \<and>
           AuthenticateTunnelByToken sha ft (s_faults svc) (hr_Token req) (hr_Domain req) tokens (tdb (tcp_backend s)) = Inr t \<and>
           d = t_Domain t \<and> (ty = ConnectionTypeWebSocket \<longleftrightarrow> hr_ConnectionType req = ''websocket'') \<and>
           (ty = ConnectionTypeWebSocket \<longrightarrow>
              notify = callback \<and> cm_http (tcp_conns s') = cm_http (tcp_conns s) \<and>
              (if length (cm_ws (tcp_conns s) d) < MaxWebSocketTunnelsPerDomain
               then cm_ws (tcp_conns s') = (cm_ws (tcp_conns s))(d := cm_ws (tcp_conns s) d @ [tc_next (tcp_net s)]) \<and>
                    closed_conns (tcp_net s') = closed_conns (tcp_net s)
               else cm_ws (tcp_conns s') = cm_ws (tcp_conns s) \<and> closed_conns (tcp_net s') = closed_conns (tcp_net s) @ [c])))
    | _ \<Rightarrow> tcp_conns s' = tcp_conns s \<and> closed_conns (tcp_net s') = closed_conns (tcp_net s) @ [c]"
proof (cases "\<exists>d ty notify. res = Established d ty notify")
  case False
  then show ?thesis
    using assms by (auto simp: handleConnection_def close_conn_def Let_def split: option.splits sum.splits prod.splits if_splits)
next
  case True
  then obtain d ty notify where r: "res = Established d ty notify" by blast
  then obtain req t ip b p m w where h: "request = Some req"
    "AuthenticateTunnelByToken sha ft (s_faults svc) (hr_Token req) (hr_Domain req) tokens (tdb (tcp_backend s)) = Inr t"
    "ty = (if hr_ConnectionType req = ''websocket'' then ConnectionTypeWebSocket else ConnectionTypeHTTP)"
    "AddConnection (t_Domain t) c (t_TargetPort t) ty (t_UserID t) (of_nat (t_ID t)) (tcp_conns s) (tcp_net s) = (p, m, w)"
    "d = t_Domain t" "notify = (ty = ConnectionTypeWebSocket \<and> callback)" "s' = s\<lparr>tcp_backend := b, tcp_conns := m, tcp_net := w\<rparr>"
    using assms by (auto simp: handleConnection_def Let_def split: option.splits sum.splits prod.splits if_splits)
  have "ty = ConnectionTypeWebSocket \<longrightarrow> cm_http (tcp_conns s') = cm_http (tcp_conns s) \<and>
      (if length (cm_ws (tcp_conns s) d) < MaxWebSocketTunnelsPerDomain
       then cm_ws (tcp_conns s') = (cm_ws (tcp_conns s))(d := cm_ws (tcp_conns s) d @ [tc_next (tcp_net s)]) \<and>
            closed_conns (tcp_net s') = closed_conns (tcp_net s)
       else cm_ws (tcp_conns s') = cm_ws (tcp_conns s) \<and> closed_conns (tcp_net s') = closed_conns (tcp_net s) @ [c])"
  proof
    assume "ty = ConnectionTypeWebSocket"
    with h(4) have "AddConnection (t_Domain t) c (t_TargetPort t) ConnectionTypeWebSocket (t_UserID t) (of_nat (t_ID t))
      (tcp_conns s) (tcp_net s) = (p, m, w)" by simp
    from contents_AddWS [OF this] show "cm_http (tcp_conns s') = cm_http (tcp_conns s) \<and>
      (if length (cm_ws (tcp_conns s) d) < MaxWebSocketTunnelsPerDomain
       then cm_ws (tcp_conns s') = (cm_ws (tcp_conns s))(d := cm_ws (tcp_conns s) d @ [tc_next (tcp_net s)]) \<and>
            closed_conns (tcp_net s') = closed_conns (tcp_net s)
       else cm_ws (tcp_conns s') = cm_ws (tcp_conns s) \<and> closed_conns (tcp_net s') = closed_conns (tcp_net s) @ [c])"
      unfolding h(5,7) by simp
  qed
  moreover have "ty = ConnectionTypeWebSocket \<longleftrightarrow> hr_ConnectionType req = ''websocket''" using h(3) by simp
  ultimately show ?thesis unfolding r handshake_result.case using h(1,2,5,6) by blast
qed

section \<open>Witnesses\<close>

definition demo_tcp :: "unit tcp_server" where
  "demo_tcp = \<lparr>tcp_conns = fst demo_state, tcp_net = snd demo_state, tcp_usage = Some \<lparr>records = [], lastFlush = 0\<rparr>, tcp_quota = None,
     tcp_backend = \<lparr>tdb = demo_tdb, proxy = ()\<rparr>\<rparr>"

definition demo_ws_env :: ws_env where
  "demo_ws_env = \<lparr>we_callback = None, we_others = (\<lambda>_ mw. mw), we_write = None, we_answer = Inr 101, we_client_ok = True,
     we_bytes_in = 10, we_bytes_out = 20\<rparr>"

definition demo_cc :: client_conn where
  "demo_cc = \<lparr>cc_out = [], cc_closed = False\<rparr>"

lemma demo_tcp_facts: "cm_inv (tcp_conns demo_tcp, tcp_net demo_tcp)" "cm_ws (tcp_conns demo_tcp) ''a.io'' = [0]"
  "cm_http (tcp_conns demo_tcp) ''a.io'' = []" "\<not> fst (quota_check qdb now d demo_tcp)"
  using cm.reach_invar [OF demo_reach]
  by (simp_all add: demo_tcp_def cm_ws_def cm_http_def demo_state_eval NewTunnelConnectionPool_def quota_check_def)

theorem ws_session_uses_one_tunnel_witness:
  "\<exists>err s' cc'. proxyWebSocketConnectionInternal demo_qdb demo_ws_env 0 ''a.io'' True demo_tcp demo_cc = (err, s', cc') \<and>
     cm_ws (tcp_conns s') ''a.io'' = [] \<and> cc_closed cc'"
proof -
  obtain err s' cc' where r: "proxyWebSocketConnectionInternal demo_qdb demo_ws_env 0 ''a.io'' True demo_tcp demo_cc = (err, s', cc')"
    by (metis prod_cases3)
  have o: "we_others demo_ws_env = (\<lambda>_ mw. mw)" by (simp add: demo_ws_env_def)
  have q: "quota_check demo_qdb 0 ''a.io'' demo_tcp = (False, demo_tcp)" by (simp add: quota_check_def demo_tcp_def)
  have n: "GetWebSocketPoolSize (tcp_conns demo_tcp) ''a.io'' < MaxWebSocketTunnelsPerDomain"
    by (simp add: pool_size_ws demo_tcp_facts MaxWebSocketTunnelsPerDomain_def)
  obtain m where "GetWebSocketConnection ''a.io'' (tcp_conns demo_tcp) (tcp_net demo_tcp) = (Some 0, m)"
    using upgrades_share_tunnel [OF demo_tcp_facts(1,2)] by blast
  then have a: "acquire_tunnel demo_ws_env ''a.io'' demo_tcp = (Inr 0, demo_tcp\<lparr>tcp_conns := m\<rparr>)"
    by (simp add: acquire_tunnel_def others_alone [OF o])
  have "managed demo_ws_env" by (simp add: managed_def o)
  from ws_session_uses_one_tunnel [OF demo_tcp_facts(1) this q n a r] o show ?thesis by (simp add: r demo_tcp_facts)
qed

theorem upgrades_share_tunnel_witness:
  "\<exists>m1 m2. GetWebSocketConnection ''a.io'' (fst demo_state) (snd demo_state) = (Some 0, m1) \<and>
     GetWebSocketConnection ''a.io'' m1 (snd demo_state) = (Some 0, m2)"
  using upgrades_share_tunnel [OF demo_tcp_facts(1,2)] by (simp add: demo_tcp_def)

theorem last_tunnel_uncounted_witness:
  "\<exists>s' cc'. proxyWebSocketConnectionInternal demo_qdb demo_ws_env 0 ''a.io'' True demo_tcp demo_cc = (None, s', cc') \<and>
     tcp_usage s' = Some \<lparr>records = [], lastFlush = 0\<rparr>"
  using last_tunnel_uncounted [OF demo_tcp_facts(1) demo_tcp_facts(4) demo_tcp_facts(2,3), of demo_ws_env demo_qdb 0 True demo_cc]
  by (simp add: demo_ws_env_def) (simp add: demo_tcp_def)

definition demo_tcp_service :: "unit tunnel_service" where
  "demo_tcp_service = \<lparr>s_env = (\<lambda>_. []), s_hmac = (\<lambda>_ _. []), s_BaseDomain = [], s_ServerIP = [], s_resolve = (\<lambda>_ _. None),
     s_caddy = None, s_faults = (\<lambda>_. False)\<rparr>"

theorem ws_handshake_registers_witness:
  "tcp_conns (snd (handleConnection demo_tcp_service demo_sha (\<lambda>_. False) [] 9 None (Some ''ip'') True True demo_tcp)) = tcp_conns demo_tcp"
proof -
  obtain res s' where r: "handleConnection demo_tcp_service demo_sha (\<lambda>_. False) [] 9 None (Some ''ip'') True True demo_tcp = (res, s')"
    by force
  from ws_handshake_registers [OF this] show ?thesis unfolding r by (auto split: handshake_result.splits)
qed

text \<open>Twenty-five idle tunnels.\<close>

definition full_tcp :: "unit tcp_server" where
  "full_tcp = demo_tcp\<lparr>
     tcp_conns := [(''a.io'', \<lparr>dc_domain = ''a.io'', httpPool = NewTunnelConnectionPool ''a.io'' 80,
        wsPool = \<lparr>p_domain = ''a.io'', p_targetPort = 80, connections = [0..<25], roundRobin = 0\<rparr>,
        dc_targetPort = 80, userID = 1, tunnelID = 2\<rparr>)],
     tcp_net := \<lparr>tc_heap = (\<lambda>p. if p < 25 then Some \<lparr>conn = Some (p + 100), tc_domain = ''a.io'', tc_targetPort = 80,
        requestCount = 0, createdAt = 0\<rparr> else None), tc_next = 25, closed_conns = [], read_bytes = [], clock = 0\<rparr>\<rparr>"

lemma full_tcp_facts: "cm_inv (tcp_conns full_tcp, tcp_net full_tcp)"
  "length (cm_ws (tcp_conns full_tcp) ''a.io'') = MaxWebSocketTunnelsPerDomain" "\<not> fst (quota_check qdb now d full_tcp)"
  by (auto simp: full_tcp_def demo_tcp_def cm_inv_def heap_ok_def dc_ok_def dc_ptrs_def NewTunnelConnectionPool_def list_all_iff tc_ok_def
      pool_Size_def MaxWebSocketTunnelsPerDomain_def cm_ws_def quota_check_def split: if_splits)

theorem idle_tunnels_refused_witness:
  "\<exists>err s' cc'. proxyWebSocketConnectionInternal demo_qdb demo_ws_env 0 ''a.io'' True full_tcp demo_cc = (err, s', cc') \<and>
     cc_out cc' = [HttpError 503 ''Service Unavailable - Too many concurrent WebSocket connections'']"
  using idle_tunnels_refused [OF full_tcp_facts(1) full_tcp_facts(3) full_tcp_facts(2),
      where cc = demo_cc and e = demo_ws_env and qdb = demo_qdb and now = 0 and returnError = True]
  by (auto simp: demo_cc_def)

end
