(* ===== verification/Hybrid_Router.thy ===== *)
theory Hybrid_Router
  imports Grpc_Server Tcp_Server
begin

text \<open>
  The hybrid router (\<open>internal/tunnel/hybrid_router.go\<close>): it classifies every incoming connection by its
  first bytes and sends it to the gRPC server or, for a WebSocket upgrade, to the TCP server, asking
  the client for a TCP tunnel first when there is none. \<open>http.ReadRequest\<close> on the received bytes is a
  parameter. A connection is answered by what is written to it.
\<close>

section \<open>Classification\<close>

record router_config =
  ForceGRPCPaths :: "string list"
  ForceTCPPaths :: "string list"
  LargeFileExtensions :: "string list"
  LargeFilePaths :: "string list"

definition DefaultHybridRouterConfig :: router_config where
  "DefaultHybridRouterConfig =
     \<lparr>ForceGRPCPaths = [''/assets/'', ''/media/'', ''/static/''],
      ForceTCPPaths = [''/ws/'', ''/websocket/'', ''/socket.io/'', ''socket.io'', ''transport=websocket''],
      LargeFileExtensions = [''.mp4'', ''.avi'', ''.mov'', ''.mkv'', ''.webm'', ''.m4v'', ''.flv'', ''.wmv'',
        ''.zip'', ''.rar'', ''.7z'', ''.tar'', ''.gz'', ''.bz2'',
        ''.iso'', ''.img'', ''.dmg'', ''.exe'', ''.msi'', ''.deb'', ''.rpm''],
      LargeFilePaths = [''/video/'', ''/download/'', ''/file/'', ''/original/'', ''/raw/'']\<rparr>"

definition crlf :: string where
  "crlf = [CHR 0x0D, CHR 0x0A]"

definition isLargeFile :: "router_config \<Rightarrow> string \<Rightarrow> bool" where
  "isLargeFile cfg path =
     (let pathLower = ToLower path
      in list_ex (\<lambda>ext. HasSuffix pathLower (ToLower ext)) (LargeFileExtensions cfg) \<or>
         list_ex (\<lambda>p. Contains pathLower (ToLower p)) (LargeFilePaths cfg))"

definition isWebSocketUpgrade :: "string \<Rightarrow> bool" where
  "isWebSocketUpgrade requestData =
     (let requestLower = ToLower requestData
      in Contains requestLower ''upgrade: websocket'' \<or> Contains requestLower ''connection: upgrade'')"

definition request_line :: "string \<Rightarrow> string \<times> string" where
  "request_line requestData =
     (case Fields (hd (Split requestData crlf)) of m # p # _ \<Rightarrow> (m, p) | _ \<Rightarrow> ([], []))"

text \<open>The first result, called \<open>isWebSocket\<close> in the code, means: not the plain gRPC path.\<close>

definition analyzeRequest :: "router_config \<Rightarrow> string \<Rightarrow> bool \<times> string \<times> string" where
  "analyzeRequest cfg requestData =
     (let (method, path) = request_line requestData
      in if list_ex (Contains path) (ForceTCPPaths cfg) then (True, method, path)
         else if isLargeFile cfg path then (True, method, path)
         else if list_ex (Contains path) (ForceGRPCPaths cfg) then (False, method, path)
         else (isWebSocketUpgrade requestData, method, path))"

datatype route = ToTCP | ToChunked | ToGRPC

definition route_of :: "router_config \<Rightarrow> string \<Rightarrow> route" where
  "route_of cfg requestData =
     (case analyzeRequest cfg requestData of
        (shouldUseTCP, _, _) \<Rightarrow>
          if shouldUseTCP then (if isWebSocketUpgrade requestData then ToTCP else ToChunked) else ToGRPC)"

definition disconnectionErrors :: "string list" where
  "disconnectionErrors =
     [''broken pipe'', ''connection reset by peer'', ''write: connection reset'', ''use of closed network connection'', ''connection closed'']"

definition isClientDisconnectionError :: "string option \<Rightarrow> bool" where
  "isClientDisconnectionError err =
     (case err of None \<Rightarrow> False | Some e \<Rightarrow> list_ex (Contains (ToLower e)) disconnectionErrors)"

text \<open>
  Where a request goes: to the TCP tunnel exactly if it asks for an upgrade and its path is forced to TCP,
  is a large file or is not forced to gRPC; to chunked streaming exactly if it does not ask for an
  upgrade and its path is forced to TCP or is a large file; to the plain gRPC path otherwise.
\<close>

theorem routing_exact:
  fixes cfg :: router_config
  assumes "request_line requestData = (method, path)"
  defines "tcp \<equiv> \<exists>p \<in> set (ForceTCPPaths cfg). Contains path p" and "large \<equiv> isLargeFile cfg path"
    and "grpc \<equiv> \<exists>p \<in> set (ForceGRPCPaths cfg). Contains path p"
  shows "(route_of cfg requestData = ToTCP \<longleftrightarrow> isWebSocketUpgrade requestData \<and> (tcp \<or> large \<or> \<not> grpc)) \<and>
    (route_of cfg requestData = ToChunked \<longleftrightarrow> \<not> isWebSocketUpgrade requestData \<and> (tcp \<or> large)) \<and>
    (route_of cfg requestData = ToGRPC \<longleftrightarrow> \<not> tcp \<and> \<not> large \<and> (grpc \<or> \<not> isWebSocketUpgrade requestData))"
  using assms by (auto simp: route_of_def analyzeRequest_def list_ex_iff)

section \<open>Routing\<close>

record ('c, 'l) router =
  r_grpc :: "('c, 'l) grpc_server"
  r_tcp :: "'c tcp_server"
  r_totalRequests :: i64
  r_grpcRequests :: i64
  r_tcpRequests :: i64
  r_websocketUpgrades :: i64
  r_routingErrors :: i64
  r_timeoutErrors :: i64

text \<open>
  Writing a reply to the client goes through a buffer that is flushed at the end. The write fails when the client
  is gone or the body ends short of its announced length; then nothing is flushed any more, and the
  client has got nothing at all or what the buffer had already passed on: the head and a part of the body.
\<close>

datatype reply_write = WriteOk | WriteFailed "nat option"

text \<open>
  One connection: the received bytes and the request they parse to, the client's address, the request id
  and the answers of the tunnel for the gRPC paths, how writing a reply ends, the network of the two WebSocket
  attempts, and the outcome of waiting for a TCP tunnel before each (with what happened to the TCP server meanwhile).
\<close>

record 'c incoming =
  i_data :: string
  i_parsed :: "server_request option"
  i_clientIP :: string
  i_rid :: string
  i_xchg :: "tunnel_message \<Rightarrow> exchange"
  i_transfer :: transfer
  i_write :: "http_reply \<Rightarrow> reply_write"
  i_ws1 :: ws_env
  i_ws2 :: ws_env
  i_wait1 :: "'c tcp_server \<Rightarrow> bool \<times> 'c tcp_server"
  i_wait2 :: "'c tcp_server \<Rightarrow> bool \<times> 'c tcp_server"

definition routing_error :: "('c, 'l) router \<Rightarrow> ('c, 'l) router" where
  "routing_error r = r\<lparr>r_routingErrors := r_routingErrors r + 1\<rparr>"

definition is_upload :: "string \<Rightarrow> bool" where
  "is_upload method \<longleftrightarrow> ToUpper method \<in> {''POST'', ''PUT'', ''PATCH''}"

definition write_reply :: "reply_write \<Rightarrow> http_reply \<Rightarrow> client_conn \<Rightarrow> client_conn" where
  "write_reply w resp cc =
     (case w of
        WriteOk \<Rightarrow> cc_write (ProxiedResponse (hp_StatusCode resp) (hp_Body resp)) cc
      | WriteFailed None \<Rightarrow> cc
      | WriteFailed (Some n) \<Rightarrow> cc_write (ProxiedResponse (hp_StatusCode resp) (take n (hp_Body resp))) cc)"

text \<open>What both gRPC routes do with the result of the proxy.\<close>

definition finish_grpc ::
    "(http_reply \<Rightarrow> reply_write) \<Rightarrow> tunnel_message list \<times> (proxy_error + http_reply) \<times> ('c, 'l) grpc_server \<Rightarrow> ('c, 'l) router \<Rightarrow> client_conn
       \<Rightarrow> ('c, 'l) router \<times> client_conn" where
  "finish_grpc w out r cc =
     (case out of
        (_, Inl e, g) \<Rightarrow>
          (let r1 = routing_error (r\<lparr>r_grpc := g\<rparr>);
               r2 = (if isTimeoutError (Some (go_error_of e)) then r1\<lparr>r_timeoutErrors := r_timeoutErrors r1 + 1\<rparr> else r1)
           in (r2, cc_write (HttpError 502 (''Bad Gateway - '' @ er_text (go_error_of e))) cc))
      | (_, Inr resp, g) \<Rightarrow> (r\<lparr>r_grpc := g\<rparr>, write_reply (w resp) resp cc))"

definition routeToGRPC ::
    "bool \<Rightarrow> ('c, 'l) grpc_env \<Rightarrow> quota_db \<Rightarrow> time \<Rightarrow> string \<Rightarrow> 'c incoming \<Rightarrow> ('c, 'l) router \<Rightarrow> client_conn
       \<Rightarrow> ('c, 'l) router \<times> client_conn" where
  "routeToGRPC chunking env qdb now domain i r cc =
     (let r1 = r\<lparr>r_grpcRequests := r_grpcRequests r + 1\<rparr>
      in if \<not> IsTunnelActive (r_grpc r1) domain then (r1, cc_write (NotConnectedPage domain) cc)
         else case i_parsed i of
                None \<Rightarrow> (routing_error r1, cc_write (HttpError 400 ''Bad Request - Invalid HTTP request'') cc)
              | Some req \<Rightarrow>
                  finish_grpc (i_write i)
                    (if chunking then ProxyHTTPRequestWithChunking env qdb now domain req (i_clientIP i) (i_rid i) (i_xchg i) (i_transfer i) (r_grpc r1)
                     else ProxyHTTPRequest env qdb now domain req (i_clientIP i) (i_rid i) (i_xchg i) (r_grpc r1)) r1 cc)"

definition routeToGRPCTunnel ::
    "('c, 'l) grpc_env \<Rightarrow> quota_db \<Rightarrow> time \<Rightarrow> string \<Rightarrow> string \<Rightarrow> 'c incoming \<Rightarrow> ('c, 'l) router \<Rightarrow> client_conn \<Rightarrow> ('c, 'l) router \<times> client_conn" where
  "routeToGRPCTunnel env qdb now domain method i = routeToGRPC (is_upload method) env qdb now domain i"

definition routeToGRPCChunkedStreaming ::
    "('c, 'l) grpc_env \<Rightarrow> quota_db \<Rightarrow> time \<Rightarrow> string \<Rightarrow> 'c incoming \<Rightarrow> ('c, 'l) router \<Rightarrow> client_conn \<Rightarrow> ('c, 'l) router \<times> client_conn" where
  "routeToGRPCChunkedStreaming env qdb now domain i = routeToGRPC True env qdb now domain i"

text \<open>The WebSocket route once a tunnel is there: one attempt, and a second one after a connection failure.\<close>

definition retry_ws ::
    "quota_db \<Rightarrow> time \<Rightarrow> string \<Rightarrow> 'c incoming \<Rightarrow> string \<Rightarrow> ('c, 'l) router \<Rightarrow> client_conn \<Rightarrow> ('c, 'l) router \<times> client_conn" where
  "retry_ws qdb now domain i err r cc =
     (if Contains err ''broken pipe'' \<or> Contains err ''connection''
      then let r1 = r\<lparr>r_tcp := RemoveDeadConnection domain (r_tcp r)\<rparr>
           in if \<not> IsTunnelActive (r_grpc r1) domain
              then (routing_error r1, cc_write (HttpError 503 ''Service Unavailable - Tunnel offline'') cc)
              else case i_wait2 i (r_tcp r1) of
                     (True, t) \<Rightarrow>
                       (case proxyWebSocketConnectionInternal qdb (i_ws2 i) now domain False t cc of
                          (_, t', cc') \<Rightarrow> (r1\<lparr>r_tcp := t'\<rparr>, cc'))
                   | (False, t) \<Rightarrow> (routing_error (r1\<lparr>r_tcp := t\<rparr>), cc_write (HttpError 502 ''Bad Gateway - TCP tunnel re-establishment failed'') cc)
      else (routing_error r, cc_write (HttpError 500 ''Internal Server Error - WebSocket proxy failed'') cc))"

definition proxy_ws ::
    "quota_db \<Rightarrow> time \<Rightarrow> string \<Rightarrow> 'c incoming \<Rightarrow> ('c, 'l) router \<Rightarrow> client_conn \<Rightarrow> ('c, 'l) router \<times> client_conn" where
  "proxy_ws qdb now domain i r cc =
     (case proxyWebSocketConnectionInternal qdb (i_ws1 i) now domain True (r_tcp r) cc of
        (None, t, cc') \<Rightarrow> (r\<lparr>r_tcp := t\<rparr>, cc')
      | (Some err, t, cc') \<Rightarrow> retry_ws qdb now domain i err (r\<lparr>r_tcp := t\<rparr>) cc')"

definition routeToTCPTunnel ::
    "quota_db \<Rightarrow> time \<Rightarrow> string \<Rightarrow> 'c incoming \<Rightarrow> ('c, 'l) router \<Rightarrow> client_conn \<Rightarrow> ('c, 'l) router \<times> client_conn" where
  "routeToTCPTunnel qdb now domain i r cc =
     (let r1 = r\<lparr>r_tcpRequests := r_tcpRequests r + 1, r_websocketUpgrades := r_websocketUpgrades r + 1\<rparr>
      in case i_parsed i of
           None \<Rightarrow> (routing_error r1, cc_write (HttpError 400 ''Bad Request - Invalid WebSocket request'') cc)
         | Some _ \<Rightarrow>
             if HasWebSocketConnection (tcp_conns (r_tcp r1)) domain then proxy_ws qdb now domain i r1 cc
             else if \<not> IsTunnelActive (r_grpc r1) domain then (routing_error r1, cc_write (NotConnectedPage domain) cc)
             else case i_wait1 i (r_tcp r1) of
                    (True, t) \<Rightarrow> proxy_ws qdb now domain i (r1\<lparr>r_tcp := t\<rparr>) cc
                  | (False, t) \<Rightarrow> (routing_error (r1\<lparr>r_tcp := t\<rparr>), cc_write (HttpError 502 ''Bad Gateway - TCP tunnel establishment timeout'') cc))"

definition ProxyConnection ::
    "router_config \<Rightarrow> ('c, 'l) grpc_env \<Rightarrow> quota_db \<Rightarrow> time \<Rightarrow> string \<Rightarrow> 'c incoming \<Rightarrow> ('c, 'l) router \<Rightarrow> client_conn
       \<Rightarrow> ('c, 'l) router \<times> client_conn" where
  "ProxyConnection cfg env qdb now domain i r cc =
     (let r1 = r\<lparr>r_totalRequests := r_totalRequests r + 1\<rparr>;
          (r2, cc2) = (case analyzeRequest cfg (i_data i) of
             (shouldUseTCP, method, _) \<Rightarrow>
               if shouldUseTCP
               then (if isWebSocketUpgrade (i_data i) then routeToTCPTunnel qdb now domain i r1 cc
                     else routeToGRPCChunkedStreaming env qdb now domain i r1 cc)
               else routeToGRPCTunnel env qdb now domain method i r1 cc)
      in (r2, cc_close cc2))"

definition IsTunnelDomain :: "('c, 'l) router \<Rightarrow> string \<Rightarrow> bool" where
  "IsTunnelDomain r domain \<longleftrightarrow> IsTunnelActive (r_grpc r) domain \<or> HasDomain (tcp_conns (r_tcp r)) domain"

section \<open>Every connection is accounted for\<close>

fun serve ::
    "router_config \<Rightarrow> ('c, 'l) grpc_env \<Rightarrow> (quota_db \<times> time \<times> string \<times> 'c incoming) list \<Rightarrow> ('c, 'l) router \<Rightarrow> ('c, 'l) router \<times> client_conn list" where
  "serve cfg env [] r = (r, [])"
| "serve cfg env ((qdb, now, domain, i) # is) r =
     (let (r1, cc) = ProxyConnection cfg env qdb now domain i r \<lparr>cc_out = [], cc_closed = False\<rparr>; (r2, ccs) = serve cfg env is r1
      in (r2, cc # ccs))"

lemma routing_error_counters [simp]:
  "r_totalRequests (routing_error r) = r_totalRequests r" "r_grpcRequests (routing_error r) = r_grpcRequests r"
  "r_tcpRequests (routing_error r) = r_tcpRequests r" "r_grpc (routing_error r) = r_grpc r"
  by (simp_all add: routing_error_def)

lemma finish_grpc_counters:
  assumes "finish_grpc w out r cc = (r', cc')"
  shows "r_totalRequests r' = r_totalRequests r \<and> r_grpcRequests r' = r_grpcRequests r \<and> r_tcpRequests r' = r_tcpRequests r \<and>
    ((\<exists>x. cc' = cc_write x cc) \<or> cc' = cc \<and> (\<exists>resp. fst (snd out) = Inr resp \<and> w resp = WriteFailed None))"
  using assms
  by (auto simp: finish_grpc_def write_reply_def Let_def split: prod.splits sum.splits if_splits reply_write.splits option.splits)

lemma routeToGRPC_counters:
  assumes "routeToGRPC b env qdb now domain i r cc = (r', cc')"
  shows "r_totalRequests r' = r_totalRequests r \<and> r_grpcRequests r' = r_grpcRequests r + 1 \<and> r_tcpRequests r' = r_tcpRequests r \<and>
    ((\<exists>x. cc' = cc_write x cc) \<or> cc' = cc \<and> (\<exists>resp. i_write i resp = WriteFailed None))"
proof (cases "IsTunnelActive (r_grpc r) domain \<and> i_parsed i \<noteq> None")
  case True
  then obtain req where "i_parsed i = Some req" by blast
  with True assms show ?thesis by (simp add: routeToGRPC_def Let_def) (drule finish_grpc_counters, auto)
next
  case False
  then show ?thesis using assms by (auto simp: routeToGRPC_def Let_def split: option.splits if_splits)
qed

lemma proxy_ws_counters:
  assumes "proxy_ws qdb now domain i r cc = (r', cc')"
  shows "r_totalRequests r' = r_totalRequests r \<and> r_grpcRequests r' = r_grpcRequests r \<and> r_tcpRequests r' = r_tcpRequests r"
  using assms by (auto simp: proxy_ws_def retry_ws_def Let_def split: option.splits prod.splits if_splits bool.splits)

lemma routeToTCP_counters:
  assumes "routeToTCPTunnel qdb now domain i r cc = (r', cc')"
  shows "r_totalRequests r' = r_totalRequests r \<and> r_grpcRequests r' = r_grpcRequests r \<and> r_tcpRequests r' = r_tcpRequests r + 1"
  using assms
  by (auto simp: routeToTCPTunnel_def Let_def split: option.splits prod.splits if_splits bool.splits dest!: proxy_ws_counters)

lemma ProxyConnection_counters:
  assumes "ProxyConnection cfg env qdb now domain i r cc = (r', cc')"
  shows "r_totalRequests r' = r_totalRequests r + 1 \<and>
    r_grpcRequests r' + r_tcpRequests r' = r_grpcRequests r + r_tcpRequests r + 1 \<and> cc_closed cc' \<and>
    (route_of cfg (i_data i) \<noteq> ToTCP \<longrightarrow> (\<exists>x. cc_out cc' = (if cc_closed cc then cc_out cc else cc_out cc @ [x])) \<or>
       cc_out cc' = cc_out cc \<and> (\<exists>resp. i_write i resp = WriteFailed None))"
proof -
  let ?r = "r\<lparr>r_totalRequests := r_totalRequests r + 1\<rparr>"
  obtain b mth pth where a: "analyzeRequest cfg (i_data i) = (b, mth, pth)" by (metis prod_cases3)
  consider r2 cc2 where "routeToTCPTunnel qdb now domain i ?r cc = (r2, cc2)" "r' = r2" "cc' = cc_close cc2" "route_of cfg (i_data i) = ToTCP"
    | chunking r2 cc2 where "routeToGRPC chunking env qdb now domain i ?r cc = (r2, cc2)" "r' = r2" "cc' = cc_close cc2"
    using assms
    by (auto simp: ProxyConnection_def a route_of_def routeToGRPCTunnel_def routeToGRPCChunkedStreaming_def Let_def split: if_splits prod.splits)
  then show ?thesis
  proof cases
    case 1
    then show ?thesis using routeToTCP_counters [OF 1(1)] by (simp add: cc_close_def)
  next
    case 2
    then show ?thesis using routeToGRPC_counters [OF 2(1)] by (auto simp: cc_close_def cc_write_def)
  qed
qed


section \<open>A failed WebSocket attempt\<close>

lemma cc_write_closed [simp]: "cc_closed cc \<Longrightarrow> cc_write x cc = cc"
  by (simp add: cc_write_def)

lemma ws_session_closed: "ws_session e now d b s cc = (err, s', cc') \<Longrightarrow> cc_closed cc \<Longrightarrow> cc' = cc"
  by (auto simp: ws_session_def Let_def split: option.splits sum.splits if_splits)

lemma proxyWS_closed:
  assumes "proxyWebSocketConnectionInternal qdb e now d b s cc = (err, s', cc')" "cc_closed cc"
  shows "cc_out cc' = cc_out cc"
  using assms
  by (auto simp: proxyWebSocketConnectionInternal_def cc_close_def Let_def dest!: ws_session_closed
      split: prod.splits if_splits sum.splits)

lemma retry_ws_closed:
  assumes "retry_ws qdb now domain i err r cc = (r', cc')" "cc_closed cc"
  shows "cc_out cc' = cc_out cc"
  using assms
  by (auto simp: retry_ws_def Let_def dest: proxyWS_closed split: prod.splits if_splits bool.splits)

text \<open>
  The retry of a WebSocket upgrade cannot reach the client: the first attempt closes the client's
  connection on return. When the pooled tunnel turns out to be broken, nothing is ever
  written to the client, even if a new tunnel is established and the second attempt succeeds on it.
\<close>

theorem ws_retry_unheard:
  assumes "cm_inv (tcp_conns (r_tcp r), tcp_net (r_tcp r))" "\<not> fst (quota_check qdb now d (r_tcp r))"
    and "cm_ws (tcp_conns (r_tcp r)) d \<noteq> []" "length (cm_ws (tcp_conns (r_tcp r)) d) < MaxWebSocketTunnelsPerDomain"
    and "i_parsed i = Some req" "we_write (i_ws1 i) = Some err" "Contains err ''broken pipe''"
    and "routeToTCPTunnel qdb now d i r cc = (r', cc')" "we_others (i_ws1 i) = (\<lambda>_ mw. mw)"
  shows "cc_out cc' = cc_out cc"
proof -
  let ?r = "r\<lparr>r_tcpRequests := r_tcpRequests r + 1, r_websocketUpgrades := r_websocketUpgrades r + 1\<rparr>"
  have "HasWebSocketConnection (tcp_conns (r_tcp r)) d"
    using assms(3) by (auto simp: HasWebSocketConnection_def cm_ws_def pool_Size_def split: option.splits)
  then have p: "proxy_ws qdb now d i ?r cc = (r', cc')" using assms(5,8) by (simp add: routeToTCPTunnel_def)
  from assms(1-4,9) show ?thesis
  proof (cases rule: proxy_ws_unfold)
    case (taken p c m0 s0 m)
    obtain e t where "proxyWebSocketConnectionInternal qdb (i_ws1 i) now d True (r_tcp r) cc = (Some e, t, cc_close cc)"
      using assms(6,7) taken(11) [of True cc] by (simp add: ws_session_def)
    then have "retry_ws qdb now d i e (?r\<lparr>r_tcp := t\<rparr>) (cc_close cc) = (r', cc')" using p by (simp add: proxy_ws_def)
    from retry_ws_closed [OF this] show ?thesis by (simp add: cc_close_def)
  qed
qed

section \<open>Witnesses\<close>

definition demo_router :: "(unit, nat) router" where
  "demo_router = \<lparr>r_grpc = demo_server, r_tcp = demo_tcp, r_totalRequests = 0, r_grpcRequests = 0, r_tcpRequests = 0,
     r_websocketUpgrades = 0, r_routingErrors = 0, r_timeoutErrors = 0\<rparr>"

definition demo_incoming :: "unit incoming" where
  "demo_incoming = \<lparr>i_data = ''GET /chat HTTP/1.1'' @ crlf @ ''Upgrade: websocket'', i_parsed = Some demo_request, i_clientIP = [], i_rid = ''r'',
     i_xchg = (\<lambda>_. XTimeout), i_transfer = \<lparr>tr_ok = (\<lambda>_. True), tr_okEnd = True, tr_events = []\<rparr>, i_write = (\<lambda>_. WriteOk),
     i_ws1 = demo_ws_env\<lparr>we_write := Some ''write: broken pipe''\<rparr>, i_ws2 = demo_ws_env,
     i_wait1 = (\<lambda>t. (True, t)), i_wait2 = (\<lambda>t. (True, t))\<rparr>"

theorem routing_exact_witness:
  "route_of DefaultHybridRouterConfig (''GET /chat HTTP/1.1'' @ crlf @ ''Upgrade: websocket'') = ToTCP"
proof -
  have l: "request_line (''GET /chat HTTP/1.1'' @ crlf @ ''Upgrade: websocket'') = (''GET'', ''/chat'')" by code_simp
  have "isWebSocketUpgrade (''GET /chat HTTP/1.1'' @ crlf @ ''Upgrade: websocket'')" by code_simp
  with routing_exact [OF l, of DefaultHybridRouterConfig] show ?thesis
    by (auto simp: DefaultHybridRouterConfig_def HasPrefix_def)
qed


theorem ws_retry_unheard_witness:
  "cc_out (snd (routeToTCPTunnel demo_qdb 0 ''a.io'' demo_incoming demo_router demo_cc)) = []"
proof -
  obtain r' cc' where r: "routeToTCPTunnel demo_qdb 0 ''a.io'' demo_incoming demo_router demo_cc = (r', cc')" by force
  have t: "r_tcp demo_router = demo_tcp" by (simp add: demo_router_def)
  have i: "i_parsed demo_incoming = Some demo_request" "we_write (i_ws1 demo_incoming) = Some ''write: broken pipe''"
    by (simp_all add: demo_incoming_def)
  have o: "we_others (i_ws1 demo_incoming) = (\<lambda>_ mw. mw)" by (simp add: demo_incoming_def demo_ws_env_def)
  have "Contains ''write: broken pipe'' ''broken pipe''" by code_simp
  from ws_retry_unheard [OF _ _ _ _ i this r, unfolded t, OF demo_tcp_facts(1) demo_tcp_facts(4)] show ?thesis
    unfolding r by (simp add: demo_tcp_facts MaxWebSocketTunnelsPerDomain_def demo_cc_def o)
qed

end
