(* ===== verification/Tunnel_Demand.thy ===== *)
theory Tunnel_Demand
  imports Grpc_Server
begin

text \<open>
  TCP tunnels on demand (\<open>waitForTCPTunnelEstablishment\<close>, \<open>requestTCPTunnelEstablishment\<close>,
  \<open>OnTCPTunnelEstablished\<close> and \<open>removePendingConnection\<close> of \<open>internal/tunnel/hybrid_router.go\<close>): WebSocket
  requests for a domain without a TCP tunnel wait; the first of them asks the client for a tunnel, the
  others join; the callback of the TCP server wakes them all. The goroutines interleave at the two
  mutexes and at the channel of each waiter, so \<open>OnTCPTunnelEstablished\<close> is two steps: it clears the flag
  under one mutex and wakes under the other. A waiter is named by its request id. \<open>requesters\<close> holds the goroutines
  that are still to ask the client, \<open>requested\<close> the requests sent to it since a tunnel was last established for their domain.
\<close>

section \<open>State and operations\<close>

datatype wait_pc = Absent | Added | Waiting | Returned bool

record demand_state =
  pendingConnections :: "string \<Rightarrow> nat list"
  establishmentInProgress :: "string \<Rightarrow> bool"
  wt_domain :: "nat \<Rightarrow> string"
  wt_pc :: "nat \<Rightarrow> wait_pc"
  wt_done :: "nat \<Rightarrow> bool"
  requesters :: "(string \<times> nat) list"
  wakers :: "string list"
  requested :: "(string \<times> nat) list"

definition add_pending :: "nat \<Rightarrow> string \<Rightarrow> demand_state \<Rightarrow> demand_state" where
  "add_pending w d st =
     st\<lparr>pendingConnections := (pendingConnections st)(d := pendingConnections st d @ [w]),
        wt_domain := (wt_domain st)(w := d), wt_pc := (wt_pc st)(w := Added), wt_done := (wt_done st)(w := False)\<rparr>"

definition claim :: "nat \<Rightarrow> demand_state \<Rightarrow> demand_state" where
  "claim w st =
     (let d = wt_domain st w; st1 = st\<lparr>wt_pc := (wt_pc st)(w := Waiting)\<rparr>
      in if establishmentInProgress st d then st1
         else st1\<lparr>establishmentInProgress := (establishmentInProgress st)(d := True), requesters := requesters st @ [(d, w)]\<rparr>)"

definition clear_flag :: "string \<Rightarrow> demand_state \<Rightarrow> demand_state" where
  "clear_flag d st = st\<lparr>establishmentInProgress := (establishmentInProgress st)(d := False)\<rparr>"

definition begin_wake :: "string \<Rightarrow> demand_state \<Rightarrow> demand_state" where
  "begin_wake d st = (clear_flag d st)\<lparr>wakers := d # wakers st, requested := filter (\<lambda>dw. fst dw \<noteq> d) (requested st)\<rparr>"

definition wake :: "string \<Rightarrow> demand_state \<Rightarrow> demand_state" where
  "wake d st = st\<lparr>wt_done := (\<lambda>w. w \<in> set (pendingConnections st d) \<or> wt_done st w), wakers := remove1 d (wakers st)\<rparr>"

definition OnTCPTunnelEstablished :: "string \<Rightarrow> demand_state \<Rightarrow> demand_state" where
  "OnTCPTunnelEstablished d st = wake d (begin_wake d st)"

text \<open>The goroutine \<open>requestTCPTunnelEstablishment\<close>; \<open>hasWS\<close> and \<open>sent\<close> are the answers of the two servers.\<close>

definition requestTCPTunnelEstablishment :: "bool \<Rightarrow> bool \<Rightarrow> string \<times> nat \<Rightarrow> demand_state \<Rightarrow> demand_state" where
  "requestTCPTunnelEstablishment hasWS sent dw st =
     (let st1 = st\<lparr>requesters := remove1 dw (requesters st)\<rparr>
      in if hasWS then begin_wake (fst dw) st1
         else if sent then st1\<lparr>requested := requested st1 @ [dw]\<rparr> else st1)"

definition removePendingConnection :: "string \<Rightarrow> nat \<Rightarrow> demand_state \<Rightarrow> demand_state" where
  "removePendingConnection d w st =
     st\<lparr>pendingConnections := (pendingConnections st)(d := remove1 w (pendingConnections st d))\<rparr>"

definition finish_wait :: "nat \<Rightarrow> bool \<Rightarrow> demand_state \<Rightarrow> demand_state" where
  "finish_wait w b st = (removePendingConnection (wt_domain st w) w st)\<lparr>wt_pc := (wt_pc st)(w := Returned b)\<rparr>"

definition time_out :: "nat \<Rightarrow> demand_state \<Rightarrow> demand_state" where
  "time_out w st = finish_wait w False (clear_flag (wt_domain st w) st)"

section \<open>Steps\<close>

text \<open>In a quiet run every request for a tunnel can be sent, no waiter times out and no failure is reported.\<close>

inductive demand_step :: "bool \<Rightarrow> demand_state \<Rightarrow> demand_state \<Rightarrow> bool" for quiet where
  step_add: "wt_pc st w = Absent \<Longrightarrow> demand_step quiet st (add_pending w d st)"
| step_claim: "wt_pc st w = Added \<Longrightarrow> demand_step quiet st (claim w st)"
| step_request: "dw \<in> set (requesters st) \<Longrightarrow> quiet \<longrightarrow> hasWS \<or> sent \<Longrightarrow> demand_step quiet st (requestTCPTunnelEstablishment hasWS sent dw st)"
| step_established: "demand_step quiet st (begin_wake d st)"
| step_wake: "d \<in> set (wakers st) \<Longrightarrow> demand_step quiet st (wake d st)"
| step_done: "wt_pc st w = Waiting \<Longrightarrow> wt_done st w \<Longrightarrow> demand_step quiet st (finish_wait w True st)"
| step_timeout: "\<not> quiet \<Longrightarrow> wt_pc st w = Waiting \<Longrightarrow> demand_step quiet st (time_out w st)"
| step_failure: "\<not> quiet \<Longrightarrow> demand_step quiet st (clear_flag d st)"

definition demand_init :: "demand_state \<Rightarrow> bool" where
  "demand_init st \<longleftrightarrow> (\<forall>d. pendingConnections st d = []) \<and> (\<forall>w. wt_pc st w = Absent) \<and> requesters st = [] \<and> wakers st = [] \<and>
     (\<forall>d. \<not> establishmentInProgress st d)"

text \<open>The list of a domain holds exactly the requests that have not returned, each once.\<close>

definition demand_inv :: "demand_state \<Rightarrow> bool" where
  "demand_inv st \<longleftrightarrow>
     (\<forall>d. distinct (pendingConnections st d)) \<and>
     (\<forall>d w. w \<in> set (pendingConnections st d) \<longleftrightarrow> wt_domain st w = d \<and> (wt_pc st w = Added \<or> wt_pc st w = Waiting))"

definition attended :: "demand_state \<Rightarrow> bool" where
  "attended st \<longleftrightarrow> (\<forall>w. wt_pc st w = Waiting \<and> \<not> wt_done st w \<longrightarrow>
     establishmentInProgress st (wt_domain st w) \<or> wt_domain st w \<in> set (wakers st))"

text \<open>The flag of a domain is backed when somebody is still to ask the client, or has asked and got no tunnel yet.\<close>

definition backed :: "demand_state \<Rightarrow> bool" where
  "backed st \<longleftrightarrow> (\<forall>d. establishmentInProgress st d \<longrightarrow> d \<in> fst ` set (requesters st) \<or> d \<in> fst ` set (requested st))"

lemmas demand_defs = add_pending_def claim_def clear_flag_def begin_wake_def wake_def requestTCPTunnelEstablishment_def
  removePendingConnection_def finish_wait_def time_out_def Let_def

lemma demand_invI:
  assumes "\<And>d. distinct (pendingConnections st d)"
    and "\<And>d w. w \<in> set (pendingConnections st d) \<longleftrightarrow> wt_domain st w = d \<and> (wt_pc st w = Added \<or> wt_pc st w = Waiting)"
  shows "demand_inv st"
  using assms by (simp add: demand_inv_def)

lemma demand_inv_same:
  "demand_inv st \<Longrightarrow> pendingConnections st' = pendingConnections st \<Longrightarrow> wt_domain st' = wt_domain st \<Longrightarrow> wt_pc st' = wt_pc st \<Longrightarrow>
   demand_inv st'"
  by (simp add: demand_inv_def)

lemma demand_inv_claim: "demand_inv st \<Longrightarrow> wt_pc st w = Added \<Longrightarrow> demand_inv (claim w st)"
  by (auto simp: demand_inv_def demand_defs)

lemma demand_inv_add:
  assumes "demand_inv st" "wt_pc st w = Absent"
  shows "demand_inv (add_pending w d st)"
  using assms by (auto simp: demand_inv_def add_pending_def)

lemma demand_inv_finish:
  assumes "demand_inv st" "wt_pc st w = Waiting"
  shows "demand_inv (finish_wait w b st)"
  using assms by (auto simp: demand_inv_def demand_defs)

lemma demand_step_inv: "demand_step quiet st st' \<Longrightarrow> demand_inv st \<Longrightarrow> demand_inv st'"
proof (induction rule: demand_step.induct)
  case (step_timeout st w)
  have "demand_inv (clear_flag (wt_domain st w) st)"
    by (rule demand_inv_same [OF step_timeout.prems]) (simp_all add: demand_defs)
  moreover have "wt_pc (clear_flag (wt_domain st w) st) w = Waiting" using step_timeout.hyps by (simp add: demand_defs)
  ultimately show ?case unfolding time_out_def by (rule demand_inv_finish)
next
  case (step_request dw st hasWS sent)
  show ?case by (rule demand_inv_same [OF step_request.prems]) (simp_all add: demand_defs)
next
  case (step_established st d)
  show ?case by (rule demand_inv_same [OF step_established.prems]) (simp_all add: demand_defs)
next
  case (step_wake d st)
  show ?case by (rule demand_inv_same [OF step_wake.prems]) (simp_all add: demand_defs)
next
  case (step_failure st d)
  show ?case by (rule demand_inv_same [OF step_failure.prems]) (simp_all add: demand_defs)
qed (auto intro: demand_inv_add demand_inv_claim demand_inv_finish)

interpretation demand: transition_system demand_init "demand_step quiet" demand_inv
  by unfold_locales (simp add: demand_init_def demand_inv_def, rule demand_step_inv)

lemma attended_step:
  assumes "demand_step True st st'" "demand_inv st" "attended st"
  shows "attended st'"
  using assms(1)
proof (cases rule: demand_step.cases)
  case (step_add w d)
  then show ?thesis using assms(3) by (auto simp: attended_def add_pending_def)
next
  case (step_claim w)
  then show ?thesis using assms(3) by (auto simp: attended_def claim_def Let_def)
next
  case (step_request dw hasWS sent)
  then show ?thesis using assms(3) by (auto simp: attended_def demand_defs)
next
  case (step_established d)
  then show ?thesis using assms(3) by (auto simp: attended_def demand_defs)
next
  case (step_wake d)
  have "w \<in> set (pendingConnections st (wt_domain st w))" if "wt_pc st w = Waiting" for w
    using that assms(2) by (simp add: demand_inv_def)
  then show ?thesis using assms(3) step_wake by (auto simp: attended_def wake_def) (metis in_set_remove1)
next
  case (step_done w)
  then show ?thesis using assms(3) by (auto simp: attended_def demand_defs)
qed simp_all

lemma backed_step:
  assumes "demand_step True st st'" "backed st"
  shows "backed st'"
  using assms(1)
proof (cases rule: demand_step.cases)
  case (step_claim w)
  then show ?thesis using assms(2) by (auto simp: backed_def demand_defs)
next
  case (step_request dw hasWS sent)
  have keep: "d \<in> fst ` set (remove1 dw (requesters st))" if "d \<in> fst ` set (requesters st)" and ne: "d \<noteq> fst dw" for d
  proof -
    from \<open>d \<in> fst ` set (requesters st)\<close> obtain x where x: "x \<in> set (requesters st)" "d = fst x" by auto
    then have "x \<noteq> dw" using ne by blast
    then have "x \<in> set (remove1 dw (requesters st))" using x(1) by (simp add: in_set_remove1)
    then show ?thesis using x(2) by simp
  qed
  show ?thesis
  proof (unfold backed_def, intro allI impI)
    fix d assume d: "establishmentInProgress st' d"
    then have "establishmentInProgress st d" using step_request by (auto simp: demand_defs split: if_splits)
    then have "d \<in> fst ` set (requesters st) \<or> d \<in> fst ` set (requested st)" using assms(2) by (simp add: backed_def)
    then show "d \<in> fst ` set (requesters st') \<or> d \<in> fst ` set (requested st')"
      using keep [of d] d step_request by (cases hasWS; cases "d = fst dw") (auto simp: demand_defs)
  qed
next
  case (step_established e)
  show ?thesis
  proof (unfold backed_def, intro allI impI)
    fix d assume d: "establishmentInProgress st' d"
    then have "d \<noteq> e" "establishmentInProgress st d" using step_established by (auto simp: demand_defs split: if_splits)
    then show "d \<in> fst ` set (requesters st') \<or> d \<in> fst ` set (requested st')"
      using assms(2) step_established by (auto simp: backed_def demand_defs)
  qed
qed (use assms(2) in \<open>auto simp: backed_def demand_defs\<close>)

interpretation quiet_demand: transition_system demand_init "demand_step True" "\<lambda>st. demand_inv st \<and> attended st \<and> backed st"
proof unfold_locales
  show "demand_inv st \<and> attended st \<and> backed st" if "demand_init st" for st
    using demand.invar_init [OF that] that by (simp add: attended_def backed_def demand_init_def)
  show "demand_inv st' \<and> attended st' \<and> backed st'" if "demand_inv st \<and> attended st \<and> backed st" "demand_step True st st'" for st st'
    using that demand_step_inv attended_step backed_step by blast
qed


text \<open>
  A request that cannot be sent strands the domain: the goroutine that asks the client only logs a failed send and leaves
  the flag set. Nobody is asking any more and no wake-up is on its way, and every later request for the domain joins without
  asking, until one of them times out and clears the flag.
\<close>

theorem failed_send_strands:
  assumes "requesters st = [(d, w)]" "d \<notin> fst ` set (requested st)" "d \<notin> set (wakers st)" "establishmentInProgress st d"
  defines "st' \<equiv> requestTCPTunnelEstablishment False False (d, w) st"
  shows "establishmentInProgress st' d \<and> requesters st' = [] \<and> d \<notin> fst ` set (requested st') \<and> d \<notin> set (wakers st') \<and>
    (\<forall>w'. wt_pc st' w' = Added \<and> wt_domain st' w' = d \<longrightarrow> requesters (claim w' st') = [] \<and> wt_pc (claim w' st') w' = Waiting)"
  using assms by (simp add: demand_defs)

text \<open>
  The lists of waiting connections do not leak: in every interleaving, with time-outs and reported
  failures too, the list of a domain holds exactly the requests for it that have not returned, each
  once, so a domain whose requests have all returned has an empty list.
\<close>

theorem pending_lists_exact:
  assumes "reach demand_init (demand_step quiet) st"
  shows "distinct (pendingConnections st d) \<and>
    set (pendingConnections st d) = {w. wt_domain st w = d \<and> (wt_pc st w = Added \<or> wt_pc st w = Waiting)}"
  using demand.reach_invar [OF assms] by (auto simp: demand_inv_def)

section \<open>Establishment that fails\<close>

text \<open>
  A failed establishment is not noticed: when the client cannot open the TCP tunnel, or has no handler for the
  request, the message it answers with is an error, which never reaches the callback that would clear
  the flag, so the requests of the domain keep joining the failed attempt until one of them times out.
\<close>

theorem failed_establishment_unnoticed:
  assumes "handler = None \<or> (\<exists>h err. handler = Some h \<and> h req = Some err)" "gc_stream c"
  shows "\<exists>c' m. c_handleTunnelEstablishRequest handler True rid req c = (Completed, c') \<and> gc_sent c' = gc_sent c @ [m] \<and>
    (\<forall>ts. handleControlMessage True ts m = None)"
  using assms
  by (auto simp: c_handleTunnelEstablishRequest_def sendTunnelEstablishResponse_def client_send_def handleControlMessage_def)

section \<open>Witnesses\<close>

definition demo_demand :: demand_state where
  "demo_demand = \<lparr>pendingConnections = (\<lambda>_. []), establishmentInProgress = (\<lambda>_. False), wt_domain = (\<lambda>_. []),
     wt_pc = (\<lambda>_. Absent), wt_done = (\<lambda>_. False), requesters = [], wakers = [], requested = []\<rparr>"

lemma demo_waiting: "reach demand_init (demand_step q) (claim 3 (add_pending 3 ''d'' demo_demand))"
proof -
  have "reach demand_init (demand_step q) demo_demand" by (rule reach_init) (simp add: demand_init_def demo_demand_def)
  then have "reach demand_init (demand_step q) (add_pending 3 ''d'' demo_demand)"
    by (rule reach_step) (rule step_add, simp add: demo_demand_def)
  then show ?thesis by (rule reach_step) (rule step_claim, simp add: add_pending_def)
qed


theorem failed_send_strands_witness:
  "requesters (requestTCPTunnelEstablishment False False (''d'', 3) (claim 3 (add_pending 3 ''d'' demo_demand))) = []"
  using failed_send_strands [of "claim 3 (add_pending 3 ''d'' demo_demand)" "''d''" 3]
  by (simp add: Let_def claim_def add_pending_def demo_demand_def)

theorem pending_lists_exact_witness:
  "set (pendingConnections (claim 3 (add_pending 3 ''d'' demo_demand)) ''d'') = {3}"
  using pending_lists_exact [OF demo_waiting, where d = "''d''"] by (auto simp: Let_def claim_def add_pending_def demo_demand_def)

theorem failed_establishment_unnoticed_witness:
  "\<exists>c' m. c_handleTunnelEstablishRequest None True ''r'' \<lparr>er_Domain = ''d'', er_RequestId = ''r'', er_TCP = True\<rparr>
     \<lparr>gc_domain = ''d'', gc_targetPort = 80, gc_stream = True, gc_sent = [], gc_uploads = Map.empty, gc_active = \<lambda>_. False,
       gc_totalRequests = 0, gc_totalResponses = 0\<rparr> = (Completed, c') \<and> gc_sent c' = [m] \<and> (\<forall>ts. handleControlMessage True ts m = None)"
  using failed_establishment_unnoticed [of None _ "\<lparr>gc_domain = ''d'', gc_targetPort = 80, gc_stream = True, gc_sent = [], gc_uploads = Map.empty,
       gc_active = \<lambda>_. False, gc_totalRequests = 0, gc_totalResponses = 0\<rparr>" "''r''"]
  by simp

end
