(* ===== verification/Sessions.thy ===== *)
theory Sessions
  imports Token_Service
begin

text \<open>
  Users and sessions: \<open>internal/repository/session_repository.go\<close>, \<open>auth_repository.go\<close> and
  \<open>user_repository.go\<close> over the schemas \<open>internal/db/ent/schema/user.go\<close> and \<open>session.go\<close>, and the
  periodic \<open>SessionCleanup\<close> of \<open>internal/tasks\<close>. The tables are those of one database: a session, an API token and a
  tunnel refer to a user by a foreign key without an action, so a user that is referred to cannot be
  deleted. An operation whose fault is set answers with an error of the database and changes nothing.
  Ids are \<open>uint32\<close> values; an insertion under an id that is in use violates the primary key.
\<close>

section \<open>Tables\<close>

record user_row =
  ur_ID :: u32
  ur_FirebaseUID :: string
  ur_Email :: string
  ur_Name :: string
  ur_Role :: string
  ur_IsActive :: bool
  ur_LastLogin :: "time option"
  ur_LastLoginIP :: "string option"
  ur_LastActivity :: "time option"
  ur_CreatedAt :: time
  ur_UpdatedAt :: time

record session_row =
  sn_ID :: u32
  sn_Token :: string
  sn_ExpiresAt :: time
  sn_LastUsed :: time
  sn_IsActive :: bool
  sn_UserAgent :: string
  sn_IPAddress :: string
  sn_Owner :: u32
  sn_CreatedAt :: time
  sn_UpdatedAt :: time

record auth_db =
  ad_users :: "user_row list"
  ad_next_user :: nat
  ad_sessions :: "session_row list"
  ad_next_session :: nat
  ad_tokens :: "api_token list"
  ad_tunnels :: tunnel_db

datatype auth_op =
    SnGet | SnGetActiveByToken | SnCreate | SnUpdateLastUsed | SnDelete | SnDeleteExpired | SnDeleteInactive
  | SnGetActive | SnGetUserSession | SnGetOwner | SnRevoke | SnRevokeAll
  | UrGet | UrByUID | UrByEmail | UrCreate | UrLastLogin | UrLastActivity | UrUpdate | UrDelete | UrList | UrCount

type_synonym auth_faults = "auth_op \<Rightarrow> bool"

section \<open>The session repository\<close>

definition sn_Get :: "auth_faults \<Rightarrow> auth_db \<Rightarrow> u32 \<Rightarrow> repo_error + session_row" where
  "sn_Get f db i = (if f SnGet then Inl DBError else ent_Only (\<lambda>s. sn_ID s = i) (ad_sessions db))"

definition sn_live :: "time \<Rightarrow> string \<Rightarrow> session_row \<Rightarrow> bool" where
  "sn_live now token s \<longleftrightarrow> sn_Token s = token \<and> sn_IsActive s \<and> sn_ExpiresAt s > now"

definition sn_GetActiveByToken :: "auth_faults \<Rightarrow> time \<Rightarrow> auth_db \<Rightarrow> string \<Rightarrow> repo_error + session_row" where
  "sn_GetActiveByToken f now db token =
     (if f SnGetActiveByToken then Inl DBError else ent_Only (sn_live now token) (ad_sessions db))"

definition sn_CreateForUser ::
    "auth_faults \<Rightarrow> time \<Rightarrow> u32 \<Rightarrow> string \<Rightarrow> string \<Rightarrow> string \<Rightarrow> time \<Rightarrow> auth_db \<Rightarrow> (repo_error + session_row) \<times> auth_db" where
  "sn_CreateForUser f now uid token userAgent ip expiresAt db =
     (let s = \<lparr>sn_ID = of_nat (ad_next_session db), sn_Token = token, sn_ExpiresAt = expiresAt, sn_LastUsed = now,
               sn_IsActive = True, sn_UserAgent = userAgent, sn_IPAddress = ip, sn_Owner = uid, sn_CreatedAt = now, sn_UpdatedAt = now\<rparr>
      in if f SnCreate then (Inl DBError, db)
         else if sn_ID s \<in> sn_ID ` set (ad_sessions db) \<or> token \<in> sn_Token ` set (ad_sessions db) \<or>
                 uid \<notin> ur_ID ` set (ad_users db)
         then (Inl ConstraintError, db)
         else (Inr s, db\<lparr>ad_sessions := ad_sessions db @ [s], ad_next_session := Suc (ad_next_session db)\<rparr>))"

text \<open>What an update of a session may set; every update sets the time of the change.\<close>

datatype session_update = Touch time "time option" | Deactivate time

fun sn_apply :: "session_update \<Rightarrow> session_row \<Rightarrow> session_row" where
  "sn_apply (Touch now exp) s =
     s\<lparr>sn_LastUsed := now, sn_UpdatedAt := now, sn_ExpiresAt := (case exp of None \<Rightarrow> sn_ExpiresAt s | Some e \<Rightarrow> e)\<rparr>"
| "sn_apply (Deactivate now) s = s\<lparr>sn_IsActive := False, sn_UpdatedAt := now\<rparr>"

definition sn_update :: "session_update \<Rightarrow> u32 \<Rightarrow> auth_db \<Rightarrow> (repo_error + session_row) \<times> auth_db" where
  "sn_update u i db =
     (case ent_UpdateOneID sn_ID i (sn_apply u) (ad_sessions db) of (res, rows) \<Rightarrow> (res, db\<lparr>ad_sessions := rows\<rparr>))"

definition sn_UpdateLastUsed ::
    "auth_faults \<Rightarrow> time \<Rightarrow> session_row \<Rightarrow> time option \<Rightarrow> auth_db \<Rightarrow> (repo_error + session_row) \<times> auth_db" where
  "sn_UpdateLastUsed f now s newExpiration db =
     (if f SnUpdateLastUsed then (Inl DBError, db) else sn_update (Touch now newExpiration) (sn_ID s) db)"

definition sn_Revoke :: "auth_faults \<Rightarrow> time \<Rightarrow> session_row \<Rightarrow> auth_db \<Rightarrow> repo_error option \<times> auth_db" where
  "sn_Revoke f now s db =
     (if f SnRevoke then (Some DBError, db)
      else case sn_update (Deactivate now) (sn_ID s) db of (Inl e, db') \<Rightarrow> (Some e, db') | (Inr _, db') \<Rightarrow> (None, db'))"

definition sn_RevokeByToken :: "auth_faults \<Rightarrow> time \<Rightarrow> string \<Rightarrow> auth_db \<Rightarrow> repo_error option \<times> auth_db" where
  "sn_RevokeByToken f now token db =
     (case sn_GetActiveByToken f now db token of Inl e \<Rightarrow> (Some e, db) | Inr s \<Rightarrow> sn_Revoke f now s db)"

definition sn_RevokeAllUserSessions :: "auth_faults \<Rightarrow> time \<Rightarrow> u32 \<Rightarrow> auth_db \<Rightarrow> repo_error option \<times> auth_db" where
  "sn_RevokeAllUserSessions f now uid db =
     (if f SnRevokeAll then (Some DBError, db)
      else (None, db\<lparr>ad_sessions := map (\<lambda>s. if sn_Owner s = uid then sn_apply (Deactivate now) s else s) (ad_sessions db)\<rparr>))"

definition sn_Delete :: "auth_faults \<Rightarrow> u32 \<Rightarrow> auth_db \<Rightarrow> repo_error option \<times> auth_db" where
  "sn_Delete f i db =
     (if f SnDelete then (Some DBError, db)
      else case ent_DeleteOneID sn_ID i (ad_sessions db) of
             (Inl e, _) \<Rightarrow> (Some e, db)
           | (Inr _, rows) \<Rightarrow> (None, db\<lparr>ad_sessions := rows\<rparr>))"

definition sn_DeleteExpired :: "auth_faults \<Rightarrow> time \<Rightarrow> auth_db \<Rightarrow> repo_error option \<times> auth_db" where
  "sn_DeleteExpired f now db =
     (if f SnDeleteExpired then (Some DBError, db)
      else (None, db\<lparr>ad_sessions := filter (\<lambda>s. \<not> sn_ExpiresAt s < now) (ad_sessions db)\<rparr>))"

definition sn_GetActiveSessions :: "auth_faults \<Rightarrow> auth_db \<Rightarrow> u32 \<Rightarrow> repo_error + session_row list" where
  "sn_GetActiveSessions f db uid =
     (if f SnGetActive then Inl DBError else Inr (filter (\<lambda>s. sn_Owner s = uid \<and> sn_IsActive s) (ad_sessions db)))"

definition sn_GetUserSession :: "auth_faults \<Rightarrow> auth_db \<Rightarrow> string \<Rightarrow> u32 \<Rightarrow> repo_error + session_row" where
  "sn_GetUserSession f db sessionID uid =
     (if f SnGetUserSession then Inl DBError
      else ent_Only (\<lambda>s. sn_Token s = sessionID \<and> sn_Owner s = uid) (ad_sessions db))"

definition sn_GetSessionOwner :: "auth_faults \<Rightarrow> auth_db \<Rightarrow> session_row \<Rightarrow> repo_error + user_row" where
  "sn_GetSessionOwner f db s =
     (if f SnGetOwner then Inl DBError
      else case ent_Only (\<lambda>x. sn_ID x = sn_ID s) (ad_sessions db) of
             Inl e \<Rightarrow> Inl e
           | Inr x \<Rightarrow> ent_Only (\<lambda>u. ur_ID u = sn_Owner x) (ad_users db))"

text \<open>\<open>SessionCleanup.cleanup\<close>: expired sessions, then revoked ones that were not used for 30 days.\<close>

definition session_cleanup :: "auth_faults \<Rightarrow> time \<Rightarrow> auth_db \<Rightarrow> repo_error option \<times> auth_db" where
  "session_cleanup f now db =
     (case sn_DeleteExpired f now db of
        (Some e, db1) \<Rightarrow> (Some e, db1)
      | (None, db1) \<Rightarrow>
          if f SnDeleteInactive then (Some DBError, db1)
          else (None, db1\<lparr>ad_sessions := filter (\<lambda>s. \<not> (\<not> sn_IsActive s \<and> sn_LastUsed s < now - 30 * 86400)) (ad_sessions db1)\<rparr>))"


section \<open>The user repositories\<close>

definition ur_Get :: "auth_faults \<Rightarrow> auth_db \<Rightarrow> u32 \<Rightarrow> repo_error + user_row" where
  "ur_Get f db i = (if f UrGet then Inl DBError else ent_Only (\<lambda>u. ur_ID u = i) (ad_users db))"

definition GetUserByFirebaseUID :: "auth_faults \<Rightarrow> auth_db \<Rightarrow> string \<Rightarrow> repo_error + user_row" where
  "GetUserByFirebaseUID f db uid = (if f UrByUID then Inl DBError else ent_Only (\<lambda>u. ur_FirebaseUID u = uid) (ad_users db))"

definition GetUserByEmail :: "auth_faults \<Rightarrow> auth_db \<Rightarrow> string \<Rightarrow> repo_error + user_row" where
  "GetUserByEmail f db email = (if f UrByEmail then Inl DBError else ent_Only (\<lambda>u. ur_Email u = email) (ad_users db))"

definition new_user :: "time \<Rightarrow> u32 \<Rightarrow> string \<Rightarrow> string \<Rightarrow> string \<Rightarrow> string \<Rightarrow> user_row" where
  "new_user now i uid email name ip =
     \<lparr>ur_ID = i, ur_FirebaseUID = uid, ur_Email = email, ur_Name = name, ur_Role = ''user'', ur_IsActive = True,
      ur_LastLogin = Some now, ur_LastLoginIP = Some ip, ur_LastActivity = None, ur_CreatedAt = now, ur_UpdatedAt = now\<rparr>"

definition CreateUser ::
    "auth_faults \<Rightarrow> time \<Rightarrow> string \<Rightarrow> string \<Rightarrow> string \<Rightarrow> string \<Rightarrow> auth_db \<Rightarrow> (repo_error + user_row) \<times> auth_db" where
  "CreateUser f now uid email name ip db =
     (let u = new_user now (of_nat (ad_next_user db)) uid email name ip
      in if f UrCreate then (Inl DBError, db)
         else if ur_ID u \<in> ur_ID ` set (ad_users db) \<or> uid \<in> ur_FirebaseUID ` set (ad_users db) \<or>
                 email \<in> ur_Email ` set (ad_users db)
         then (Inl ConstraintError, db)
         else (Inr u, db\<lparr>ad_users := ad_users db @ [u], ad_next_user := Suc (ad_next_user db)\<rparr>))"

text \<open>Updates of a user: the two time stamps, and the fields the handlers set.\<close>

record user_update =
  uu_Name :: "string option"
  uu_Email :: "string option"
  uu_IsActive :: "bool option"
  uu_Login :: "(time \<times> string) option"
  uu_Activity :: "time option"

definition no_update :: user_update where
  "no_update = \<lparr>uu_Name = None, uu_Email = None, uu_IsActive = None, uu_Login = None, uu_Activity = None\<rparr>"

definition override :: "'a option \<Rightarrow> 'a \<Rightarrow> 'a" where
  "override o' x = (case o' of None \<Rightarrow> x | Some y \<Rightarrow> y)"

definition ur_apply :: "time \<times> user_update \<Rightarrow> user_row \<Rightarrow> user_row" where
  "ur_apply = (\<lambda>(now, u) r.
     r\<lparr>ur_Name := override (uu_Name u) (ur_Name r), ur_Email := override (uu_Email u) (ur_Email r),
       ur_IsActive := override (uu_IsActive u) (ur_IsActive r),
       ur_LastLogin := override (map_option (Some \<circ> fst) (uu_Login u)) (ur_LastLogin r),
       ur_LastLoginIP := override (map_option (Some \<circ> snd) (uu_Login u)) (ur_LastLoginIP r),
       ur_LastActivity := override (map_option Some (uu_Activity u)) (ur_LastActivity r), ur_UpdatedAt := now\<rparr>)"

definition email_taken :: "u32 \<Rightarrow> user_update \<Rightarrow> auth_db \<Rightarrow> bool" where
  "email_taken i u db \<longleftrightarrow>
     (case uu_Email u of None \<Rightarrow> False | Some e \<Rightarrow> list_ex (\<lambda>r. ur_ID r \<noteq> i \<and> ur_Email r = e) (ad_users db))"

definition ur_save :: "time \<Rightarrow> u32 \<Rightarrow> user_update \<Rightarrow> auth_db \<Rightarrow> (repo_error + user_row) \<times> auth_db" where
  "ur_save now i u db =
     (if i \<in> ur_ID ` set (ad_users db) \<and> email_taken i u db then (Inl ConstraintError, db)
      else case ent_UpdateOneID ur_ID i (ur_apply (now, u)) (ad_users db) of (res, rows) \<Rightarrow> (res, db\<lparr>ad_users := rows\<rparr>))"

definition ur_Update :: "auth_faults \<Rightarrow> time \<Rightarrow> u32 \<Rightarrow> user_update \<Rightarrow> auth_db \<Rightarrow> (repo_error + user_row) \<times> auth_db" where
  "ur_Update f now i u db = (if f UrUpdate then (Inl DBError, db) else ur_save now i u db)"

definition UpdateUserLastLogin :: "auth_faults \<Rightarrow> time \<Rightarrow> user_row \<Rightarrow> string \<Rightarrow> auth_db \<Rightarrow> (repo_error + user_row) \<times> auth_db" where
  "UpdateUserLastLogin f now u ip db =
     (if f UrLastLogin then (Inl DBError, db) else ur_save now (ur_ID u) (no_update\<lparr>uu_Login := Some (now, ip)\<rparr>) db)"

definition UpdateUserLastActivity :: "auth_faults \<Rightarrow> time \<Rightarrow> user_row \<Rightarrow> auth_db \<Rightarrow> (repo_error + user_row) \<times> auth_db" where
  "UpdateUserLastActivity f now u db =
     (if f UrLastActivity then (Inl DBError, db) else ur_save now (ur_ID u) (no_update\<lparr>uu_Activity := Some now\<rparr>) db)"

text \<open>The rows that refer to a user.\<close>

definition referenced :: "auth_db \<Rightarrow> u32 \<Rightarrow> bool" where
  "referenced db i \<longleftrightarrow>
     list_ex (\<lambda>s. sn_Owner s = i) (ad_sessions db) \<or> list_ex (\<lambda>t. tk_UserID t = i) (ad_tokens db) \<or>
     list_ex (\<lambda>t. t_UserID t = i) (db_rows (ad_tunnels db))"

definition ur_Delete :: "auth_faults \<Rightarrow> u32 \<Rightarrow> auth_db \<Rightarrow> repo_error option \<times> auth_db" where
  "ur_Delete f i db =
     (if f UrDelete then (Some DBError, db)
      else case ent_DeleteOneID ur_ID i (ad_users db) of
             (Inl e, _) \<Rightarrow> (Some e, db)
           | (Inr _, rows) \<Rightarrow> if referenced db i then (Some ConstraintError, db) else (None, db\<lparr>ad_users := rows\<rparr>))"

text \<open>
  \<open>List\<close>: \<open>orderBy\<close> is the order the database gives to a sort by \<open>last_login\<close> or \<open>email\<close> (which depends
  on its collation); every other column means the ids in descending order. A negative offset is an
  error of the database.
\<close>

definition user_order :: "(string \<Rightarrow> bool \<Rightarrow> user_row list \<Rightarrow> user_row list) \<Rightarrow> string \<Rightarrow> string \<Rightarrow> user_row list \<Rightarrow> user_row list" where
  "user_order orderBy sortBy sortOrder us =
     (if sortBy = ''last_login'' \<or> sortBy = ''email'' then orderBy sortBy (sortOrder = ''desc'') us
      else sort_key (\<lambda>u. - int (unat (ur_ID u))) us)"

definition ur_List ::
    "(string \<Rightarrow> bool \<Rightarrow> user_row list \<Rightarrow> user_row list) \<Rightarrow> auth_faults \<Rightarrow> int \<Rightarrow> int \<Rightarrow> string \<Rightarrow> string \<Rightarrow> string \<Rightarrow> auth_db
       \<Rightarrow> repo_error + user_row list" where
  "ur_List orderBy f offset limit search sortBy sortOrder db =
     (if f UrList \<or> offset < 0 then Inl DBError
      else let us = (if search \<noteq> [] then filter (\<lambda>u. Contains (ToLower (ur_Email u)) (ToLower search)) (ad_users db) else ad_users db)
           in Inr (take (nat limit) (drop (nat offset) (user_order orderBy sortBy sortOrder us))))"

definition ur_Count :: "auth_faults \<Rightarrow> auth_db \<Rightarrow> repo_error + nat" where
  "ur_Count f db = (if f UrCount then Inl DBError else Inr (length (ad_users db)))"


section \<open>Integrity of the tables\<close>

interpretation sn_table: ent_table sn_ID sn_Token sn_apply
proof
  fix u and s :: session_row
  show "sn_ID (sn_apply u s) = sn_ID s" "sn_Token (sn_apply u s) = sn_Token s" by (cases u; simp)+
qed

interpretation ur_table: ent_table ur_ID ur_FirebaseUID ur_apply
  by unfold_locales (auto simp: ur_apply_def)

lemma sn_apply_Owner [simp]: "sn_Owner (sn_apply u s) = sn_Owner s"
  by (cases u) auto

lemma ur_apply_sel [simp]:
  "ur_ID (ur_apply u r) = ur_ID r" "ur_Role (ur_apply u r) = ur_Role r" "ur_FirebaseUID (ur_apply u r) = ur_FirebaseUID r"
  by (auto simp: ur_apply_def split: prod.splits)

lemma ur_apply_Email: "ur_Email (ur_apply (now, u) r) = override (uu_Email u) (ur_Email r)"
  by (simp add: ur_apply_def)

text \<open>Unique columns, and no dangling references to users.\<close>

definition refs_ok :: "auth_db \<Rightarrow> bool" where
  "refs_ok db \<longleftrightarrow> (\<forall>i. referenced db i \<longrightarrow> i \<in> ur_ID ` set (ad_users db))"

definition auth_inv :: "auth_db \<Rightarrow> bool" where
  "auth_inv db \<longleftrightarrow> keyed sn_ID sn_Token (ad_sessions db) \<and> keyed ur_ID ur_FirebaseUID (ad_users db) \<and>
     distinct (map ur_Email (ad_users db)) \<and> refs_ok db"

lemma auth_invD:
  assumes "auth_inv db"
  shows "distinct (map sn_ID (ad_sessions db))" "distinct (map sn_Token (ad_sessions db))" "distinct (map ur_ID (ad_users db))"
    "distinct (map ur_FirebaseUID (ad_users db))" "distinct (map ur_Email (ad_users db))" "refs_ok db"
  using assms by (auto simp: auth_inv_def keyed_def)

lemma session_owner_exists: "auth_inv db \<Longrightarrow> s \<in> set (ad_sessions db) \<Longrightarrow> sn_Owner s \<in> ur_ID ` set (ad_users db)"
  by (auto simp: auth_inv_def refs_ok_def referenced_def list_ex_iff)

text \<open>Operations that keep the users and give sessions no new owner keep the references.\<close>

lemma refs_sessions:
  assumes "refs_ok db" "sn_Owner ` set rows \<subseteq> sn_Owner ` set (ad_sessions db)"
  shows "refs_ok (db\<lparr>ad_sessions := rows\<rparr>)"
proof -
  have "referenced db i" if "referenced (db\<lparr>ad_sessions := rows\<rparr>) i" for i
  proof -
    have "\<exists>s \<in> set (ad_sessions db). sn_Owner s = i" if "s \<in> set rows" "sn_Owner s = i" for s
      using assms(2) that by (metis imageE image_eqI subsetD)
    with that show ?thesis by (auto simp: referenced_def list_ex_iff)
  qed
  with assms(1) show ?thesis by (simp add: refs_ok_def)
qed

lemma auth_inv_sessions:
  assumes "auth_inv db" "keyed sn_ID sn_Token rows" "sn_Owner ` set rows \<subseteq> sn_Owner ` set (ad_sessions db)"
  shows "auth_inv (db\<lparr>ad_sessions := rows\<rparr>)"
  using assms refs_sessions [of db rows] by (simp add: auth_inv_def)

lemma keyed_filter: "keyed rid ukey rows \<Longrightarrow> keyed rid ukey (filter P rows)"
  by (simp add: keyed_def distinct_map_filter)

lemma auth_inv_filter_sessions: "auth_inv db \<Longrightarrow> auth_inv (db\<lparr>ad_sessions := filter P (ad_sessions db)\<rparr>)"
  by (rule auth_inv_sessions) (auto simp: auth_inv_def keyed_filter)

lemma UpdateOneID_cases:
  obtains "ent_UpdateOneID rid i g rows = (Inl ErrNotFound, rows)" "i \<notin> rid ` set rows"
    | r where "ent_UpdateOneID rid i g rows = (Inr (g r), map (\<lambda>r. if rid r = i then g r else r) rows)" "r \<in> set rows" "rid r = i"
proof (cases "filter (\<lambda>r. rid r = i) rows")
  case Nil
  then show ?thesis by (intro that(1)) (auto simp: ent_UpdateOneID_def filter_empty_conv)
next
  case (Cons a list)
  then have "a \<in> set (filter (\<lambda>r. rid r = i) rows)" by simp
  then have "a \<in> set rows" "rid a = i" by simp_all
  with Cons show ?thesis by (intro that(2)) (auto simp: ent_UpdateOneID_def)
qed

lemma sn_update_inv:
  assumes "auth_inv db" "sn_update u i db = (res, db')"
  shows "auth_inv db'"
proof (cases rule: UpdateOneID_cases [of sn_ID i "sn_apply u" "ad_sessions db"])
  case 1
  with assms show ?thesis by (simp add: sn_update_def)
next
  case (2 r)
  have k: "keyed sn_ID sn_Token (map (\<lambda>s. if sn_ID s = i then sn_apply u s else s) (ad_sessions db))"
    using sn_table.keyed_update [OF _ 2(1)] assms(1) by (auto simp: auth_inv_def)
  have "db' = db\<lparr>ad_sessions := map (\<lambda>s. if sn_ID s = i then sn_apply u s else s) (ad_sessions db)\<rparr>"
    using assms(2) 2 by (auto simp: sn_update_def)
  with auth_inv_sessions [OF assms(1) k] show ?thesis by force
qed

lemma sn_ops_inv:
  assumes "auth_inv db"
  shows "sn_CreateForUser f now uid token ua ip exp db = (res, db') \<Longrightarrow> auth_inv db'"
    and "sn_UpdateLastUsed f now s e db = (res, db') \<Longrightarrow> auth_inv db'"
    and "sn_Revoke f now s db = (err, db') \<Longrightarrow> auth_inv db'"
    and "sn_RevokeByToken f now token db = (err, db') \<Longrightarrow> auth_inv db'"
    and "sn_RevokeAllUserSessions f now uid db = (err, db') \<Longrightarrow> auth_inv db'"
    and "session_cleanup f now db = (err, db') \<Longrightarrow> auth_inv db'"
proof -
  assume "sn_CreateForUser f now uid token ua ip exp db = (res, db')"
  then show "auth_inv db'"
    using assms
    by (auto simp: sn_CreateForUser_def Let_def auth_inv_def keyed_def refs_ok_def referenced_def split: if_splits)
next
  assume "sn_UpdateLastUsed f now s e db = (res, db')"
  then show "auth_inv db'"
    using assms sn_update_inv by (auto simp: sn_UpdateLastUsed_def split: if_splits)
next
  have r: "auth_inv db'" if "sn_Revoke f now s db = (err, db')" for s db'
    using that assms sn_update_inv by (auto simp: sn_Revoke_def split: if_splits prod.splits sum.splits)
  show "sn_Revoke f now s db = (err, db') \<Longrightarrow> auth_inv db'" by (rule r)
  show "sn_RevokeByToken f now token db = (err, db') \<Longrightarrow> auth_inv db'"
    using assms r by (auto simp: sn_RevokeByToken_def split: sum.splits)
next
  let ?g = "\<lambda>s. if sn_Owner s = uid then sn_apply (Deactivate now) s else s"
  have g: "sn_ID (?g s) = sn_ID s" "sn_Token (?g s) = sn_Token s" "sn_Owner (?g s) = sn_Owner s" for s by simp_all
  have "auth_inv (db\<lparr>ad_sessions := map ?g (ad_sessions db)\<rparr>)"
  proof (rule auth_inv_sessions [OF assms])
    have "map sn_ID (map ?g (ad_sessions db)) = map sn_ID (ad_sessions db)"
      "map sn_Token (map ?g (ad_sessions db)) = map sn_Token (ad_sessions db)" by simp_all
    then show "keyed sn_ID sn_Token (map ?g (ad_sessions db))" using auth_invD [OF assms] unfolding keyed_def by metis
    show "sn_Owner ` set (map ?g (ad_sessions db)) \<subseteq> sn_Owner ` set (ad_sessions db)" by (auto simp: image_iff)
  qed
  then show "sn_RevokeAllUserSessions f now uid db = (err, db') \<Longrightarrow> auth_inv db'"
    using assms by (auto simp: sn_RevokeAllUserSessions_def split: if_splits)
next
  assume "session_cleanup f now db = (err, db')"
  then show "auth_inv db'"
    using assms auth_inv_filter_sessions auth_inv_filter_sessions [OF auth_inv_filter_sessions [OF assms]]
    by (auto simp: session_cleanup_def sn_DeleteExpired_def split: if_splits)
qed


lemma refs_users:
  assumes "refs_ok db" "ur_ID ` set (ad_users db) \<subseteq> ur_ID ` set rows"
  shows "refs_ok (db\<lparr>ad_users := rows, ad_next_user := n\<rparr>)"
  using assms by (auto simp: refs_ok_def referenced_def)

lemma refs_same_ids:
  assumes "refs_ok db" "map ur_ID rows = map ur_ID (ad_users db)"
  shows "refs_ok (db\<lparr>ad_users := rows\<rparr>)"
proof -
  have "ur_ID ` set rows = ur_ID ` set (ad_users db)" using arg_cong [OF assms(2), of set] by simp
  with assms(1) show ?thesis by (simp add: refs_ok_def referenced_def)
qed

lemma CreateUser_inv:
  assumes "auth_inv db" "CreateUser f now uid email name ip db = (res, db')"
  shows "auth_inv db'"
proof (cases "db' = db")
  case False
  let ?u = "new_user now (of_nat (ad_next_user db)) uid email name ip"
  have c: "db' = db\<lparr>ad_users := ad_users db @ [?u], ad_next_user := Suc (ad_next_user db)\<rparr>"
    "ur_ID ?u \<notin> ur_ID ` set (ad_users db)" "uid \<notin> ur_FirebaseUID ` set (ad_users db)" "email \<notin> ur_Email ` set (ad_users db)"
    using assms(2) False by (auto simp: CreateUser_def Let_def split: if_splits)
  have "refs_ok db'" unfolding c(1) by (rule refs_users) (use assms(1) in \<open>auto simp: auth_inv_def\<close>)
  moreover have "keyed ur_ID ur_FirebaseUID (ad_users db @ [?u])" "distinct (map ur_Email (ad_users db @ [?u]))"
    using auth_invD [OF assms(1)] c(2-) by (auto simp: keyed_def new_user_def)
  ultimately show ?thesis using assms(1) by (simp add: auth_inv_def c(1))
qed (use assms in simp)

lemma ur_save_cases:
  assumes "ur_save now i u db = (res, db')"
  obtains (kept) e where "db' = db" "res = Inl e"
    | (saved) r where "r \<in> set (ad_users db)" "ur_ID r = i" "res = Inr (ur_apply (now, u) r)" "\<not> email_taken i u db"
      "db' = db\<lparr>ad_users := map (\<lambda>r. if ur_ID r = i then ur_apply (now, u) r else r) (ad_users db)\<rparr>"
proof (cases "i \<in> ur_ID ` set (ad_users db) \<and> email_taken i u db")
  case True
  with assms that(1) show ?thesis by (auto simp: ur_save_def)
next
  case False
  show ?thesis
  proof (cases rule: UpdateOneID_cases [of ur_ID i "ur_apply (now, u)" "ad_users db"])
    case 1
    with assms False that(1) show ?thesis by (auto simp: ur_save_def)
  next
    case (2 r)
    with assms False that(2) show ?thesis by (auto simp: ur_save_def)
  qed
qed

lemma distinct_map_override:
  assumes "distinct (map g rows)" "distinct (map h rows)" "\<And>r. r \<in> set rows \<Longrightarrow> h r \<noteq> i \<Longrightarrow> g r \<noteq> e"
  shows "distinct (map (\<lambda>r. if h r = i then e else g r) rows)"
  using assms by (induction rows) (auto simp: image_iff)

lemma emails_after_save:
  assumes "auth_inv db" "\<not> email_taken i u db"
  shows "distinct (map ur_Email (map (\<lambda>r. if ur_ID r = i then ur_apply (now, u) r else r) (ad_users db)))"
proof (cases "uu_Email u")
  case None
  then have eq: "map ur_Email (map (\<lambda>r. if ur_ID r = i then ur_apply (now, u) r else r) (ad_users db)) = map ur_Email (ad_users db)"
    by (simp add: ur_apply_Email override_def)
  show ?thesis unfolding eq by (rule auth_invD(5) [OF assms(1)])
next
  case (Some e)
  then have eq: "map ur_Email (map (\<lambda>r. if ur_ID r = i then ur_apply (now, u) r else r) (ad_users db)) =
      map (\<lambda>r. if ur_ID r = i then e else ur_Email r) (ad_users db)"
    by (simp add: ur_apply_Email override_def)
  show ?thesis
    unfolding eq
    using auth_invD [OF assms(1)] assms(2) Some by (intro distinct_map_override) (auto simp: email_taken_def list_ex_iff)
qed

lemma ur_save_inv:
  assumes "auth_inv db" "ur_save now i u db = (res, db')"
  shows "auth_inv db'"
  using assms(2)
proof (cases rule: ur_save_cases)
  case (saved r)
  let ?rows = "map (\<lambda>r. if ur_ID r = i then ur_apply (now, u) r else r) (ad_users db)"
  have m: "map ur_ID ?rows = map ur_ID (ad_users db)" "map ur_FirebaseUID ?rows = map ur_FirebaseUID (ad_users db)"
    by (rule ur_table.map_upd_if)+
  then have "refs_ok (db\<lparr>ad_users := ?rows\<rparr>)"
    using refs_same_ids [OF auth_invD(6) [OF assms(1)], of ?rows] by blast
  moreover have "keyed ur_ID ur_FirebaseUID ?rows" using m auth_invD [OF assms(1)] unfolding keyed_def by metis
  ultimately show ?thesis
    using emails_after_save [OF assms(1) saved(4)] assms(1) unfolding auth_inv_def saved(5) by simp
qed (use assms in simp)

lemma ur_Delete_inv:
  assumes "auth_inv db" "ur_Delete f i db = (err, db')"
  shows "auth_inv db'"
proof (cases "db' = db")
  case False
  then have c: "db' = db\<lparr>ad_users := filter (\<lambda>r. ur_ID r \<noteq> i) (ad_users db)\<rparr>" "\<not> referenced db i"
    using assms(2) by (auto simp: ur_Delete_def ent_DeleteOneID_def split: if_splits)
  have "refs_ok db'" using auth_invD(6) [OF assms(1)] c by (auto simp: refs_ok_def referenced_def)
  with c assms(1) keyed_filter [of ur_ID ur_FirebaseUID "ad_users db"] show ?thesis
    by (simp add: auth_inv_def distinct_map_filter)
qed (use assms in simp)

lemmas auth_inv_ops = sn_ops_inv sn_update_inv CreateUser_inv ur_save_inv ur_Delete_inv

end
