(* ===== verification/Auth_Api.thy ===== *)
theory Auth_Api
  imports Sessions
begin

text \<open>
  The API's authentication: the middleware of \<open>internal/api/middleware\<close> (\<open>auth.go\<close>, \<open>csrf.go\<close>,
  \<open>admin.go\<close>, \<open>validation.go\<close>), \<open>internal/service/csrf_service.go\<close>, the handlers of
  \<open>internal/api/handlers/auth.go\<close>, \<open>session.go\<close> and \<open>user.go\<close>, and what they use of \<open>internal/utils\<close>.
  Firebase, SHA-256, the random source, the e-mail check of the validator package and the domain for
  cookies are parameters. A cookie that gin can read is its unescaped value. The JSON body of a request is
  the value it decodes to, and reading it consumes it. A panic of a handler is turned into status 500
  by the recovery middleware.
\<close>

section \<open>Requests, responses and the context\<close>

datatype api_body =
    LoginBody string
  | RegisterBody string string string
  | VerifyBody string
  | UpdateUserBody string string bool
  | ProfileBody string

record api_request =
  ar_Method :: string
  ar_Cookie :: "string \<Rightarrow> string option"
  ar_Header :: "string \<Rightarrow> string"
  ar_ClientIP :: string
  ar_Param :: string
  ar_Query :: "string \<Rightarrow> string option"
  ar_Body :: "api_body option"

record set_cookie =
  ck_Name :: string
  ck_Value :: string
  ck_MaxAge :: int
  ck_Path :: string
  ck_Domain :: string
  ck_HttpOnly :: bool

record user_response =
  up_ID :: u32
  up_Email :: string
  up_Name :: string
  up_Role :: string
  up_IsActive :: bool
  up_LastLogin :: "time option"
  up_LastLoginIP :: string
  up_LastActivity :: "time option"
  up_CreatedAt :: time
  up_UpdatedAt :: time

definition UserToUserResponse :: "user_row \<Rightarrow> user_response" where
  "UserToUserResponse u =
     \<lparr>up_ID = ur_ID u, up_Email = ur_Email u, up_Name = ur_Name u, up_Role = ur_Role u, up_IsActive = ur_IsActive u,
      up_LastLogin = ur_LastLogin u, up_LastLoginIP = override (ur_LastLoginIP u) [], up_LastActivity = ur_LastActivity u,
      up_CreatedAt = ur_CreatedAt u, up_UpdatedAt = ur_UpdatedAt u\<rparr>"

datatype api_data =
    NoData
  | ErrorData error_code string
  | MessageData string
  | UserData user_response
  | SessionData bool "user_response option"
  | SessionList "(u32 \<times> time \<times> string \<times> time) list"
  | UserList "user_response list" nat int int

record api_response =
  rp_Status :: nat
  rp_Data :: api_data
  rp_Cookies :: "set_cookie list"

definition HandleAPIError :: "error_code \<Rightarrow> string \<Rightarrow> set_cookie list \<Rightarrow> api_response" where
  "HandleAPIError code msg cookies = \<lparr>rp_Status = errorStatusMap code, rp_Data = ErrorData code msg, rp_Cookies = cookies\<rparr>"

definition HandleSuccess :: "api_data \<Rightarrow> set_cookie list \<Rightarrow> api_response" where
  "HandleSuccess d cookies = \<lparr>rp_Status = 200, rp_Data = d, rp_Cookies = cookies\<rparr>"

definition panic_response :: "set_cookie list \<Rightarrow> api_response" where
  "panic_response cookies = \<lparr>rp_Status = 500, rp_Data = NoData, rp_Cookies = cookies\<rparr>"

text \<open>What the middleware leaves in the context. \<open>GetUint\<close> returns zero for a value that is not a \<open>uint\<close>.\<close>

datatype ctx_num = CtxUint u64 | CtxUint32 u32

record gin_ctx =
  cx_userID :: "ctx_num option"
  cx_user :: "user_row option"
  cx_body :: "api_body option"

fun GetUint :: "ctx_num option \<Rightarrow> u64" where
  "GetUint (Some (CtxUint n)) = n"
| "GetUint _ = 0"

definition CookieSession :: string where "CookieSession = ''session''"
definition CookieAuthToken :: string where "CookieAuthToken = ''auth_token''"
definition CookieCSRF :: string where "CookieCSRF = ''csrf_token''"
definition HeaderAuthorization :: string where "HeaderAuthorization = ''Authorization''"
definition HeaderCSRF :: string where "HeaderCSRF = ''X-CSRF-Token''"

lemmas cookie_names = CookieSession_def CookieAuthToken_def CookieCSRF_def HeaderAuthorization_def HeaderCSRF_def

section \<open>The environment\<close>

record firebase_token =
  ft_UID :: string
  ft_Email :: "string option"
  ft_Name :: "string option"

record auth_env =
  ae_VerifyIDToken :: "string \<Rightarrow> firebase_token option"
  ae_SessionCookie :: "string \<Rightarrow> string option"
  ae_VerifySessionCookie :: "string \<Rightarrow> string option"
  ae_sha :: sha256_fun
  ae_rand :: "byte list option"
  ae_csrf_rand :: "byte list option"
  ae_is_email :: "string \<Rightarrow> bool"
  ae_cookieDomain :: string
  ae_orderBy :: "string \<Rightarrow> bool \<Rightarrow> user_row list \<Rightarrow> user_row list"
  ae_faults :: auth_faults
  ae_tkfaults :: token_faults

definition GetRealIP :: "api_request \<Rightarrow> string" where
  "GetRealIP req =
     (if ar_Header req ''X-Real-IP'' \<noteq> [] then ar_Header req ''X-Real-IP''
      else if ar_Header req ''X-Forwarded-For'' \<noteq> [] then TrimSpace (hd (Split (ar_Header req ''X-Forwarded-For'') '',''))
      else ar_ClientIP req)"

definition mk_cookie :: "auth_env \<Rightarrow> string \<Rightarrow> string \<Rightarrow> int \<Rightarrow> bool \<Rightarrow> set_cookie" where
  "mk_cookie env name v age httpOnly =
     \<lparr>ck_Name = name, ck_Value = v, ck_MaxAge = age, ck_Path = ''/'', ck_Domain = ae_cookieDomain env, ck_HttpOnly = httpOnly\<rparr>"

definition clear_cookies :: "auth_env \<Rightarrow> set_cookie list" where
  "clear_cookies env =
     [mk_cookie env CookieSession [] (- 1) True, mk_cookie env CookieAuthToken [] (- 1) True, mk_cookie env CookieCSRF [] (- 1) False]"

section \<open>Middleware\<close>

text \<open>The three ways to authenticate, tried in this order.\<close>

definition session_cookie_user :: "auth_env \<Rightarrow> api_request \<Rightarrow> auth_db \<Rightarrow> user_row option" where
  "session_cookie_user env req db =
     (case ar_Cookie req CookieSession of
        None \<Rightarrow> None
      | Some c \<Rightarrow>
          if c = [] then None
          else case ae_VerifySessionCookie env c of
                 None \<Rightarrow> None
               | Some uid \<Rightarrow> (case GetUserByFirebaseUID (ae_faults env) db uid of Inl _ \<Rightarrow> None | Inr u \<Rightarrow> Some u))"

definition auth_token_user :: "auth_env \<Rightarrow> time \<Rightarrow> api_request \<Rightarrow> auth_db \<Rightarrow> user_row option \<times> auth_db" where
  "auth_token_user env now req db =
     (case ar_Cookie req CookieAuthToken of
        None \<Rightarrow> (None, db)
      | Some c \<Rightarrow>
          if c = [] then (None, db)
          else case sn_GetActiveByToken (ae_faults env) now db c of
                 Inl _ \<Rightarrow> (None, db)
               | Inr s \<Rightarrow>
                   (case sn_UpdateLastUsed (ae_faults env) now s None db of
                      (_, db1) \<Rightarrow>
                        (case sn_GetSessionOwner (ae_faults env) db1 s of Inl _ \<Rightarrow> (None, db1) | Inr u \<Rightarrow> (Some u, db1))))"

definition bearer_user :: "auth_env \<Rightarrow> time \<Rightarrow> api_request \<Rightarrow> auth_db \<Rightarrow> user_row option \<times> auth_db" where
  "bearer_user env now req db =
     (let h = ar_Header req HeaderAuthorization
      in if \<not> HasPrefix h ''Bearer '' then (None, db)
         else case ValidateToken (ae_sha env) (ae_tkfaults env) now (TrimPrefix h ''Bearer '') (ad_tokens db) of
                (Inl _, tokens) \<Rightarrow> (None, db\<lparr>ad_tokens := tokens\<rparr>)
              | (Inr t, tokens) \<Rightarrow>
                  (let db1 = db\<lparr>ad_tokens := tokens\<rparr>
                   in case ur_Get (ae_faults env) db1 (tk_UserID t) of Inl _ \<Rightarrow> (None, db1) | Inr u \<Rightarrow> (Some u, db1)))"

definition identify :: "auth_env \<Rightarrow> time \<Rightarrow> api_request \<Rightarrow> auth_db \<Rightarrow> user_row option \<times> auth_db" where
  "identify env now req db =
     (case session_cookie_user env req db of
        Some u \<Rightarrow> (Some u, db)
      | None \<Rightarrow>
          (case auth_token_user env now req db of
             (Some u, db1) \<Rightarrow> (Some u, db1)
           | (None, db1) \<Rightarrow> bearer_user env now req db1))"

definition RequireAuth ::
    "auth_env \<Rightarrow> time \<Rightarrow> api_request \<Rightarrow> gin_ctx \<Rightarrow> auth_db \<Rightarrow> (api_response + gin_ctx) \<times> auth_db" where
  "RequireAuth env now req cx db =
     (case identify env now req db of
        (None, db1) \<Rightarrow> (Inl (HandleAPIError ErrCodeUnauthorized ''Authentication required, please log in again'' (clear_cookies env)), db1)
      | (Some u, db1) \<Rightarrow>
          (case UpdateUserLastLogin (ae_faults env) now u (GetRealIP req) db1 of
             (Inl _, db2) \<Rightarrow> (Inl (HandleAPIError ErrCodeInternalServer ''Failed to update user'' []), db2)
           | (Inr u', db2) \<Rightarrow> (Inr (cx\<lparr>cx_userID := Some (CtxUint32 (ur_ID u')), cx_user := Some u'\<rparr>), db2)))"

definition csrf_ValidateToken :: "string \<Rightarrow> string \<Rightarrow> bool" where
  "csrf_ValidateToken token header \<longleftrightarrow> token \<noteq> [] \<and> header \<noteq> [] \<and> token = header"

definition csrf_GenerateToken :: "byte list option \<Rightarrow> string option" where
  "csrf_GenerateToken rnd = map_option EncodeToString rnd"

definition csrf_passes :: "api_request \<Rightarrow> bool" where
  "csrf_passes req \<longleftrightarrow>
     HasPrefix (ar_Header req HeaderAuthorization) ''Bearer '' \<or>
     ar_Method req = ''GET'' \<or> ar_Method req = ''HEAD'' \<or> ar_Method req = ''OPTIONS'' \<or>
     (case ar_Cookie req CookieCSRF of None \<Rightarrow> False | Some c \<Rightarrow> csrf_ValidateToken c (ar_Header req HeaderCSRF))"

definition CSRFMiddleware :: "api_request \<Rightarrow> gin_ctx \<Rightarrow> api_response + gin_ctx" where
  "CSRFMiddleware req cx =
     (if csrf_passes req then Inr cx
      else Inl (HandleAPIError ErrCodeForbidden ''CSRF token required for cookie-based authentication'' []))"

definition RequireAdmin :: "gin_ctx \<Rightarrow> api_response + gin_ctx" where
  "RequireAdmin cx =
     (case cx_user cx of
        None \<Rightarrow> Inl (HandleAPIError ErrCodeUnauthorized ''Authentication required'' [])
      | Some u \<Rightarrow>
          if ur_Role u \<noteq> ''admin'' then Inl (HandleAPIError ErrCodeForbidden ''Admin access required'' []) else Inr cx)"

text \<open>\<open>validateRequest\<close> for a body of the given kind: binding reads the body and checks the fields.\<close>

datatype body_kind = KLogin | KRegister | KVerify | KUpdateUser | KProfile

fun binds :: "auth_env \<Rightarrow> body_kind \<Rightarrow> api_body \<Rightarrow> bool" where
  "binds env KLogin (LoginBody tok) \<longleftrightarrow> tok \<noteq> []"
| "binds env KRegister (RegisterBody email name tok) \<longleftrightarrow> email \<noteq> [] \<and> ae_is_email env email \<and> name \<noteq> [] \<and> tok \<noteq> []"
| "binds env KVerify (VerifyBody tok) \<longleftrightarrow> tok \<noteq> []"
| "binds env KUpdateUser (UpdateUserBody name email act) \<longleftrightarrow> name \<noteq> [] \<and> email \<noteq> [] \<and> ae_is_email env email"
| "binds env KProfile (ProfileBody name) \<longleftrightarrow> name = [] \<or> 2 \<le> length name \<and> length name \<le> 50"
| "binds env _ _ \<longleftrightarrow> False"

definition ShouldBindJSON :: "auth_env \<Rightarrow> body_kind \<Rightarrow> api_request \<Rightarrow> api_body option \<times> api_request" where
  "ShouldBindJSON env k req =
     ((case ar_Body req of None \<Rightarrow> None | Some b \<Rightarrow> if binds env k b then Some b else None), req\<lparr>ar_Body := None\<rparr>)"

definition validateRequest ::
    "auth_env \<Rightarrow> body_kind \<Rightarrow> api_request \<Rightarrow> gin_ctx \<Rightarrow> (api_response + gin_ctx) \<times> api_request" where
  "validateRequest env k req cx =
     (case ShouldBindJSON env k req of
        (None, req') \<Rightarrow> (Inl (HandleAPIError ErrCodeBadRequest ''Invalid request data'' []), req')
      | (Some b, req') \<Rightarrow> (Inr (cx\<lparr>cx_body := Some b\<rparr>), req'))"


section \<open>The authentication handlers\<close>

type_synonym handler = "auth_env \<Rightarrow> time \<Rightarrow> api_request \<Rightarrow> gin_ctx \<Rightarrow> auth_db \<Rightarrow> api_response \<times> auth_db"

text \<open>
  The part of \<open>Login\<close> after the user is known: the time stamp, the session row and the cookies. The
  CSRF token has only characters that \<open>url.QueryUnescape\<close> leaves alone. A failed update of the user
  returns a nil user, whose id is then read for the audit log.
\<close>

definition user_agent :: "api_request \<Rightarrow> string" where
  "user_agent req = (if ar_Header req ''User-Agent'' = [] then ''Unknown'' else ar_Header req ''User-Agent'')"

definition login_cookies :: "auth_env \<Rightarrow> string \<Rightarrow> set_cookie list" where
  "login_cookies env token =
     mk_cookie env CookieAuthToken token 2592000 True #
     (case csrf_GenerateToken (ae_csrf_rand env) of None \<Rightarrow> [] | Some t \<Rightarrow> [mk_cookie env CookieCSRF t 2592000 False])"

definition generateSecureToken :: "auth_env \<Rightarrow> string option" where
  "generateSecureToken env = map_option EncodeToString (ae_rand env)"

definition open_session ::
    "auth_env \<Rightarrow> time \<Rightarrow> api_request \<Rightarrow> user_row \<Rightarrow> set_cookie list \<Rightarrow> auth_db \<Rightarrow> api_response \<times> auth_db" where
  "open_session env now req user cookies db =
     (case UpdateUserLastLogin (ae_faults env) now user (GetRealIP req) db of
        (Inl _, db1) \<Rightarrow> (panic_response cookies, db1)
      | (Inr user', db1) \<Rightarrow>
          (case generateSecureToken env of
             None \<Rightarrow> (HandleAPIError ErrCodeInternalServer ''Failed to generate session token'' cookies, db1)
           | Some token \<Rightarrow>
               (case sn_CreateForUser (ae_faults env) now (ur_ID user') token (user_agent req) (GetRealIP req) (now + 30 * 86400) db1 of
                  (Inl _, db2) \<Rightarrow> (HandleAPIError ErrCodeInternalServer ''Failed to create session'' cookies, db2)
                | (Inr s, db2) \<Rightarrow>
                    (case sn_GetActiveByToken (ae_faults env) now db2 (sn_Token s) of
                       Inl _ \<Rightarrow> (HandleAPIError ErrCodeInternalServer ''Failed to load session details'' cookies, db2)
                     | Inr _ \<Rightarrow> (HandleSuccess (UserData (UserToUserResponse user')) (cookies @ login_cookies env (sn_Token s)), db2)))))"

definition Login :: handler where
  "Login env now req cx db =
     (case cx_body cx of
        Some (LoginBody idToken) \<Rightarrow>
          (case ae_VerifyIDToken env idToken of
             None \<Rightarrow> (HandleAPIError ErrCodeUnauthorized ''Invalid token'' [], db)
           | Some decoded \<Rightarrow>
               (case ae_SessionCookie env idToken of
                  None \<Rightarrow> (HandleAPIError ErrCodeInternalServer ''Failed to create session cookie'' [], db)
                | Some sessionCookie \<Rightarrow>
                    (let cookies = [mk_cookie env CookieSession sessionCookie 604800 True]
                     in case GetUserByFirebaseUID (ae_faults env) db (ft_UID decoded) of
                          Inr u \<Rightarrow> open_session env now req u cookies db
                        | Inl ErrNotFound \<Rightarrow>
                            (case ft_Email decoded of
                               None \<Rightarrow> (panic_response cookies, db)
                             | Some email \<Rightarrow>
                                 (let name = (case ft_Name decoded of None \<Rightarrow> email | Some n \<Rightarrow> if n \<noteq> [] then n else email)
                                  in case CreateUser (ae_faults env) now (ft_UID decoded) email name (GetRealIP req) db of
                                       (Inl _, db1) \<Rightarrow> (HandleAPIError ErrCodeInternalServer ''Failed to create user'' cookies, db1)
                                     | (Inr u, db1) \<Rightarrow> open_session env now req u cookies db1))
                        | Inl _ \<Rightarrow> (HandleAPIError ErrCodeInternalServer ''Database error'' cookies, db))))
      | _ \<Rightarrow> (HandleAPIError ErrCodeInternalServer ''Login data not found in context. Ensure validation middleware is applied.'' [], db))"

definition Register :: handler where
  "Register env now req cx db =
     (case cx_body cx of
        Some (RegisterBody email name token) \<Rightarrow>
          (case GetUserByFirebaseUID (ae_faults env) db token of
             Inr u \<Rightarrow> (HandleSuccess (UserData (UserToUserResponse u)) [], db)
           | Inl ErrNotFound \<Rightarrow>
               (case GetUserByEmail (ae_faults env) db email of
                  Inr _ \<Rightarrow> (HandleAPIError ErrCodeConflict ''Wrong credentials'' [], db)
                | Inl ErrNotFound \<Rightarrow>
                    (case CreateUser (ae_faults env) now token email name (GetRealIP req) db of
                       (Inl _, db1) \<Rightarrow> (HandleAPIError ErrCodeInternalServer ''Failed to create user'' [], db1)
                     | (Inr u, db1) \<Rightarrow> (\<lparr>rp_Status = 201, rp_Data = UserData (UserToUserResponse u), rp_Cookies = []\<rparr>, db1))
                | Inl _ \<Rightarrow> (HandleAPIError ErrCodeInternalServer ''Database error'' [], db))
           | Inl _ \<Rightarrow> (HandleAPIError ErrCodeInternalServer ''Database error'' [], db))
      | _ \<Rightarrow> (HandleAPIError ErrCodeInternalServer ''Registration data not found in context. Ensure validation middleware is applied.'' [], db))"

definition Logout :: handler where
  "Logout env now req cx db =
     (let db1 = (case ar_Cookie req CookieAuthToken of
                   None \<Rightarrow> db
                 | Some c \<Rightarrow> if c = [] then db else snd (sn_RevokeByToken (ae_faults env) now c db))
      in (HandleSuccess (MessageData ''Logged out successfully'') (clear_cookies env), db1))"

text \<open>\<open>GetSession\<close> and \<open>RefreshSession\<close> try the Firebase cookie first and the API cookie second.\<close>

definition invalid_session :: "auth_env \<Rightarrow> api_request \<Rightarrow> set_cookie list \<Rightarrow> api_response" where
  "invalid_session env req cookies =
     (let c1 = override (ar_Cookie req CookieSession) []; c2 = override (ar_Cookie req CookieAuthToken) []
      in HandleSuccess (SessionData False None) (cookies @ (if c1 \<noteq> [] \<or> c2 \<noteq> [] then clear_cookies env else [])))"

definition GetSession :: handler where
  "GetSession env now req cx db =
     (case session_cookie_user env req db of
        Some u \<Rightarrow>
          (case UpdateUserLastActivity (ae_faults env) now u db of
             (Inl _, db1) \<Rightarrow> (HandleAPIError ErrCodeInternalServer ''Failed to update user's last activity'' [], db1)
           | (Inr u', db1) \<Rightarrow> (HandleSuccess (SessionData True (Some (UserToUserResponse u'))) [], db1))
      | None \<Rightarrow>
          (case ar_Cookie req CookieAuthToken of
             None \<Rightarrow> (invalid_session env req [], db)
           | Some c \<Rightarrow>
               if c = [] then (invalid_session env req [], db)
               else case sn_GetActiveByToken (ae_faults env) now db c of
                      Inl _ \<Rightarrow> (invalid_session env req [], db)
                    | Inr s \<Rightarrow>
                        (case sn_UpdateLastUsed (ae_faults env) now s None db of
                           (Inl _, db1) \<Rightarrow> (HandleAPIError ErrCodeInternalServer ''Failed to update session's last used time'' [], db1)
                         | (Inr s', db1) \<Rightarrow>
                             (let cookies = [mk_cookie env CookieAuthToken c 86400 True]
                              in case sn_GetSessionOwner (ae_faults env) db1 s' of
                                   Inl _ \<Rightarrow> (invalid_session env req cookies, db1)
                                 | Inr u \<Rightarrow> (HandleSuccess (SessionData True (Some (UserToUserResponse u))) cookies, db1)))))"

definition refresh_done :: "auth_env \<Rightarrow> time \<Rightarrow> user_row option \<Rightarrow> set_cookie list \<Rightarrow> auth_db \<Rightarrow> api_response \<times> auth_db" where
  "refresh_done env now u cookies db =
     (case u of
        None \<Rightarrow> (HandleAPIError ErrCodeUnauthorized ''No valid session found'' cookies, db)
      | Some u \<Rightarrow>
          (case UpdateUserLastActivity (ae_faults env) now u db of
             (Inl _, db1) \<Rightarrow> (HandleAPIError ErrCodeInternalServer ''Failed to update user's last activity'' cookies, db1)
           | (Inr _, db1) \<Rightarrow> (HandleSuccess (MessageData ''Session valid'') cookies, db1)))"

definition RefreshSession :: handler where
  "RefreshSession env now req cx db =
     (case session_cookie_user env req db of
        Some u \<Rightarrow> refresh_done env now (Some u) [] db
      | None \<Rightarrow>
          (case ar_Cookie req CookieAuthToken of
             None \<Rightarrow> refresh_done env now None [] db
           | Some c \<Rightarrow>
               if c = [] then refresh_done env now None [] db
               else case sn_GetActiveByToken (ae_faults env) now db c of
                      Inl _ \<Rightarrow> refresh_done env now None [] db
                    | Inr s \<Rightarrow>
                        (case sn_UpdateLastUsed (ae_faults env) now s (Some (now + 30 * 86400)) db of
                           (Inl _, db1) \<Rightarrow> (HandleAPIError ErrCodeInternalServer ''Failed to update session'' [], db1)
                         | (Inr s', db1) \<Rightarrow>
                             refresh_done env now
                               (case sn_GetSessionOwner (ae_faults env) db1 s' of Inl _ \<Rightarrow> None | Inr u \<Rightarrow> Some u)
                               [mk_cookie env CookieAuthToken c 86400 True] db1)))"

definition VerifyToken :: handler where
  "VerifyToken env now req cx db =
     (case cx_body cx of
        Some (VerifyBody idToken) \<Rightarrow>
          (case ae_VerifyIDToken env idToken of
             None \<Rightarrow> (HandleAPIError ErrCodeUnauthorized ''Invalid ID token'' [], db)
           | Some decoded \<Rightarrow>
               (case ae_SessionCookie env idToken of
                  None \<Rightarrow> (HandleAPIError ErrCodeInternalServer ''Failed to create session cookie'' [], db)
                | Some sessionCookie \<Rightarrow>
                    (let cookies = [mk_cookie env CookieSession sessionCookie 604800 True]
                     in case GetUserByFirebaseUID (ae_faults env) db (ft_UID decoded) of
                          Inl _ \<Rightarrow> (HandleAPIError ErrCodeInternalServer ''Failed to find user'' cookies, db)
                        | Inr u \<Rightarrow>
                            (case UpdateUserLastActivity (ae_faults env) now u db of
                               (Inl _, db1) \<Rightarrow> (HandleAPIError ErrCodeInternalServer ''Failed to update user's last activity'' cookies, db1)
                             | (Inr u', db1) \<Rightarrow> (HandleSuccess (UserData (UserToUserResponse u')) cookies, db1)))))
      | _ \<Rightarrow> (HandleAPIError ErrCodeNotFound ''Verification data not found in context'' [], db))"


section \<open>The session handlers\<close>

definition GetSessions :: handler where
  "GetSessions env now req cx db =
     (let uid = ucast (GetUint (cx_userID cx)) :: u32
      in case sn_GetActiveSessions (ae_faults env) db uid of
           Inl _ \<Rightarrow> (HandleAPIError ErrCodeInternalServer ''Failed to get sessions'' [], db)
         | Inr ss \<Rightarrow> (HandleSuccess (SessionList (map (\<lambda>s. (sn_ID s, sn_LastUsed s, sn_IPAddress s, sn_CreatedAt s)) ss)) [], db))"

definition stale_cookies :: "set_cookie list" where
  "stale_cookies =
     [\<lparr>ck_Name = CookieSession, ck_Value = [], ck_MaxAge = - 1, ck_Path = ''/'', ck_Domain = [], ck_HttpOnly = True\<rparr>,
      \<lparr>ck_Name = CookieAuthToken, ck_Value = [], ck_MaxAge = - 1, ck_Path = ''/api'', ck_Domain = [], ck_HttpOnly = True\<rparr>]"

definition RevokeSession :: handler where
  "RevokeSession env now req cx db =
     (let uid = ucast (GetUint (cx_userID cx)) :: u32
      in case sn_GetUserSession (ae_faults env) db (ar_Param req) uid of
           Inl ErrNotFound \<Rightarrow> (HandleAPIError ErrCodeNotFound ''Session not found'' [], db)
         | Inl _ \<Rightarrow> (HandleAPIError ErrCodeInternalServer ''Failed to retrieve session'' [], db)
         | Inr s \<Rightarrow>
             (case sn_Revoke (ae_faults env) now s db of
                (Some ErrNotFound, db1) \<Rightarrow> (HandleAPIError ErrCodeNotFound ''Session not found'' [], db1)
              | (Some _, db1) \<Rightarrow> (HandleAPIError ErrCodeInternalServer ''Failed to revoke session'' [], db1)
              | (None, db1) \<Rightarrow>
                  (HandleSuccess (MessageData ''Session successfully revoked'')
                     (if ar_Cookie req CookieAuthToken = Some (sn_Token s) then stale_cookies else []), db1)))"

definition RevokeAllSessions :: handler where
  "RevokeAllSessions env now req cx db =
     (let uid = ucast (GetUint (cx_userID cx)) :: u32
      in case sn_RevokeAllUserSessions (ae_faults env) now uid db of
           (Some _, db1) \<Rightarrow> (HandleAPIError ErrCodeInternalServer ''Failed to revoke sessions'' [], db1)
         | (None, db1) \<Rightarrow> (HandleSuccess (MessageData ''All sessions successfully revoked'') stale_cookies, db1))"

section \<open>The user handlers\<close>

definition user_error :: "repo_error \<Rightarrow> string \<Rightarrow> api_response" where
  "user_error e msg =
     (if e = ErrNotFound then HandleAPIError ErrCodeNotFound ''User not found'' [] else HandleAPIError ErrCodeInternalServer msg [])"

definition GetProfile :: handler where
  "GetProfile env now req cx db =
     (case cx_user cx of
        None \<Rightarrow> (HandleAPIError ErrCodeUnauthorized ''User not found in context'' [], db)
      | Some u \<Rightarrow> (HandleSuccess (UserData (UserToUserResponse u)) [], db))"

definition non_empty :: "string \<Rightarrow> string option" where
  "non_empty s = (if s = [] then None else Some s)"

definition UpdateProfile :: handler where
  "UpdateProfile env now req cx db =
     (case cx_user cx of
        None \<Rightarrow> (HandleAPIError ErrCodeUnauthorized ''User not found in context'' [], db)
      | Some u \<Rightarrow>
          (case cx_body cx of
             Some (ProfileBody name) \<Rightarrow>
               (case ur_Get (ae_faults env) db (ur_ID u) of
                  Inl e \<Rightarrow> (user_error e ''Failed to get user'', db)
                | Inr dbUser \<Rightarrow>
                    (case ur_Update (ae_faults env) now (ur_ID dbUser) (no_update\<lparr>uu_Name := non_empty name\<rparr>) db of
                       (Inl e, db1) \<Rightarrow> (user_error e ''Failed to update profile'', db1)
                     | (Inr u', db1) \<Rightarrow> (HandleSuccess (UserData (UserToUserResponse u')) [], db1)))
           | _ \<Rightarrow> (HandleAPIError ErrCodeBadRequest ''Missing profile data'' [], db)))"

definition delete_user :: "auth_env \<Rightarrow> u32 \<Rightarrow> auth_db \<Rightarrow> api_response \<times> auth_db" where
  "delete_user env uid db =
     (case ur_Delete (ae_faults env) uid db of
        (Some e, db1) \<Rightarrow> (user_error e ''Failed to delete user'', db1)
      | (None, db1) \<Rightarrow> (HandleSuccess (MessageData ''User deleted successfully'') [], db1))"

definition DeleteProfile :: handler where
  "DeleteProfile env now req cx db = delete_user env (ucast (GetUint (cx_userID cx))) db"

text \<open>
  \<open>strconv.Atoi\<close> with the error ignored: zero for a malformed number, the nearest \<open>int64\<close> for one out of
  range. The offset is computed in 64 bits.
\<close>

definition Atoi_or_zero :: "string \<Rightarrow> int" where
  "Atoi_or_zero s =
     (let (neg, ds) = (case s of
            c # t \<Rightarrow> if c = CHR ''-'' then (True, t) else if c = CHR ''+'' then (False, t) else (False, s)
          | [] \<Rightarrow> (False, s));
          v = (if neg then - int (dec_value ds) else int (dec_value ds))
      in if ds = [] \<or> \<not> list_all is_digit ds then 0 else max (- (2 ^ 63)) (min (2 ^ 63 - 1) v))"

definition ListUsers :: handler where
  "ListUsers env now req cx db =
     (let p = Atoi_or_zero (override (ar_Query req ''page'') ''1''); ps = Atoi_or_zero (override (ar_Query req ''pageSize'') ''10'');
          page = (if p < 1 then 1 else p); pageSize = (if ps < 1 \<or> ps > 100 then 10 else ps);
          offset = sint ((of_int page - 1) * of_int pageSize :: i64)
      in case ur_Count (ae_faults env) db of
           Inl _ \<Rightarrow> (HandleAPIError ErrCodeInternalServer ''Failed to get total count'' [], db)
         | Inr cnt \<Rightarrow>
             (case ur_List (ae_orderBy env) (ae_faults env) offset pageSize (override (ar_Query req ''search'') [])
                     (override (ar_Query req ''sortBy'') ''id'') (override (ar_Query req ''sortOrder'') ''desc'') db of
                Inl _ \<Rightarrow> (HandleAPIError ErrCodeInternalServer ''Failed to fetch users'' [], db)
              | Inr us \<Rightarrow> (HandleSuccess (UserList (map UserToUserResponse us) cnt page pageSize) [], db)))"

definition GetUser :: handler where
  "GetUser env now req cx db =
     (case ParseUint32 (ar_Param req) of
        None \<Rightarrow> (HandleAPIError ErrCodeValidation ''Invalid user ID'' [], db)
      | Some uid \<Rightarrow>
          (case ur_Get (ae_faults env) db uid of
             Inl e \<Rightarrow> (user_error e ''Failed to get user'', db)
           | Inr u \<Rightarrow> (HandleSuccess (UserData (UserToUserResponse u)) [], db)))"

definition UpdateUser :: handler where
  "UpdateUser env now req cx db =
     (case ParseUint32 (ar_Param req) of
        None \<Rightarrow> (HandleAPIError ErrCodeValidation ''Invalid user ID'' [], db)
      | Some uid \<Rightarrow>
          (case ur_Get (ae_faults env) db uid of
             Inl e \<Rightarrow> (user_error e ''Failed to get user'', db)
           | Inr dbUser \<Rightarrow>
               (case fst (ShouldBindJSON env KUpdateUser req) of
                  Some (UpdateUserBody name email active) \<Rightarrow>
                    (case ur_Update (ae_faults env) now (ur_ID dbUser)
                            (no_update\<lparr>uu_Name := non_empty name, uu_Email := non_empty email, uu_IsActive := Some active\<rparr>) db of
                       (Inl e, db1) \<Rightarrow> (user_error e ''Failed to update user'', db1)
                     | (Inr u', db1) \<Rightarrow> (HandleSuccess (UserData (UserToUserResponse u')) [], db1))
                | _ \<Rightarrow> (HandleAPIError ErrCodeValidation ''Invalid request data'' [], db))))"

definition DeleteUser :: handler where
  "DeleteUser env now req cx db =
     (case ParseUint32 (ar_Param req) of
        None \<Rightarrow> (HandleAPIError ErrCodeValidation ''Invalid user ID'' [], db)
      | Some uid \<Rightarrow> delete_user env uid db)"

section \<open>Routes\<close>

text \<open>
  The chains of \<open>internal/server/routes\<close>: each middleware passes the context on or answers itself. The
  tables of the routes, by method and path pattern, with the identifier as the request's parameter.
\<close>

definition protected :: "handler \<Rightarrow> handler" where
  "protected h env now req cx db =
     (case RequireAuth env now req cx db of
        (Inl resp, db1) \<Rightarrow> (resp, db1)
      | (Inr cx1, db1) \<Rightarrow> (case CSRFMiddleware req cx1 of Inl resp \<Rightarrow> (resp, db1) | Inr cx2 \<Rightarrow> h env now req cx2 db1))"

definition with_admin :: "handler \<Rightarrow> handler" where
  "with_admin h env now req cx db = (case RequireAdmin cx of Inl resp \<Rightarrow> (resp, db) | Inr cx1 \<Rightarrow> h env now req cx1 db)"

definition with_body :: "body_kind \<Rightarrow> handler \<Rightarrow> handler" where
  "with_body k h env now req cx db =
     (case validateRequest env k req cx of (Inl resp, _) \<Rightarrow> (resp, db) | (Inr cx1, req') \<Rightarrow> h env now req' cx1 db)"

definition with_csrf :: "handler \<Rightarrow> handler" where
  "with_csrf h env now req cx db = (case CSRFMiddleware req cx of Inl resp \<Rightarrow> (resp, db) | Inr cx1 \<Rightarrow> h env now req cx1 db)"

datatype api_route =
    RLogin | RRegister | RSession | RLogout | RVerifyToken
  | RSessions | RRevokeSession | RRevokeAll
  | RUsers | RUser | RUpdateUser | RDeleteUser
  | RProfile | RUpdateProfile | RDeleteProfile
  | RAdminUsers | RAdminUser | RAdminUpdateUser | RAdminDeleteUser

definition empty_ctx :: gin_ctx where
  "empty_ctx = \<lparr>cx_userID = None, cx_user = None, cx_body = None\<rparr>"

fun SetupAuthRoutes :: "api_route \<Rightarrow> handler option" where
  "SetupAuthRoutes RRegister = Some (with_body KRegister Register)"
| "SetupAuthRoutes RLogin = Some (with_body KLogin Login)"
| "SetupAuthRoutes RSession = Some GetSession"
| "SetupAuthRoutes RLogout = Some (with_csrf Logout)"
| "SetupAuthRoutes RVerifyToken = Some (with_csrf VerifyToken)"
| "SetupAuthRoutes _ = None"

fun SetupProtectedRoutes :: "api_route \<Rightarrow> handler option" where
  "SetupProtectedRoutes RSessions = Some (protected GetSessions)"
| "SetupProtectedRoutes RRevokeSession = Some (protected RevokeSession)"
| "SetupProtectedRoutes RRevokeAll = Some (protected RevokeAllSessions)"
| "SetupProtectedRoutes RUsers = Some (protected ListUsers)"
| "SetupProtectedRoutes RUser = Some (protected GetUser)"
| "SetupProtectedRoutes RUpdateUser = Some (protected (with_body KUpdateUser UpdateUser))"
| "SetupProtectedRoutes RDeleteUser = Some (protected DeleteUser)"
| "SetupProtectedRoutes RProfile = Some (protected GetProfile)"
| "SetupProtectedRoutes RUpdateProfile = Some (protected (with_body KProfile UpdateProfile))"
| "SetupProtectedRoutes RDeleteProfile = Some (protected DeleteProfile)"
| "SetupProtectedRoutes _ = None"

fun SetupAdminRoutes :: "api_route \<Rightarrow> handler option" where
  "SetupAdminRoutes RAdminUsers = Some (protected (with_admin ListUsers))"
| "SetupAdminRoutes RAdminUser = Some (protected (with_admin GetUser))"
| "SetupAdminRoutes RAdminUpdateUser = Some (protected (with_admin UpdateUser))"
| "SetupAdminRoutes RAdminDeleteUser = Some (protected (with_admin DeleteUser))"
| "SetupAdminRoutes _ = None"

definition routes_Setup :: "api_route \<Rightarrow> handler" where
  "routes_Setup r =
     (case SetupAuthRoutes r of
        Some h \<Rightarrow> h
      | None \<Rightarrow> (case SetupAdminRoutes r of
                  Some h \<Rightarrow> h
                | None \<Rightarrow> (case SetupProtectedRoutes r of
                            Some h \<Rightarrow> h
                          | None \<Rightarrow> \<lambda>env now req cx db. (HandleAPIError ErrCodeNotFound ''404 page not found'' [], db))))"

definition serve_api :: "auth_env \<Rightarrow> time \<Rightarrow> api_route \<Rightarrow> api_request \<Rightarrow> auth_db \<Rightarrow> api_response \<times> auth_db" where
  "serve_api env now r req db = routes_Setup r env now req empty_ctx db"

end
