(* ===== verification/Api_Security.thy ===== *)
theory Api_Security
  imports Auth_Api
begin

text \<open>
  What the API guarantees about users, sessions and roles over any sequence of requests and runs of
  the session clean-up, each request with its own environment and time.
\<close>

section \<open>Sequences of requests\<close>

datatype api_event =
    Request auth_env time api_route api_request
  | Cleanup auth_faults time

fun do_event :: "api_event \<Rightarrow> auth_db \<Rightarrow> auth_db" where
  "do_event (Request env now r req) db = snd (serve_api env now r req db)"
| "do_event (Cleanup f now) db = snd (session_cleanup f now db)"

definition run_api :: "api_event list \<Rightarrow> auth_db \<Rightarrow> auth_db" where
  "run_api evs db = fold do_event evs db"

text \<open>
  What no operation does: break the integrity of the tables, give a role, or revive a session. \<open>fr\<close>
  is the session token a login would draw.
\<close>

definition role_from :: "auth_db \<Rightarrow> user_row \<Rightarrow> bool" where
  "role_from db u \<longleftrightarrow> ur_Role u = ''user'' \<or>
     (\<exists>u0 \<in> set (ad_users db). ur_ID u0 = ur_ID u \<and> ur_FirebaseUID u0 = ur_FirebaseUID u \<and> ur_Role u0 = ur_Role u)"

definition dead_token :: "string \<Rightarrow> auth_db \<Rightarrow> bool" where
  "dead_token tok db \<longleftrightarrow> (\<forall>s \<in> set (ad_sessions db). sn_Token s = tok \<longrightarrow> \<not> sn_IsActive s)"

definition evolves :: "string option \<Rightarrow> auth_db \<Rightarrow> auth_db \<Rightarrow> bool" where
  "evolves fr db db' \<longleftrightarrow> (auth_inv db \<longrightarrow> auth_inv db') \<and> (\<forall>u \<in> set (ad_users db'). role_from db u) \<and>
     (\<forall>tok. fr \<noteq> Some tok \<longrightarrow> dead_token tok db \<longrightarrow> dead_token tok db')"

lemma evolves_refl [simp]: "evolves fr db db"
  by (auto simp: evolves_def role_from_def)

lemma role_from_trans: "role_from b u \<Longrightarrow> (\<And>x. x \<in> set (ad_users b) \<Longrightarrow> role_from a x) \<Longrightarrow> role_from a u"
  unfolding role_from_def by metis

lemma evolves_trans: "evolves fr a b \<Longrightarrow> evolves fr b c \<Longrightarrow> evolves fr a c"
  unfolding evolves_def using role_from_trans [of b _ a] by blast

lemma evolves_same_users:
  "ad_users db' = ad_users db \<Longrightarrow> (auth_inv db \<Longrightarrow> auth_inv db') \<Longrightarrow> (\<And>tok. fr \<noteq> Some tok \<Longrightarrow> dead_token tok db \<Longrightarrow> dead_token tok db')
     \<Longrightarrow> evolves fr db db'"
  by (auto simp: evolves_def role_from_def)

lemmas sn_ops_defs = sn_update_def sn_CreateForUser_def sn_UpdateLastUsed_def sn_Revoke_def sn_RevokeByToken_def
  sn_RevokeAllUserSessions_def session_cleanup_def sn_DeleteExpired_def

lemma sn_users:
  "sn_CreateForUser f now uid token ua ip exp db = (res, db') \<Longrightarrow> ad_users db' = ad_users db"
  "sn_UpdateLastUsed f now s e db = (res, db') \<Longrightarrow> ad_users db' = ad_users db"
  "sn_Revoke f now s db = (err, db') \<Longrightarrow> ad_users db' = ad_users db"
  "sn_RevokeByToken f now token db = (err, db') \<Longrightarrow> ad_users db' = ad_users db"
  "sn_RevokeAllUserSessions f now uid db = (err, db') \<Longrightarrow> ad_users db' = ad_users db"
  "session_cleanup f now db = (err, db') \<Longrightarrow> ad_users db' = ad_users db"
  by (auto simp: sn_ops_defs Let_def split: prod.splits if_splits sum.splits)

lemma dead_same: "ad_sessions db' = ad_sessions db \<Longrightarrow> dead_token tok db' = dead_token tok db"
  by (simp add: dead_token_def)

lemma sn_apply_active: "sn_IsActive (sn_apply u s) \<Longrightarrow> sn_IsActive s"
  by (cases u) auto

lemma dead_sn_update: "sn_update u i db = (res, db') \<Longrightarrow> dead_token tok db \<Longrightarrow> dead_token tok db'"
  by (cases rule: UpdateOneID_cases [of sn_ID i "sn_apply u" "ad_sessions db"])
    (auto simp: sn_update_def dead_token_def sn_table.upd_key split: if_splits, use sn_apply_active in blast)

lemma sn_dead:
  "sn_CreateForUser f now uid token ua ip exp db = (res, db') \<Longrightarrow> dead_token tok db \<Longrightarrow> Some token \<noteq> Some tok \<Longrightarrow> dead_token tok db'"
  "sn_UpdateLastUsed f now s e db = (res, db') \<Longrightarrow> dead_token tok db \<Longrightarrow> dead_token tok db'"
  "sn_Revoke f now s db = (err, db') \<Longrightarrow> dead_token tok db \<Longrightarrow> dead_token tok db'"
  "sn_RevokeByToken f now token db = (err, db') \<Longrightarrow> dead_token tok db \<Longrightarrow> dead_token tok db'"
  "sn_RevokeAllUserSessions f now uid db = (err, db') \<Longrightarrow> dead_token tok db \<Longrightarrow> dead_token tok db'"
  "session_cleanup f now db = (err, db') \<Longrightarrow> dead_token tok db \<Longrightarrow> dead_token tok db'"
  by (auto simp: sn_CreateForUser_def sn_UpdateLastUsed_def sn_Revoke_def sn_RevokeByToken_def sn_RevokeAllUserSessions_def
      session_cleanup_def sn_DeleteExpired_def Let_def dead_token_def [of _ "_\<lparr>ad_sessions := _\<rparr>"] dead_token_def [of _ "_\<lparr>ad_sessions := _, ad_next_session := _\<rparr>"]
      split: prod.splits if_splits sum.splits dest!: dead_sn_update) (auto simp: dead_token_def)

lemma evolves_sn:
  "sn_CreateForUser f now uid token ua ip exp db = (res, db') \<Longrightarrow> evolves (Some token) db db'"
  "sn_UpdateLastUsed f now s e db = (res, db') \<Longrightarrow> evolves fr db db'"
  "sn_Revoke f now s db = (err, db') \<Longrightarrow> evolves fr db db'"
  "sn_RevokeByToken f now token db = (err, db') \<Longrightarrow> evolves fr db db'"
  "sn_RevokeAllUserSessions f now uid db = (err, db') \<Longrightarrow> evolves fr db db'"
  "session_cleanup f now db = (err, db') \<Longrightarrow> evolves fr db db'"
  by (rule evolves_same_users, erule sn_users, erule (1) sn_ops_inv, erule (1) sn_dead, assumption?)+

lemma evolves_CreateUser: "CreateUser f now uid email name ip db = (res, db') \<Longrightarrow> evolves fr db db'"
  using CreateUser_inv by (auto simp: evolves_def CreateUser_def new_user_def role_from_def Let_def dead_token_def split: if_splits)

lemma evolves_save:
  assumes "ur_save now i u db = (res, db')"
  shows "evolves fr db db'"
  using assms
proof (cases rule: ur_save_cases)
  case (saved r)
  have "role_from db x" if "x \<in> set (ad_users db')" for x
    using that unfolding saved(5) role_from_def by (auto split: if_splits)
  with ur_save_inv [OF _ assms] saved(5) show ?thesis by (simp add: evolves_def dead_token_def)
qed simp

lemma evolves_ur:
  "ur_Update f now i u db = (res, db') \<Longrightarrow> evolves fr db db'"
  "UpdateUserLastLogin f now x ip db = (res, db') \<Longrightarrow> evolves fr db db'"
  "UpdateUserLastActivity f now x db = (res, db') \<Longrightarrow> evolves fr db db'"
  by (auto simp: ur_Update_def UpdateUserLastLogin_def UpdateUserLastActivity_def split: if_splits dest: evolves_save)

lemma evolves_Delete: "ur_Delete f i db = (err, db') \<Longrightarrow> evolves fr db db'"
  using ur_Delete_inv
  by (auto simp: evolves_def ur_Delete_def ent_DeleteOneID_def role_from_def dead_token_def split: if_splits prod.splits sum.splits)

lemma ValidateToken_users:
  "ValidateToken sha f now tok rows = (res, rows') \<Longrightarrow> map tk_UserID rows' = map tk_UserID rows"
  by (auto simp: ValidateToken_def tk_UpdateLastUsed_def ent_UpdateOneID_def tk_touch_def
      split: option.splits sum.splits if_splits list.splits)

lemma evolves_tokens:
  assumes "map tk_UserID tokens = map tk_UserID (ad_tokens db)"
  shows "evolves fr db (db\<lparr>ad_tokens := tokens\<rparr>)"
proof -
  have "tk_UserID ` set tokens = tk_UserID ` set (ad_tokens db)" using arg_cong [OF assms, of set] by simp
  then have "list_ex (\<lambda>t. tk_UserID t = i) tokens = list_ex (\<lambda>t. tk_UserID t = i) (ad_tokens db)" for i
    by (auto simp: list_ex_iff image_iff set_eq_iff) metis+
  then show ?thesis by (intro evolves_same_users) (auto simp: auth_inv_def refs_ok_def referenced_def dead_token_def)
qed

lemma evolves_identify:
  assumes "identify env now req db = (u, db')"
  shows "evolves fr db db'"
proof -
  have a: "evolves fr db d" if "auth_token_user env now req db = (x, d)" for x d
    using that by (auto simp: auth_token_user_def split: option.splits if_splits sum.splits prod.splits dest: evolves_sn)
  have b: "evolves fr d d'" if "bearer_user env now req d = (x, d')" for x d d'
    using that evolves_tokens [OF ValidateToken_users]
    by (auto simp: bearer_user_def Let_def split: if_splits sum.splits prod.splits)
  show ?thesis
    using assms a b evolves_trans [of _ db]
    by (auto simp: identify_def split: option.splits prod.splits)
qed


lemmas evolves_ops = evolves_sn evolves_ur evolves_CreateUser evolves_Delete

text \<open>A handler evolves the database if every chain of operations it performs does.\<close>

definition sound_handler :: "handler \<Rightarrow> bool" where
  "sound_handler h \<longleftrightarrow> (\<forall>env now req cx db. evolves (generateSecureToken env) db (snd (h env now req cx db)))"

lemma sound_handlerI: "(\<And>env now req cx db resp db'. h env now req cx db = (resp, db') \<Longrightarrow> evolves (generateSecureToken env) db db') \<Longrightarrow> sound_handler h"
  unfolding sound_handler_def by (metis prod.collapse)

lemma sound_handlerD: "sound_handler h \<Longrightarrow> h env now req cx db = (resp, db') \<Longrightarrow> evolves (generateSecureToken env) db db'"
  unfolding sound_handler_def by (metis snd_conv)

lemma evolves_open_session:
  assumes "open_session env now req u cookies db = (resp, db')"
  shows "evolves (generateSecureToken env) db db'"
proof -
  obtain res e where l: "UpdateUserLastLogin (ae_faults env) now u (GetRealIP req) db = (res, e)"
    by (cases "UpdateUserLastLogin (ae_faults env) now u (GetRealIP req) db")
  note e = evolves_ur(2) [OF l]
  show ?thesis
  proof (cases "generateSecureToken env")
    case None
    with assms l e show ?thesis by (auto simp: open_session_def split: sum.splits)
  next
    case (Some token)
    with assms l e show ?thesis
      by (auto simp: open_session_def split: sum.splits prod.splits dest!: evolves_sn(1) intro: evolves_trans)
  qed
qed

lemma sound_auth_handlers:
  "sound_handler Login" "sound_handler Register" "sound_handler Logout" "sound_handler GetSession" "sound_handler VerifyToken"
proof -
  show "sound_handler Login"
  proof (rule sound_handlerI)
    fix env now req cx db resp db'
    assume "Login env now req cx db = (resp, db')"
    then show "evolves (generateSecureToken env) db db'"
      by (auto simp: Login_def Let_def split: option.splits api_body.splits prod.splits sum.splits repo_error.splits
          dest!: evolves_open_session evolves_CreateUser intro: evolves_trans)
  qed
  show "sound_handler Register"
    by (rule sound_handlerI)
      (auto simp: Register_def split: option.splits api_body.splits prod.splits sum.splits repo_error.splits dest: evolves_CreateUser)
  show "sound_handler Logout"
    by (rule sound_handlerI) (auto simp: Logout_def Let_def split: option.splits if_splits intro: evolves_sn(4) [OF prod.collapse [symmetric]])
  show "sound_handler GetSession"
    by (rule sound_handlerI)
      (auto simp: GetSession_def Let_def split: option.splits if_splits sum.splits prod.splits dest: evolves_ops)
  show "sound_handler VerifyToken"
    by (rule sound_handlerI)
      (auto simp: VerifyToken_def Let_def split: option.splits api_body.splits sum.splits prod.splits dest: evolves_ops)
qed

lemma sound_user_handlers:
  "sound_handler GetSessions" "sound_handler RevokeSession" "sound_handler RevokeAllSessions" "sound_handler ListUsers"
  "sound_handler GetUser" "sound_handler UpdateUser" "sound_handler DeleteUser" "sound_handler GetProfile"
  "sound_handler UpdateProfile" "sound_handler DeleteProfile"
  by (rule sound_handlerI,
      auto simp: GetSessions_def RevokeSession_def RevokeAllSessions_def ListUsers_def GetUser_def UpdateUser_def DeleteUser_def
        GetProfile_def UpdateProfile_def DeleteProfile_def delete_user_def Let_def
      split: option.splits api_body.splits sum.splits prod.splits repo_error.splits if_splits dest: evolves_ops)+

lemma sound_protected: "sound_handler h \<Longrightarrow> sound_handler (protected h)"
proof (rule sound_handlerI)
  fix env now req cx db resp db'
  assume h: "sound_handler h" and p: "protected h env now req cx db = (resp, db')"
  have a: "evolves (generateSecureToken env) db d" if "RequireAuth env now req cx db = (x, d)" for x d
    using that evolves_identify evolves_ur(2) evolves_trans
    by (auto simp: RequireAuth_def split: prod.splits option.splits sum.splits) (metis evolves_trans)+
  show "evolves (generateSecureToken env) db db'"
    using p a sound_handlerD [OF h] evolves_trans [of _ db] by (auto simp: protected_def split: prod.splits sum.splits)
qed

lemma sound_chain:
  assumes "sound_handler h"
  shows "sound_handler (with_admin h)" "sound_handler (with_body k h)" "sound_handler (with_csrf h)"
  using sound_handlerD [OF assms]
  by (auto intro!: sound_handlerI simp: with_admin_def with_body_def with_csrf_def split: sum.splits prod.splits)

lemma routes_sound: "sound_handler (routes_Setup r)"
  by (cases r) (simp_all add: routes_Setup_def sound_protected sound_chain sound_auth_handlers sound_user_handlers)

fun event_token :: "api_event \<Rightarrow> string option" where
  "event_token (Request env now r req) = generateSecureToken env"
| "event_token (Cleanup f now) = None"

lemma evolves_event: "evolves (event_token ev) db (do_event ev db)"
proof (cases ev)
  case (Request env now r req)
  with routes_sound [of r] show ?thesis by (simp add: serve_api_def sound_handler_def)
next
  case (Cleanup f now)
  then show ?thesis by simp (metis evolves_sn(6) prod.collapse)
qed

lemma run_api_Cons: "run_api (ev # evs) db = run_api evs (do_event ev db)"
  by (simp add: run_api_def)

lemma run_inv: "auth_inv db \<Longrightarrow> auth_inv (run_api evs db)"
  using evolves_event by (induction evs arbitrary: db) (auto simp: run_api_Cons evolves_def, simp add: run_api_def)

lemma run_roles: "u \<in> set (ad_users (run_api evs db)) \<Longrightarrow> role_from db u"
proof (induction evs arbitrary: db)
  case Nil
  then show ?case by (auto simp: run_api_def role_from_def)
next
  case (Cons ev evs)
  have "role_from (do_event ev db) u" using Cons by (simp add: run_api_Cons)
  then show ?case by (rule role_from_trans) (use evolves_event [of ev db] in \<open>auto simp: evolves_def\<close>)
qed

lemma run_dead:
  "dead_token tok db \<Longrightarrow> \<forall>ev \<in> set evs. event_token ev \<noteq> Some tok \<Longrightarrow> dead_token tok (run_api evs db)"
proof (induction evs arbitrary: db)
  case (Cons ev evs)
  have "dead_token tok (do_event ev db)" using evolves_event [of ev db] Cons.prems by (auto simp: evolves_def)
  with Cons show ?case by (simp add: run_api_Cons)
qed (simp add: run_api_def)


text \<open>
  C10. No sequence of requests gives anyone a role: a user whose role is not \<open>user\<close> at the end had that
  role, under the same id and the same Firebase account, at the beginning.
\<close>

theorem no_privilege_escalation:
  assumes "u \<in> set (ad_users (run_api evs db))" "ur_Role u \<noteq> ''user''"
  shows "\<exists>u0 \<in> set (ad_users db). ur_ID u0 = ur_ID u \<and> ur_FirebaseUID u0 = ur_FirebaseUID u \<and> ur_Role u0 = ur_Role u"
  using run_roles [OF assms(1)] assms(2) by (simp add: role_from_def)


section \<open>What passes the middleware\<close>

text \<open>The part of a user that authentication does not change.\<close>

definition account :: "user_row \<Rightarrow> u32 \<times> string \<times> string \<times> string \<times> string \<times> bool" where
  "account u = (ur_ID u, ur_FirebaseUID u, ur_Email u, ur_Name u, ur_Role u, ur_IsActive u)"

definition same_accounts :: "auth_db \<Rightarrow> auth_db \<Rightarrow> bool" where
  "same_accounts db db' \<longleftrightarrow> map account (ad_users db') = map account (ad_users db)"

lemma GetSessionOwner_Inr: "sn_GetSessionOwner f db s = Inr u \<Longrightarrow> u \<in> set (ad_users db)"
  by (auto simp: sn_GetSessionOwner_def split: if_splits sum.splits dest: ent_Only_Inr)

lemma UpdateLastUsed_frame:
  "sn_UpdateLastUsed f now s e db = (res, db') \<Longrightarrow> ad_users db' = ad_users db \<and> ad_tunnels db' = ad_tunnels db"
  by (auto simp: sn_UpdateLastUsed_def sn_update_def split: if_splits prod.splits)

text \<open>What authentication leaves alone of the sessions and tokens: everything but the times of their last use.\<close>

definition session_core :: "session_row \<Rightarrow> session_row" where
  "session_core s = s\<lparr>sn_LastUsed := 0, sn_UpdatedAt := 0\<rparr>"

definition token_core :: "api_token \<Rightarrow> api_token" where
  "token_core t = t\<lparr>tk_LastUsedAt := 0\<rparr>"

definition same_credentials :: "auth_db \<Rightarrow> auth_db \<Rightarrow> bool" where
  "same_credentials db db' \<longleftrightarrow> map session_core (ad_sessions db') = map session_core (ad_sessions db) \<and>
     map token_core (ad_tokens db') = map token_core (ad_tokens db)"

lemma same_credentials_refl [simp]: "same_credentials db db"
  by (simp add: same_credentials_def)

lemma same_credentials_trans: "same_credentials a b \<Longrightarrow> same_credentials b c \<Longrightarrow> same_credentials a c"
  by (simp add: same_credentials_def)

lemma UpdateLastUsed_credentials:
  assumes "sn_UpdateLastUsed f now s None db = (res, d)"
  shows "same_credentials db d"
proof (cases rule: UpdateOneID_cases [of sn_ID "sn_ID s" "sn_apply (Touch now None)" "ad_sessions db"])
  case 1
  with assms show ?thesis by (auto simp: sn_UpdateLastUsed_def sn_update_def split: if_splits)
next
  case (2 r)
  then show ?thesis using assms
    by (auto simp: sn_UpdateLastUsed_def sn_update_def same_credentials_def session_core_def split: if_splits)
qed

lemma ValidateToken_cores:
  "ValidateToken sha f now tok rows = (res, rows') \<Longrightarrow> map token_core rows' = map token_core rows"
  by (auto simp: ValidateToken_def tk_UpdateLastUsed_def ent_UpdateOneID_def tk_touch_def token_core_def
      split: option.splits sum.splits if_splits list.splits)

lemma identify_credentials:
  assumes "identify env now req db = (x, d)"
  shows "same_credentials db d"
proof -
  have a: "same_credentials db e" if "auth_token_user env now req db = (y, e)" for y e
    using that by (auto simp: auth_token_user_def split: option.splits if_splits sum.splits prod.splits dest: UpdateLastUsed_credentials)
  have b: "same_credentials e e'" if "bearer_user env now req e = (y, e')" for y e e'
    using that ValidateToken_cores
    by (auto simp: bearer_user_def same_credentials_def Let_def split: if_splits sum.splits prod.splits)
  show ?thesis
    using assms a b same_credentials_trans by (fastforce simp: identify_def split: option.splits prod.splits)
qed

lemma identify_user:
  assumes "identify env now req db = (x, d)"
  shows "ad_users d = ad_users db \<and> ad_tunnels d = ad_tunnels db \<and> (\<forall>u. x = Some u \<longrightarrow> u \<in> set (ad_users db))"
proof -
  have c: "u \<in> set (ad_users db)" if "session_cookie_user env req db = Some u" for u
    using that by (auto simp: session_cookie_user_def GetUserByFirebaseUID_def split: option.splits if_splits sum.splits dest: ent_Only_Inr)
  have a: "ad_users e = ad_users db \<and> ad_tunnels e = ad_tunnels db \<and> (\<forall>u. x = Some u \<longrightarrow> u \<in> set (ad_users db))"
    if "auth_token_user env now req db = (x, e)" for x e
    using that
    by (auto simp: auth_token_user_def split: option.splits if_splits sum.splits prod.splits
        dest!: UpdateLastUsed_frame GetSessionOwner_Inr)
  have b: "ad_users e' = ad_users e \<and> ad_tunnels e' = ad_tunnels e \<and> (\<forall>u. x = Some u \<longrightarrow> u \<in> set (ad_users e))"
    if "bearer_user env now req e = (x, e')" for x e e'
    using that by (auto simp: bearer_user_def ur_Get_def Let_def split: if_splits sum.splits prod.splits dest: ent_Only_Inr)
  show ?thesis
    using assms a b c by (auto simp: identify_def split: option.splits prod.splits) metis+
qed

lemma account_apply: "uu_Name u = None \<Longrightarrow> uu_Email u = None \<Longrightarrow> uu_IsActive u = None \<Longrightarrow> account (ur_apply (now, u) r) = account r"
  by (simp add: account_def ur_apply_def override_def)

lemma same_accounts_save:
  assumes "ur_save now i u db = (res, db')" "uu_Name u = None" "uu_Email u = None" "uu_IsActive u = None"
  shows "same_accounts db db' \<and> ad_sessions db' = ad_sessions db \<and> ad_tokens db' = ad_tokens db \<and> ad_tunnels db' = ad_tunnels db"
  using assms(1)
proof (cases rule: ur_save_cases)
  case (saved r)
  then show ?thesis using assms(2-) by (simp add: same_accounts_def account_apply)
qed (simp add: same_accounts_def)

lemma inv_row_unique: "auth_inv db \<Longrightarrow> u \<in> set (ad_users db) \<Longrightarrow> r \<in> set (ad_users db) \<Longrightarrow> ur_ID r = ur_ID u \<Longrightarrow> r = u"
  using auth_invD(3) by (metis distinct_map inj_onD)

lemma last_login_frame:
  assumes "auth_inv d" "UpdateUserLastLogin f now u ip d = (res, e)"
  shows "auth_inv e \<and> same_accounts d e \<and> ad_sessions e = ad_sessions d \<and> ad_tokens e = ad_tokens d \<and> ad_tunnels e = ad_tunnels d"
  using assms evolves_ur(2) [OF assms(2), of None] same_accounts_save [of now "ur_ID u" _ d]
  by (auto simp: UpdateUserLastLogin_def no_update_def evolves_def same_accounts_def split: if_splits)

lemma last_login_row:
  assumes "auth_inv d" "u \<in> set (ad_users d)" "UpdateUserLastLogin f now u ip d = (Inr u', e)"
  shows "account u' = account u" "ur_ID u' = ur_ID u"
proof -
  have "ur_save now (ur_ID u) (no_update\<lparr>uu_Login := Some (now, ip)\<rparr>) d = (Inr u', e)"
    using assms(3) by (auto simp: UpdateUserLastLogin_def split: if_splits)
  then show "account u' = account u"
  proof (cases rule: ur_save_cases)
    case (saved r)
    with inv_row_unique [OF assms(1,2), of r] show ?thesis by (simp add: account_apply no_update_def)
  qed simp
  then show "ur_ID u' = ur_ID u" by (simp add: account_def)
qed

lemma last_login_member:
  assumes "UpdateUserLastLogin f now u ip d = (Inr u', e)"
  shows "u' \<in> set (ad_users e)"
proof -
  have "ur_save now (ur_ID u) (no_update\<lparr>uu_Login := Some (now, ip)\<rparr>) d = (Inr u', e)"
    using assms by (auto simp: UpdateUserLastLogin_def split: if_splits)
  then show ?thesis
  proof (cases rule: ur_save_cases)
    case (saved r)
    then show ?thesis by force
  qed simp
qed

lemma protected_cases:
  assumes inv: "auth_inv db" and p: "protected h env now req cx db = (resp, db')"
  obtains (refused) "rp_Status resp \<in> {401, 403, 500}" "\<exists>c m. rp_Data resp = ErrorData c m" "same_accounts db db'"
      "same_credentials db db'" "ad_tunnels db' = ad_tunnels db"
    | (passed) u d cx1 db1 u' where "identify env now req db = (Some u, d)" "csrf_passes req" "account u' = account u"
      "cx1 = cx\<lparr>cx_userID := Some (CtxUint32 (ur_ID u)), cx_user := Some u'\<rparr>" "auth_inv db1" "same_accounts db db1"
      "ad_sessions db1 = ad_sessions d" "ad_tokens db1 = ad_tokens d" "ad_tunnels db1 = ad_tunnels db" "h env now req cx1 db1 = (resp, db')"
proof -
  obtain x d where i: "identify env now req db = (x, d)" by (cases "identify env now req db")
  note iu = identify_user [OF i] and ic = identify_credentials [OF i]
  have d: "auth_inv d" using evolves_identify [OF i] inv by (simp add: evolves_def)
  show ?thesis
  proof (cases x)
    case None
    with p i iu ic show ?thesis
      by (intro refused) (auto simp: protected_def RequireAuth_def HandleAPIError_def same_accounts_def)
  next
    case (Some u)
    with iu have u: "u \<in> set (ad_users d)" by simp
    obtain res e where s: "UpdateUserLastLogin (ae_faults env) now u (GetRealIP req) d = (res, e)"
      by (cases "UpdateUserLastLogin (ae_faults env) now u (GetRealIP req) d")
    note e = last_login_frame [OF d s]
    then have sadb: "same_accounts db e" "same_credentials db e" "ad_tunnels e = ad_tunnels db"
      using iu ic by (simp_all add: same_accounts_def same_credentials_def)
    show ?thesis
    proof (cases res)
      case (Inl _)
      with p i Some s sadb show ?thesis
        by (intro refused) (auto simp: protected_def RequireAuth_def HandleAPIError_def)
    next
      case (Inr u')
      note au = last_login_row [OF d u s [unfolded Inr]]
      show ?thesis
      proof (cases "csrf_passes req")
        case True
        show ?thesis
          by (rule passed [of u d u' "cx\<lparr>cx_userID := Some (CtxUint32 (ur_ID u)), cx_user := Some u'\<rparr>" e])
            (use i Some True au e sadb iu p s Inr in \<open>auto simp: protected_def RequireAuth_def CSRFMiddleware_def\<close>)
      next
        case False
        with p i Some s Inr sadb show ?thesis
          by (intro refused) (auto simp: protected_def RequireAuth_def CSRFMiddleware_def HandleAPIError_def)
      qed
    qed
  qed
qed


section \<open>Guards, sessions and their gaps\<close>


lemma same_accounts_ids:
  assumes "same_accounts db db'"
  shows "map ur_ID (ad_users db') = map ur_ID (ad_users db)"
proof -
  have "map ur_ID us = map fst (map account us)" for us by (simp add: account_def)
  with assms show ?thesis by (simp only: same_accounts_def)
qed

lemma last_login_saved:
  assumes "u \<in> set (ad_users d)" "\<not> f UrLastLogin"
  obtains u' e where "UpdateUserLastLogin f now u ip d = (Inr u', e)"
proof (cases rule: UpdateOneID_cases [of ur_ID "ur_ID u" "ur_apply (now, no_update\<lparr>uu_Login := Some (now, ip)\<rparr>)" "ad_users d"])
  case (2 r)
  with assms that show ?thesis by (auto simp: UpdateUserLastLogin_def ur_save_def email_taken_def no_update_def)
qed (use assms in auto)

lemma protected_passes:
  assumes "auth_inv db" "identify env now req db = (Some u, d)" "csrf_passes req" "\<not> ae_faults env UrLastLogin"
  obtains cx1 db1 u' where "protected h env now req cx db = h env now req cx1 db1" "account u' = account u"
    "cx1 = cx\<lparr>cx_userID := Some (CtxUint32 (ur_ID u)), cx_user := Some u'\<rparr>" "auth_inv db1" "same_accounts db db1"
    "ad_sessions db1 = ad_sessions d" "ad_tokens db1 = ad_tokens d" "ad_tunnels db1 = ad_tunnels db"
proof -
  have u: "u \<in> set (ad_users d)" using identify_user [OF assms(2)] by simp
  obtain u' e where l: "UpdateUserLastLogin (ae_faults env) now u (GetRealIP req) d = (Inr u', e)"
    using last_login_saved [where f = "ae_faults env", OF u assms(4)] .
  have d: "auth_inv d" using evolves_identify [OF assms(2), of None] assms(1) by (simp add: evolves_def)
  show thesis
    by (rule that [of "cx\<lparr>cx_userID := Some (CtxUint32 (ur_ID u)), cx_user := Some u'\<rparr>" e u'])
      (use last_login_frame [OF d l] last_login_row [OF d u l] identify_user [OF assms(2)] assms l in
        \<open>auto simp: protected_def RequireAuth_def CSRFMiddleware_def same_accounts_def\<close>)
qed

text \<open>
  Deleting users is not reserved to administrators: any identified user, whatever the role, who passes the CSRF check can delete any
  other user that no session, token or tunnel refers to, through \<open>DELETE /users/:id\<close>.
\<close>

theorem any_user_deletes_users:
  assumes "auth_inv db" "identify env now req db = (Some u, d)" "csrf_passes req"
    "\<not> ae_faults env UrLastLogin" "\<not> ae_faults env UrDelete"
    "v \<in> set (ad_users db)" "ParseUint32 (ar_Param req) = Some (ur_ID v)" "\<not> referenced d (ur_ID v)"
  shows "\<exists>db'. serve_api env now RDeleteUser req db = (HandleSuccess (MessageData ''User deleted successfully'') [], db') \<and>
    ur_ID v \<notin> ur_ID ` set (ad_users db')"
proof -
  obtain cx1 db1 u' where p: "protected DeleteUser env now req empty_ctx db = DeleteUser env now req cx1 db1" "same_accounts db db1"
    "ad_sessions db1 = ad_sessions d" "ad_tokens db1 = ad_tokens d" "ad_tunnels db1 = ad_tunnels db"
    using protected_passes [OF assms(1-4), of DeleteUser empty_ctx] by metis
  have "\<not> referenced db1 (ur_ID v)" using assms(8) p identify_user [OF assms(2)] by (simp add: referenced_def)
  moreover have "ur_ID v \<in> ur_ID ` set (ad_users db1)"
    using assms(6) same_accounts_ids [OF p(2)] by (metis image_eqI list.set_map)
  ultimately show ?thesis
    using assms(5,7) p(1)
    by (auto simp: serve_api_def routes_Setup_def DeleteUser_def delete_user_def ur_Delete_def ent_DeleteOneID_def filter_empty_conv)
qed

text \<open>
  \<open>DELETE /sessions\<close> reports success and revokes nothing: the handler reads the user id as a \<open>uint\<close>, the
  middleware stores a \<open>uint32\<close>, so the sessions of user 0 are revoked. As no user has the id 0, every session
  stays as it was after the authentication.
\<close>

theorem revoke_all_revokes_nothing:
  assumes "auth_inv db" "identify env now req db = (Some u, d)" "csrf_passes req"
    "\<not> ae_faults env UrLastLogin" "\<not> ae_faults env SnRevokeAll" "0 \<notin> ur_ID ` set (ad_users db)"
  shows "\<exists>db'. serve_api env now RRevokeAll req db = (HandleSuccess (MessageData ''All sessions successfully revoked'') stale_cookies, db') \<and>
    ad_sessions db' = ad_sessions d"
proof -
  obtain cx1 db1 u' where p: "protected RevokeAllSessions env now req empty_ctx db = RevokeAllSessions env now req cx1 db1"
    "cx1 = empty_ctx\<lparr>cx_userID := Some (CtxUint32 (ur_ID u)), cx_user := Some u'\<rparr>" "auth_inv db1" "same_accounts db db1"
    "ad_sessions db1 = ad_sessions d"
    using protected_passes [OF assms(1-4), of RevokeAllSessions empty_ctx] by metis
  have "0 \<notin> ur_ID ` set (ad_users db1)" using assms(6) same_accounts_ids [OF p(4)] by (metis list.set_map)
  then have "sn_Owner s \<noteq> 0" if "s \<in> set (ad_sessions db1)" for s using session_owner_exists [OF p(3) that] by metis
  then have "map (\<lambda>s. if sn_Owner s = 0 then sn_apply (Deactivate now) s else s) (ad_sessions db1) = ad_sessions db1"
    by (intro map_idI) auto
  with p assms(5) show ?thesis
    by (simp add: serve_api_def routes_Setup_def RevokeAllSessions_def sn_RevokeAllUserSessions_def empty_ctx_def)
qed

lemma live_row: "auth_inv db \<Longrightarrow> sn_GetActiveByToken f now db c = Inr s \<Longrightarrow> x \<in> set (ad_sessions db) \<Longrightarrow> sn_Token x = c \<Longrightarrow> x = s"
  using auth_invD(2) [of db]
  by (auto simp: sn_GetActiveByToken_def sn_live_def split: if_splits dest!: ent_Only_Inr) (metis distinct_map inj_onD)

lemma revoked_dead:
  assumes "auth_inv db" "\<not> f SnRevoke" "sn_GetActiveByToken f now db c = Inr s" "sn_RevokeByToken f now c db = (err, db')"
  shows "dead_token c db'"
proof -
  have s: "s \<in> set (ad_sessions db)" using assms(3) by (auto simp: sn_GetActiveByToken_def split: if_splits dest: ent_Only_Inr)
  obtain res e where u: "sn_update (Deactivate now) (sn_ID s) db = (res, e)" by (cases "sn_update (Deactivate now) (sn_ID s) db")
  then have "db' = e" using assms by (cases res) (auto simp: sn_RevokeByToken_def sn_Revoke_def)
  show ?thesis
  proof (cases rule: UpdateOneID_cases [of sn_ID "sn_ID s" "sn_apply (Deactivate now)" "ad_sessions db"])
    case (2 r)
    have e: "e = db\<lparr>ad_sessions := map (\<lambda>r. if sn_ID r = sn_ID s then sn_apply (Deactivate now) r else r) (ad_sessions db)\<rparr>"
      using u unfolding sn_update_def 2(1) by simp
    have "sn_ID x = sn_ID s" if "x \<in> set (ad_sessions db)" "sn_Token x = c" for x
      using live_row [OF assms(1,3) that] by simp
    then show ?thesis unfolding \<open>db' = e\<close> e dead_token_def by (auto simp: sn_table.upd_key split: if_splits)
  qed (use s in auto)
qed

lemma dead_cookie:
  assumes "dead_token c db" "ar_Cookie req CookieAuthToken = Some c"
  shows "auth_token_user env now req db = (None, db)"
proof -
  have "\<not> sn_live now c s" if "s \<in> set (ad_sessions db)" for s using assms(1) that by (auto simp: dead_token_def sn_live_def)
  then have "filter (sn_live now c) (ad_sessions db) = []" by (simp add: filter_empty_conv)
  with assms(2) show ?thesis by (simp add: auth_token_user_def sn_GetActiveByToken_def ent_Only_def)
qed



lemma ent_Only_distinct:
  assumes "distinct (map key rows)" "r \<in> set rows" "P r" "\<And>x. x \<in> set rows \<Longrightarrow> P x \<Longrightarrow> key x = key r"
  shows "ent_Only P rows = Inr r"
proof -
  have "inj_on key (set rows)" using assms(1) by (simp add: distinct_map)
  then have "P x \<longleftrightarrow> key x = key r" if "x \<in> set rows" for x using assms(2-4) that by (metis inj_onD)
  then have "filter P rows = filter (\<lambda>x. key x = key r) rows" by (intro filter_cong refl)
  with filter_key_distinct [OF assms(1,2)] show ?thesis by (simp add: ent_Only_Inr_filter)
qed

lemma auth_token_identifies:
  assumes inv: "auth_inv db" and s: "s \<in> set (ad_sessions db)" "sn_live now (sn_Token s) s"
    and c: "ar_Cookie req CookieAuthToken = Some (sn_Token s)" "sn_Token s \<noteq> []"
    and f: "\<not> ae_faults env SnGetActiveByToken" "\<not> ae_faults env SnGetOwner"
    and u: "u \<in> set (ad_users db)" "ur_ID u = sn_Owner s"
  shows "\<exists>d. auth_token_user env now req db = (Some u, d)"
proof -
  have g: "sn_GetActiveByToken (ae_faults env) now db (sn_Token s) = Inr s"
    unfolding sn_GetActiveByToken_def if_not_P [OF f(1)]
    by (rule ent_Only_distinct [where key = sn_Token]) (use auth_invD(2) [OF inv] s in \<open>auto simp: sn_live_def\<close>)
  obtain res d where l: "sn_UpdateLastUsed (ae_faults env) now s None db = (res, d)"
    by (cases "sn_UpdateLastUsed (ae_faults env) now s None db")
  have d: "auth_inv d" using sn_ops_inv(2) [OF inv l] .
  have "\<exists>x \<in> set (ad_sessions d). sn_ID x = sn_ID s \<and> sn_Owner x = sn_Owner s"
  proof (cases rule: UpdateOneID_cases [of sn_ID "sn_ID s" "sn_apply (Touch now None)" "ad_sessions db"])
    case 1
    with s(1) show ?thesis by blast
  next
    case (2 r)
    then have "sn_apply (Touch now None) s \<in> set (ad_sessions d) \<or> s \<in> set (ad_sessions d)"
      using l s(1) by (auto simp: sn_UpdateLastUsed_def sn_update_def split: if_splits)
    then show ?thesis by (metis sn_apply_Owner sn_table.upd_id)
  qed
  then obtain x where x: "x \<in> set (ad_sessions d)" "sn_ID x = sn_ID s" "sn_Owner x = sn_Owner s" by blast
  have "ent_Only (\<lambda>y. sn_ID y = sn_ID s) (ad_sessions d) = Inr x"
    using ent_Only_key [OF auth_invD(1) [OF d]] x by simp
  moreover have "ent_Only (\<lambda>v. ur_ID v = sn_Owner x) (ad_users d) = Inr u"
    using ent_Only_key [OF auth_invD(3) [OF d]] u x UpdateLastUsed_frame [OF l] by simp
  ultimately have "sn_GetSessionOwner (ae_faults env) d s = Inr u" using f by (simp add: sn_GetSessionOwner_def)
  with c g l show ?thesis by (simp add: auth_token_user_def)
qed

text \<open>
  A logout whose revocation fails reports success all the same: the failure is only logged, the answer is 200 and
  takes the cookies from the browser, the database is as it was, and the old cookie goes on identifying its user
  until the session expires.
\<close>

theorem failed_logout_keeps_session:
  assumes "auth_inv db" "c \<noteq> []" "ar_Cookie req CookieAuthToken = Some c" "csrf_passes req" "ae_faults env SnRevoke"
    "s \<in> set (ad_sessions db)" "sn_live now' c s"
    "\<not> ae_faults env' SnGetActiveByToken" "\<not> ae_faults env' SnGetOwner" "ar_Cookie req' CookieAuthToken = Some c"
  shows "serve_api env now RLogout req db = (HandleSuccess (MessageData ''Logged out successfully'') (clear_cookies env), db) \<and>
    (\<exists>u d. auth_token_user env' now' req' db = (Some u, d) \<and> ur_ID u = sn_Owner s)"
proof -
  have "serve_api env now RLogout req db = (HandleSuccess (MessageData ''Logged out successfully'') (clear_cookies env), db)"
    using assms(2-5) by (auto simp: serve_api_def routes_Setup_def with_csrf_def CSRFMiddleware_def Logout_def
        sn_RevokeByToken_def sn_Revoke_def split: sum.splits)
  moreover obtain u where u: "u \<in> set (ad_users db)" "ur_ID u = sn_Owner s" using session_owner_exists [OF assms(1,6)] by auto
  moreover have "sn_Token s = c" using assms(7) by (simp add: sn_live_def)
  ultimately show ?thesis
    using auth_token_identifies [OF assms(1,6), of now' req' env'] assms by blast
qed

lemma open_session_200:
  assumes "open_session env now req u cookies db = (resp, db')" "rp_Status resp = 200"
  obtains u' e token s where "UpdateUserLastLogin (ae_faults env) now u (GetRealIP req) db = (Inr u', e)"
    "generateSecureToken env = Some token"
    "sn_CreateForUser (ae_faults env) now (ur_ID u') token (user_agent req) (GetRealIP req) (now + 30 * 86400) e = (Inr s, db')"
    "resp = HandleSuccess (UserData (UserToUserResponse u')) (cookies @ login_cookies env (sn_Token s))"
  using assms
  by (auto simp: open_session_def panic_response_def HandleAPIError_def split: prod.splits sum.splits option.splits)

lemma created_session:
  assumes "sn_CreateForUser f now uid token ua ip exp e = (Inr s, db')"
  shows "s \<in> set (ad_sessions db')" "sn_Token s = token" "sn_Owner s = uid" "sn_IsActive s" "sn_ExpiresAt s = exp" "ad_users db' = ad_users e"
  using assms by (auto simp: sn_CreateForUser_def Let_def split: if_splits)

lemma Login_200:
  assumes "auth_inv db" "serve_api env now RLogin req db = (resp, db')" "rp_Status resp = 200"
  obtains idToken decoded u db0 cookies req' where "ar_Body req = Some (LoginBody idToken)" "ae_VerifyIDToken env idToken = Some decoded"
    "auth_inv db0" "u \<in> set (ad_users db0)" "ur_FirebaseUID u = ft_UID decoded" "open_session env now req' u cookies db0 = (resp, db')"
    "set (ad_users db) \<subseteq> set (ad_users db0)"
proof -
  obtain idToken req' where b: "ar_Body req = Some (LoginBody idToken)" "req' = req\<lparr>ar_Body := None\<rparr>"
    "Login env now req' (empty_ctx\<lparr>cx_body := Some (LoginBody idToken)\<rparr>) db = (resp, db')"
    using assms(2,3)
    by (auto simp: serve_api_def routes_Setup_def with_body_def validateRequest_def ShouldBindJSON_def HandleAPIError_def
        split: option.splits if_splits elim!: binds.elims)
  show thesis
  proof (cases "ae_VerifyIDToken env idToken")
    case None
    with b assms(3) show ?thesis by (auto simp: Login_def HandleAPIError_def)
  next
    case (Some decoded)
    consider u cookies where "u \<in> set (ad_users db)" "ur_FirebaseUID u = ft_UID decoded" "open_session env now req' u cookies db = (resp, db')"
      | u cookies db1 email name where "CreateUser (ae_faults env) now (ft_UID decoded) email name (GetRealIP req') db = (Inr u, db1)"
        "open_session env now req' u cookies db1 = (resp, db')"
      using b(3) Some assms(3)
      by (auto simp: Login_def HandleAPIError_def panic_response_def GetUserByFirebaseUID_def Let_def
          split: option.splits sum.splits repo_error.splits prod.splits if_splits dest!: ent_Only_Inr)
    then show ?thesis
    proof cases
      case 1
      with b(1) Some assms(1) that [of idToken decoded db u req'] show ?thesis by blast
    next
      case (2 u cookies db1 email name)
      have "u \<in> set (ad_users db1)" "ur_FirebaseUID u = ft_UID decoded" "set (ad_users db) \<subseteq> set (ad_users db1)"
        using 2(1) by (auto simp: CreateUser_def new_user_def Let_def split: if_splits)
      with b(1) Some 2 CreateUser_inv [OF assms(1) 2(1)] that [of idToken decoded db1 u req'] show ?thesis by blast
    qed
  qed
qed

text \<open>
  C11. A login gives a cookie that works: when \<open>Login\<close> succeeds, the \<open>auth_token\<close> cookie it sets identifies, for
  30 days and on its own, the user whose record the response shows, and that user belongs to the Firebase account the
  presented id token was issued for.
\<close>

theorem login_session_roundtrip:
  assumes "auth_inv db" "serve_api env now RLogin req db = (resp, db')" "rp_Status resp = 200" "ae_rand env = Some bs"
    "EncodeToString bs \<noteq> []" "now' < now + 30 * 86400" "\<not> ae_faults env' SnGetActiveByToken" "\<not> ae_faults env' SnGetOwner"
    "ar_Cookie req' CookieSession = None" "ar_Cookie req' CookieAuthToken = Some (EncodeToString bs)"
  shows "mk_cookie env CookieAuthToken (EncodeToString bs) 2592000 True \<in> set (rp_Cookies resp) \<and>
    (\<exists>idToken decoded u d. ar_Body req = Some (LoginBody idToken) \<and> ae_VerifyIDToken env idToken = Some decoded \<and>
       identify env' now' req' db' = (Some u, d) \<and> ur_FirebaseUID u = ft_UID decoded \<and> rp_Data resp = UserData (UserToUserResponse u))"
proof -
  obtain idToken decoded u db0 cookies req1 where L: "ar_Body req = Some (LoginBody idToken)" "ae_VerifyIDToken env idToken = Some decoded"
    "auth_inv db0" "u \<in> set (ad_users db0)" "ur_FirebaseUID u = ft_UID decoded" "open_session env now req1 u cookies db0 = (resp, db')"
    using Login_200 [OF assms(1-3)] .
  obtain u' e token s where O: "UpdateUserLastLogin (ae_faults env) now u (GetRealIP req1) db0 = (Inr u', e)" "generateSecureToken env = Some token"
    "sn_CreateForUser (ae_faults env) now (ur_ID u') token (user_agent req1) (GetRealIP req1) (now + 30 * 86400) e = (Inr s, db')"
    "resp = HandleSuccess (UserData (UserToUserResponse u')) (cookies @ login_cookies env (sn_Token s))"
    using open_session_200 [OF L(6) assms(3)] .
  have t: "token = EncodeToString bs" using O(2) assms(4) by (simp add: generateSecureToken_def)
  note s = created_session [OF O(3)]
  have e: "auth_inv e" using last_login_frame [OF L(3) O(1)] by simp
  have u': "u' \<in> set (ad_users db')" using last_login_member [OF O(1)] s(6) by simp
  have "auth_inv db'" using sn_ops_inv(1) [OF e O(3)] .
  then have "\<exists>d. auth_token_user env' now' req' db' = (Some u', d)"
    by (rule auth_token_identifies [of _ s]) (use s t assms u' in \<open>auto simp: sn_live_def\<close>)
  then obtain d where "identify env' now' req' db' = (Some u', d)" using assms(9) by (auto simp: identify_def session_cookie_user_def)
  moreover have "ur_FirebaseUID u' = ft_UID decoded" using last_login_row(1) [OF L(3,4) O(1)] L(5) by (simp add: account_def)
  ultimately show ?thesis using L O s t by (auto simp: HandleSuccess_def login_cookies_def)
qed

text \<open>
  \<open>Register\<close> takes the Firebase account from the request without asking Firebase: whoever names an account that
  is not registered yet creates its user with an e-mail address of their own choice, and every later login of the
  account's owner is a login as that user.
\<close>

theorem registration_unverified:
  assumes "auth_inv db" "ar_Body req = Some (RegisterBody email name uid)" "binds env KRegister (RegisterBody email name uid)"
    "uid \<notin> ur_FirebaseUID ` set (ad_users db)" "email \<notin> ur_Email ` set (ad_users db)"
    "of_nat (ad_next_user db) \<notin> ur_ID ` set (ad_users db)" "\<forall>f. \<not> ae_faults env f"
  shows "\<exists>resp1 db1. serve_api env now RRegister req db = (resp1, db1) \<and> rp_Status resp1 = 201 \<and>
    (\<forall>env' now' req' resp2 db2 idToken decoded. serve_api env' now' RLogin req' db1 = (resp2, db2) \<longrightarrow> rp_Status resp2 = 200 \<longrightarrow>
       ar_Body req' = Some (LoginBody idToken) \<longrightarrow> ae_VerifyIDToken env' idToken = Some decoded \<longrightarrow> ft_UID decoded = uid \<longrightarrow>
       (\<exists>v. rp_Data resp2 = UserData v \<and> up_Email v = email))"
proof -
  let ?u = "new_user now (of_nat (ad_next_user db)) uid email name (GetRealIP (req\<lparr>ar_Body := None\<rparr>))"
  let ?db1 = "db\<lparr>ad_users := ad_users db @ [?u], ad_next_user := Suc (ad_next_user db)\<rparr>"
  have c: "CreateUser (ae_faults env) now uid email name (GetRealIP (req\<lparr>ar_Body := None\<rparr>)) db = (Inr ?u, ?db1)"
    using assms(4-7) by (simp add: CreateUser_def Let_def new_user_def)
  have g: "GetUserByFirebaseUID (ae_faults env) db uid = Inl ErrNotFound" "GetUserByEmail (ae_faults env) db email = Inl ErrNotFound"
    using assms(4,5,7) ent_Only_key_None [OF auth_invD(4) [OF assms(1)]] ent_Only_key_None [OF auth_invD(5) [OF assms(1)]]
    by (auto simp: GetUserByFirebaseUID_def GetUserByEmail_def)
  have "\<exists>v. rp_Data resp2 = UserData v \<and> up_Email v = email"
    if l: "serve_api env' now' RLogin req' ?db1 = (resp2, db2)" "rp_Status resp2 = 200" and
      t: "ar_Body req' = Some (LoginBody idToken)" "ae_VerifyIDToken env' idToken = Some decoded" "ft_UID decoded = uid"
    for env' now' req' resp2 db2 idToken decoded
  proof -
    obtain tok dec x db0 cookies req1 where L0: "ar_Body req' = Some (LoginBody tok)" "ae_VerifyIDToken env' tok = Some dec"
      "auth_inv db0" "x \<in> set (ad_users db0)" "ur_FirebaseUID x = ft_UID dec"
      "open_session env' now' req1 x cookies db0 = (resp2, db2)" "set (ad_users ?db1) \<subseteq> set (ad_users db0)"
      using Login_200 [OF CreateUser_inv [OF assms(1) c] l] .
    have "ur_FirebaseUID x = uid" using L0(1,2,5) t by simp
    note L = L0(3,4) this L0(6,7)
    have "?u \<in> set (ad_users db0)" "ur_FirebaseUID ?u = uid" "ur_Email ?u = email" using L(5) by (simp_all add: new_user_def)
    then have "ur_Email x = email" using L(2,3) auth_invD(4) [OF L(1)] by (metis distinct_map inj_onD)
    moreover obtain x' e token s where "UpdateUserLastLogin (ae_faults env') now' x (GetRealIP req1) db0 = (Inr x', e)"
      "generateSecureToken env' = Some token"
      "sn_CreateForUser (ae_faults env') now' (ur_ID x') token (user_agent req1) (GetRealIP req1) (now' + 30 * 86400) e = (Inr s, db2)"
      "resp2 = HandleSuccess (UserData (UserToUserResponse x')) (cookies @ login_cookies env' (sn_Token s))"
      using open_session_200 [OF L(4) l(2)] .
    ultimately show ?thesis
      using last_login_row(1) [OF L(1,2)] by (auto simp: HandleSuccess_def UserToUserResponse_def account_def)
  qed
  moreover have "\<exists>resp1. serve_api env now RRegister req db = (resp1, ?db1) \<and> rp_Status resp1 = 201"
    using assms(2,3) c g
    by (simp add: serve_api_def routes_Setup_def with_body_def validateRequest_def ShouldBindJSON_def Register_def empty_ctx_def)
  ultimately show ?thesis by blast
qed


lemma delete_user_zero:
  assumes "0 \<notin> ur_ID ` set (ad_users db)"
  shows "ur_Delete f 0 db = (Some (if f UrDelete then DBError else ErrNotFound), db)"
  using assms by (auto simp: ur_Delete_def ent_DeleteOneID_def filter_empty_conv image_iff)

lemma zero_sessions:
  assumes "auth_inv db" "0 \<notin> ur_ID ` set (ad_users db)"
  shows "sn_GetUserSession f db t 0 = Inl (if f SnGetUserSession then DBError else ErrNotFound)"
proof -
  have "sn_Owner s \<noteq> 0" if "s \<in> set (ad_sessions db)" for s using session_owner_exists [OF assms(1) that] assms(2) by metis
  then have "filter (\<lambda>s. sn_Token s = t \<and> sn_Owner s = 0) (ad_sessions db) = []" by (auto simp: filter_empty_conv)
  then show ?thesis by (simp add: sn_GetUserSession_def ent_Only_def)
qed

text \<open>
  Four routes never do their work. Updating a user outside the admin group binds a body that the validation
  has already consumed, token verification looks for data that no middleware stores, and deleting one's profile or
  one of one's sessions asks for the user 0: none ever answers with status 200, and none changes an account or a
  session beyond the bookkeeping of the authentication.
\<close>

theorem routes_without_effect:
  assumes inv: "auth_inv db" "0 \<notin> ur_ID ` set (ad_users db)"
    and r: "r \<in> {RUpdateUser, RVerifyToken, RDeleteProfile, RRevokeSession}" and s: "serve_api env now r req db = (resp, db')"
  shows "rp_Status resp \<noteq> 200 \<and> same_accounts db db'"
proof (cases "r = RVerifyToken")
  case True
  with s show ?thesis
    by (auto simp: serve_api_def routes_Setup_def with_csrf_def CSRFMiddleware_def VerifyToken_def empty_ctx_def HandleAPIError_def
        same_accounts_def split: if_splits)
next
  case False
  with r consider "r = RUpdateUser" | "r = RDeleteProfile" | "r = RRevokeSession" by auto
  then have "\<exists>h. h \<in> {with_body KUpdateUser UpdateUser, DeleteProfile, RevokeSession} \<and> protected h env now req empty_ctx db = (resp, db')"
    using s by cases (simp_all add: serve_api_def routes_Setup_def, blast+)
  then obtain h where h: "h \<in> {with_body KUpdateUser UpdateUser, DeleteProfile, RevokeSession}" "protected h env now req empty_ctx db = (resp, db')"
    by blast
  from inv(1) h(2) show ?thesis
  proof (cases rule: protected_cases)
    case (passed u d cx1 db1 u')
    have z: "0 \<notin> ur_ID ` set (ad_users db1)" using inv(2) same_accounts_ids [OF passed(6)] by (metis list.set_map)
    have "rp_Status resp \<noteq> 200 \<and> db' = db1"
      using h(1) passed delete_user_zero [OF z] zero_sessions [OF passed(5) z]
      by (auto simp: with_body_def validateRequest_def ShouldBindJSON_def UpdateUser_def DeleteProfile_def RevokeSession_def
          delete_user_def user_error_def HandleAPIError_def split: prod.splits option.splits sum.splits if_splits)
    with passed(6) show ?thesis by simp
  qed auto
qed

section \<open>Witnesses\<close>

definition demo_env :: auth_env where
  "demo_env =
     \<lparr>ae_VerifyIDToken = (\<lambda>t. if t = ''id'' then Some \<lparr>ft_UID = ''fb9'', ft_Email = Some ''nine@x.io'', ft_Name = None\<rparr> else None),
      ae_SessionCookie = (\<lambda>t. Some ''sc''), ae_VerifySessionCookie = (\<lambda>c. None), ae_sha = (\<lambda>s. replicate 32 0),
      ae_rand = Some [1, 2, 3], ae_csrf_rand = None, ae_is_email = (\<lambda>e. True), ae_cookieDomain = [],
      ae_orderBy = (\<lambda>c b us. us), ae_faults = (\<lambda>f. False), ae_tkfaults = (\<lambda>f. False)\<rparr>"

definition demo_user :: "u32 \<Rightarrow> string \<Rightarrow> string \<Rightarrow> string \<Rightarrow> user_row" where
  "demo_user i uid email role = (new_user 0 i uid email email [])\<lparr>ur_Role := role\<rparr>"

definition demo_session :: session_row where
  "demo_session = \<lparr>sn_ID = 1, sn_Token = ''tok2'', sn_ExpiresAt = 5000, sn_LastUsed = 0, sn_IsActive = True, sn_UserAgent = [],
     sn_IPAddress = [], sn_Owner = 2, sn_CreatedAt = 0, sn_UpdatedAt = 0\<rparr>"

definition demo_auth :: auth_db where
  "demo_auth = \<lparr>ad_users = [demo_user 1 ''fb1'' ''root@x.io'' ''admin'', demo_user 2 ''fb2'' ''two@x.io'' ''user'', demo_user 3 ''fb3'' ''three@x.io'' ''user''],
     ad_next_user = 4, ad_sessions = [demo_session], ad_next_session = 2, ad_tokens = [],
     ad_tunnels = \<lparr>db_rows = [], db_next_id = 1, db_clock = 0\<rparr>\<rparr>"

definition demo_request :: "string \<Rightarrow> string \<Rightarrow> api_body option \<Rightarrow> api_request" where
  "demo_request meth param body =
     \<lparr>ar_Method = meth, ar_Cookie = [CookieAuthToken \<mapsto> ''tok2'', CookieCSRF \<mapsto> ''x''],
      ar_Header = (\<lambda>h. if h = HeaderCSRF then ''x'' else []), ar_ClientIP = ''1.2.3.4'', ar_Param = param,
      ar_Query = Map.empty, ar_Body = body\<rparr>"

lemmas demo_defs = demo_env_def demo_user_def demo_session_def demo_auth_def demo_request_def new_user_def

lemma demo_auth_inv: "auth_inv demo_auth"
  by (auto simp: auth_inv_def keyed_def refs_ok_def referenced_def demo_defs)

lemma demo_sel [simp]: "ae_faults demo_env = (\<lambda>f. False)" "ae_rand demo_env = Some [1, 2, 3]"
  by (simp_all add: demo_env_def)

lemma demo_csrf: "csrf_passes (demo_request meth param body)"
  by (simp add: csrf_passes_def csrf_ValidateToken_def demo_request_def cookie_names)


text \<open>The user 2 is identified by the cookie; the time stamps of the session and of the user are set.\<close>

definition demo_touched :: auth_db where
  "demo_touched = demo_auth\<lparr>ad_sessions := [demo_session\<lparr>sn_LastUsed := 100, sn_UpdatedAt := 100\<rparr>]\<rparr>"

lemma demo_identify:
  "identify demo_env 100 (demo_request meth param body) demo_auth = (Some (demo_user 2 ''fb2'' ''two@x.io'' ''user''), demo_touched)"
  by (simp add: identify_def session_cookie_user_def auth_token_user_def sn_GetActiveByToken_def sn_live_def sn_UpdateLastUsed_def
      sn_update_def ent_UpdateOneID_def sn_GetSessionOwner_def ent_Only_def demo_touched_def demo_defs cookie_names)

lemma demo_ids: "0 \<notin> ur_ID ` set (ad_users demo_auth)"
  by (simp add: demo_defs)


theorem no_privilege_escalation_witness:
  "demo_user 1 ''fb1'' ''root@x.io'' ''admin'' \<in> set (ad_users (run_api [Cleanup (\<lambda>f. False) 9000] demo_auth)) \<and>
   (\<exists>u0 \<in> set (ad_users demo_auth). ur_ID u0 = 1 \<and> ur_FirebaseUID u0 = ''fb1'' \<and> ur_Role u0 = ''admin'')"
proof -
  have u: "demo_user 1 ''fb1'' ''root@x.io'' ''admin'' \<in> set (ad_users (run_api [Cleanup (\<lambda>f. False) 9000] demo_auth))"
    by (simp add: run_api_def session_cleanup_def sn_DeleteExpired_def demo_auth_def)
  with no_privilege_escalation [OF u] show ?thesis by (simp add: demo_user_def new_user_def)
qed


theorem any_user_deletes_users_witness:
  "\<exists>db'. serve_api demo_env 100 RDeleteUser (demo_request ''DELETE'' ''3'' None) demo_auth =
     (HandleSuccess (MessageData ''User deleted successfully'') [], db') \<and> 3 \<notin> ur_ID ` set (ad_users db')"
proof -
  have v: "demo_user 3 ''fb3'' ''three@x.io'' ''user'' \<in> set (ad_users demo_auth)" by (simp add: demo_auth_def)
  have p: "ParseUint32 (ar_Param (demo_request ''DELETE'' ''3'' None)) = Some (ur_ID (demo_user 3 ''fb3'' ''three@x.io'' ''user''))"
    by (simp add: demo_request_def demo_user_def new_user_def ParseUint32_def is_digit_def dec_value_def digit_val_def)
  have r: "\<not> referenced demo_touched (ur_ID (demo_user 3 ''fb3'' ''three@x.io'' ''user''))"
    by (simp add: referenced_def demo_touched_def demo_defs)
  show ?thesis
    using any_user_deletes_users [OF demo_auth_inv demo_identify demo_csrf _ _ v p r] by (simp add: demo_user_def new_user_def)
qed

theorem revoke_all_revokes_nothing_witness:
  "\<exists>db'. serve_api demo_env 100 RRevokeAll (demo_request ''DELETE'' [] None) demo_auth =
     (HandleSuccess (MessageData ''All sessions successfully revoked'') stale_cookies, db') \<and>
     ad_sessions db' = [demo_session\<lparr>sn_LastUsed := 100, sn_UpdatedAt := 100\<rparr>]"
  using revoke_all_revokes_nothing [OF demo_auth_inv demo_identify demo_csrf _ _ demo_ids, of "''DELETE''" "[]" None]
  by (simp add: demo_touched_def)


theorem failed_logout_keeps_session_witness:
  "serve_api (demo_env\<lparr>ae_faults := (\<lambda>f. f = SnRevoke)\<rparr>) 100 RLogout (demo_request ''POST'' [] None) demo_auth =
     (HandleSuccess (MessageData ''Logged out successfully'') (clear_cookies demo_env), demo_auth) \<and>
   (\<exists>u d. auth_token_user demo_env 4999 (demo_request ''GET'' [] None) demo_auth = (Some u, d) \<and> ur_ID u = 2)"
proof -
  have c: "ar_Cookie (demo_request m p b) CookieAuthToken = Some ''tok2''" for m p b by (simp add: demo_request_def cookie_names)
  have s: "demo_session \<in> set (ad_sessions demo_auth)" "sn_live 4999 ''tok2'' demo_session"
    by (simp_all add: demo_auth_def sn_live_def demo_session_def)
  have e: "clear_cookies (demo_env\<lparr>ae_faults := F\<rparr>) = clear_cookies demo_env" for F
    by (simp add: clear_cookies_def mk_cookie_def)
  show ?thesis
    using failed_logout_keeps_session [where env = "demo_env\<lparr>ae_faults := (\<lambda>f. f = SnRevoke)\<rparr>" and req = "demo_request ''POST'' [] None"
        and req' = "demo_request ''GET'' [] None" and env' = demo_env and now = 100, OF demo_auth_inv _ c demo_csrf _ s _ _ c]
    by (simp add: e demo_session_def)
qed

theorem registration_unverified_witness:
  "\<exists>resp1 db1. serve_api demo_env 100 RRegister (demo_request ''POST'' [] (Some (RegisterBody ''evil@x.io'' ''E'' ''fb9''))) demo_auth = (resp1, db1) \<and>
     rp_Status resp1 = 201 \<and>
     (\<forall>resp2 db2. serve_api demo_env 200 RLogin (demo_request ''POST'' [] (Some (LoginBody ''id''))) db1 = (resp2, db2) \<longrightarrow>
        rp_Status resp2 = 200 \<longrightarrow> (\<exists>v. rp_Data resp2 = UserData v \<and> up_Email v = ''evil@x.io''))"
proof -
  let ?r = "demo_request ''POST'' [] (Some (RegisterBody ''evil@x.io'' ''E'' ''fb9''))"
  have a: "ar_Body ?r = Some (RegisterBody ''evil@x.io'' ''E'' ''fb9'')" by (simp add: demo_request_def)
  have b: "binds demo_env KRegister (RegisterBody ''evil@x.io'' ''E'' ''fb9'')" by (simp add: demo_env_def)
  have n: "''fb9'' \<notin> ur_FirebaseUID ` set (ad_users demo_auth)" "''evil@x.io'' \<notin> ur_Email ` set (ad_users demo_auth)"
    "of_nat (ad_next_user demo_auth) \<notin> ur_ID ` set (ad_users demo_auth)" by (simp_all add: demo_defs)
  show ?thesis
    using registration_unverified [OF demo_auth_inv a b n] by (fastforce simp: demo_request_def demo_env_def)
qed

theorem routes_without_effect_witness:
  "rp_Status (fst (serve_api demo_env 100 RDeleteProfile (demo_request ''DELETE'' [] None) demo_auth)) \<noteq> 200"
  using routes_without_effect [OF demo_auth_inv demo_ids _ prod.collapse [symmetric], of RDeleteProfile demo_env 100 "demo_request ''DELETE'' [] None"]
  by simp


lemma demo_encoded: "EncodeToString [1, 2, 3] = ''AQID''"
  by code_simp

lemma demo_login:
  "rp_Status (fst (serve_api demo_env 100 RLogin (demo_request ''POST'' [] (Some (LoginBody ''id''))) demo_auth)) = 200"
  by (simp add: serve_api_def routes_Setup_def with_body_def validateRequest_def ShouldBindJSON_def Login_def open_session_def
      GetUserByFirebaseUID_def CreateUser_def UpdateUserLastLogin_def ur_save_def email_taken_def no_update_def ur_apply_def override_def
      generateSecureToken_def sn_CreateForUser_def sn_GetActiveByToken_def sn_live_def ent_Only_def ent_UpdateOneID_def
      empty_ctx_def HandleSuccess_def demo_defs demo_encoded Let_def)

theorem login_session_roundtrip_witness:
  "\<exists>resp db' u d. serve_api demo_env 100 RLogin (demo_request ''POST'' [] (Some (LoginBody ''id''))) demo_auth = (resp, db') \<and>
     identify demo_env 200 ((demo_request ''GET'' [] None)\<lparr>ar_Cookie := [CookieAuthToken \<mapsto> ''AQID'']\<rparr>) db' = (Some u, d) \<and>
     ur_FirebaseUID u = ''fb9'' \<and> rp_Data resp = UserData (UserToUserResponse u)"
proof -
  let ?req = "demo_request ''POST'' [] (Some (LoginBody ''id''))"
  obtain resp db' where s: "serve_api demo_env 100 RLogin ?req demo_auth = (resp, db')"
    by (cases "serve_api demo_env 100 RLogin ?req demo_auth")
  have st: "rp_Status resp = 200" using demo_login s by simp
  have c: "ar_Cookie ((demo_request ''GET'' [] None)\<lparr>ar_Cookie := [CookieAuthToken \<mapsto> ''AQID'']\<rparr>) CookieSession = None"
    "ar_Cookie ((demo_request ''GET'' [] None)\<lparr>ar_Cookie := [CookieAuthToken \<mapsto> ''AQID'']\<rparr>) CookieAuthToken = Some (EncodeToString [1, 2, 3])"
    by (simp_all add: cookie_names demo_encoded)
  have "ae_VerifyIDToken demo_env idToken = Some x \<Longrightarrow> ft_UID x = ''fb9''" for idToken x by (auto simp: demo_env_def split: if_splits)
  with login_session_roundtrip [where env' = demo_env and now' = 200, OF demo_auth_inv s st _ _ _ _ _ c] s show ?thesis
    by (auto simp: demo_encoded)
qed

end
