(* ===== verification/Client_Config.thy ===== *)
theory Client_Config
  imports Json
begin

text \<open>
  The configuration of the command line client (\<open>internal/tunnel/config.go\<close>) and the checks of its
  certificate files (\<open>internal/tunnel/tls_config.go\<close>): the directory of the configuration, the JSON
  document with its omitted, unknown and repeated fields, loading with the defaults for older files,
  validation, saving and merging. The machine the client runs on is a record: environment, users,
  files, and the global variable \<open>DefaultConfig\<close>, which callers of \<open>LoadConfig\<close> may change through the
  pointer they get. A file is the document it parses to; strings are valid UTF-8.
\<close>

section \<open>The packages \<open>path/filepath\<close> and \<open>os\<close>\<close>

definition clean_seg :: "bool \<Rightarrow> string list \<Rightarrow> string \<Rightarrow> string list" where
  "clean_seg rooted out seg =
     (if seg = [] \<or> seg = ''.'' then out
      else if seg \<noteq> ''..'' then out @ [seg]
      else if out \<noteq> [] \<and> last out \<noteq> ''..'' then butlast out
      else if rooted then out else out @ [''..''])"

definition filepath_Clean :: "string \<Rightarrow> string" where
  "filepath_Clean p =
     (let rooted = HasPrefix p ''/''; segs = foldl (clean_seg rooted) [] (Split p ''/'')
      in if rooted then ''/'' @ Join segs ''/'' else if segs = [] then ''.'' else Join segs ''/'')"

definition filepath_Join :: "string \<Rightarrow> string \<Rightarrow> string" where
  "filepath_Join a b =
     (if a \<noteq> [] then filepath_Clean (a @ ''/'' @ b) else if b \<noteq> [] then filepath_Clean b else [])"

section \<open>Data\<close>

record server_config =
  sv_Host :: string
  sv_Port :: int

record security_config =
  sc_InsecureSkipVerify :: bool
  sc_CACert :: string
  sc_ClientCert :: string
  sc_ClientKey :: string

record time_window =
  tw_StartHour :: int
  tw_EndHour :: int
  tw_Timezone :: string

record auto_update_config =
  au_Enabled :: bool
  au_CheckInterval :: int
  au_RequiredOnly :: bool
  au_DownloadURL :: string
  au_PreserveConnection :: bool
  au_RestartService :: bool
  au_BackupCount :: int
  au_UpdateWindow :: "time_window option"
  au_Channel :: string

record test_mode_config =
  tm_Enabled :: bool
  tm_Channel :: string
  tm_UserID :: string
  tm_Groups :: "string list"

record config =
  cf_Token :: string
  cf_Domain :: string
  cf_LocalPort :: int
  cf_Server :: server_config
  cf_API :: server_config
  cf_Security :: security_config
  cf_AutoUpdate :: auto_update_config
  cf_TestMode :: test_mode_config

definition second :: int where "second = 1000000000"

definition DefaultConfig :: config where
  "DefaultConfig =
     \<lparr>cf_Token = [], cf_Domain = [], cf_LocalPort = 0,
      cf_Server = \<lparr>sv_Host = ''tunnel.giraffecloud.xyz'', sv_Port = 4443\<rparr>,
      cf_API = \<lparr>sv_Host = ''api.giraffecloud.xyz'', sv_Port = 443\<rparr>,
      cf_Security = \<lparr>sc_InsecureSkipVerify = False, sc_CACert = [], sc_ClientCert = [], sc_ClientKey = []\<rparr>,
      cf_AutoUpdate =
        \<lparr>au_Enabled = True, au_CheckInterval = 24 * 3600 * second, au_RequiredOnly = True,
         au_DownloadURL = ''https://github.com/osa911/giraffecloud/releases/download'',
         au_PreserveConnection = True, au_RestartService = True, au_BackupCount = 5,
         au_UpdateWindow = Some \<lparr>tw_StartHour = 2, tw_EndHour = 6, tw_Timezone = ''UTC''\<rparr>, au_Channel = ''stable''\<rparr>,
      cf_TestMode = \<lparr>tm_Enabled = False, tm_Channel = ''stable'', tm_UserID = [], tm_Groups = []\<rparr>\<rparr>"

text \<open>The zero values a document is decoded into.\<close>

definition zero_server :: server_config where "zero_server = \<lparr>sv_Host = [], sv_Port = 0\<rparr>"
definition zero_window :: time_window where "zero_window = \<lparr>tw_StartHour = 0, tw_EndHour = 0, tw_Timezone = []\<rparr>"

definition zero_config :: config where
  "zero_config =
     \<lparr>cf_Token = [], cf_Domain = [], cf_LocalPort = 0, cf_Server = zero_server, cf_API = zero_server,
      cf_Security = \<lparr>sc_InsecureSkipVerify = False, sc_CACert = [], sc_ClientCert = [], sc_ClientKey = []\<rparr>,
      cf_AutoUpdate =
        \<lparr>au_Enabled = False, au_CheckInterval = 0, au_RequiredOnly = False, au_DownloadURL = [], au_PreserveConnection = False,
         au_RestartService = False, au_BackupCount = 0, au_UpdateWindow = None, au_Channel = []\<rparr>,
      cf_TestMode = \<lparr>tm_Enabled = False, tm_Channel = [], tm_UserID = [], tm_Groups = []\<rparr>\<rparr>"

section \<open>The document\<close>

text \<open>
  \<open>json.Unmarshal\<close>: the members of an object are assigned in order, a key matches a field regardless of
  case, unknown keys are skipped, \<open>null\<close> leaves a field alone (and clears a pointer or slice), and a value of
  the wrong type makes the whole call fail.
\<close>

fun dec_str :: "json \<Rightarrow> string \<Rightarrow> string option" where
  "dec_str JNull s = Some s"
| "dec_str (JStr t) s = Some t"
| "dec_str _ s = None"

fun dec_bool :: "json \<Rightarrow> bool \<Rightarrow> bool option" where
  "dec_bool JNull b = Some b"
| "dec_bool (JBool c) b = Some c"
| "dec_bool _ b = None"

definition in_int64 :: "int \<Rightarrow> bool" where
  "in_int64 n \<longleftrightarrow> - (2 ^ 63) \<le> n \<and> n < 2 ^ 63"

fun dec_int :: "json \<Rightarrow> int \<Rightarrow> int option" where
  "dec_int JNull n = Some n"
| "dec_int (JNum m) n = (if in_int64 m then Some m else None)"
| "dec_int _ n = None"

fun dec_strs :: "json list \<Rightarrow> string list option" where
  "dec_strs [] = Some []"
| "dec_strs (v # vs) = Option.bind (dec_str v []) (\<lambda>s. map_option ((#) s) (dec_strs vs))"

fun dec_slice :: "json \<Rightarrow> string list \<Rightarrow> string list option" where
  "dec_slice JNull xs = Some []"
| "dec_slice (JArr vs) xs = dec_strs vs"
| "dec_slice _ xs = None"

fun dec_fields :: "(string \<Rightarrow> json \<Rightarrow> 'a \<Rightarrow> 'a option) \<Rightarrow> jmap \<Rightarrow> 'a \<Rightarrow> 'a option" where
  "dec_fields f [] c = Some c"
| "dec_fields f ((k, v) # kvs) c = Option.bind (f (ToLower k) v c) (dec_fields f kvs)"

fun dec_struct :: "(string \<Rightarrow> json \<Rightarrow> 'a \<Rightarrow> 'a option) \<Rightarrow> json \<Rightarrow> 'a \<Rightarrow> 'a option" where
  "dec_struct f JNull c = Some c"
| "dec_struct f (JObj kvs) c = dec_fields f kvs c"
| "dec_struct f _ c = None"

fun dec_pointer :: "(string \<Rightarrow> json \<Rightarrow> 'a \<Rightarrow> 'a option) \<Rightarrow> 'a \<Rightarrow> json \<Rightarrow> 'a option \<Rightarrow> 'a option option" where
  "dec_pointer f z JNull c = Some None"
| "dec_pointer f z v c = map_option Some (dec_struct f v (case c of None \<Rightarrow> z | Some x \<Rightarrow> x))"

definition server_field :: "string \<Rightarrow> json \<Rightarrow> server_config \<Rightarrow> server_config option" where
  "server_field k v c =
     (if k = ''host'' then map_option (\<lambda>x. c\<lparr>sv_Host := x\<rparr>) (dec_str v (sv_Host c))
      else if k = ''port'' then map_option (\<lambda>x. c\<lparr>sv_Port := x\<rparr>) (dec_int v (sv_Port c))
      else Some c)"

definition security_field :: "string \<Rightarrow> json \<Rightarrow> security_config \<Rightarrow> security_config option" where
  "security_field k v c =
     (if k = ''insecure_skip_verify'' then map_option (\<lambda>x. c\<lparr>sc_InsecureSkipVerify := x\<rparr>) (dec_bool v (sc_InsecureSkipVerify c))
      else if k = ''ca_cert'' then map_option (\<lambda>x. c\<lparr>sc_CACert := x\<rparr>) (dec_str v (sc_CACert c))
      else if k = ''client_cert'' then map_option (\<lambda>x. c\<lparr>sc_ClientCert := x\<rparr>) (dec_str v (sc_ClientCert c))
      else if k = ''client_key'' then map_option (\<lambda>x. c\<lparr>sc_ClientKey := x\<rparr>) (dec_str v (sc_ClientKey c))
      else Some c)"

definition window_field :: "string \<Rightarrow> json \<Rightarrow> time_window \<Rightarrow> time_window option" where
  "window_field k v c =
     (if k = ''start_hour'' then map_option (\<lambda>x. c\<lparr>tw_StartHour := x\<rparr>) (dec_int v (tw_StartHour c))
      else if k = ''end_hour'' then map_option (\<lambda>x. c\<lparr>tw_EndHour := x\<rparr>) (dec_int v (tw_EndHour c))
      else if k = ''timezone'' then map_option (\<lambda>x. c\<lparr>tw_Timezone := x\<rparr>) (dec_str v (tw_Timezone c))
      else Some c)"

definition update_field :: "string \<Rightarrow> json \<Rightarrow> auto_update_config \<Rightarrow> auto_update_config option" where
  "update_field k v c =
     (if k = ''enabled'' then map_option (\<lambda>x. c\<lparr>au_Enabled := x\<rparr>) (dec_bool v (au_Enabled c))
      else if k = ''check_interval'' then map_option (\<lambda>x. c\<lparr>au_CheckInterval := x\<rparr>) (dec_int v (au_CheckInterval c))
      else if k = ''required_only'' then map_option (\<lambda>x. c\<lparr>au_RequiredOnly := x\<rparr>) (dec_bool v (au_RequiredOnly c))
      else if k = ''download_url'' then map_option (\<lambda>x. c\<lparr>au_DownloadURL := x\<rparr>) (dec_str v (au_DownloadURL c))
      else if k = ''preserve_connection'' then map_option (\<lambda>x. c\<lparr>au_PreserveConnection := x\<rparr>) (dec_bool v (au_PreserveConnection c))
      else if k = ''restart_service'' then map_option (\<lambda>x. c\<lparr>au_RestartService := x\<rparr>) (dec_bool v (au_RestartService c))
      else if k = ''backup_count'' then map_option (\<lambda>x. c\<lparr>au_BackupCount := x\<rparr>) (dec_int v (au_BackupCount c))
      else if k = ''update_window'' then map_option (\<lambda>x. c\<lparr>au_UpdateWindow := x\<rparr>) (dec_pointer window_field zero_window v (au_UpdateWindow c))
      else if k = ''channel'' then map_option (\<lambda>x. c\<lparr>au_Channel := x\<rparr>) (dec_str v (au_Channel c))
      else Some c)"

definition test_field :: "string \<Rightarrow> json \<Rightarrow> test_mode_config \<Rightarrow> test_mode_config option" where
  "test_field k v c =
     (if k = ''enabled'' then map_option (\<lambda>x. c\<lparr>tm_Enabled := x\<rparr>) (dec_bool v (tm_Enabled c))
      else if k = ''channel'' then map_option (\<lambda>x. c\<lparr>tm_Channel := x\<rparr>) (dec_str v (tm_Channel c))
      else if k = ''user_id'' then map_option (\<lambda>x. c\<lparr>tm_UserID := x\<rparr>) (dec_str v (tm_UserID c))
      else if k = ''groups'' then map_option (\<lambda>x. c\<lparr>tm_Groups := x\<rparr>) (dec_slice v (tm_Groups c))
      else Some c)"

definition config_field :: "string \<Rightarrow> json \<Rightarrow> config \<Rightarrow> config option" where
  "config_field k v c =
     (if k = ''token'' then map_option (\<lambda>x. c\<lparr>cf_Token := x\<rparr>) (dec_str v (cf_Token c))
      else if k = ''domain'' then map_option (\<lambda>x. c\<lparr>cf_Domain := x\<rparr>) (dec_str v (cf_Domain c))
      else if k = ''local_port'' then map_option (\<lambda>x. c\<lparr>cf_LocalPort := x\<rparr>) (dec_int v (cf_LocalPort c))
      else if k = ''server'' then map_option (\<lambda>x. c\<lparr>cf_Server := x\<rparr>) (dec_struct server_field v (cf_Server c))
      else if k = ''api'' then map_option (\<lambda>x. c\<lparr>cf_API := x\<rparr>) (dec_struct server_field v (cf_API c))
      else if k = ''security'' then map_option (\<lambda>x. c\<lparr>cf_Security := x\<rparr>) (dec_struct security_field v (cf_Security c))
      else if k = ''auto_update'' then map_option (\<lambda>x. c\<lparr>cf_AutoUpdate := x\<rparr>) (dec_struct update_field v (cf_AutoUpdate c))
      else if k = ''test_mode'' then map_option (\<lambda>x. c\<lparr>cf_TestMode := x\<rparr>) (dec_struct test_field v (cf_TestMode c))
      else Some c)"

definition unmarshal_config :: "json \<Rightarrow> config option" where
  "unmarshal_config d = dec_struct config_field d zero_config"

text \<open>\<open>json.MarshalIndent\<close>: every field in the order of the declaration, except empty ones tagged \<open>omitempty\<close>.\<close>

definition server_json :: "server_config \<Rightarrow> json" where
  "server_json c = JObj [(''host'', JStr (sv_Host c)), (''port'', JNum (sv_Port c))]"

definition security_json :: "security_config \<Rightarrow> json" where
  "security_json c =
     JObj [(''insecure_skip_verify'', JBool (sc_InsecureSkipVerify c)), (''ca_cert'', JStr (sc_CACert c)),
           (''client_cert'', JStr (sc_ClientCert c)), (''client_key'', JStr (sc_ClientKey c))]"

definition window_json :: "time_window \<Rightarrow> json" where
  "window_json c = JObj [(''start_hour'', JNum (tw_StartHour c)), (''end_hour'', JNum (tw_EndHour c)), (''timezone'', JStr (tw_Timezone c))]"

definition update_json :: "auto_update_config \<Rightarrow> json" where
  "update_json c =
     JObj ([(''enabled'', JBool (au_Enabled c)), (''check_interval'', JNum (au_CheckInterval c)), (''required_only'', JBool (au_RequiredOnly c)),
            (''download_url'', JStr (au_DownloadURL c)), (''preserve_connection'', JBool (au_PreserveConnection c)),
            (''restart_service'', JBool (au_RestartService c)), (''backup_count'', JNum (au_BackupCount c))] @
           (case au_UpdateWindow c of None \<Rightarrow> [] | Some w \<Rightarrow> [(''update_window'', window_json w)]) @
           [(''channel'', JStr (au_Channel c))])"

definition test_json :: "test_mode_config \<Rightarrow> json" where
  "test_json c =
     JObj ([(''enabled'', JBool (tm_Enabled c)), (''channel'', JStr (tm_Channel c))] @
           (if tm_UserID c = [] then [] else [(''user_id'', JStr (tm_UserID c))]) @
           (if tm_Groups c = [] then [] else [(''groups'', JArr (map JStr (tm_Groups c)))]))"

definition marshal_config :: "config \<Rightarrow> json" where
  "marshal_config c =
     JObj [(''token'', JStr (cf_Token c)), (''domain'', JStr (cf_Domain c)), (''local_port'', JNum (cf_LocalPort c)),
           (''server'', server_json (cf_Server c)), (''api'', server_json (cf_API c)), (''security'', security_json (cf_Security c)),
           (''auto_update'', update_json (cf_AutoUpdate c)), (''test_mode'', test_json (cf_TestMode c))]"

section \<open>The machine\<close>

datatype file_state = Absent | Unreadable | Malformed | Doc json

datatype write_result = Written | NotOpened | Interrupted

record client_host =
  ch_env :: "string \<Rightarrow> string"
  ch_windows :: bool
  ch_euid :: int
  ch_lookup :: "string \<Rightarrow> string option"
  ch_files :: "string \<Rightarrow> file_state"
  ch_mkdir :: "string \<Rightarrow> bool"
  ch_write :: "string \<Rightarrow> write_result"
  ch_default :: config

definition UserHomeDir :: "client_host \<Rightarrow> string option" where
  "UserHomeDir h = (if ch_env h ''HOME'' = [] then None else Some (ch_env h ''HOME''))"

definition GetConfigDir :: "client_host \<Rightarrow> string" where
  "GetConfigDir h =
     (if ch_env h ''GIRAFFECLOUD_HOME'' \<noteq> [] then ch_env h ''GIRAFFECLOUD_HOME''
      else case UserHomeDir h of
             Some home \<Rightarrow> filepath_Join home ''.giraffecloud''
           | None \<Rightarrow>
               if ch_env h ''HOME'' \<noteq> [] then filepath_Join (ch_env h ''HOME'') ''.giraffecloud''
               else filepath_Join ''/tmp'' ''giraffecloud'')"

definition GetConfigPath :: "client_host \<Rightarrow> string" where
  "GetConfigPath h = filepath_Join (GetConfigDir h) ''config.json''"

definition EnsureConsistentConfigHome :: "client_host \<Rightarrow> client_host" where
  "EnsureConsistentConfigHome h =
     (if ch_env h ''GIRAFFECLOUD_HOME'' \<noteq> [] \<or> ch_windows h \<or> ch_euid h \<noteq> 0 \<or> ch_env h ''SUDO_USER'' = [] then h
      else case ch_lookup h (ch_env h ''SUDO_USER'') of
             None \<Rightarrow> h
           | Some home \<Rightarrow>
               if home = [] then h
               else h\<lparr>ch_env := (ch_env h)(''GIRAFFECLOUD_HOME'' := filepath_Join home ''.giraffecloud'', ''HOME'' := home)\<rparr>)"

section \<open>Operations\<close>

definition backfill :: "config \<Rightarrow> auto_update_config \<Rightarrow> auto_update_config" where
  "backfill dflt a =
     (let d = cf_AutoUpdate dflt;
          a1 = (if au_DownloadURL a = [] then a\<lparr>au_DownloadURL := au_DownloadURL d\<rparr> else a);
          a2 = (if au_CheckInterval a1 = 0 then a1\<lparr>au_CheckInterval := au_CheckInterval d\<rparr> else a1);
          a3 = (if \<not> au_RestartService a2 \<and> au_BackupCount a2 = 0 \<and> \<not> au_PreserveConnection a2 \<and> au_DownloadURL a2 = au_DownloadURL d
                then a2\<lparr>au_RestartService := True\<rparr> else a2);
          a4 = (if au_BackupCount a3 = 0 then a3\<lparr>au_BackupCount := au_BackupCount d\<rparr> else a3)
      in if au_Channel a4 = [] then a4\<lparr>au_Channel := au_Channel d\<rparr> else a4)"

definition applyAutoUpdateDefaults :: "config \<Rightarrow> config \<Rightarrow> config" where
  "applyAutoUpdateDefaults dflt cfg = cfg\<lparr>cf_AutoUpdate := backfill dflt (cf_AutoUpdate cfg)\<rparr>"

text \<open>What \<open>LoadConfig\<close> returns: a pointer to the global variable, or to a configuration of its own.\<close>

datatype load_error = ReadFailed | ParseFailed
datatype config_ref = SharedDefault | Own config

fun deref :: "client_host \<Rightarrow> config_ref \<Rightarrow> config" where
  "deref h SharedDefault = ch_default h"
| "deref h (Own c) = c"

definition cfg_LoadConfig :: "client_host \<Rightarrow> load_error + config_ref" where
  "cfg_LoadConfig h =
     (case ch_files h (GetConfigPath h) of
        Absent \<Rightarrow> Inr SharedDefault
      | Unreadable \<Rightarrow> Inl ReadFailed
      | Malformed \<Rightarrow> Inl ParseFailed
      | Doc d \<Rightarrow>
          (case unmarshal_config d of
             None \<Rightarrow> Inl ParseFailed
           | Some c \<Rightarrow> Inr (Own (applyAutoUpdateDefaults (ch_default h) c))))"

definition config_Validate :: "config \<Rightarrow> string option" where
  "config_Validate c =
     (if cf_Token c = [] then Some ''token is required''
      else if sv_Host (cf_Server c) = [] then Some ''server host is required''
      else if sv_Port (cf_Server c) \<le> 0 \<or> sv_Port (cf_Server c) > 65535 then Some ''invalid server port''
      else if sv_Host (cf_API c) = [] then Some ''api host is required''
      else if sv_Port (cf_API c) \<le> 0 \<or> sv_Port (cf_API c) > 65535 then Some ''invalid api port''
      else None)"

datatype save_error = InvalidConfig string | MkdirFailed | WriteFailed

definition SaveConfig :: "config \<Rightarrow> client_host \<Rightarrow> save_error option \<times> client_host" where
  "SaveConfig cfg h =
     (case config_Validate cfg of
        Some e \<Rightarrow> (Some (InvalidConfig e), h)
      | None \<Rightarrow>
          if \<not> ch_mkdir h (GetConfigDir h) then (Some MkdirFailed, h)
          else
            (let p = filepath_Join (GetConfigDir h) ''config.json''
             in case ch_write h p of
                  NotOpened \<Rightarrow> (Some WriteFailed, h)
                | Interrupted \<Rightarrow> (Some WriteFailed, h\<lparr>ch_files := (ch_files h)(p := Malformed)\<rparr>)
                | Written \<Rightarrow> (None, h\<lparr>ch_files := (ch_files h)(p := Doc (marshal_config cfg))\<rparr>)))"

definition merge_str :: "string \<Rightarrow> string \<Rightarrow> string" where
  "merge_str new old = (if new \<noteq> [] then new else old)"

definition merge_int :: "int \<Rightarrow> int \<Rightarrow> int" where
  "merge_int new old = (if new \<noteq> 0 then new else old)"

definition merge_server :: "server_config \<Rightarrow> server_config \<Rightarrow> server_config" where
  "merge_server new old = \<lparr>sv_Host = merge_str (sv_Host new) (sv_Host old), sv_Port = merge_int (sv_Port new) (sv_Port old)\<rparr>"

definition MergeConfig :: "client_host \<Rightarrow> config option \<Rightarrow> config \<Rightarrow> config" where
  "MergeConfig h existing new =
     (let old = (case existing of None \<Rightarrow> ch_default h | Some c \<Rightarrow> c)
      in \<lparr>cf_Token = merge_str (cf_Token new) (cf_Token old), cf_Domain = merge_str (cf_Domain new) (cf_Domain old),
          cf_LocalPort = merge_int (cf_LocalPort new) (cf_LocalPort old),
          cf_Server = merge_server (cf_Server new) (cf_Server old), cf_API = merge_server (cf_API new) (cf_API old),
          cf_Security =
            \<lparr>sc_InsecureSkipVerify = sc_InsecureSkipVerify (cf_Security old),
             sc_CACert = merge_str (sc_CACert (cf_Security new)) (sc_CACert (cf_Security old)),
             sc_ClientCert = merge_str (sc_ClientCert (cf_Security new)) (sc_ClientCert (cf_Security old)),
             sc_ClientKey = merge_str (sc_ClientKey (cf_Security new)) (sc_ClientKey (cf_Security old))\<rparr>,
          cf_AutoUpdate = cf_AutoUpdate new, cf_TestMode = cf_TestMode new\<rparr>)"

definition ResolveReleaseChannel :: "client_host \<Rightarrow> string" where
  "ResolveReleaseChannel h =
     (case cfg_LoadConfig h of
        Inl _ \<Rightarrow> []
      | Inr r \<Rightarrow>
          (let c = deref h r
           in if tm_Enabled (cf_TestMode c) \<and> tm_Channel (cf_TestMode c) \<noteq> [] then tm_Channel (cf_TestMode c)
              else au_Channel (cf_AutoUpdate c)))"

section \<open>Certificate files\<close>

definition expandTildePath :: "client_host \<Rightarrow> string \<Rightarrow> string" where
  "expandTildePath h p =
     (if p = [] then []
      else if \<not> HasPrefix p ''~'' then p
      else case UserHomeDir h of
             None \<Rightarrow> p
           | Some home \<Rightarrow> if p = ''~'' then home else filepath_Join home (drop 2 p))"

text \<open>What \<open>os.Stat\<close> says of a path: the file is there, it is not, or the call fails with another error.\<close>

datatype stat_result = StatOK | StatNotExist | StatError string

record cert_validation =
  cv_Valid :: bool
  cv_MissingFiles :: "string list"
  cv_InvalidFiles :: "string list"
  cv_ErrorMessage :: string

definition missing_paths :: "(string \<times> string) list \<Rightarrow> string list" where
  "missing_paths fs = map fst (filter (\<lambda>(n, p). p = []) fs)"

definition cert_label :: "string \<Rightarrow> string \<Rightarrow> string" where
  "cert_label name p = name @ '' ('' @ p @ '')''"

fun check_certs :: "(string \<Rightarrow> stat_result) \<Rightarrow> (string \<times> string) list \<Rightarrow> string list \<times> string list" where
  "check_certs stat [] = ([], [])"
| "check_certs stat ((n, p) # fs) =
     (let (ms, is) = check_certs stat fs
      in case stat p of
           StatOK \<Rightarrow> (ms, is)
         | StatNotExist \<Rightarrow> (cert_label n p # ms, is)
         | StatError e \<Rightarrow> (ms, (cert_label n p @ '': '' @ e) # is))"

text \<open>The three files are visited in the order of an iteration over a map, which Go leaves open.\<close>

definition ValidateCertificateFiles ::
    "client_host \<Rightarrow> (string \<Rightarrow> stat_result) \<Rightarrow> ((string \<times> string) list \<Rightarrow> (string \<times> string) list) \<Rightarrow> string \<Rightarrow> string \<Rightarrow> string \<Rightarrow> cert_validation" where
  "ValidateCertificateFiles h stat ord ca cert key =
     (let missing = missing_paths [(''CA certificate path'', ca), (''client certificate path'', cert), (''client key path'', key)]
      in if missing \<noteq> []
         then \<lparr>cv_Valid = False, cv_MissingFiles = missing, cv_InvalidFiles = [],
               cv_ErrorMessage = ''Missing certificate configuration: '' @ Join missing '', ''\<rparr>
         else
           (let (ms, is) = check_certs stat (ord [(''CA certificate'', expandTildePath h ca), (''client certificate'', expandTildePath h cert),
                                                 (''client key'', expandTildePath h key)]);
                issues = (if ms = [] then [] else [''Missing files: '' @ Join ms '', '']) @
                         (if is = [] then [] else [''Invalid files: '' @ Join is '', ''])
            in \<lparr>cv_Valid = (ms = [] \<and> is = []), cv_MissingFiles = ms, cv_InvalidFiles = is, cv_ErrorMessage = Join issues ''; ''\<rparr>))"

section \<open>Facts\<close>

definition ints_ok :: "config \<Rightarrow> bool" where
  "ints_ok c \<longleftrightarrow> in_int64 (cf_LocalPort c) \<and> in_int64 (sv_Port (cf_Server c)) \<and> in_int64 (sv_Port (cf_API c)) \<and>
     in_int64 (au_CheckInterval (cf_AutoUpdate c)) \<and> in_int64 (au_BackupCount (cf_AutoUpdate c)) \<and>
     (\<forall>w \<in> set_option (au_UpdateWindow (cf_AutoUpdate c)). in_int64 (tw_StartHour w) \<and> in_int64 (tw_EndHour w))"

lemma ToLower_keys [simp]:
  "ToLower ''token'' = ''token''" "ToLower ''domain'' = ''domain''" "ToLower ''local_port'' = ''local_port''"
  "ToLower ''server'' = ''server''" "ToLower ''api'' = ''api''" "ToLower ''security'' = ''security''"
  "ToLower ''auto_update'' = ''auto_update''" "ToLower ''test_mode'' = ''test_mode''" "ToLower ''host'' = ''host''"
  "ToLower ''port'' = ''port''" "ToLower ''insecure_skip_verify'' = ''insecure_skip_verify''" "ToLower ''ca_cert'' = ''ca_cert''"
  "ToLower ''client_cert'' = ''client_cert''" "ToLower ''client_key'' = ''client_key''" "ToLower ''start_hour'' = ''start_hour''"
  "ToLower ''end_hour'' = ''end_hour''" "ToLower ''timezone'' = ''timezone''" "ToLower ''enabled'' = ''enabled''"
  "ToLower ''check_interval'' = ''check_interval''" "ToLower ''required_only'' = ''required_only''" "ToLower ''download_url'' = ''download_url''"
  "ToLower ''preserve_connection'' = ''preserve_connection''" "ToLower ''restart_service'' = ''restart_service''"
  "ToLower ''backup_count'' = ''backup_count''" "ToLower ''update_window'' = ''update_window''" "ToLower ''channel'' = ''channel''"
  "ToLower ''user_id'' = ''user_id''" "ToLower ''groups'' = ''groups''"
  by code_simp+

lemma server_roundtrip: "in_int64 (sv_Port c) \<Longrightarrow> dec_struct server_field (server_json c) d = Some c"
  by (cases c) (simp add: server_json_def server_field_def)

lemma security_roundtrip: "dec_struct security_field (security_json c) d = Some c"
  by (cases c) (simp add: security_json_def security_field_def)

lemma window_roundtrip: "in_int64 (tw_StartHour c) \<Longrightarrow> in_int64 (tw_EndHour c) \<Longrightarrow> dec_struct window_field (window_json c) d = Some c"
  by (cases c) (simp add: window_json_def window_field_def)

lemma dec_strs_map [simp]: "dec_strs (map JStr xs) = Some xs"
  by (induction xs) simp_all

lemma test_roundtrip: "tm_UserID d = [] \<Longrightarrow> tm_Groups d = [] \<Longrightarrow> dec_struct test_field (test_json c) d = Some c"
  by (cases c) (simp add: test_json_def test_field_def)

lemma dec_pointer_struct: "dec_pointer f z (window_json w) p = map_option Some (dec_struct f (window_json w) (case p of None \<Rightarrow> z | Some x \<Rightarrow> x))"
  by (simp add: window_json_def)

lemma update_roundtrip:
  assumes "in_int64 (au_CheckInterval c)" "in_int64 (au_BackupCount c)" "au_UpdateWindow d = None"
    "\<forall>w \<in> set_option (au_UpdateWindow c). in_int64 (tw_StartHour w) \<and> in_int64 (tw_EndHour w)"
  shows "dec_struct update_field (update_json c) d = Some c"
proof (cases "au_UpdateWindow c")
  case None
  with assms show ?thesis by (cases c) (simp add: update_json_def update_field_def)
next
  case (Some w)
  with assms show ?thesis
    by (cases c) (simp add: update_json_def update_field_def dec_pointer_struct window_roundtrip del: dec_pointer.simps)
qed

lemma marshal_roundtrip: "ints_ok c \<Longrightarrow> unmarshal_config (marshal_config c) = Some c"
  by (cases c) (simp add: ints_ok_def unmarshal_config_def marshal_config_def config_field_def zero_config_def
      server_roundtrip security_roundtrip update_roundtrip test_roundtrip)

lemma backfill_fields:
  "au_DownloadURL (backfill d a) = merge_str (au_DownloadURL a) (au_DownloadURL (cf_AutoUpdate d))"
  "au_CheckInterval (backfill d a) = merge_int (au_CheckInterval a) (au_CheckInterval (cf_AutoUpdate d))"
  "au_BackupCount (backfill d a) = merge_int (au_BackupCount a) (au_BackupCount (cf_AutoUpdate d))"
  "au_Channel (backfill d a) = merge_str (au_Channel a) (au_Channel (cf_AutoUpdate d))"
  "au_RestartService (backfill d a) \<longleftrightarrow> au_RestartService a \<or> au_BackupCount a = 0 \<and> \<not> au_PreserveConnection a \<and>
     au_DownloadURL (backfill d a) = au_DownloadURL (cf_AutoUpdate d)"
  "au_Enabled (backfill d a) = au_Enabled a" "au_RequiredOnly (backfill d a) = au_RequiredOnly a"
  "au_PreserveConnection (backfill d a) = au_PreserveConnection a" "au_UpdateWindow (backfill d a) = au_UpdateWindow a"
  "auto_update_config.more (backfill d a) = auto_update_config.more a"
  by (simp_all add: backfill_def Let_def merge_str_def merge_int_def) blast

lemma backfill_idem: "backfill d (backfill d a) = backfill d a"
  by (rule auto_update_config.equality) (auto simp: backfill_fields merge_str_def merge_int_def)

lemma defaults_idem: "applyAutoUpdateDefaults d (applyAutoUpdateDefaults d c) = applyAutoUpdateDefaults d c"
  by (simp add: applyAutoUpdateDefaults_def backfill_idem)

lemma LoadConfig_Own: "cfg_LoadConfig h = Inr (Own c) \<Longrightarrow> backfill (ch_default h) (cf_AutoUpdate c) = cf_AutoUpdate c"
  by (auto simp: cfg_LoadConfig_def applyAutoUpdateDefaults_def backfill_idem split: file_state.splits option.splits)

lemma SaveConfig_ok:
  assumes "SaveConfig cfg h = (None, h')"
  shows "h' = h\<lparr>ch_files := (ch_files h)(GetConfigPath h := Doc (marshal_config cfg))\<rparr>" "config_Validate cfg = None"
  using assms by (auto simp: SaveConfig_def GetConfigPath_def Let_def split: option.splits if_splits write_result.splits)

lemma config_place: "GetConfigPath (h\<lparr>ch_files := fs\<rparr>) = GetConfigPath h"
  by (simp add: GetConfigPath_def GetConfigDir_def UserHomeDir_def)

lemma save_load:
  assumes "ints_ok cfg" "SaveConfig cfg h = (None, h')"
  shows "cfg_LoadConfig h' = Inr (Own (applyAutoUpdateDefaults (ch_default h) cfg))"
  unfolding SaveConfig_ok(1) [OF assms(2)] using marshal_roundtrip [OF assms(1)] by (simp add: cfg_LoadConfig_def config_place)

text \<open>
  C28. A configuration that was saved is the one that is loaded: \<open>LoadConfig\<close> after a successful \<open>SaveConfig\<close> returns the
  saved settings with the defaults for empty update settings filled in; it returns them unchanged when the update
  settings come from an earlier load; and no other file has changed.
\<close>

theorem config_roundtrip:
  assumes "ints_ok cfg" "SaveConfig cfg h = (None, h')"
  shows "cfg_LoadConfig h' = Inr (Own (applyAutoUpdateDefaults (ch_default h) cfg)) \<and>
    (\<forall>c. cfg_LoadConfig h = Inr (Own c) \<longrightarrow> cf_AutoUpdate cfg = cf_AutoUpdate c \<longrightarrow> cfg_LoadConfig h' = Inr (Own cfg)) \<and>
    (\<forall>p. p \<noteq> GetConfigPath h \<longrightarrow> ch_files h' p = ch_files h p)"
  using save_load [OF assms] SaveConfig_ok(1) [OF assms(2)] LoadConfig_Own [of h] by (simp add: applyAutoUpdateDefaults_def)

theorem config_roundtrip_witness:
  "cfg_LoadConfig (snd (SaveConfig (DefaultConfig\<lparr>cf_Token := ''t''\<rparr>)
     \<lparr>ch_env = (\<lambda>v. if v = ''HOME'' then ''/home/u'' else []), ch_windows = False, ch_euid = 1000, ch_lookup = (\<lambda>u. None),
      ch_files = (\<lambda>p. Absent), ch_mkdir = (\<lambda>p. True), ch_write = (\<lambda>p. Written), ch_default = DefaultConfig\<rparr>)) =
   Inr (Own (applyAutoUpdateDefaults DefaultConfig (DefaultConfig\<lparr>cf_Token := ''t''\<rparr>)))"
proof -
  let ?h = "\<lparr>ch_env = (\<lambda>v. if v = ''HOME'' then ''/home/u'' else []), ch_windows = False, ch_euid = 1000, ch_lookup = (\<lambda>u. None),
    ch_files = (\<lambda>p. Absent), ch_mkdir = (\<lambda>p. True), ch_write = (\<lambda>p. Written), ch_default = DefaultConfig\<rparr>"
  have "SaveConfig (DefaultConfig\<lparr>cf_Token := ''t''\<rparr>) ?h = (None, snd (SaveConfig (DefaultConfig\<lparr>cf_Token := ''t''\<rparr>) ?h))"
    by (simp add: SaveConfig_def config_Validate_def DefaultConfig_def Let_def)
  moreover have "ints_ok (DefaultConfig\<lparr>cf_Token := ''t''\<rparr>)" by (simp add: ints_ok_def DefaultConfig_def in_int64_def second_def)
  ultimately show ?thesis using config_roundtrip by fastforce
qed

text \<open>Merging keeps a configuration valid and is idempotent.\<close>

lemma merge_valid:
  assumes "config_Validate old = None" "0 \<le> sv_Port (cf_Server new)" "sv_Port (cf_Server new) \<le> 65535"
    "0 \<le> sv_Port (cf_API new)" "sv_Port (cf_API new) \<le> 65535"
  shows "config_Validate (MergeConfig h (Some old) new) = None"
  using assms by (auto simp: config_Validate_def MergeConfig_def merge_server_def merge_str_def merge_int_def split: if_splits)

lemma merge_idem: "MergeConfig h (Some (MergeConfig h e new)) new = MergeConfig h e new"
  by (simp add: MergeConfig_def Let_def merge_server_def merge_str_def merge_int_def)

lemma ensure_home_idem: "EnsureConsistentConfigHome (EnsureConsistentConfigHome h) = EnsureConsistentConfigHome h"
proof -
  have "f(''GIRAFFECLOUD_HOME'' := a, ''HOME'' := b, ''GIRAFFECLOUD_HOME'' := a, ''HOME'' := b) = f(''GIRAFFECLOUD_HOME'' := a, ''HOME'' := b)"
    for f :: "string \<Rightarrow> string" and a b by (rule ext) simp
  then show ?thesis by (simp add: EnsureConsistentConfigHome_def split: option.split)
qed

text \<open>The validation of the certificates does not depend on the order in which the files are visited.\<close>

lemma check_certs_ok: "check_certs stat fs = ([], []) \<longleftrightarrow> (\<forall>(n, p) \<in> set fs. stat p = StatOK)"
  by (induction fs) (auto split: prod.splits stat_result.splits)

lemma certificates_valid_iff:
  assumes "\<And>xs. set (ord xs) = set xs"
  shows "cv_Valid (ValidateCertificateFiles h stat ord ca cert key) \<longleftrightarrow>
    ca \<noteq> [] \<and> cert \<noteq> [] \<and> key \<noteq> [] \<and> (\<forall>p \<in> {ca, cert, key}. stat (expandTildePath h p) = StatOK)"
proof -
  let ?fs = "[(''CA certificate'', expandTildePath h ca), (''client certificate'', expandTildePath h cert), (''client key'', expandTildePath h key)]"
  have "check_certs stat (ord ?fs) = ([], []) \<longleftrightarrow> (\<forall>p \<in> {ca, cert, key}. stat (expandTildePath h p) = StatOK)"
    unfolding check_certs_ok assms by auto
  then show ?thesis by (auto simp: ValidateCertificateFiles_def missing_paths_def Let_def split: prod.splits)
qed

end
