(* ===== verification/Singleton.thy ===== *)
theory Singleton
  imports Client_Config
begin

text \<open>
  The lock that keeps two clients from running at the same time (\<open>internal/tunnel/singleton.go\<close> and
  \<open>singleton_unix.go\<close>): an advisory lock (\<open>flock\<close>) on a PID file. A lock belongs to an inode, while the name of the file
  can be removed and created again, so the model has both: the inode the name refers to, and per inode the
  open file that holds its lock. First the operations, each run from its first to its last system call; then the single system
  calls, which the operations of several processes interleave.
\<close>

section \<open>The file system\<close>

datatype open_file = Main nat | Temp nat

record lock_fs =
  lk_path :: "nat option"
  lk_next :: nat
  lk_holder :: "nat \<Rightarrow> open_file option"
  lk_text :: "nat \<Rightarrow> string"
  lk_file :: "nat \<Rightarrow> nat option"

text \<open>\<open>lk_file p\<close> is the field \<open>lockFile\<close> of the manager of process \<open>p\<close>.\<close>

record lock_faults =
  lf_mkdir :: bool
  lf_open :: bool
  lf_flock :: bool
  lf_write :: bool
  lf_remove :: bool

datatype lock_error = LkMkdir | LkOpen | AlreadyRunning int | LkFlock

definition empty_fs :: lock_fs where
  "empty_fs = \<lparr>lk_path = None, lk_next = 0, lk_holder = (\<lambda>i. None), lk_text = (\<lambda>i. []), lk_file = (\<lambda>p. None)\<rparr>"

definition open_create :: "lock_fs \<Rightarrow> nat \<times> lock_fs" where
  "open_create s =
     (case lk_path s of
        Some i \<Rightarrow> (i, s)
      | None \<Rightarrow> (lk_next s, s\<lparr>lk_path := Some (lk_next s), lk_next := Suc (lk_next s), lk_text := (lk_text s)(lk_next s := [])\<rparr>))"

definition pid_text :: "nat \<Rightarrow> string" where
  "pid_text pid = dec pid @ [CHR 0x0A]"

section \<open>Operations\<close>

definition getPIDFromFile :: "lock_fs \<Rightarrow> int" where
  "getPIDFromFile s =
     (case lk_path s of
        None \<Rightarrow> 0
      | Some i \<Rightarrow> (case ParseInt64 (TrimSpace (lk_text s i)) of None \<Rightarrow> 0 | Some n \<Rightarrow> n))"

definition AcquireLock :: "lock_faults \<Rightarrow> (nat \<Rightarrow> nat) \<Rightarrow> nat \<Rightarrow> lock_fs \<Rightarrow> lock_error option \<times> lock_fs" where
  "AcquireLock f pid p s =
     (if lf_mkdir f then (Some LkMkdir, s)
      else if lf_open f then (Some LkOpen, s)
      else
        (let (i, s1) = open_create s
         in if lf_flock f then (Some LkFlock, s1)
            else if lk_holder s1 i \<noteq> None then (Some (AlreadyRunning (getPIDFromFile s1)), s1)
            else (None, s1\<lparr>lk_holder := (lk_holder s1)(i := Some (Main p)), lk_file := (lk_file s1)(p := Some i),
                           lk_text := (lk_text s1)(i := if lf_write f then [] else pid_text (pid p))\<rparr>)))"

definition remove_path :: "lock_faults \<Rightarrow> lock_fs \<Rightarrow> lock_fs" where
  "remove_path f s = (if lf_remove f then s else s\<lparr>lk_path := None\<rparr>)"

definition ReleaseLock :: "lock_faults \<Rightarrow> nat \<Rightarrow> lock_fs \<Rightarrow> lock_fs" where
  "ReleaseLock f p s =
     (case lk_file s p of
        None \<Rightarrow> s
      | Some i \<Rightarrow> remove_path f (s\<lparr>lk_holder := (lk_holder s)(i := None), lk_file := (lk_file s)(p := None)\<rparr>))"

definition CleanupStaleLock :: "lock_faults \<Rightarrow> lock_fs \<Rightarrow> lock_error option \<times> lock_fs" where
  "CleanupStaleLock f s =
     (case lk_path s of
        None \<Rightarrow> (None, s)
      | Some i \<Rightarrow>
          if lf_open f then (Some LkOpen, s)
          else if lf_flock f \<or> lk_holder s i \<noteq> None then (None, s)
          else (None, remove_path f s))"

definition IsRunning :: "lock_faults \<Rightarrow> lock_fs \<Rightarrow> bool \<times> lock_fs" where
  "IsRunning f s =
     (let s1 = snd (CleanupStaleLock f s)
      in case lk_path s1 of
           None \<Rightarrow> (False, s1)
         | Some i \<Rightarrow> (lf_open f \<or> lf_flock f \<or> lk_holder s1 i \<noteq> None, s1))"

definition GetRunningPID :: "lock_faults \<Rightarrow> lock_fs \<Rightarrow> int \<times> lock_fs" where
  "GetRunningPID f s = (let (r, s1) = IsRunning f s in (if r then getPIDFromFile s1 else 0, s1))"

text \<open>
  \<open>WaitForLock\<close> polls until the deadline; a poll comes with what other processes have done since the last one.
\<close>

fun WaitForLock :: "lock_faults \<Rightarrow> (lock_fs \<Rightarrow> lock_fs) list \<Rightarrow> lock_fs \<Rightarrow> bool \<times> lock_fs" where
  "WaitForLock f [] s = (False, s)"
| "WaitForLock f (others # polls) s =
     (let (r, s1) = IsRunning f (others s) in if \<not> r then (True, s1) else WaitForLock f polls s1)"

text \<open>
  \<open>CheckServiceConflict\<close>: the answer of the service manager is \<^const>\<open>None\<close> when it cannot be created or asked.
\<close>

definition CheckServiceConflict :: "(string \<Rightarrow> string) \<Rightarrow> bool option \<Rightarrow> bool" where
  "CheckServiceConflict env running \<longleftrightarrow> env ''GIRAFFECLOUD_IS_SERVICE'' \<noteq> ''1'' \<and> running = Some True"

section \<open>One operation at a time\<close>

datatype lock_op = OpAcquire nat | OpRelease nat | OpCleanup | OpIsRunning

fun lock_do :: "lock_faults \<Rightarrow> (nat \<Rightarrow> nat) \<Rightarrow> lock_op \<Rightarrow> lock_fs \<Rightarrow> lock_fs" where
  "lock_do f pid (OpAcquire p) s = snd (AcquireLock f pid p s)"
| "lock_do f pid (OpRelease p) s = ReleaseLock f p s"
| "lock_do f pid OpCleanup s = snd (CleanupStaleLock f s)"
| "lock_do f pid OpIsRunning s = snd (IsRunning f s)"

text \<open>The abstract lock: nobody or exactly one process has it.\<close>

definition lk_free :: "lock_fs \<Rightarrow> bool" where
  "lk_free s \<longleftrightarrow> lk_holder s = Map.empty \<and> lk_file s = Map.empty \<and> (\<forall>i. lk_path s = Some i \<longrightarrow> i < lk_next s)"

definition lk_taken :: "nat \<Rightarrow> lock_fs \<Rightarrow> bool" where
  "lk_taken p s \<longleftrightarrow> (\<exists>i. lk_path s = Some i \<and> i < lk_next s \<and> lk_holder s = [i \<mapsto> Main p] \<and> lk_file s = [p \<mapsto> i])"

definition lk_abs :: "nat option \<Rightarrow> lock_fs \<Rightarrow> bool" where
  "lk_abs owner s \<longleftrightarrow> (case owner of None \<Rightarrow> lk_free s | Some p \<Rightarrow> lk_taken p s)"

fun spec_do :: "lock_faults \<Rightarrow> lock_op \<Rightarrow> nat option \<Rightarrow> nat option" where
  "spec_do f (OpAcquire p) None = (if lf_mkdir f \<or> lf_open f \<or> lf_flock f then None else Some p)"
| "spec_do f (OpAcquire p) (Some q) = Some q"
| "spec_do f (OpRelease p) owner = (if owner = Some p then None else owner)"
| "spec_do f OpCleanup owner = owner"
| "spec_do f OpIsRunning owner = owner"

lemma open_create_free: "lk_free s \<Longrightarrow> open_create s = (i, s1) \<Longrightarrow>
    lk_free s1 \<and> lk_path s1 = Some i \<and> i < lk_next s1"
  by (auto simp: open_create_def lk_free_def split: option.splits)

lemma acquire_free:
  assumes "lk_free s" "\<not> lf_mkdir f" "\<not> lf_open f" "\<not> lf_flock f"
  shows "fst (AcquireLock f pid p s) = None \<and> lk_taken p (snd (AcquireLock f pid p s))"
proof -
  obtain i s1 where o: "open_create s = (i, s1)" by (cases "open_create s")
  with open_create_free [OF assms(1) o] assms show ?thesis by (auto simp: AcquireLock_def lk_free_def lk_taken_def)
qed

lemma acquire_fault:
  assumes "lk_free s" "lf_mkdir f \<or> lf_open f \<or> lf_flock f"
  shows "fst (AcquireLock f pid p s) \<noteq> None \<and> lk_free (snd (AcquireLock f pid p s))"
proof -
  obtain i s1 where o: "open_create s = (i, s1)" by (cases "open_create s")
  with open_create_free [OF assms(1) o] assms show ?thesis by (auto simp: AcquireLock_def)
qed

lemma acquire_taken:
  assumes "lk_taken q s"
  shows "fst (AcquireLock f pid p s) \<noteq> None \<and> snd (AcquireLock f pid p s) = s"
  using assms by (auto simp: AcquireLock_def open_create_def lk_taken_def)

lemma release_taken: "lk_taken p s \<Longrightarrow> lk_free (ReleaseLock f p s)"
  by (auto simp: lk_taken_def lk_free_def ReleaseLock_def remove_path_def split: if_splits)

lemma release_free: "lk_free s \<Longrightarrow> ReleaseLock f p s = s"
  by (simp add: lk_free_def ReleaseLock_def)

lemma release_other: "lk_taken q s \<Longrightarrow> q \<noteq> p \<Longrightarrow> ReleaseLock f p s = s"
  by (auto simp: lk_taken_def ReleaseLock_def)

lemma cleanup_free: "lk_free s \<Longrightarrow> lk_free (snd (CleanupStaleLock f s))"
  by (auto simp: lk_free_def CleanupStaleLock_def remove_path_def split: option.splits)

lemma cleanup_taken: "lk_taken p s \<Longrightarrow> snd (CleanupStaleLock f s) = s"
  by (auto simp: lk_taken_def CleanupStaleLock_def)

lemma IsRunning_snd: "snd (IsRunning f s) = snd (CleanupStaleLock f s)"
  by (simp add: IsRunning_def Let_def split: option.split)

lemma running_free: "lk_free s \<Longrightarrow> \<not> lf_open f \<Longrightarrow> \<not> lf_flock f \<Longrightarrow> \<not> fst (IsRunning f s)"
  using cleanup_free [of s f] by (auto simp: lk_free_def IsRunning_def Let_def split: option.splits)

lemma running_taken: "lk_taken p s \<Longrightarrow> fst (IsRunning f s)"
  using cleanup_taken [of p s f] by (auto simp: lk_taken_def IsRunning_def)

lemma lock_do_refines: "lk_abs owner s \<Longrightarrow> lk_abs (spec_do f a owner) (lock_do f pid a s)"
  by (cases a; cases owner)
    (auto simp: lk_abs_def acquire_free acquire_fault acquire_taken release_taken release_free release_other cleanup_free cleanup_taken IsRunning_snd)

lemma pid_parsed: "pid < 2 ^ 63 \<Longrightarrow> ParseInt64 (TrimSpace (pid_text pid)) = Some (int pid)"
proof -
  assume b: "pid < 2 ^ 63"
  obtain c t where d: "dec pid = c # t" using dec_facts(3) by (cases "dec pid") auto
  have dig: "list_all is_digit (dec pid)" using dec_facts by simp
  then have ns: "x \<in> set (dec pid) \<Longrightarrow> \<not> is_space x" for x by (auto simp: list_all_iff is_digit_def is_space_def Let_def)
  then have "dropWhile is_space (dec pid) = dec pid" "dropWhile is_space (rev (dec pid)) = rev (dec pid)"
    by (auto intro: dropWhile_eq_self_iff [THEN iffD2] simp: hd_rev dec_facts)
  then have "TrimSpace (pid_text pid) = dec pid"
    using d ns by (simp add: TrimSpace_def pid_text_def is_space_def)
  moreover have "c \<noteq> CHR ''-''" "c \<noteq> CHR ''+''" using dig d by (auto simp: is_digit_def)
  ultimately show ?thesis using b dig d dec_facts(1) [of pid] by (auto simp: ParseInt64_def)
qed

definition no_faults :: lock_faults where
  "no_faults = \<lparr>lf_mkdir = False, lf_open = False, lf_flock = False, lf_write = False, lf_remove = False\<rparr>"

definition run_lock :: "(nat \<Rightarrow> nat) \<Rightarrow> (lock_faults \<times> lock_op) list \<Rightarrow> lock_fs" where
  "run_lock pid ops = foldl (\<lambda>s (f, a). lock_do f pid a s) empty_fs ops"

definition spec_lock :: "(lock_faults \<times> lock_op) list \<Rightarrow> nat option" where
  "spec_lock ops = foldl (\<lambda>owner (f, a). spec_do f a owner) None ops"

lemma run_lock_abs: "lk_abs (spec_lock ops) (run_lock pid ops)"
proof (induction ops rule: rev_induct)
  case Nil
  then show ?case by (simp add: lk_abs_def lk_free_def spec_lock_def run_lock_def empty_fs_def)
next
  case (snoc x ops)
  then show ?case using lock_do_refines [of "spec_lock ops" "run_lock pid ops"] by (cases x) (simp add: spec_lock_def run_lock_def)
qed

text \<open>
  C26. Operation by operation the PID file is a lock: after any sequence of calls by any processes, with any failing
  system calls, a process has the lock exactly if the abstract lock says so, hence never two at once; acquiring it
  succeeds exactly if nobody has it and no system call fails; and \<open>IsRunning\<close> tells exactly whether somebody has it.
\<close>

theorem singleton_refines_lock:
  "(lk_file (run_lock pid ops) p \<noteq> None \<longleftrightarrow> spec_lock ops = Some p) \<and>
   (fst (AcquireLock f pid q (run_lock pid ops)) = None \<longleftrightarrow> spec_lock ops = None \<and> \<not> lf_mkdir f \<and> \<not> lf_open f \<and> \<not> lf_flock f) \<and>
   (fst (IsRunning no_faults (run_lock pid ops)) \<longleftrightarrow> spec_lock ops \<noteq> None)"
proof (cases "spec_lock ops")
  case None
  then have free: "lk_free (run_lock pid ops)" using run_lock_abs [of ops pid] by (simp add: lk_abs_def)
  then have "lk_file (run_lock pid ops) p = None" by (simp add: lk_free_def)
  moreover have "\<not> fst (IsRunning no_faults (run_lock pid ops))" using running_free [OF free] by (simp add: no_faults_def)
  ultimately show ?thesis using None acquire_free [OF free, of f pid q] acquire_fault [OF free, of f pid q] by auto
next
  case (Some w)
  then have t: "lk_taken w (run_lock pid ops)" using run_lock_abs [of ops pid] by (simp add: lk_abs_def)
  then have "lk_file (run_lock pid ops) p \<noteq> None \<longleftrightarrow> w = p" by (auto simp: lk_taken_def split: if_splits)
  with Some t show ?thesis using acquire_taken [OF t] running_taken [OF t] by auto
qed

text \<open>The PID file names the process that has the lock.\<close>

definition lk_named :: "(nat \<Rightarrow> nat) \<Rightarrow> lock_fs \<Rightarrow> bool" where
  "lk_named pid s \<longleftrightarrow> (\<forall>p i. lk_file s p = Some i \<longrightarrow> lk_text s i = pid_text (pid p))"

lemma lock_do_named:
  assumes "lk_abs owner s" "lk_named pid s" "\<not> lf_write f"
  shows "lk_named pid (lock_do f pid a s)"
proof (cases owner)
  case None
  then have free: "lk_free s" using assms(1) by (simp add: lk_abs_def)
  obtain i s1 where o: "open_create s = (i, s1)" by (cases "open_create s")
  note o1 = open_create_free [OF free o]
  show ?thesis
  proof (cases a)
    case (OpAcquire p)
    then show ?thesis using o o1 assms(2,3) free by (auto simp: AcquireLock_def lk_named_def lk_free_def)
  qed (use free assms(2) cleanup_free [OF free] in \<open>auto simp: release_free IsRunning_snd lk_named_def lk_free_def\<close>)
next
  case (Some w)
  then have t: "lk_taken w s" using assms(1) by (simp add: lk_abs_def)
  show ?thesis
  proof (cases a)
    case (OpRelease p)
    then show ?thesis
      using t assms(2) release_taken [of w s f] release_other [OF t]
      by (cases "w = p") (auto simp: lk_named_def lk_free_def)
  qed (use t assms(2) in \<open>simp_all add: acquire_taken cleanup_taken IsRunning_snd\<close>)
qed

lemma running_pid:
  assumes "\<forall>(f, a) \<in> set ops. \<not> lf_write f" "\<forall>p. pid p < 2 ^ 63"
  shows "fst (GetRunningPID no_faults (run_lock pid ops)) = (case spec_lock ops of None \<Rightarrow> 0 | Some p \<Rightarrow> int (pid p))"
proof -
  have n: "lk_named pid (run_lock pid ops)" using assms(1)
  proof (induction ops rule: rev_induct)
    case Nil
    then show ?case by (simp add: lk_named_def run_lock_def empty_fs_def)
  next
    case (snoc x ops)
    then show ?case using lock_do_named [OF run_lock_abs] by (cases x) (auto simp: run_lock_def)
  qed
  show ?thesis
  proof (cases "spec_lock ops")
    case None
    then have "lk_free (run_lock pid ops)" using run_lock_abs [of ops pid] by (simp add: lk_abs_def)
    with None show ?thesis using running_free [of "run_lock pid ops" no_faults]
      by (simp add: GetRunningPID_def no_faults_def split: prod.split) (metis fst_conv)
  next
    case (Some w)
    then have t: "lk_taken w (run_lock pid ops)" using run_lock_abs [of ops pid] by (simp add: lk_abs_def)
    then obtain i where i: "lk_path (run_lock pid ops) = Some i" "lk_file (run_lock pid ops) w = Some i" by (auto simp: lk_taken_def)
    then have "getPIDFromFile (run_lock pid ops) = int (pid w)"
      using n assms(2) by (simp add: getPIDFromFile_def lk_named_def pid_parsed)
    moreover have "IsRunning no_faults (run_lock pid ops) = (True, run_lock pid ops)"
      using running_taken [OF t] IsRunning_snd cleanup_taken [OF t] by (metis prod.collapse)
    ultimately show ?thesis using Some by (simp add: GetRunningPID_def)
  qed
qed

section \<open>System call by system call\<close>

text \<open>
  Where a process is inside an operation: \<open>AcquireLock\<close> has opened an inode; \<open>ReleaseLock\<close> has unlocked and closed
  its file and will remove the name; \<open>CleanupStaleLock\<close> has opened an inode, has its lock, or has unlocked it and
  will remove the name.
\<close>

datatype lock_pc = LIdle | AcqOpened nat | RelUnlocked | ClOpened nat | ClLocked nat | ClUnlocked

inductive lock_call :: "(nat \<Rightarrow> nat) \<Rightarrow> nat \<Rightarrow> lock_fs \<times> lock_pc \<Rightarrow> lock_fs \<times> lock_pc \<Rightarrow> bool" for pid p where
  acq_open: "open_create s = (i, s1) \<Longrightarrow> lock_call pid p (s, LIdle) (s1, AcqOpened i)"
| acq_lock: "lk_holder s i = None \<Longrightarrow> lock_call pid p (s, AcqOpened i)
    (s\<lparr>lk_holder := (lk_holder s)(i := Some (Main p)), lk_file := (lk_file s)(p := Some i), lk_text := (lk_text s)(i := pid_text (pid p))\<rparr>, LIdle)"
| acq_busy: "lk_holder s i \<noteq> None \<Longrightarrow> lock_call pid p (s, AcqOpened i) (s, LIdle)"
| rel_unlock: "lk_file s p = Some i \<Longrightarrow> lock_call pid p (s, LIdle)
    (s\<lparr>lk_holder := (lk_holder s)(i := None), lk_file := (lk_file s)(p := None)\<rparr>, RelUnlocked)"
| rel_remove: "lock_call pid p (s, RelUnlocked) (s\<lparr>lk_path := None\<rparr>, LIdle)"
| cl_open: "lk_path s = Some i \<Longrightarrow> lock_call pid p (s, LIdle) (s, ClOpened i)"
| cl_lock: "lk_holder s i = None \<Longrightarrow> lock_call pid p (s, ClOpened i) (s\<lparr>lk_holder := (lk_holder s)(i := Some (Temp p))\<rparr>, ClLocked i)"
| cl_busy: "lk_holder s i \<noteq> None \<Longrightarrow> lock_call pid p (s, ClOpened i) (s, LIdle)"
| cl_unlock: "lock_call pid p (s, ClLocked i) (s\<lparr>lk_holder := (lk_holder s)(i := None)\<rparr>, ClUnlocked)"
| cl_remove: "lock_call pid p (s, ClUnlocked) (s\<lparr>lk_path := None\<rparr>, LIdle)"

text \<open>The operations above are runs of these calls.\<close>

lemma acquire_calls:
  "(lock_call pid p)\<^sup>*\<^sup>* (s, LIdle) (snd (AcquireLock no_faults pid p s), LIdle)"
proof -
  obtain i s1 where o: "open_create s = (i, s1)" by (cases "open_create s")
  have "lock_call pid p (s1, AcqOpened i) (snd (AcquireLock no_faults pid p s), LIdle)"
    using acq_lock [of s1 i pid p] acq_busy [of s1 i pid p] o by (simp add: AcquireLock_def no_faults_def)
  with acq_open [OF o] show ?thesis by (meson converse_rtranclp_into_rtranclp r_into_rtranclp)
qed

lemma release_calls: "(lock_call pid p)\<^sup>*\<^sup>* (s, LIdle) (ReleaseLock no_faults p s, LIdle)"
proof (cases "lk_file s p")
  case None
  then show ?thesis by (simp add: ReleaseLock_def)
next
  case (Some i)
  then show ?thesis
    using rel_unlock [OF Some, of pid] rel_remove
    by (simp add: ReleaseLock_def remove_path_def no_faults_def) (meson converse_rtranclp_into_rtranclp r_into_rtranclp)
qed

lemma cleanup_calls: "(lock_call pid p)\<^sup>*\<^sup>* (s, LIdle) (snd (CleanupStaleLock no_faults s), LIdle)"
proof (cases "lk_path s")
  case None
  then show ?thesis by (simp add: CleanupStaleLock_def)
next
  case (Some i)
  show ?thesis
  proof (cases "lk_holder s i")
    case None
    let ?t = "s\<lparr>lk_holder := (lk_holder s)(i := Some (Temp p))\<rparr>"
    have "lock_call pid p (?t, ClLocked i) (s, ClUnlocked)"
      using cl_unlock [of pid p ?t i] None by (simp add: fun_upd_idem)
    with cl_open [OF Some] cl_lock [OF None] cl_remove [of pid p s] Some None show ?thesis
      by (simp add: CleanupStaleLock_def remove_path_def no_faults_def) (meson converse_rtranclp_into_rtranclp r_into_rtranclp)
  next
    case h: (Some x)
    with cl_open [OF Some] cl_busy [of s i pid p] Some show ?thesis
      by (auto simp: CleanupStaleLock_def intro: converse_rtranclp_into_rtranclp)
  qed
qed

text \<open>The processes interleave.\<close>

inductive lock_step :: "(nat \<Rightarrow> nat) \<Rightarrow> lock_fs \<times> (nat \<Rightarrow> lock_pc) \<Rightarrow> lock_fs \<times> (nat \<Rightarrow> lock_pc) \<Rightarrow> bool" for pid where
  lock_stepI: "lock_call pid p (s, pcs p) (s1, c) \<Longrightarrow> lock_step pid (s, pcs) (s1, pcs(p := c))"

definition all_idle :: "lock_fs \<times> (nat \<Rightarrow> lock_pc)" where
  "all_idle = (empty_fs, \<lambda>p. LIdle)"

lemma step_of_call:
  "(lock_step pid)\<^sup>*\<^sup>* a (s, pcs) \<Longrightarrow> lock_call pid p (s, pcs p) (s1, c) \<Longrightarrow> pcs' = pcs(p := c) \<Longrightarrow> (lock_step pid)\<^sup>*\<^sup>* a (s1, pcs')"
  using lock_stepI [of pid p s pcs s1 c] by simp

definition fs_of :: "nat option \<Rightarrow> nat \<Rightarrow> (nat \<Rightarrow> open_file option) \<Rightarrow> (nat \<Rightarrow> string) \<Rightarrow> (nat \<Rightarrow> nat option) \<Rightarrow> lock_fs" where
  "fs_of path next holder text file = \<lparr>lk_path = path, lk_next = next, lk_holder = holder, lk_text = text, lk_file = file\<rparr>"

lemma fs_of_calls:
  "lock_call pid p (fs_of (Some i) n h t f, LIdle) (fs_of (Some i) n h t f, AcqOpened i)"
  "lock_call pid p (fs_of None n h t f, LIdle) (fs_of (Some n) (Suc n) h (t(n := [])) f, AcqOpened n)"
  "h i = None \<Longrightarrow> lock_call pid p (fs_of x n h t f, AcqOpened i) (fs_of x n (h(i \<mapsto> Main p)) (t(i := pid_text (pid p))) (f(p \<mapsto> i)), LIdle)"
  "f p = Some i \<Longrightarrow> lock_call pid p (fs_of x n h t f, LIdle) (fs_of x n (h(i := None)) t (f(p := None)), RelUnlocked)"
  "lock_call pid p (fs_of x n h t f, RelUnlocked) (fs_of None n h t f, LIdle)"
  using acq_open [of "fs_of (Some i) n h t f"] acq_open [of "fs_of None n h t f"] acq_lock [of "fs_of x n h t f" i]
    rel_unlock [of "fs_of x n h t f" p i] rel_remove [of pid p "fs_of x n h t f"]
  by (auto simp: fs_of_def open_create_def)

text \<open>
  Call by call it is not a lock. \<open>ReleaseLock\<close> (and \<open>CleanupStaleLock\<close>) unlock the file first and remove its
  name afterwards: a process that locks the file in between keeps a lock on a file without a name, and the next
  process creates and locks a new file. Then both run.
\<close>

theorem singleton_race:
  "\<exists>s. (lock_step pid)\<^sup>*\<^sup>* all_idle (s, \<lambda>p. LIdle) \<and> lk_file s 1 \<noteq> None \<and> lk_file s 2 \<noteq> None"
proof -
  have 0: "(lock_step pid)\<^sup>*\<^sup>* all_idle (fs_of None 0 Map.empty (\<lambda>i. []) Map.empty, \<lambda>p. LIdle)"
    by (simp add: all_idle_def empty_fs_def fs_of_def)
  let ?t = "\<lambda>p. (\<lambda>i. [])(0 := pid_text (pid p))"
  have 1: "(lock_step pid)\<^sup>*\<^sup>* all_idle (fs_of (Some 0) 1 Map.empty (\<lambda>i. []) Map.empty, (\<lambda>p. LIdle)(0 := AcqOpened 0))"
    by (rule step_of_call [OF 0, where p = 0 and c = "AcqOpened 0"]) (use fs_of_calls(2) [of pid 0 0 Map.empty "\<lambda>i. []" Map.empty] in \<open>auto simp: fun_upd_def numeral_2_eq_2 cong: if_cong\<close>)
  have 2: "(lock_step pid)\<^sup>*\<^sup>* all_idle (fs_of (Some 0) 1 [0 \<mapsto> Main 0] (?t 0) [0 \<mapsto> 0], \<lambda>p. LIdle)"
    by (rule step_of_call [OF 1, where p = 0 and c = "LIdle"]) (use fs_of_calls(3) [of Map.empty 0 pid 0 "Some 0" 1 "\<lambda>i. []" Map.empty] in \<open>auto simp: fun_upd_def numeral_2_eq_2 cong: if_cong\<close>)
  have 3: "(lock_step pid)\<^sup>*\<^sup>* all_idle (fs_of (Some 0) 1 Map.empty (?t 0) Map.empty, (\<lambda>p. LIdle)(0 := RelUnlocked))"
    by (rule step_of_call [OF 2, where p = 0 and c = "RelUnlocked"]) (use fs_of_calls(4) [of "[0 \<mapsto> 0]" 0 0 pid "Some 0" 1 "[0 \<mapsto> Main 0]" "?t 0"] in \<open>auto simp: fun_upd_def numeral_2_eq_2 cong: if_cong\<close>)
  have 4: "(lock_step pid)\<^sup>*\<^sup>* all_idle (fs_of (Some 0) 1 Map.empty (?t 0) Map.empty, (\<lambda>p. LIdle)(0 := RelUnlocked, 1 := AcqOpened 0))"
    by (rule step_of_call [OF 3, where p = 1 and c = "AcqOpened 0"]) (use fs_of_calls(1) [of pid 1 0 1 Map.empty "?t 0" Map.empty] in \<open>auto simp: fun_upd_def numeral_2_eq_2 cong: if_cong\<close>)
  have 5: "(lock_step pid)\<^sup>*\<^sup>* all_idle (fs_of (Some 0) 1 [0 \<mapsto> Main 1] (?t 1) [1 \<mapsto> 0], (\<lambda>p. LIdle)(0 := RelUnlocked))"
    by (rule step_of_call [OF 4, where p = 1 and c = "LIdle"]) (use fs_of_calls(3) [of Map.empty 0 pid 1 "Some 0" 1 "?t 0" Map.empty] in \<open>auto simp: fun_upd_def numeral_2_eq_2 cong: if_cong\<close>)
  have 6: "(lock_step pid)\<^sup>*\<^sup>* all_idle (fs_of None 1 [0 \<mapsto> Main 1] (?t 1) [1 \<mapsto> 0], \<lambda>p. LIdle)"
    by (rule step_of_call [OF 5, where p = 0 and c = "LIdle"]) (use fs_of_calls(5) [of pid 0 "Some 0" 1 "[0 \<mapsto> Main 1]" "?t 1" "[1 \<mapsto> 0]"] in \<open>auto simp: fun_upd_def numeral_2_eq_2 cong: if_cong\<close>)
  have 7: "(lock_step pid)\<^sup>*\<^sup>* all_idle (fs_of (Some 1) 2 [0 \<mapsto> Main 1] ((?t 1)(1 := [])) [1 \<mapsto> 0], (\<lambda>p. LIdle)(2 := AcqOpened 1))"
    by (rule step_of_call [OF 6, where p = 2 and c = "AcqOpened 1"]) (use fs_of_calls(2) [of pid 2 1 "[0 \<mapsto> Main 1]" "?t 1" "[1 \<mapsto> 0]"] in \<open>auto simp: fun_upd_def numeral_2_eq_2 cong: if_cong\<close>)
  have 8: "(lock_step pid)\<^sup>*\<^sup>* all_idle (fs_of (Some 1) 2 [0 \<mapsto> Main 1, 1 \<mapsto> Main 2] ((?t 1)(1 := [], 1 := pid_text (pid 2))) [1 \<mapsto> 0, 2 \<mapsto> 1], \<lambda>p. LIdle)"
    by (rule step_of_call [OF 7, where p = 2 and c = "LIdle"]) (use fs_of_calls(3) [of "[0 \<mapsto> Main 1]" 1 pid 2 "Some 1" 2 "(?t 1)(1 := [])" "[1 \<mapsto> 0]"] in \<open>auto simp: fun_upd_def numeral_2_eq_2 cong: if_cong\<close>)
  show ?thesis by (rule exI, rule conjI, rule 8) (auto simp: fs_of_def)
qed

end
