(* ===== verification/Client_Life.thy ===== *)
theory Client_Life
  imports Grpc_Client Client_Config
begin

text \<open>
  The life of the gRPC client (\<open>internal/tunnel/grpc_client.go\<close>): connecting with the checks of configuration and
  certificates, the handshake and what it writes to the configuration, starting, stopping, the reader's reaction to a
  broken stream, and the reconnection loop with its backoff and circuit breaker. The network is a parameter: one
  record of outcomes per attempt. Times are nanoseconds. \<open>time.Duration(float64(d) * f)\<close> is the exact product with a
  fraction, cut to an integer; with the default settings every product is an integer below \<open>2 ^ 53\<close>, where \<open>float64\<close> is exact.
\<close>

section \<open>Data\<close>

definition scale :: "int \<times> int \<Rightarrow> int \<Rightarrow> int" where
  "scale q d = (let p = d * fst q in if 0 \<le> p then p div snd q else - ((- p) div snd q))"

record grpc_config =
  gk_ConnectTimeout :: int
  gk_RequestTimeout :: int
  gk_KeepAliveTime :: int
  gk_KeepAliveTimeout :: int
  gk_MaxReconnectAttempts :: int
  gk_ReconnectDelay :: int
  gk_BackoffMultiplier :: "int \<times> int"
  gk_InsecureSkipVerify :: bool
  gk_MaxMessageSize :: int
  gk_EnableCompression :: bool

definition DefaultGRPCClientConfig :: grpc_config where
  "DefaultGRPCClientConfig =
     \<lparr>gk_ConnectTimeout = 30 * second, gk_RequestTimeout = 30 * second, gk_KeepAliveTime = 60 * second,
      gk_KeepAliveTimeout = 20 * second, gk_MaxReconnectAttempts = - 1, gk_ReconnectDelay = second,
      gk_BackoffMultiplier = (3, 2), gk_InsecureSkipVerify = False, gk_MaxMessageSize = 16 * 1024 * 1024, gk_EnableCompression = True\<rparr>"

datatype handle = NilHandle | OpenHandle | ClosedHandle

record grpc_life =
  gl_clientID :: string
  gl_serverAddr :: string
  gl_domain :: string
  gl_token :: string
  gl_targetPort :: int
  gl_conn :: handle
  gl_stream :: handle
  gl_control :: bool
  gl_connected :: bool
  gl_connecting :: bool
  gl_stopping :: bool
  gl_stopped :: bool
  gl_cancelled :: bool
  gl_readers :: nat
  gl_reconnectCount :: i64
  gl_timeoutReconnects :: i64
  gl_totalErrors :: i64
  gl_timeoutErrors :: i64
  gl_lastError :: "go_error option"
  gl_config :: grpc_config

text \<open>
  \<open>gl_stopped\<close>: the channel \<open>stopChan\<close> is closed; \<open>gl_cancelled\<close>: the context is done; \<open>gl_readers\<close>: how many reader
  goroutines were started and have not ended. The globals of the package are the stable id and its counter.
\<close>

record client_globals =
  cg_stableID :: string
  cg_counter :: i64

definition NewGRPCTunnelClient ::
    "string \<Rightarrow> string \<Rightarrow> string \<Rightarrow> int \<Rightarrow> grpc_config option \<Rightarrow> client_globals \<Rightarrow> grpc_life \<times> client_globals" where
  "NewGRPCTunnelClient serverAddr domain token targetPort cfg g =
     (let g1 = (if cg_stableID g = []
                then g\<lparr>cg_counter := cg_counter g + 1, cg_stableID := ''grpc-client-'' @ dec (unat (cg_counter g + 1))\<rparr>
                else g)
      in (\<lparr>gl_clientID = cg_stableID g1, gl_serverAddr = serverAddr, gl_domain = domain, gl_token = token, gl_targetPort = targetPort,
           gl_conn = NilHandle, gl_stream = NilHandle, gl_control = False, gl_connected = False, gl_connecting = False,
           gl_stopping = False, gl_stopped = False, gl_cancelled = False, gl_readers = 0, gl_reconnectCount = 0,
           gl_timeoutReconnects = 0, gl_totalErrors = 0, gl_timeoutErrors = 0, gl_lastError = None,
           gl_config = (case cfg of None \<Rightarrow> DefaultGRPCClientConfig | Some k \<Rightarrow> k)\<rparr>, g1))"

section \<open>TLS configuration\<close>

text \<open>The contents of the certificate files, as \<open>os.ReadFile\<close>, the PEM parser and \<open>tls.LoadX509KeyPair\<close> see them.\<close>

record cert_files =
  cx_stat :: "string \<Rightarrow> stat_result"
  cx_order :: "(string \<times> string) list \<Rightarrow> (string \<times> string) list"
  cx_read :: "string \<Rightarrow> string option"
  cx_parses :: "string \<Rightarrow> bool"
  cx_keypair :: "string \<Rightarrow> string \<Rightarrow> string option"

record tls_config =
  tls_InsecureSkipVerify :: bool
  tls_RootCAs :: string
  tls_Certificate :: "string \<times> string"

definition SuggestedAction :: string where
  "SuggestedAction = ''Please run 'giraffecloud login --token YOUR_TOKEN' to download certificates''"

definition quoted :: "string \<Rightarrow> string" where
  "quoted s = CHR 0x27 # s @ [CHR 0x27]"

definition CreateSecureTLSConfig :: "client_host \<Rightarrow> cert_files \<Rightarrow> string \<Rightarrow> string \<Rightarrow> string \<Rightarrow> string + tls_config" where
  "CreateSecureTLSConfig h x ca cert key =
     (let v = ValidateCertificateFiles h (cx_stat x) (cx_order x) ca cert key
      in if \<not> cv_Valid v then Inl (''CERTIFICATE VALIDATION ERROR: '' @ cv_ErrorMessage v @ ''. '' @ SuggestedAction)
         else
           (let ca1 = expandTildePath h ca; cert1 = expandTildePath h cert; key1 = expandTildePath h key
            in case cx_read x ca1 of
                 Some e \<Rightarrow> Inl (''SECURITY ERROR: Failed to load CA certificate from '' @ quoted ca1 @ '': '' @ e @ CHR 0x0A # SuggestedAction)
               | None \<Rightarrow>
                   if \<not> cx_parses x ca1 then Inl (''SECURITY ERROR: Failed to parse CA certificate from '' @ quoted ca1 @ CHR 0x0A #
                     ''The certificate file may be corrupted. Try re-running '' @ quoted ''giraffecloud login'')
                   else case cx_keypair x cert1 key1 of
                          Some e \<Rightarrow> Inl (''SECURITY ERROR: Failed to load client certificate from '' @ quoted cert1 @ '' and '' @ quoted key1 @ '': '' @ e @
                            CHR 0x0A # SuggestedAction)
                        | None \<Rightarrow> Inr \<lparr>tls_InsecureSkipVerify = False, tls_RootCAs = ca1, tls_Certificate = (cert1, key1)\<rparr>))"

section \<open>Connecting\<close>

record tunnel_status =
  tst_Connected :: bool
  tst_Domain :: string
  tst_TargetPort :: int
  tst_ErrorMessage :: string

datatype handshake_answer =
    StatusAnswer tunnel_status
  | OtherAnswer
  | RecvFailed string
  | AnswerTimeout
  | AnswerCancelled string

record attempt =
  at_certs :: cert_files
  at_load_error :: string
  at_dial :: "string option"
  at_stream :: "string option"
  at_send :: "string option"
  at_answer :: handshake_answer
  at_control :: bool

definition to_int32 :: "int \<Rightarrow> int" where
  "to_int32 n = sint (word_of_int n :: 32 word)"

definition load_error_text :: "string \<Rightarrow> load_error \<Rightarrow> string" where
  "load_error_text os e =
     (case e of ReadFailed \<Rightarrow> ''failed to read tunnel config file: '' @ os | ParseFailed \<Rightarrow> ''failed to parse tunnel config file: '' @ os)"

text \<open>The configuration is changed through the pointer: a change of the defaults is a change of the global variable.\<close>

definition assign :: "config_ref \<Rightarrow> config \<Rightarrow> client_host \<Rightarrow> client_host" where
  "assign r c h = (case r of SharedDefault \<Rightarrow> h\<lparr>ch_default := c\<rparr> | Own _ \<Rightarrow> h)"

definition handshake_config :: "tunnel_status \<Rightarrow> config \<Rightarrow> config" where
  "handshake_config st cfg =
     (let c1 = (if tst_Domain st \<noteq> [] \<and> tst_Domain st \<noteq> cf_Domain cfg then cfg\<lparr>cf_Domain := tst_Domain st\<rparr> else cfg)
      in if tst_TargetPort st \<noteq> 0 \<and> tst_TargetPort st \<noteq> to_int32 (cf_LocalPort cfg) then c1\<lparr>cf_LocalPort := tst_TargetPort st\<rparr> else c1)"

definition saveHandshakeResponseToConfig :: "tunnel_status \<Rightarrow> grpc_life \<Rightarrow> client_host \<Rightarrow> grpc_life \<times> client_host" where
  "saveHandshakeResponseToConfig st c h =
     (case cfg_LoadConfig h of
        Inl _ \<Rightarrow> (c, h)
      | Inr r \<Rightarrow>
          (let cfg = deref h r; cfg1 = handshake_config st cfg; h1 = assign r cfg1 h;
               updated = (tst_Domain st \<noteq> [] \<and> tst_Domain st \<noteq> cf_Domain cfg \<or>
                          tst_TargetPort st \<noteq> 0 \<and> tst_TargetPort st \<noteq> to_int32 (cf_LocalPort cfg));
               c1 = (if tst_TargetPort st \<noteq> 0 \<and> tst_TargetPort st \<noteq> gl_targetPort c then c\<lparr>gl_targetPort := tst_TargetPort st\<rparr> else c)
           in (c1, if updated then snd (SaveConfig cfg1 h1) else h1)))"

definition waitForHandshakeResponse :: "handshake_answer \<Rightarrow> grpc_life \<Rightarrow> client_host \<Rightarrow> string option \<times> grpc_life \<times> client_host" where
  "waitForHandshakeResponse a c h =
     (case a of
        StatusAnswer st \<Rightarrow>
          if tst_Connected st then (None, saveHandshakeResponseToConfig st c h)
          else (Some (''handshake failed: '' @ tst_ErrorMessage st), c, h)
      | OtherAnswer \<Rightarrow> (Some ''invalid handshake response'', c, h)
      | RecvFailed e \<Rightarrow> (Some (''failed to receive handshake response: '' @ e), c, h)
      | AnswerTimeout \<Rightarrow> (Some ''handshake timeout'', c, h)
      | AnswerCancelled e \<Rightarrow> (Some e, c, h))"

text \<open>
  The configuration is loaded and its certificates are checked before every connection, with the same code in
  \<open>connect\<close>, \<open>attemptDualConnections\<close> and \<open>establishTCPTunnelOnDemand\<close>; \<open>hint\<close> is what each appends to a failed load.
\<close>

definition secure_settings :: "string \<Rightarrow> cert_files \<Rightarrow> string \<Rightarrow> client_host \<Rightarrow> string + tls_config" where
  "secure_settings hint x os h =
     (case cfg_LoadConfig h of
        Inl e \<Rightarrow> Inl (''CONFIGURATION ERROR: Failed to load config: '' @ load_error_text os e @ hint)
      | Inr r \<Rightarrow>
          (let s = cf_Security (deref h r);
               v = ValidateCertificateFiles h (cx_stat x) (cx_order x) (sc_CACert s) (sc_ClientCert s) (sc_ClientKey s)
           in if \<not> cv_Valid v then Inl (''CERTIFICATE ERROR: '' @ cv_ErrorMessage v @ ''. '' @ SuggestedAction)
              else case CreateSecureTLSConfig h x (sc_CACert s) (sc_ClientCert s) (sc_ClientKey s) of
                     Inl e \<Rightarrow> Inl (''TLS CONFIGURATION ERROR: '' @ e)
                   | Inr t \<Rightarrow> Inr t))"

definition configure_hint :: string where
  "configure_hint = ''. Please ensure giraffecloud is properly configured''"

text \<open>
  \<open>at_control\<close>: the server confirms the control channel. The wait for that confirmation, \<open>controlStream.Recv\<close>, has no time
  limit: a server that accepts the channel and stays silent keeps \<open>connect\<close> from returning. \<open>open_tunnel\<close> and what is built
  on it describe the attempts in which the channel is confirmed or fails; \<open>Client_Tunnel\<close> has the other ones.
\<close>

definition open_tunnel :: "attempt \<Rightarrow> grpc_life \<Rightarrow> client_host \<Rightarrow> string option \<times> grpc_life \<times> client_host" where
  "open_tunnel n c h =
     (case at_dial n of
        Some e \<Rightarrow> (Some (''failed to connect to server: '' @ e), c, h)
      | None \<Rightarrow>
          (case at_stream n of
             Some e \<Rightarrow> (Some (''failed to establish tunnel stream: '' @ e), c\<lparr>gl_conn := ClosedHandle\<rparr>, h)
           | None \<Rightarrow>
               (let c1 = c\<lparr>gl_conn := OpenHandle, gl_stream := OpenHandle\<rparr>;
                    closed = (\<lambda>d. d\<lparr>gl_conn := ClosedHandle, gl_stream := ClosedHandle\<rparr>)
                in case at_send n of
                     Some e \<Rightarrow> (Some (''handshake failed: '' @ e), closed c1, h)
                   | None \<Rightarrow>
                       (case waitForHandshakeResponse (at_answer n) c1 h of
                          (Some e, c2, h2) \<Rightarrow> (Some (''handshake response failed: '' @ e), closed c2, h2)
                        | (None, c2, h2) \<Rightarrow> (None, if at_control n then c2\<lparr>gl_control := True\<rparr> else c2, h2)))))"

definition connect :: "attempt \<Rightarrow> grpc_life \<Rightarrow> client_host \<Rightarrow> string option \<times> grpc_life \<times> client_host" where
  "connect n c h0 =
     (let h = EnsureConsistentConfigHome h0
      in case secure_settings configure_hint (at_certs n) (at_load_error n) h of
           Inl e \<Rightarrow> (Some e, c, h)
         | Inr _ \<Rightarrow> open_tunnel n c h)"

definition gl_Start :: "attempt \<Rightarrow> grpc_life \<Rightarrow> client_host \<Rightarrow> string option \<times> grpc_life \<times> client_host" where
  "gl_Start at c h =
     (if gl_connecting c \<or> gl_connected c then (Some ''client already started'', c, h)
      else case connect at (c\<lparr>gl_connecting := True\<rparr>) h of
             (Some e, c1, h1) \<Rightarrow> (Some (''failed to establish tunnel: '' @ e), c1\<lparr>gl_connecting := False\<rparr>, h1)
           | (None, c1, h1) \<Rightarrow> (None, c1\<lparr>gl_connected := True, gl_connecting := False, gl_readers := gl_readers c1 + 1\<rparr>, h1))"

definition close_handle :: "handle \<Rightarrow> handle" where
  "close_handle x = (if x = NilHandle then NilHandle else ClosedHandle)"

definition gl_Stop :: "grpc_life \<Rightarrow> grpc_life" where
  "gl_Stop c =
     (if \<not> gl_connected c then c
      else c\<lparr>gl_stopping := True, gl_stopped := True, gl_cancelled := True, gl_stream := close_handle (gl_stream c),
             gl_conn := close_handle (gl_conn c), gl_connected := False\<rparr>)"

text \<open>
  The end of \<open>handleIncomingMessages\<close> when \<open>Recv\<close> fails, in its two sections under the mutex: the error is counted and stored;
  then the reader ends, and the result tells whether it starts \<open>reconnect\<close>. The stop channel is closed together with the setting of
  \<open>stopping\<close>, so the check of the channel before the second section adds nothing to the check in it.
\<close>

datatype recv_error = RecvEOF | RecvCanceled | RecvOther go_error

definition reader_error :: "recv_error \<Rightarrow> grpc_life \<Rightarrow> grpc_life" where
  "reader_error e c =
     (case e of
        RecvOther g \<Rightarrow> c\<lparr>gl_totalErrors := gl_totalErrors c + 1, gl_lastError := Some g,
                         gl_timeoutErrors := gl_timeoutErrors c + (if isTimeoutError (Some g) then 1 else 0)\<rparr>
      | _ \<Rightarrow> c)"

definition reader_ends :: "grpc_life \<Rightarrow> bool \<times> grpc_life" where
  "reader_ends c = (\<not> gl_stopped c \<and> \<not> gl_stopping c, c\<lparr>gl_readers := gl_readers c - 1\<rparr>)"

section \<open>Reconnecting\<close>

datatype loop_exit = Skipped | StopSeen | AttemptsExhausted | FatalError string | Reconnected

definition is_fatal :: "string \<Rightarrow> bool" where
  "is_fatal e \<longleftrightarrow> Contains e ''CERTIFICATE ERROR'' \<or> Contains e ''CONFIGURATION ERROR''"

definition maxConsecutiveFailures :: nat where "maxConsecutiveFailures = 10"
definition longDelay :: int where "longDelay = 300 * second"

definition next_delay :: "grpc_config \<Rightarrow> int \<Rightarrow> int" where
  "next_delay k d = (let d1 = scale (gk_BackoffMultiplier k) d in if d1 > 30 * second then 30 * second else d1)"

text \<open>
  The loop of \<open>reconnect\<close>. \<open>net i\<close> is the network at the \<open>i\<close>-th attempt, \<open>stop i\<close> tells whether the stop channel is
  closed or the context done before the attempt \<open>i + 1\<close>, \<open>stopw i\<close> whether that happens while the loop waits after the
  attempt \<open>i\<close>; \<open>waits\<close> records the delays.
\<close>

partial_function (option) reconnect_loop ::
    "(nat \<Rightarrow> attempt) \<Rightarrow> (nat \<Rightarrow> bool) \<Rightarrow> (nat \<Rightarrow> bool) \<Rightarrow> nat \<Rightarrow> nat \<Rightarrow> int \<Rightarrow> int list \<Rightarrow> grpc_life \<Rightarrow> client_host \<Rightarrow>
     (loop_exit \<times> int list \<times> grpc_life \<times> client_host) option" where
  "reconnect_loop net stop stopw attempts failures delay waits c h =
     (if stop attempts then Some (StopSeen, waits, c, h)
      else if gk_MaxReconnectAttempts (gl_config c) > 0 \<and> int (attempts + 1) > gk_MaxReconnectAttempts (gl_config c)
      then Some (AttemptsExhausted, waits, c, h)
      else case connect (net (attempts + 1)) c h of
             (None, c1, h1) \<Rightarrow> Some (Reconnected, waits, c1\<lparr>gl_connected := True, gl_readers := gl_readers c1 + 1\<rparr>, h1)
           | (Some e, c1, h1) \<Rightarrow>
               if is_fatal e then Some (FatalError e, waits, c1, h1)
               else if failures + 1 \<ge> maxConsecutiveFailures
               then (if stopw (attempts + 1) then Some (StopSeen, waits, c1, h1)
                     else reconnect_loop net stop stopw (attempts + 1) 0 (gk_ReconnectDelay (gl_config c)) (waits @ [longDelay]) c1 h1)
               else (if stopw (attempts + 1) then Some (StopSeen, waits, c1, h1)
                     else reconnect_loop net stop stopw (attempts + 1) (failures + 1) (next_delay (gl_config c) delay) (waits @ [delay]) c1 h1))"

definition enter_reconnect :: "grpc_life \<Rightarrow> grpc_life" where
  "enter_reconnect c =
     c\<lparr>gl_reconnectCount := gl_reconnectCount c + 1,
       gl_timeoutReconnects := gl_timeoutReconnects c + (if gl_lastError c \<noteq> None \<and> isTimeoutError (gl_lastError c) then 1 else 0)\<rparr>"

definition reset_handles :: "grpc_life \<Rightarrow> grpc_life" where
  "reset_handles c = c\<lparr>gl_connected := False, gl_conn := NilHandle, gl_stream := NilHandle\<rparr>"

definition reconnect ::
    "(nat \<Rightarrow> attempt) \<Rightarrow> (nat \<Rightarrow> bool) \<Rightarrow> (nat \<Rightarrow> bool) \<Rightarrow> grpc_life \<Rightarrow> client_host \<Rightarrow>
     (loop_exit \<times> int list \<times> grpc_life \<times> client_host) option" where
  "reconnect net stop stopw c h =
     (let c1 = enter_reconnect c
      in if \<not> gl_connected c1 \<or> gl_stopping c1 then Some (Skipped, [], c1, h)
         else reconnect_loop net stop stopw 0 0 (gk_ReconnectDelay (gl_config c1)) [] (reset_handles c1) h)"

section \<open>Facts about connecting\<close>

lemma save_handshake_frame:
  "gl_config (fst (saveHandshakeResponseToConfig st c h)) = gl_config c"
  "gl_connected (fst (saveHandshakeResponseToConfig st c h)) = gl_connected c"
  "gl_stopping (fst (saveHandshakeResponseToConfig st c h)) = gl_stopping c"
  "gl_stopped (fst (saveHandshakeResponseToConfig st c h)) = gl_stopped c"
  "gl_cancelled (fst (saveHandshakeResponseToConfig st c h)) = gl_cancelled c"
  "gl_readers (fst (saveHandshakeResponseToConfig st c h)) = gl_readers c"
  "gl_conn (fst (saveHandshakeResponseToConfig st c h)) = gl_conn c"
  "gl_stream (fst (saveHandshakeResponseToConfig st c h)) = gl_stream c"
  by (simp_all add: saveHandshakeResponseToConfig_def Let_def split: sum.split)

lemma wait_cases:
  assumes "waitForHandshakeResponse a c h = (e, c2, h2)"
  obtains "e \<noteq> None" "c2 = c" "h2 = h"
    | st where "e = None" "a = StatusAnswer st" "tst_Connected st" "saveHandshakeResponseToConfig st c h = (c2, h2)"
  using assms by (auto simp: waitForHandshakeResponse_def split: handshake_answer.splits if_splits)

lemma open_tunnel_cases:
  assumes "open_tunnel n c h = (e, c1, h1)"
  obtains (fails) x y where "e \<noteq> None" "c1 = c\<lparr>gl_conn := x, gl_stream := y\<rparr>" "h1 = h"
    | (succeeds) st c2 b where "e = None" "at_answer n = StatusAnswer st" "tst_Connected st"
      "saveHandshakeResponseToConfig st (c\<lparr>gl_conn := OpenHandle, gl_stream := OpenHandle\<rparr>) h = (c2, h1)" "c1 = c2\<lparr>gl_control := b\<rparr>"
proof -
  let ?c = "c\<lparr>gl_conn := OpenHandle, gl_stream := OpenHandle\<rparr>"
  obtain e2 c2 h2 where w: "waitForHandshakeResponse (at_answer n) ?c h = (e2, c2, h2)" by (cases "waitForHandshakeResponse (at_answer n) ?c h")
  consider e' where "at_dial n = Some e'" | e' where "at_dial n = None" "at_stream n = Some e'"
    | e' where "at_dial n = None" "at_stream n = None" "at_send n = Some e'" | "at_dial n = None" "at_stream n = None" "at_send n = None"
    by (metis not_None_eq)
  then show thesis
  proof cases
    case 1
    then show ?thesis using assms fails [where x = "gl_conn c" and y = "gl_stream c"] by (auto simp: open_tunnel_def)
  next
    case 2
    then show ?thesis using assms fails [where x = ClosedHandle and y = "gl_stream c"] by (auto simp: open_tunnel_def)
  next
    case 3
    then show ?thesis using assms fails [where x = ClosedHandle and y = ClosedHandle] by (auto simp: open_tunnel_def)
  next
    case True: 4
    from w show ?thesis
    proof (cases rule: wait_cases)
      case 1
      then show ?thesis using True w assms fails [where x = ClosedHandle and y = ClosedHandle] by (auto simp: open_tunnel_def)
    next
      case (2 st)
      have "c1 = c2\<lparr>gl_control := at_control n \<or> gl_control c2\<rparr>" "e = None" "h1 = h2"
        using True w assms 2 by (auto simp: open_tunnel_def)
      with 2 succeeds show ?thesis by blast
    qed
  qed
qed

lemma connect_cases:
  assumes "connect n c h = (e, c1, h1)"
  obtains (fails) x y where "e \<noteq> None" "c1 = c\<lparr>gl_conn := x, gl_stream := y\<rparr>" "h1 = EnsureConsistentConfigHome h"
    | (succeeds) st c2 b where "e = None" "at_answer n = StatusAnswer st" "tst_Connected st"
      "saveHandshakeResponseToConfig st (c\<lparr>gl_conn := OpenHandle, gl_stream := OpenHandle\<rparr>) (EnsureConsistentConfigHome h) = (c2, h1)"
      "c1 = c2\<lparr>gl_control := b\<rparr>"
proof (cases "secure_settings configure_hint (at_certs n) (at_load_error n) (EnsureConsistentConfigHome h)")
  case (Inl a)
  then show ?thesis using assms fails [where x = "gl_conn c" and y = "gl_stream c"] by (auto simp: connect_def)
next
  case (Inr b)
  then have "open_tunnel n c (EnsureConsistentConfigHome h) = (e, c1, h1)" using assms by (simp add: connect_def)
  then show ?thesis using fails succeeds by (cases rule: open_tunnel_cases) blast+
qed

lemma connect_frame:
  assumes "connect n c h = (e, c1, h1)"
  shows "gl_config c1 = gl_config c \<and> gl_connected c1 = gl_connected c \<and> gl_stopping c1 = gl_stopping c \<and>
    gl_stopped c1 = gl_stopped c \<and> gl_cancelled c1 = gl_cancelled c \<and> gl_readers c1 = gl_readers c"
  using assms
proof (cases rule: connect_cases)
  case (succeeds st c2 b)
  let ?c = "c\<lparr>gl_conn := OpenHandle, gl_stream := OpenHandle\<rparr>"
  have "c2 = fst (saveHandshakeResponseToConfig st ?c (EnsureConsistentConfigHome h))" using succeeds(4) by simp
  with succeeds(5) show ?thesis using save_handshake_frame [of st ?c "EnsureConsistentConfigHome h"] by simp
qed simp

section \<open>When the loop ends\<close>

text \<open>The state after \<open>k\<close> attempts, and whether the loop ends with the attempt after them.\<close>

fun after :: "(nat \<Rightarrow> attempt) \<Rightarrow> nat \<Rightarrow> grpc_life \<Rightarrow> client_host \<Rightarrow> grpc_life \<times> client_host" where
  "after net 0 c h = (c, h)"
| "after net (Suc k) c h = (case after net k c h of (c1, h1) \<Rightarrow> snd (connect (net (Suc k)) c1 h1))"

definition attempt_error :: "(nat \<Rightarrow> attempt) \<Rightarrow> nat \<Rightarrow> grpc_life \<Rightarrow> client_host \<Rightarrow> string option" where
  "attempt_error net k c h = (case after net k c h of (c1, h1) \<Rightarrow> fst (connect (net (Suc k)) c1 h1))"

definition ends_at :: "(nat \<Rightarrow> attempt) \<Rightarrow> (nat \<Rightarrow> bool) \<Rightarrow> (nat \<Rightarrow> bool) \<Rightarrow> nat \<Rightarrow> grpc_life \<Rightarrow> client_host \<Rightarrow> bool" where
  "ends_at net stop stopw k c h \<longleftrightarrow>
     stop k \<or> (case attempt_error net k c h of None \<Rightarrow> True | Some e \<Rightarrow> is_fatal e \<or> stopw (Suc k))"

definition out_of_attempts :: "grpc_life \<Rightarrow> nat \<Rightarrow> bool" where
  "out_of_attempts c k \<longleftrightarrow> gk_MaxReconnectAttempts (gl_config c) > 0 \<and> int (Suc k) > gk_MaxReconnectAttempts (gl_config c)"

lemma after_config: "gl_config (fst (after net k c h)) = gl_config c"
proof (induction k)
  case (Suc k)
  obtain c1 h1 where a: "after net k c h = (c1, h1)" by (cases "after net k c h")
  obtain e c2 h2 where b: "connect (net (Suc k)) c1 h1 = (e, c2, h2)" by (cases "connect (net (Suc k)) c1 h1")
  show ?case using Suc a b connect_frame [OF b] by simp
qed simp

lemma loop_returns:
  assumes "ends_at net stop stopw k c0 h0 \<or> out_of_attempts c0 k" "a \<le> k" "after net a c0 h0 = (c, h)"
  shows "\<exists>r. reconnect_loop net stop stopw a f d w c h = Some r"
  using assms(2,3)
proof (induction "k - a" arbitrary: a f d w c h)
  case less: 0
  then have a: "a = k" by simp
  have cfg: "gl_config c = gl_config c0" using after_config [of net a c0 h0] less by simp
  obtain e c1 h1 where e: "connect (net (Suc a)) c h = (e, c1, h1)" by (cases "connect (net (Suc a)) c h")
  have "attempt_error net k c0 h0 = e" using a less e by (simp add: attempt_error_def)
  with a e cfg assms(1) show ?case
    by (subst reconnect_loop.simps) (auto simp: ends_at_def out_of_attempts_def split: option.splits)
next
  case (Suc m)
  obtain e c1 h1 where e: "connect (net (Suc a)) c h = (e, c1, h1)" by (cases "connect (net (Suc a)) c h")
  have n: "after net (Suc a) c0 h0 = (c1, h1)" using Suc.prems e by simp
  have "\<exists>r. reconnect_loop net stop stopw (Suc a) f' d' w' c1 h1 = Some r" for f' d' w'
    using Suc.hyps(1) [OF _ _ n] Suc.hyps(2) by simp
  with e show ?case by (subst reconnect_loop.simps) (auto split: option.splits)
qed

lemma loop_exits:
  assumes "reconnect_loop net stop stopw a f d w c h = Some r" "after net a c0 h0 = (c, h)"
  shows "\<exists>k \<ge> a. ends_at net stop stopw k c0 h0 \<or> out_of_attempts c0 k"
  using assms
proof (induction arbitrary: rule: reconnect_loop.raw_induct [rotated, consumes 1, case_names step])
  case (step loop net stop stopw a f d w c h r)
  show ?case
  proof (rule ccontr)
    assume none: "\<not> ?thesis"
    obtain e c1 h1 where e: "connect (net (Suc a)) c h = (e, c1, h1)" by (cases "connect (net (Suc a)) c h")
    have n: "after net (Suc a) c0 h0 = (c1, h1)" using step.prems e by simp
    have cfg: "gl_config c = gl_config c0" using after_config [of net a c0 h0] step.prems by simp
    have "attempt_error net a c0 h0 = e" using step.prems e by (simp add: attempt_error_def)
    then obtain x where "\<not> stop a" "\<not> out_of_attempts c0 a" "e = Some x" "\<not> is_fatal x" "\<not> stopw (Suc a)"
      using none by (fastforce simp: ends_at_def split: option.splits)
    then obtain f' d' w' where "loop net stop stopw (Suc a) f' d' w' c1 h1 = Some r"
      using step.hyps e cfg by (auto simp: out_of_attempts_def split: if_splits)
    then show False using step.IH n none Suc_leD by blast
  qed
qed

text \<open>
  C20. When reconnecting ends: \<open>reconnect\<close> returns exactly if there is nothing to do (the client is not connected or is
  being stopped), or a limit of attempts is configured, or some attempt succeeds, fails for the configuration or the certificates,
  or is preceded or followed by a stop signal. In particular it always returns when a limit is configured, and never
  otherwise while attempts only fail for the network.
\<close>

theorem reconnect_returns_iff:
  "(\<exists>r. reconnect net stop stopw c h = Some r) \<longleftrightarrow>
     \<not> gl_connected c \<or> gl_stopping c \<or> gk_MaxReconnectAttempts (gl_config c) > 0 \<or>
     (\<exists>k. ends_at net stop stopw k (reset_handles (enter_reconnect c)) h)"
proof (cases "\<not> gl_connected c \<or> gl_stopping c")
  case True
  then show ?thesis by (auto simp: reconnect_def enter_reconnect_def Let_def)
next
  case False
  let ?c = "reset_handles (enter_reconnect c)" and ?d = "gk_ReconnectDelay (gl_config (enter_reconnect c))"
  have r: "reconnect net stop stopw c h = reconnect_loop net stop stopw 0 0 ?d [] ?c h"
    using False by (simp add: reconnect_def enter_reconnect_def Let_def)
  have m: "(\<exists>k. out_of_attempts ?c k) \<longleftrightarrow> gk_MaxReconnectAttempts (gl_config c) > 0"
    by (auto simp: out_of_attempts_def reset_handles_def enter_reconnect_def intro: exI [of _ "nat (gk_MaxReconnectAttempts (gl_config c))"])
  have "(\<exists>r. reconnect_loop net stop stopw 0 0 ?d [] ?c h = Some r) \<longleftrightarrow> (\<exists>k. ends_at net stop stopw k ?c h \<or> out_of_attempts ?c k)"
    using loop_returns [where a = 0 and ?c0.0 = ?c and ?h0.0 = h] loop_exits [where a = 0 and ?c0.0 = ?c and ?h0.0 = h] by fastforce
  with r m False show ?thesis by auto
qed

section \<open>How long it waits\<close>

fun schedule :: "grpc_config \<Rightarrow> nat \<Rightarrow> int \<Rightarrow> nat \<Rightarrow> int list" where
  "schedule k f d 0 = []"
| "schedule k f d (Suc n) =
     (if f + 1 \<ge> maxConsecutiveFailures then longDelay # schedule k 0 (gk_ReconnectDelay k) n
      else d # schedule k (f + 1) (next_delay k d) n)"

lemma length_schedule [simp]: "length (schedule k f d n) = n"
  by (induction n arbitrary: f d) simp_all

lemma loop_waits:
  assumes "reconnect_loop net stop stopw a f d w c h = Some (x, w', c', h')"
  shows "\<exists>n. w' = w @ schedule (gl_config c) f d n \<and> gl_config c' = gl_config c \<and>
    (x = AttemptsExhausted \<longrightarrow> 0 < gk_MaxReconnectAttempts (gl_config c) \<and> int (a + n) \<ge> gk_MaxReconnectAttempts (gl_config c)) \<and>
    (int (a + n) > gk_MaxReconnectAttempts (gl_config c) \<longrightarrow> gk_MaxReconnectAttempts (gl_config c) \<le> 0 \<or> n = 0)"
proof -
  let ?P = "\<lambda>a f d w c r. \<exists>n. fst (snd r) = w @ schedule (gl_config c) f d n \<and> gl_config (fst (snd (snd r))) = gl_config c \<and>
    (fst r = AttemptsExhausted \<longrightarrow> 0 < gk_MaxReconnectAttempts (gl_config c) \<and> int (a + n) \<ge> gk_MaxReconnectAttempts (gl_config c)) \<and>
    (int (a + n) > gk_MaxReconnectAttempts (gl_config c) \<longrightarrow> gk_MaxReconnectAttempts (gl_config c) \<le> 0 \<or> n = 0)"
  have "?P a f d w c (x, w', c', h')" using assms
  proof (induction rule: reconnect_loop.raw_induct [rotated, consumes 1, case_names step])
    case (step loop net stop stopw a f d w c h r)
    obtain e c1 h1 where e: "connect (net (Suc a)) c h = (e, c1, h1)" by (cases "connect (net (Suc a)) c h")
    have cfg: "gl_config c1 = gl_config c" using connect_frame [OF e] by simp
    consider (now) "fst (snd r) = w" "gl_config (fst (snd (snd r))) = gl_config c" "fst r = AttemptsExhausted \<longrightarrow> out_of_attempts c a"
      | (long) "\<not> out_of_attempts c a" "f + 1 \<ge> maxConsecutiveFailures"
          "loop net stop stopw (Suc a) 0 (gk_ReconnectDelay (gl_config c)) (w @ [longDelay]) c1 h1 = Some r"
      | (short) "\<not> out_of_attempts c a" "\<not> f + 1 \<ge> maxConsecutiveFailures"
          "loop net stop stopw (Suc a) (f + 1) (next_delay (gl_config c) d) (w @ [d]) c1 h1 = Some r"
      using step.hyps e cfg by (auto simp: out_of_attempts_def split: if_splits option.splits)
    then show ?case
    proof cases
      case now
      then show ?thesis by (intro exI [of _ 0]) (auto simp: out_of_attempts_def)
    next
      case long
      obtain n where "fst (snd r) = (w @ [longDelay]) @ schedule (gl_config c1) 0 (gk_ReconnectDelay (gl_config c)) n"
        "gl_config (fst (snd (snd r))) = gl_config c1"
        "fst r = AttemptsExhausted \<longrightarrow> 0 < gk_MaxReconnectAttempts (gl_config c1) \<and> int (Suc a + n) \<ge> gk_MaxReconnectAttempts (gl_config c1)"
        "int (Suc a + n) > gk_MaxReconnectAttempts (gl_config c1) \<longrightarrow> gk_MaxReconnectAttempts (gl_config c1) \<le> 0 \<or> n = 0"
        using step.IH [OF long(3)] by blast
      with long cfg show ?thesis by (intro exI [of _ "Suc n"]) (auto simp: out_of_attempts_def)
    next
      case short
      obtain n where "fst (snd r) = (w @ [d]) @ schedule (gl_config c1) (f + 1) (next_delay (gl_config c) d) n"
        "gl_config (fst (snd (snd r))) = gl_config c1"
        "fst r = AttemptsExhausted \<longrightarrow> 0 < gk_MaxReconnectAttempts (gl_config c1) \<and> int (Suc a + n) \<ge> gk_MaxReconnectAttempts (gl_config c1)"
        "int (Suc a + n) > gk_MaxReconnectAttempts (gl_config c1) \<longrightarrow> gk_MaxReconnectAttempts (gl_config c1) \<le> 0 \<or> n = 0"
        using step.IH [OF short(3)] by blast
      with short cfg show ?thesis by (intro exI [of _ "Suc n"]) (auto simp: out_of_attempts_def)
    qed
  qed
  then show ?thesis by simp
qed

text \<open>The delays of one round with the default settings, in nanoseconds: nine backoffs from one second on, then five minutes.\<close>

definition backoff_cycle :: "int list" where
  "backoff_cycle =
     [1000000000, 1500000000, 2250000000, 3375000000, 5062500000, 7593750000, 11390625000, 17085937500, 25628906250, 300000000000]"

lemma next_delay_default:
  "f < 8 \<Longrightarrow> next_delay DefaultGRPCClientConfig (backoff_cycle ! f) = backoff_cycle ! Suc f"
proof -
  assume "f < 8"
  then have "f \<in> {0, 1, 2, 3, 4, 5, 6, 7}" by auto
  then show ?thesis
    by (auto simp: backoff_cycle_def next_delay_def scale_def DefaultGRPCClientConfig_def second_def eval_nat_numeral)
qed

lemma schedule_default:
  "f < 10 \<Longrightarrow> d = backoff_cycle ! f \<or> f = 9 \<Longrightarrow>
   schedule DefaultGRPCClientConfig f d n = map (\<lambda>i. backoff_cycle ! ((f + i) mod 10)) [0..<n]"
proof (induction n arbitrary: f d)
  case (Suc n)
  have m: "map (\<lambda>i. backoff_cycle ! ((f + i) mod 10)) [0..<Suc n] =
    backoff_cycle ! (f mod 10) # map (\<lambda>i. backoff_cycle ! ((Suc f + i) mod 10)) [0..<n]"
    by (simp add: map_upt_Suc del: upt_Suc)
  show ?case
  proof (cases "f = 9")
    case True
    have "(Suc f + i) mod 10 = (0 + i) mod 10" for i using True by simp
    with True Suc.IH [of 0 "second"] m show ?thesis
      by (simp add: maxConsecutiveFailures_def longDelay_def second_def backoff_cycle_def DefaultGRPCClientConfig_def del: upt_Suc)
  next
    case False
    then have "f < 8 \<or> f = 8" using Suc.prems by auto
    then have "schedule DefaultGRPCClientConfig (Suc f) (next_delay DefaultGRPCClientConfig d) n =
      map (\<lambda>i. backoff_cycle ! ((Suc f + i) mod 10)) [0..<n]"
      using Suc.prems False by (intro Suc.IH) (auto simp: next_delay_default)
    with False Suc.prems m show ?thesis by (simp add: maxConsecutiveFailures_def del: upt_Suc)
  qed
qed simp

text \<open>
  The waiting times with the default settings: whenever \<open>reconnect\<close> returns, the delays between its attempts
  were 1 s, 1.5 s, 2.25 s and so on up to 25.6 s, then the five minutes of the circuit breaker, and this round again from the start;
  the limit of 30 s is never reached, and the loop never gives up for the number of attempts.
\<close>

theorem reconnect_schedule:
  assumes "gl_config c = DefaultGRPCClientConfig" "reconnect net stop stopw c h = Some (x, waits, c', h')"
  shows "waits = map (\<lambda>i. backoff_cycle ! (i mod 10)) [0..<length waits] \<and> x \<noteq> AttemptsExhausted"
proof (cases "\<not> gl_connected c \<or> gl_stopping c")
  case True
  with assms(2) show ?thesis by (auto simp: reconnect_def enter_reconnect_def Let_def)
next
  case False
  let ?c = "reset_handles (enter_reconnect c)"
  have k: "gl_config ?c = DefaultGRPCClientConfig" using assms(1) by (simp add: reset_handles_def enter_reconnect_def)
  have d: "gk_ReconnectDelay DefaultGRPCClientConfig = backoff_cycle ! 0" by (simp add: backoff_cycle_def DefaultGRPCClientConfig_def second_def)
  have "reconnect_loop net stop stopw 0 0 (gk_ReconnectDelay DefaultGRPCClientConfig) [] ?c h = Some (x, waits, c', h')"
    using False assms by (simp add: reconnect_def enter_reconnect_def Let_def)
  from loop_waits [OF this] obtain n where n: "waits = schedule DefaultGRPCClientConfig 0 (gk_ReconnectDelay DefaultGRPCClientConfig) n"
    "x = AttemptsExhausted \<longrightarrow> 0 < gk_MaxReconnectAttempts DefaultGRPCClientConfig" unfolding k by auto
  with schedule_default [of 0 _ n, OF _ disjI1 [OF d]] show ?thesis by (simp add: DefaultGRPCClientConfig_def)
qed

section \<open>What the handshake leaves in the configuration\<close>

lemma handshake_config_ints: "ints_ok cfg \<Longrightarrow> in_int64 (tst_TargetPort st) \<Longrightarrow> ints_ok (handshake_config st cfg)"
  by (simp add: ints_ok_def handshake_config_def Let_def)

lemma handshake_config_keeps:
  "cf_AutoUpdate (handshake_config st cfg) = cf_AutoUpdate cfg" "config_Validate (handshake_config st cfg) = config_Validate cfg"
  by (simp_all add: handshake_config_def Let_def config_Validate_def)

lemma handshake_config_eq:
  "handshake_config st cfg =
     cfg\<lparr>cf_Domain := if tst_Domain st \<noteq> [] then tst_Domain st else cf_Domain cfg,
         cf_LocalPort := if tst_TargetPort st \<noteq> 0 \<and> tst_TargetPort st \<noteq> to_int32 (cf_LocalPort cfg) then tst_TargetPort st else cf_LocalPort cfg\<rparr>"
  by (simp add: handshake_config_def)

lemma save_handshake_Own:
  assumes "cfg_LoadConfig h = Inr (Own cfg)" "ints_ok cfg" "in_int64 (tst_TargetPort st)" "config_Validate cfg = None"
    "ch_mkdir h (GetConfigDir h)" "ch_write h (GetConfigPath h) = Written" "saveHandshakeResponseToConfig st c h = (c1, h1)"
  shows "cfg_LoadConfig h1 = Inr (Own (handshake_config st cfg))"
proof -
  let ?n = "handshake_config st cfg"
  have s: "SaveConfig ?n h = (None, snd (SaveConfig ?n h))"
    using assms(4-6) by (simp add: SaveConfig_def handshake_config_keeps GetConfigPath_def Let_def)
  have "cfg_LoadConfig (snd (SaveConfig ?n h)) = Inr (Own ?n)"
    using save_load [OF handshake_config_ints [OF assms(2,3)] s] LoadConfig_Own [OF assms(1)]
    by (simp add: applyAutoUpdateDefaults_def handshake_config_keeps)
  moreover have "?n = cfg \<or> h1 = snd (SaveConfig ?n h)" "?n = cfg \<longrightarrow> h1 = h \<or> h1 = snd (SaveConfig ?n h)"
    using assms(1,7) by (auto simp: saveHandshakeResponseToConfig_def Let_def assign_def handshake_config_def split: if_splits)
  ultimately show ?thesis using assms(1) by auto
qed

text \<open>
  C21. The client keeps what the server assigns: when a connection succeeds on a client with a stored valid configuration
  whose directory can be written, the stored configuration afterwards is the old one with the domain and the port of the
  server's answer, wherever the answer has them; nothing else in it changes, and requests are sent to the assigned port.
\<close>

theorem handshake_persisted:
  assumes "connect n c h = (None, c1, h1)" "EnsureConsistentConfigHome h = h" "cfg_LoadConfig h = Inr (Own cfg)" "ints_ok cfg"
    "config_Validate cfg = None" "ch_mkdir h (GetConfigDir h)" "ch_write h (GetConfigPath h) = Written"
    "at_answer n = StatusAnswer st" "in_int64 (tst_TargetPort st)"
  shows "cfg_LoadConfig h1 = Inr (Own (cfg\<lparr>cf_Domain := if tst_Domain st \<noteq> [] then tst_Domain st else cf_Domain cfg,
      cf_LocalPort := if tst_TargetPort st \<noteq> 0 \<and> tst_TargetPort st \<noteq> to_int32 (cf_LocalPort cfg) then tst_TargetPort st else cf_LocalPort cfg\<rparr>)) \<and>
    gl_targetPort c1 = (if tst_TargetPort st \<noteq> 0 then tst_TargetPort st else gl_targetPort c) \<and>
    gl_conn c1 = OpenHandle \<and> gl_stream c1 = OpenHandle"
  using assms(1)
proof (cases rule: connect_cases)
  case (succeeds st' c2 b)
  let ?c = "c\<lparr>gl_conn := OpenHandle, gl_stream := OpenHandle\<rparr>"
  have s: "saveHandshakeResponseToConfig st ?c h = (c2, h1)" using succeeds assms(2,8) by simp
  have "gl_targetPort c2 = (if tst_TargetPort st \<noteq> 0 then tst_TargetPort st else gl_targetPort c)"
    using s assms(3) by (auto simp: saveHandshakeResponseToConfig_def Let_def)
  then show ?thesis
    using save_handshake_Own [OF assms(3,4,9,5,6,7) s, unfolded handshake_config_eq] succeeds(5) s save_handshake_frame(7,8) [of st ?c h] by simp
qed simp

section \<open>Starting, stopping and reconnecting at the same time\<close>

text \<open>
  \<open>Start\<close>, \<open>Stop\<close>, \<open>reconnect\<close> and the reader's error path take the mutex \<open>mu\<close>; \<open>reconnect\<close> keeps it from
  its check to its return, across all attempts and waits. The state is the client, the machine, the number of readers whose
  \<open>Recv\<close> has failed but that have not yet decided, the number of goroutines that will call \<open>reconnect\<close>, and whether one of
  them is in its loop. A step of a reader is one of its sections under the mutex.
\<close>

record life_state =
  ls_client :: grpc_life
  ls_host :: client_host
  ls_failed :: nat
  ls_pending :: nat
  ls_looping :: bool

inductive life_step :: "life_state \<Rightarrow> life_state \<Rightarrow> bool" where
  start: "\<not> ls_looping s \<Longrightarrow> gl_Start n (ls_client s) (ls_host s) = (e, c, h) \<Longrightarrow>
    life_step s (s\<lparr>ls_client := c, ls_host := h\<rparr>)"
| stop: "\<not> ls_looping s \<Longrightarrow> life_step s (s\<lparr>ls_client := gl_Stop (ls_client s)\<rparr>)"
| reader: "\<not> ls_looping s \<Longrightarrow> gl_readers (ls_client s) > ls_failed s \<Longrightarrow>
    life_step s (s\<lparr>ls_client := reader_error e (ls_client s), ls_failed := ls_failed s + 1\<rparr>)"
| decide: "\<not> ls_looping s \<Longrightarrow> ls_failed s > 0 \<Longrightarrow> reader_ends (ls_client s) = (go, c) \<Longrightarrow>
    life_step s (s\<lparr>ls_client := c, ls_failed := ls_failed s - 1, ls_pending := ls_pending s + (if go then 1 else 0)\<rparr>)"
| skip: "\<not> ls_looping s \<Longrightarrow> ls_pending s > 0 \<Longrightarrow> \<not> gl_connected (ls_client s) \<or> gl_stopping (ls_client s) \<Longrightarrow>
    life_step s (s\<lparr>ls_client := enter_reconnect (ls_client s), ls_pending := ls_pending s - 1\<rparr>)"
| enter: "\<not> ls_looping s \<Longrightarrow> ls_pending s > 0 \<Longrightarrow> gl_connected (ls_client s) \<Longrightarrow> \<not> gl_stopping (ls_client s) \<Longrightarrow>
    life_step s (s\<lparr>ls_client := reset_handles (enter_reconnect (ls_client s)), ls_pending := ls_pending s - 1, ls_looping := True\<rparr>)"
| retry: "ls_looping s \<Longrightarrow> connect n (ls_client s) (ls_host s) = (Some e, c, h) \<Longrightarrow> \<not> is_fatal e \<Longrightarrow>
    life_step s (s\<lparr>ls_client := c, ls_host := h\<rparr>)"
| fatal: "ls_looping s \<Longrightarrow> connect n (ls_client s) (ls_host s) = (Some e, c, h) \<Longrightarrow> is_fatal e \<Longrightarrow>
    life_step s (s\<lparr>ls_client := c, ls_host := h, ls_looping := False\<rparr>)"
| reconnected: "ls_looping s \<Longrightarrow> connect n (ls_client s) (ls_host s) = (None, c, h) \<Longrightarrow>
    life_step s (s\<lparr>ls_client := c\<lparr>gl_connected := True, gl_readers := gl_readers c + 1\<rparr>, ls_host := h, ls_looping := False\<rparr>)"
| gives_up: "ls_looping s \<Longrightarrow> gk_MaxReconnectAttempts (gl_config (ls_client s)) > 0 \<or> gl_stopped (ls_client s) \<or> gl_cancelled (ls_client s) \<Longrightarrow>
    life_step s (s\<lparr>ls_looping := False\<rparr>)"

definition life_init :: "life_state \<Rightarrow> bool" where
  "life_init s \<longleftrightarrow> (\<exists>addr domain token port cfg g. ls_client s = fst (NewGRPCTunnelClient addr domain token port cfg g)) \<and>
     ls_failed s = 0 \<and> ls_pending s = 0 \<and> \<not> ls_looping s"

definition life_inv :: "life_state \<Rightarrow> bool" where
  "life_inv s \<longleftrightarrow> (let c = ls_client s in
     gl_stopped c = gl_stopping c \<and> gl_cancelled c = gl_stopping c \<and>
     (ls_looping s \<longrightarrow> \<not> gl_stopping c \<and> \<not> gl_connected c) \<and>
     (gl_connected c \<longrightarrow> gl_conn c = OpenHandle \<and> gl_stream c = OpenHandle) \<and> \<not> gl_connecting c)"

lemma connect_ok_handles: "connect n c h = (None, c1, h1) \<Longrightarrow> gl_conn c1 = OpenHandle \<and> gl_stream c1 = OpenHandle"
  by (erule connect_cases) (use save_handshake_frame(7,8) in \<open>force simp: prod_eq_iff\<close>)+

lemma connect_connecting: "connect n c h = (e, c1, h1) \<Longrightarrow> gl_connecting c1 = gl_connecting c"
proof (erule connect_cases)
  fix st c2 b
  assume s: "saveHandshakeResponseToConfig st (c\<lparr>gl_conn := OpenHandle, gl_stream := OpenHandle\<rparr>) (EnsureConsistentConfigHome h) = (c2, h1)"
    and c: "c1 = c2\<lparr>gl_control := b\<rparr>"
  show ?thesis using s unfolding c by (auto simp: saveHandshakeResponseToConfig_def Let_def split: sum.splits if_splits)
qed simp

lemma Start_inv:
  assumes "life_inv s" "\<not> ls_looping s" "gl_Start n (ls_client s) (ls_host s) = (e, c, h)"
  shows "life_inv (s\<lparr>ls_client := c, ls_host := h\<rparr>)"
proof (cases "gl_connecting (ls_client s) \<or> gl_connected (ls_client s)")
  case True
  then have "c = ls_client s" using assms(3) by (auto simp: gl_Start_def)
  with assms(1,2) show ?thesis by (simp add: life_inv_def)
next
  case False
  obtain e1 c1 h1 where k: "connect n ((ls_client s)\<lparr>gl_connecting := True\<rparr>) (ls_host s) = (e1, c1, h1)"
    by (cases "connect n ((ls_client s)\<lparr>gl_connecting := True\<rparr>) (ls_host s)")
  show ?thesis
    using False k assms connect_frame [OF k] connect_ok_handles [of n _ "ls_host s" c1 h1]
    by (cases e1) (auto simp: gl_Start_def life_inv_def Let_def)
qed

lemma life_step_inv: "life_step s t \<Longrightarrow> life_inv s \<Longrightarrow> life_inv t"
proof (induction rule: life_step.induct)
  case (start s n e c h)
  then show ?case by (rule Start_inv [rotated])
next
  case (reader s e)
  then show ?case by (auto simp: life_inv_def reader_error_def Let_def split: recv_error.splits)
next
  case (decide s go c)
  then show ?case by (auto simp: life_inv_def reader_ends_def Let_def)
next
  case (retry s n e c h)
  then show ?case using connect_frame [OF retry(2)] connect_connecting [OF retry(2)] by (simp add: life_inv_def Let_def)
next
  case (fatal s n e c h)
  then show ?case using connect_frame [OF fatal(2)] connect_connecting [OF fatal(2)] by (simp add: life_inv_def Let_def)
next
  case (reconnected s n c h)
  then show ?case using connect_frame [OF reconnected(2)] connect_connecting [OF reconnected(2)] connect_ok_handles [OF reconnected(2)]
    by (simp add: life_inv_def Let_def)
qed (auto simp: life_inv_def Let_def gl_Stop_def enter_reconnect_def reset_handles_def)

lemma life_init_inv: "life_init s \<Longrightarrow> life_inv s"
  by (auto simp: life_init_def life_inv_def NewGRPCTunnelClient_def Let_def)

interpretation life: transition_system life_init life_step life_inv
  by unfold_locales (rule life_init_inv life_step_inv; assumption)+


section \<open>Witnesses\<close>

definition demo_certs :: cert_files where
  "demo_certs = \<lparr>cx_stat = (\<lambda>p. StatOK), cx_order = (\<lambda>fs. fs), cx_read = (\<lambda>p. None), cx_parses = (\<lambda>p. True), cx_keypair = (\<lambda>a b. None)\<rparr>"

definition demo_net :: "string option \<Rightarrow> attempt" where
  "demo_net dial =
     \<lparr>at_certs = demo_certs, at_load_error = [], at_dial = dial, at_stream = None, at_send = None,
      at_answer = StatusAnswer \<lparr>tst_Connected = True, tst_Domain = ''d.io'', tst_TargetPort = 3000, tst_ErrorMessage = []\<rparr>, at_control = True\<rparr>"

definition demo_client_config :: config where
  "demo_client_config = DefaultConfig\<lparr>cf_Token := ''t'', cf_Security := \<lparr>sc_InsecureSkipVerify = False, sc_CACert = ''/ca'', sc_ClientCert = ''/crt'', sc_ClientKey = ''/key''\<rparr>\<rparr>"

definition demo_host :: client_host where
  "demo_host = \<lparr>ch_env = (\<lambda>v. if v = ''HOME'' then ''/home/u'' else []), ch_windows = False, ch_euid = 1000, ch_lookup = (\<lambda>u. None),
     ch_files = (\<lambda>p. Doc (marshal_config demo_client_config)), ch_mkdir = (\<lambda>p. True), ch_write = (\<lambda>p. Written), ch_default = DefaultConfig\<rparr>"

definition demo_client :: grpc_life where
  "demo_client = fst (NewGRPCTunnelClient ''s:4444'' [] ''t'' 0 None \<lparr>cg_stableID = [], cg_counter = 0\<rparr>)"

lemma demo_ints: "ints_ok demo_client_config"
  by (simp add: ints_ok_def demo_client_config_def DefaultConfig_def in_int64_def second_def)

lemma demo_load: "cfg_LoadConfig demo_host = Inr (Own demo_client_config)"
proof -
  have "applyAutoUpdateDefaults DefaultConfig demo_client_config = demo_client_config"
    by (simp add: applyAutoUpdateDefaults_def backfill_def demo_client_config_def DefaultConfig_def second_def Let_def)
  then show ?thesis using marshal_roundtrip [OF demo_ints] by (simp add: cfg_LoadConfig_def demo_host_def)
qed

lemma demo_home: "EnsureConsistentConfigHome demo_host = demo_host"
  by (simp add: EnsureConsistentConfigHome_def demo_host_def)

lemma demo_secure: "\<exists>t. secure_settings configure_hint demo_certs [] demo_host = Inr t"
proof -
  have v: "cv_Valid (ValidateCertificateFiles demo_host (cx_stat demo_certs) (cx_order demo_certs) ''/ca'' ''/crt'' ''/key'')"
    by (simp add: certificates_valid_iff demo_certs_def)
  have s: "cf_Security demo_client_config = \<lparr>sc_InsecureSkipVerify = False, sc_CACert = ''/ca'', sc_ClientCert = ''/crt'', sc_ClientKey = ''/key''\<rparr>"
    by (simp add: demo_client_config_def)
  have x: "cx_read demo_certs p = None" "cx_parses demo_certs p" "cx_keypair demo_certs p q = None" for p q by (simp_all add: demo_certs_def)
  show ?thesis by (simp add: secure_settings_def demo_load s v CreateSecureTLSConfig_def x Let_def)
qed

lemma demo_connect_ok: "fst (connect (demo_net None) c demo_host) = None"
  using demo_secure
  by (auto simp: connect_def demo_home demo_net_def open_tunnel_def waitForHandshakeResponse_def Let_def split: prod.splits)

lemma demo_connect_fails: "connect (demo_net (Some ''refused'')) c demo_host = (Some ''failed to connect to server: refused'', c, demo_host)"
  using demo_secure by (auto simp: connect_def demo_home demo_net_def open_tunnel_def)

lemma not_fatal_refused: "\<not> is_fatal ''failed to connect to server: refused''"
  by code_simp

theorem reconnect_schedule_witness:
  "\<exists>c' h'. reconnect (\<lambda>k. demo_net (Some ''refused'')) (\<lambda>k. k \<ge> 2) (\<lambda>k. False) (demo_client\<lparr>gl_connected := True\<rparr>) demo_host =
     Some (StopSeen, map (\<lambda>i. backoff_cycle ! (i mod 10)) [0..<2], c', h')"
proof -
  let ?net = "\<lambda>k::nat. demo_net (Some ''refused'')" and ?c = "demo_client\<lparr>gl_connected := True\<rparr>" and ?s = "\<lambda>k::nat. k \<ge> 2" and ?w = "\<lambda>k::nat. False"
  have k: "gl_config ?c = DefaultGRPCClientConfig" by (simp add: demo_client_def NewGRPCTunnelClient_def Let_def)
  have k': "gk_MaxReconnectAttempts (gl_config (reset_handles (enter_reconnect ?c))) = - 1"
    using k by (simp add: reset_handles_def enter_reconnect_def DefaultGRPCClientConfig_def)
  have "\<exists>waits c' h'. reconnect ?net ?s ?w ?c demo_host = Some (StopSeen, waits, c', h') \<and> length waits = 2"
  proof -
    have "\<exists>waits c' h'. reconnect_loop ?net ?s ?w 0 0 d [] (reset_handles (enter_reconnect ?c)) demo_host = Some (StopSeen, waits, c', h') \<and> length waits = 2" for d
      by (simp add: reconnect_loop.simps [of _ _ _ 0] reconnect_loop.simps [of _ _ _ "Suc 0"] reconnect_loop.simps [of _ _ _ "Suc (Suc 0)"]
          demo_connect_fails not_fatal_refused k' maxConsecutiveFailures_def)
    moreover have "gl_connected (enter_reconnect ?c)" "\<not> gl_stopping (enter_reconnect ?c)"
      by (simp_all add: enter_reconnect_def demo_client_def NewGRPCTunnelClient_def Let_def)
    ultimately show ?thesis unfolding reconnect_def Let_def by simp
  qed
  then obtain waits c' h' where r: "reconnect ?net ?s ?w ?c demo_host = Some (StopSeen, waits, c', h')" "length waits = 2" by blast
  show ?thesis using reconnect_schedule [OF k r(1)] r by auto
qed

theorem reconnect_returns_iff_witness:
  "\<exists>r. reconnect (\<lambda>k. demo_net (Some ''refused'')) (\<lambda>k. False) (\<lambda>k. False)
     (demo_client\<lparr>gl_connected := True, gl_config := DefaultGRPCClientConfig\<lparr>gk_MaxReconnectAttempts := 2\<rparr>\<rparr>) demo_host = Some r"
  unfolding reconnect_returns_iff by simp

theorem handshake_persisted_witness:
  "\<exists>c1 h1. connect (demo_net None) demo_client demo_host = (None, c1, h1) \<and>
     cfg_LoadConfig h1 = Inr (Own (demo_client_config\<lparr>cf_Domain := ''d.io'', cf_LocalPort := 3000\<rparr>)) \<and> gl_targetPort c1 = 3000"
proof -
  obtain c1 h1 where k: "connect (demo_net None) demo_client demo_host = (None, c1, h1)"
    using demo_connect_ok [of demo_client] by (metis prod.collapse)
  have a: "config_Validate demo_client_config = None" by (simp add: config_Validate_def demo_client_config_def DefaultConfig_def)
  have b: "ch_mkdir demo_host (GetConfigDir demo_host)" "ch_write demo_host (GetConfigPath demo_host) = Written" by (simp_all add: demo_host_def)
  let ?st = "\<lparr>tst_Connected = True, tst_Domain = ''d.io'', tst_TargetPort = 3000, tst_ErrorMessage = []\<rparr>"
  have n: "at_answer (demo_net None) = StatusAnswer ?st" by (simp add: demo_net_def)
  have p: "in_int64 (tst_TargetPort ?st)" by (simp add: in_int64_def)
  have "to_int32 (cf_LocalPort demo_client_config) = 0" by (simp add: demo_client_config_def DefaultConfig_def to_int32_def)
  with handshake_persisted [OF k demo_home demo_load demo_ints a b n p] k show ?thesis by auto
qed


end
