(* ===== verification/Client_Tunnel.thy ===== *)
theory Client_Tunnel
  imports Singleton Client_Life "HOL-Library.Multiset"
begin

text \<open>
  The tunnel of the command line client (\<open>internal/tunnel/tunnel.go\<close>): connecting with retries, the classification of errors,
  reconnecting and disconnecting, saving and restoring its state, and the WebSocket tunnels it opens when the server asks for them.
  It composes the gRPC client (\<open>Client_Life\<close>), the configuration (\<open>Client_Config\<close>) and the lock (\<open>Singleton\<close>). The network
  and the local service are parameters. \<open>rand.Float64\<close> is \<open>r / 2 ^ 53\<close> for a number \<open>r\<close> below \<open>2 ^ 53\<close>.
\<close>

section \<open>Classification of errors\<close>

text \<open>\<open>contains\<close> and \<open>indexOf\<close> are written out in the source; a position of -1 is \<^const>\<open>None\<close>.\<close>

fun index_from :: "string \<Rightarrow> string \<Rightarrow> nat \<Rightarrow> nat \<Rightarrow> nat option" where
  "index_from s sub i 0 = None"
| "index_from s sub i (Suc n) = (if take (length sub) (drop i s) = sub then Some i else index_from s sub (Suc i) n)"

definition indexOf :: "string \<Rightarrow> string \<Rightarrow> nat option" where
  "indexOf s sub = (if length sub \<le> length s then index_from s sub 0 (length s - length sub + 1) else None)"

definition contains :: "string \<Rightarrow> string \<Rightarrow> bool" where
  "contains s sub \<longleftrightarrow> length s \<ge> length sub \<and>
     (s = sub \<or> length s > length sub \<and>
        (take (length sub) s = sub \<or> drop (length s - length sub) s = sub \<or> indexOf s sub \<noteq> None))"

definition authErrorKeywords :: "string list" where
  "authErrorKeywords =
     [''multiple active tunnels found'', ''multiple enabled tunnels found'', ''no active tunnels found'', ''is inactive'',
      ''authentication failed'', ''unauthenticated'', ''invalid token'', ''no tunnel found for domain'']"

definition isAuthenticationError :: "string \<Rightarrow> bool" where
  "isAuthenticationError e \<longleftrightarrow> list_ex (Contains (ToLower e)) authErrorKeywords"

definition maintenanceKeywords :: "string list" where
  "maintenanceKeywords = [''maintenance'', ''service unavailable'', ''temporarily unavailable'', ''503'']"

definition isMaintenanceError :: "string \<Rightarrow> bool" where
  "isMaintenanceError e \<longleftrightarrow> list_ex (contains e) maintenanceKeywords"

definition isExpectedConnectionClose :: "string option \<Rightarrow> bool" where
  "isExpectedConnectionClose err =
     (case err of
        None \<Rightarrow> True
      | Some e \<Rightarrow> list_ex (Contains e) [''use of closed network connection'', ''connection reset by peer'', ''EOF'', ''broken pipe''])"

lemma index_from_iff: "index_from s sub i n \<noteq> None \<longleftrightarrow> (\<exists>j. i \<le> j \<and> j < i + n \<and> take (length sub) (drop j s) = sub)"
proof (induction n arbitrary: i)
  case (Suc n)
  have "(\<exists>j. i \<le> j \<and> j < i + Suc n \<and> take (length sub) (drop j s) = sub) \<longleftrightarrow>
    take (length sub) (drop i s) = sub \<or> (\<exists>j. Suc i \<le> j \<and> j < Suc i + n \<and> take (length sub) (drop j s) = sub)"
    by (metis Suc_leD add_Suc_right add_Suc_shift le_antisym not_less_eq_eq le_add1 le_imp_less_Suc)
  with Suc.IH [of "Suc i"] show ?case by auto
qed simp

lemma Contains_take: "Contains s sub \<longleftrightarrow> (\<exists>j \<le> length s - length sub. take (length sub) (drop j s) = sub) \<and> length sub \<le> length s"
proof
  assume "Contains s sub"
  then obtain a b where s: "s = a @ sub @ b" by (auto simp: Contains_iff)
  then have "take (length sub) (drop (length a) s) = sub" "length a \<le> length s - length sub" by simp_all
  moreover have "length sub \<le> length s" using s by simp
  ultimately show "(\<exists>j \<le> length s - length sub. take (length sub) (drop j s) = sub) \<and> length sub \<le> length s" by blast
next
  assume "(\<exists>j \<le> length s - length sub. take (length sub) (drop j s) = sub) \<and> length sub \<le> length s"
  then obtain j where "take (length sub) (drop j s) = sub" by blast
  then have "s = take j s @ sub @ drop (length sub) (drop j s)" by (metis append_take_drop_id)
  then show "Contains s sub" unfolding Contains_iff by blast
qed

lemma indexOf_iff: "indexOf s sub \<noteq> None \<longleftrightarrow> Contains s sub"
  using index_from_iff [of s sub 0 "length s - length sub + 1"]
  unfolding indexOf_def Contains_take by (simp add: less_Suc_eq_le del: index_from.simps)

lemma contains_Contains: "contains s sub \<longleftrightarrow> Contains s sub"
proof
  assume "contains s sub"
  then consider "s = sub" | "take (length sub) s = sub" | "drop (length s - length sub) s = sub" | "indexOf s sub \<noteq> None"
    by (auto simp: contains_def)
  then show "Contains s sub"
    by cases (metis Contains_iff append_Nil append_Nil2, metis Contains_iff append_Nil append_take_drop_id,
        metis Contains_iff append_Nil2 append_take_drop_id, blast intro: indexOf_iff [THEN iffD1])
next
  assume c: "Contains s sub"
  have l: "length sub \<le> length s" using c by (simp add: Contains_take)
  have i: "indexOf s sub \<noteq> None" using c indexOf_iff by blast
  show "contains s sub"
  proof (cases "length s = length sub")
    case True
    then have "s = sub" using c by (auto simp: Contains_iff)
    then show ?thesis by (simp add: contains_def)
  next
    case False
    with l have "length sub < length s" by simp
    with i l show ?thesis unfolding contains_def by blast
  qed
qed

section \<open>Retries\<close>

datatype connection_state = StateDisconnected | StateConnecting | StateConnected | StateReconnecting | StateMaintenance | StateFailed

record retry_config =
  rc_MaxRetries :: int
  rc_InitialDelay :: int
  rc_MaxDelay :: int
  rc_BackoffFactor :: "int \<times> int"
  rc_JitterEnabled :: bool
  rc_HealthCheckInterval :: int

definition DefaultRetryConfig :: retry_config where
  "DefaultRetryConfig =
     \<lparr>rc_MaxRetries = - 1, rc_InitialDelay = second, rc_MaxDelay = 300 * second, rc_BackoffFactor = (2, 1),
      rc_JitterEnabled = True, rc_HealthCheckInterval = 30 * second\<rparr>"

definition calculateNextDelay :: "retry_config \<Rightarrow> nat \<Rightarrow> int \<Rightarrow> int" where
  "calculateNextDelay k r d =
     (let d1 = scale (rc_BackoffFactor k) d; d2 = (if d1 > rc_MaxDelay k then rc_MaxDelay k else d1)
      in if rc_JitterEnabled k then d2 + scale (2 * int r - 2 ^ 53, 10 * 2 ^ 53) d2 else d2)"

fun retry_delay :: "retry_config \<Rightarrow> (nat \<Rightarrow> nat) \<Rightarrow> nat \<Rightarrow> int" where
  "retry_delay k r 0 = rc_InitialDelay k"
| "retry_delay k r (Suc n) = calculateNextDelay k (r n) (retry_delay k r n)"

lemma jitter_bounds:
  assumes "0 \<le> d" "r < 2 ^ 53"
  shows "\<bar>scale (2 * int r - 2 ^ 53, 10 * 2 ^ 53) d\<bar> * 10 \<le> d"
proof -
  let ?q = "2 * int r - 2 ^ 53" and ?n = "10 * 2 ^ 53 :: int"
  have r: "int r < 2 ^ 53" using assms(2) by (metis of_nat_less_iff of_nat_numeral of_nat_power)
  then have q: "\<bar>?q\<bar> \<le> 2 ^ 53" by linarith
  have "\<bar>scale (?q, ?n) d\<bar> = \<bar>d * ?q\<bar> div ?n"
  proof (cases "0 \<le> d * ?q")
    case True
    then show ?thesis by (simp add: scale_def Let_def pos_imp_zdiv_nonneg_iff)
  next
    case False
    then have "0 \<le> (- (d * ?q)) div ?n" by (simp add: pos_imp_zdiv_nonneg_iff)
    with False show ?thesis by (simp add: scale_def Let_def)
  qed
  moreover have "(\<bar>d * ?q\<bar> div ?n * 10) * 2 ^ 53 \<le> d * 2 ^ 53"
  proof -
    have "\<bar>d * ?q\<bar> div ?n * ?n + \<bar>d * ?q\<bar> mod ?n = \<bar>d * ?q\<bar>" "0 \<le> \<bar>d * ?q\<bar> mod ?n" by (simp_all only: div_mult_mod_eq) simp
    moreover have "\<bar>d * ?q\<bar> \<le> d * 2 ^ 53" using assms(1) mult_left_mono [OF q assms(1)] by (simp add: abs_mult)
    ultimately show ?thesis by linarith
  qed
  ultimately show ?thesis by simp
qed

lemma next_delay_bounds:
  assumes "0 < d" "r < 2 ^ 53"
  shows "10 * calculateNextDelay DefaultRetryConfig r d \<le> 11 * min (2 * d) (300 * second)"
    "10 * calculateNextDelay DefaultRetryConfig r d \<ge> 9 * min (2 * d) (300 * second)"
proof -
  let ?m = "min (2 * d) (300 * second)"
  have m: "0 \<le> ?m" using assms(1) by (simp add: second_def)
  have "calculateNextDelay DefaultRetryConfig r d = ?m + scale (2 * int r - 2 ^ 53, 10 * 2 ^ 53) ?m"
    using assms(1) by (auto simp: calculateNextDelay_def DefaultRetryConfig_def scale_def [of "(2, 1)"] min_def Let_def mult.commute)
  with jitter_bounds [OF m assms(2)] show "10 * calculateNextDelay DefaultRetryConfig r d \<le> 11 * ?m" "10 * calculateNextDelay DefaultRetryConfig r d \<ge> 9 * ?m"
    by linarith+
qed


section \<open>The tunnel\<close>

record tunnel =
  tu_token :: string
  tu_domain :: string
  tu_localPort :: int
  tu_singleton :: bool
  tu_state :: connection_state
  tu_retry :: retry_config
  tu_retryCount :: int
  tu_lastError :: "string option"
  tu_health :: bool
  tu_cancelled :: bool
  tu_stopped :: bool
  tu_conn :: "nat option"
  tu_wsConns :: "nat list"
  tu_httpConns :: "nat list"
  tu_closed :: "nat list"
  tu_reconnecting :: bool
  tu_intentional :: bool
  tu_grpc :: "grpc_life option"
  tu_grpcEnabled :: bool
  tu_hooks :: nat

text \<open>
  \<open>tu_health\<close>: the health ticker runs; \<open>tu_closed\<close>: the connections closed so far, in order; \<open>tu_hooks\<close>: how often the
  connection hook was called. The world around it: the machine, the lock file, and the globals of the package.
\<close>

record world =
  w_host :: client_host
  w_locks :: lock_fs
  w_globals :: client_globals

definition NewTunnel :: "bool \<Rightarrow> tunnel" where
  "NewTunnel singleton =
     \<lparr>tu_token = [], tu_domain = [], tu_localPort = 0, tu_singleton = singleton, tu_state = StateDisconnected, tu_retry = DefaultRetryConfig,
      tu_retryCount = 0, tu_lastError = None, tu_health = False, tu_cancelled = False, tu_stopped = False, tu_conn = None, tu_wsConns = [],
      tu_httpConns = [], tu_closed = [], tu_reconnecting = False, tu_intentional = False, tu_grpc = None, tu_grpcEnabled = False, tu_hooks = 0\<rparr>"

definition replace_port :: "string \<Rightarrow> string \<Rightarrow> string \<Rightarrow> string" where
  "replace_port s old new =
     (case Index s old of None \<Rightarrow> s | Some i \<Rightarrow> take i s @ new @ drop (i + length old) s)"

definition grpc_required :: string where
  "grpc_required = ''gRPC tunnel is required for demand-based tunnel establishment - cannot proceed without it''"

text \<open>\<open>Start\<close> of the gRPC client inside \<open>attemptDualConnections\<close>: only authentication errors are passed on.\<close>

definition start_grpc :: "attempt \<Rightarrow> grpc_life \<Rightarrow> tunnel \<Rightarrow> world \<Rightarrow> string option \<times> tunnel \<times> world" where
  "start_grpc n c t w =
     (case gl_Start n c (w_host w) of
        (None, c1, h1) \<Rightarrow> (None, t\<lparr>tu_grpc := Some c1, tu_grpcEnabled := True\<rparr>, w\<lparr>w_host := h1\<rparr>)
      | (Some e, c1, h1) \<Rightarrow>
          if isAuthenticationError e then (Some e, t\<lparr>tu_grpc := Some c1\<rparr>, w\<lparr>w_host := h1\<rparr>)
          else (Some grpc_required, t\<lparr>tu_grpc := Some c1, tu_grpcEnabled := False\<rparr>, w\<lparr>w_host := h1\<rparr>))"

definition attemptDualConnections :: "attempt \<Rightarrow> string \<Rightarrow> bool \<Rightarrow> tunnel \<Rightarrow> world \<Rightarrow> string option \<times> tunnel \<times> world" where
  "attemptDualConnections n serverAddr tls t w0 =
     (let w = (if tls then w0 else w0\<lparr>w_host := EnsureConsistentConfigHome (w_host w0)\<rparr>)
      in case (if tls then None
               else case secure_settings configure_hint (at_certs n) (at_load_error n) (w_host w) of Inl e \<Rightarrow> Some e | Inr _ \<Rightarrow> None) of
           Some e \<Rightarrow> (Some e, t, w)
         | None \<Rightarrow>
             (case tu_grpc t of
                None \<Rightarrow>
                  (let (c, g) = NewGRPCTunnelClient (replace_port serverAddr '':4443'' '':4444'') (tu_domain t) (tu_token t)
                                  (to_int32 (tu_localPort t)) (Some DefaultGRPCClientConfig) (w_globals w)
                   in start_grpc n c t (w\<lparr>w_globals := g\<rparr>))
              | Some c \<Rightarrow>
                  if gl_connected c then (None, t\<lparr>tu_grpcEnabled := True\<rparr>, w)
                  else start_grpc n c t w))"

definition connected_now :: "tunnel \<Rightarrow> tunnel" where
  "connected_now t = t\<lparr>tu_retryCount := 0, tu_state := StateConnected, tu_health := True, tu_hooks := tu_hooks t + 1\<rparr>"

definition max_retries_text :: "tunnel \<Rightarrow> string" where
  "max_retries_text t =
     ''max retries ('' @ dec (nat (rc_MaxRetries (tu_retry t))) @ '') exceeded, last error: '' @
     (case tu_lastError t of None \<Rightarrow> [] | Some e \<Rightarrow> e)"

text \<open>
  \<open>connectWithRetry\<close>. \<open>net k\<close>, \<open>rnd k\<close>: the network and the random number of the \<open>k\<close>-th round; \<open>cancel k\<close>, \<open>cancelw k\<close>:
  the context is done at its start or while it waits.
\<close>

partial_function (option) retry_loop ::
    "(nat \<Rightarrow> attempt) \<Rightarrow> (nat \<Rightarrow> nat) \<Rightarrow> (nat \<Rightarrow> bool) \<Rightarrow> (nat \<Rightarrow> bool) \<Rightarrow> string \<Rightarrow> bool \<Rightarrow> nat \<Rightarrow> int \<Rightarrow> tunnel \<Rightarrow> world \<Rightarrow>
     (string option \<times> tunnel \<times> world) option" where
  "retry_loop net rnd cancel cancelw addr tls k delay t w =
     (if cancel k then Some (Some ''connection cancelled'', t, w)
      else if rc_MaxRetries (tu_retry t) > 0 \<and> tu_retryCount t \<ge> rc_MaxRetries (tu_retry t)
      then Some (Some (max_retries_text t), t\<lparr>tu_state := StateFailed\<rparr>, w)
      else
        (let t1 = t\<lparr>tu_state := if tu_retryCount t = 0 then StateConnecting else StateReconnecting\<rparr>
         in if tu_retryCount t \<noteq> 0 \<and> cancelw k then Some (Some ''connection cancelled during retry'', t1, w)
            else case attemptDualConnections (net k) addr tls t1 w of
                   (None, t2, w2) \<Rightarrow> Some (None, connected_now t2, w2)
                 | (Some e, t2, w2) \<Rightarrow>
                     (let t3 = t2\<lparr>tu_lastError := Some e, tu_retryCount := tu_retryCount t2 + 1\<rparr>
                      in if isAuthenticationError e then Some (Some e, t3\<lparr>tu_state := StateFailed\<rparr>, w2)
                         else if isMaintenanceError e
                         then retry_loop net rnd cancel cancelw addr tls (Suc k) (rc_HealthCheckInterval (tu_retry t3)) (t3\<lparr>tu_state := StateMaintenance\<rparr>) w2
                         else retry_loop net rnd cancel cancelw addr tls (Suc k) (calculateNextDelay (tu_retry t3) (rnd k) delay) t3 w2)))"

definition connectWithRetry ::
    "(nat \<Rightarrow> attempt) \<Rightarrow> (nat \<Rightarrow> nat) \<Rightarrow> (nat \<Rightarrow> bool) \<Rightarrow> (nat \<Rightarrow> bool) \<Rightarrow> string \<Rightarrow> bool \<Rightarrow> tunnel \<Rightarrow> world \<Rightarrow>
     (string option \<times> tunnel \<times> world) option" where
  "connectWithRetry net rnd cancel cancelw addr tls t w =
     retry_loop net rnd cancel cancelw addr tls 0 (rc_InitialDelay (tu_retry t)) (t\<lparr>tu_retryCount := 0\<rparr>) w"

definition service_conflict_text :: string where
  "service_conflict_text =
     ''GiraffeCloud service is already running. Use 'giraffecloud service stop' to stop the service before running the tunnel directly''"

text \<open>The texts of the system's own errors inside these are left out.\<close>

fun lock_error_text :: "lock_error \<Rightarrow> string" where
  "lock_error_text LkMkdir = ''failed to create pid directory: ''"
| "lock_error_text LkOpen = ''failed to open pid file: ''"
| "lock_error_text LkFlock = ''failed to acquire advisory lock: ''"
| "lock_error_text (AlreadyRunning pid) =
     ''tunnel is already running (PID: '' @ dec (nat pid) @ ''). Use 'giraffecloud service status' to check service status''"

definition Connect ::
    "(nat \<Rightarrow> attempt) \<Rightarrow> (nat \<Rightarrow> nat) \<Rightarrow> (nat \<Rightarrow> bool) \<Rightarrow> (nat \<Rightarrow> bool) \<Rightarrow> lock_faults \<Rightarrow> bool option \<Rightarrow> (nat \<Rightarrow> nat) \<Rightarrow> nat \<Rightarrow>
     string \<Rightarrow> string \<Rightarrow> string \<Rightarrow> int \<Rightarrow> bool \<Rightarrow> tunnel \<Rightarrow> world \<Rightarrow> (string option \<times> tunnel \<times> world) option" where
  "Connect net rnd cancel cancelw f service pid p addr token domain localPort tls t w =
     (let go = (\<lambda>w. connectWithRetry net rnd cancel cancelw addr tls
                       (t\<lparr>tu_cancelled := False, tu_token := token, tu_domain := domain, tu_localPort := localPort\<rparr>) w)
      in if \<not> tu_singleton t then go w
         else
           (let w1 = w\<lparr>w_locks := snd (CleanupStaleLock f (w_locks w))\<rparr>
            in if CheckServiceConflict (ch_env (w_host w)) service then Some (Some (''service conflict detected: '' @ service_conflict_text), t, w1)
               else case AcquireLock f pid p (w_locks w1) of
                      (Some e, l) \<Rightarrow> Some (Some (''failed to acquire singleton lock: '' @ lock_error_text e), t, w1\<lparr>w_locks := l\<rparr>)
                    | (None, l) \<Rightarrow> go (w1\<lparr>w_locks := l\<rparr>)))"

section \<open>What connecting leads to\<close>

lemma gl_Start_ok: "gl_Start n c h = (None, c1, h1) \<Longrightarrow> gl_connected c1"
  by (auto simp: gl_Start_def split: if_splits prod.splits option.splits)

lemma start_grpc_frame:
  assumes "start_grpc n c t w = (e, t2, w2)"
  shows "tu_retry t2 = tu_retry t" "tu_retryCount t2 = tu_retryCount t" "tu_state t2 = tu_state t"
    "e = None \<Longrightarrow> tu_grpcEnabled t2 \<and> (\<exists>c. tu_grpc t2 = Some c \<and> gl_connected c)"
    "e \<noteq> None \<Longrightarrow> \<exists>x. e = Some x \<and> (isAuthenticationError x \<or> x = grpc_required)"
  using assms by (auto simp: start_grpc_def split: prod.splits option.splits if_splits dest: gl_Start_ok)

lemma attempt_cases:
  assumes "attemptDualConnections n addr tls t w = (e, t2, w2)"
  obtains (settings) x where "e = Some x" "t2 = t" "\<not> tls" "secure_settings configure_hint (at_certs n) (at_load_error n) (EnsureConsistentConfigHome (w_host w)) = Inl x"
    | (reused) c where "e = None" "tu_grpc t = Some c" "gl_connected c" "t2 = t\<lparr>tu_grpcEnabled := True\<rparr>"
    | (started) c w1 where "start_grpc n c t w1 = (e, t2, w2)"
      "w_host w1 = (if tls then w_host w else EnsureConsistentConfigHome (w_host w))"
      "tu_grpc t = None \<or> tu_grpc t = Some c"
proof -
  let ?w = "if tls then w else w\<lparr>w_host := EnsureConsistentConfigHome (w_host w)\<rparr>"
  let ?s = "if tls then None else case secure_settings configure_hint (at_certs n) (at_load_error n) (w_host ?w) of Inl e \<Rightarrow> Some e | Inr _ \<Rightarrow> None"
  have h: "w_host ?w = (if tls then w_host w else EnsureConsistentConfigHome (w_host w))" by simp
  show thesis
  proof (cases ?s)
    case (Some x)
    then have "\<not> tls" "secure_settings configure_hint (at_certs n) (at_load_error n) (EnsureConsistentConfigHome (w_host w)) = Inl x"
      by (auto split: if_splits sum.splits)
    moreover have "e = Some x" "t2 = t" using Some assms by (simp_all add: attemptDualConnections_def Let_def split: if_splits sum.splits)
    ultimately show ?thesis using settings by blast
  next
    case None
    then have a: "(case tu_grpc t of
        None \<Rightarrow> (let (c, g) = NewGRPCTunnelClient (replace_port addr '':4443'' '':4444'') (tu_domain t) (tu_token t)
                  (to_int32 (tu_localPort t)) (Some DefaultGRPCClientConfig) (w_globals ?w) in start_grpc n c t (?w\<lparr>w_globals := g\<rparr>))
      | Some c \<Rightarrow> if gl_connected c then (None, t\<lparr>tu_grpcEnabled := True\<rparr>, ?w) else start_grpc n c t ?w) = (e, t2, w2)"
      using assms unfolding attemptDualConnections_def Let_def by simp
    show ?thesis
    proof (cases "tu_grpc t")
      case none: None
      obtain c g where cg: "NewGRPCTunnelClient (replace_port addr '':4443'' '':4444'') (tu_domain t) (tu_token t)
          (to_int32 (tu_localPort t)) (Some DefaultGRPCClientConfig) (w_globals ?w) = (c, g)" by (metis surj_pair)
      show ?thesis using started [of c "?w\<lparr>w_globals := g\<rparr>"] a none cg h by simp
    next
      case (Some c)
      show ?thesis using a Some started [of c ?w] reused [of c] h by (cases "gl_connected c") auto
    qed
  qed
qed

lemma attempt_frame:
  assumes "attemptDualConnections n addr tls t w = (e, t2, w2)"
  shows "tu_retry t2 = tu_retry t" "tu_retryCount t2 = tu_retryCount t" "tu_state t2 = tu_state t"
    "e = None \<Longrightarrow> tu_grpcEnabled t2 \<and> (\<exists>c. tu_grpc t2 = Some c \<and> gl_connected c)"
  using assms start_grpc_frame by (cases rule: attempt_cases; fastforce)+

definition well_connected :: "tunnel \<Rightarrow> bool" where
  "well_connected t \<longleftrightarrow> tu_state t = StateConnected \<and> tu_retryCount t = 0 \<and> tu_grpcEnabled t \<and> (\<exists>c. tu_grpc t = Some c \<and> gl_connected c)"

lemma retry_outcome:
  assumes "retry_loop net rnd cancel cancelw addr tls k d t w = Some (e, t', w')"
  shows "(e = None \<longrightarrow> well_connected t') \<and>
    (e \<noteq> None \<longrightarrow> cancel k \<and> t' = t \<or> tu_state t' \<in> {StateConnecting, StateReconnecting, StateMaintenance, StateFailed})"
proof -
  let ?P = "\<lambda>cancel k t r. (fst r = None \<longrightarrow> well_connected (fst (snd r))) \<and>
    (fst r \<noteq> None \<longrightarrow> cancel k \<and> fst (snd r) = t \<or> tu_state (fst (snd r)) \<in> {StateConnecting, StateReconnecting, StateMaintenance, StateFailed})"
  have "?P cancel k t (e, t', w')" using assms
  proof (induction rule: retry_loop.raw_induct [rotated, consumes 1, case_names step])
    case (step loop net rnd cancel cancelw addr tls k d t w r)
    let ?t1 = "t\<lparr>tu_state := if tu_retryCount t = 0 then StateConnecting else StateReconnecting\<rparr>"
    obtain x t2 w2 where a: "attemptDualConnections (net k) addr tls ?t1 w = (x, t2, w2)" by (metis surj_pair)
    let ?t3 = "\<lambda>y. t2\<lparr>tu_lastError := Some y, tu_retryCount := tu_retryCount t2 + 1\<rparr>"
    have st: "tu_state t2 \<in> {StateConnecting, StateReconnecting}" using attempt_frame(3) [OF a] by simp
    show ?case
    proof (cases "cancel k \<or> rc_MaxRetries (tu_retry t) > 0 \<and> tu_retryCount t \<ge> rc_MaxRetries (tu_retry t) \<or> tu_retryCount t \<noteq> 0 \<and> cancelw k")
      case True
      then show ?thesis using step.hyps by (cases "cancel k") (auto simp: Let_def split: if_splits)
    next
      case False
      note body = step.hyps [unfolded Let_def a, simplified prod.case]
      show ?thesis
      proof (cases x)
        case None
        then have "r = (None, connected_now t2, w2)" using body False by auto
        then show ?thesis using attempt_frame(4) [OF a None] attempt_frame(3) [OF a] by (simp add: well_connected_def connected_now_def)
      next
        case (Some y)
        show ?thesis
        proof (cases "isAuthenticationError y")
          case True
          with body False Some have "r = (Some y, (?t3 y)\<lparr>tu_state := StateFailed\<rparr>, w2)" by auto
          then show ?thesis by simp
        next
          case na: False
          show ?thesis
          proof (cases "isMaintenanceError y")
            case True
            with body False Some na have "loop net rnd cancel cancelw addr tls (Suc k) (rc_HealthCheckInterval (tu_retry (?t3 y))) ((?t3 y)\<lparr>tu_state := StateMaintenance\<rparr>) w2 = Some r"
              by auto
            from step.IH [OF this] show ?thesis by auto
          next
            case nm: False
            with body False Some na have "loop net rnd cancel cancelw addr tls (Suc k) (calculateNextDelay (tu_retry (?t3 y)) (rnd k) d) (?t3 y) w2 = Some r"
              by auto
            from step.IH [OF this] st show ?thesis by auto
          qed
        qed
      qed
    qed
  qed
  then show ?thesis by simp
qed

lemma retry_returns:
  assumes "rc_MaxRetries (tu_retry t) > 0"
  shows "\<exists>r. retry_loop net rnd cancel cancelw addr tls k d t w = Some r"
  using assms
proof (induction "nat (rc_MaxRetries (tu_retry t) - tu_retryCount t)" arbitrary: k d t w)
  case 0
  then show ?case by (subst retry_loop.simps) auto
next
  case (Suc m)
  let ?t1 = "t\<lparr>tu_state := if tu_retryCount t = 0 then StateConnecting else StateReconnecting\<rparr>"
  obtain x t2 w2 where a: "attemptDualConnections (net k) addr tls ?t1 w = (x, t2, w2)" by (metis surj_pair)
  have "\<exists>r. retry_loop net rnd cancel cancelw addr tls (Suc k) d' (t2\<lparr>tu_lastError := y, tu_retryCount := tu_retryCount t2 + 1, tu_state := s\<rparr>) w2 = Some r" for d' y s
    using attempt_frame(1,2) [OF a] Suc.hyps(2) Suc.prems by (intro Suc.hyps(1)) simp_all
  note r = this
  have "\<exists>r. retry_loop net rnd cancel cancelw addr tls (Suc k) d' (t2\<lparr>tu_lastError := y, tu_retryCount := tu_retryCount t2 + 1\<rparr>) w2 = Some r" for d' y
    using attempt_frame(1,2) [OF a] Suc.hyps(2) Suc.prems by (intro Suc.hyps(1)) simp_all
  with r show ?case
    by (subst retry_loop.simps) (auto simp: a Let_def split: option.splits)
qed


definition unauthenticated :: "string \<Rightarrow> string" where
  "unauthenticated m = ''rpc error: code = Unauthenticated desc = '' @ m"

lemma unauthenticated_is_fatal:
  "isAuthenticationError (''failed to establish tunnel: handshake response failed: failed to receive handshake response: '' @ unauthenticated m)"
proof -
  have k: "''unauthenticated'' \<in> set authErrorKeywords" by (simp add: authErrorKeywords_def)
  have l: "ToLower ''failed to establish tunnel: handshake response failed: failed to receive handshake response: rpc error: code = Unauthenticated desc = '' =
    ''failed to establish tunnel: handshake response failed: failed to receive handshake response: rpc error: code = '' @ ''unauthenticated'' @ '' desc = ''"
    by code_simp
  have e: "''failed to establish tunnel: handshake response failed: failed to receive handshake response: '' @ unauthenticated m =
    ''failed to establish tunnel: handshake response failed: failed to receive handshake response: rpc error: code = Unauthenticated desc = '' @ m"
    by (simp add: unauthenticated_def)
  have "Contains (ToLower (''failed to establish tunnel: handshake response failed: failed to receive handshake response: '' @ unauthenticated m)) ''unauthenticated''"
    unfolding e ToLower_append l Contains_iff append_assoc by blast
  with k show ?thesis unfolding isAuthenticationError_def list_ex_iff by blast
qed

lemma open_tunnel_refused:
  assumes "at_dial n = None" "at_stream n = None" "at_send n = None" "at_answer n = RecvFailed x"
  shows "\<exists>c1. open_tunnel n c h = (Some (''handshake response failed: failed to receive handshake response: '' @ x), c1, h)"
  using assms by (simp add: open_tunnel_def waitForHandshakeResponse_def Let_def)

text \<open>
  C23. A refused client stops: when the server answers the handshake of a new client with the status \<open>Unauthenticated\<close> (a
  wrong token or domain, or a disabled tunnel), \<open>connectWithRetry\<close> returns that error after this one attempt and the
  tunnel is in the state \<open>Failed\<close>, even with unlimited retries.
\<close>

theorem refused_client_stops:
  assumes "\<not> cancel 0" "tu_grpc t = None" "EnsureConsistentConfigHome (w_host w) = w_host w"
    "secure_settings configure_hint (at_certs (net 0)) (at_load_error (net 0)) (w_host w) = Inr x"
    "at_dial (net 0) = None" "at_stream (net 0) = None" "at_send (net 0) = None" "at_answer (net 0) = RecvFailed (unauthenticated m)"
  shows "\<exists>t' w'. connectWithRetry net rnd cancel cancelw addr tls t w =
      Some (Some (''failed to establish tunnel: handshake response failed: failed to receive handshake response: '' @ unauthenticated m), t', w') \<and>
    tu_state t' = StateFailed \<and> tu_retryCount t' = 1"
proof -
  let ?e = "''failed to establish tunnel: handshake response failed: failed to receive handshake response: '' @ unauthenticated m"
  let ?t = "t\<lparr>tu_retryCount := 0, tu_state := StateConnecting\<rparr>"
  have s: "\<exists>c1. gl_Start (net 0) c (w_host w) = (Some ?e, c1, w_host w)" if c: "\<not> gl_connecting c" "\<not> gl_connected c" for c
  proof -
    obtain c1 where "open_tunnel (net 0) (c\<lparr>gl_connecting := True\<rparr>) (w_host w) =
        (Some (''handshake response failed: failed to receive handshake response: '' @ unauthenticated m), c1, w_host w)"
      using open_tunnel_refused [OF assms(5-8)] by blast
    then show ?thesis using c assms(3,4) by (simp add: gl_Start_def connect_def)
  qed
  obtain c g where c: "NewGRPCTunnelClient (replace_port addr '':4443'' '':4444'') (tu_domain ?t) (tu_token ?t) (to_int32 (tu_localPort ?t))
      (Some DefaultGRPCClientConfig) (w_globals w) = (c, g)" by (metis surj_pair)
  then have "\<not> gl_connecting c" "\<not> gl_connected c" by (auto simp: NewGRPCTunnelClient_def Let_def)
  then obtain c1 where c1: "gl_Start (net 0) c (w_host w) = (Some ?e, c1, w_host w)" using s by blast
  have w: "(if tls then w else w\<lparr>w_host := EnsureConsistentConfigHome (w_host w)\<rparr>) = w" using assms(3) by simp
  have a: "\<exists>w'. attemptDualConnections (net 0) addr tls ?t w = (Some ?e, ?t\<lparr>tu_grpc := Some c1\<rparr>, w')"
    unfolding attemptDualConnections_def w using assms(2,4) c c1 unauthenticated_is_fatal [of m]
    by (auto simp: Let_def start_grpc_def)
  show ?thesis
    unfolding connectWithRetry_def using a assms(1) unauthenticated_is_fatal [of m]
    by (subst retry_loop.simps) (auto simp: Let_def)
qed

text \<open>Maintenance is never noticed: with sound settings, an attempt fails with an authentication error or one fixed text.\<close>

lemma maintenance_unnoticed:
  assumes "attemptDualConnections n addr tls t w = (Some e, t2, w2)"
    "secure_settings configure_hint (at_certs n) (at_load_error n) (EnsureConsistentConfigHome (w_host w)) = Inr x"
  shows "isAuthenticationError e \<or> \<not> isMaintenanceError e"
proof -
  have "\<not> isMaintenanceError grpc_required" by code_simp
  with assms show ?thesis using start_grpc_frame(5) by (cases rule: attempt_cases) fastforce+
qed

text \<open>
  A second client is refused: while some process has the singleton lock, \<open>Connect\<close> returns an error at once, without
  any attempt to connect, and leaves the tunnel, the lock file and the configuration as they are.
\<close>

theorem second_client_refused:
  assumes "tu_singleton t" "w_locks w = run_lock pid ops" "spec_lock ops = Some q"
  shows "\<exists>e. Connect net rnd cancel cancelw f service pid p addr token domain localPort tls t w = Some (Some e, t, w)"
proof -
  have l: "lk_taken q (w_locks w)" using run_lock_abs [of ops pid] assms(2,3) by (simp add: lk_abs_def)
  obtain e where a: "AcquireLock f pid p (w_locks w) = (Some e, w_locks w)"
    using acquire_taken [OF l, of f pid p] by (metis not_None_eq prod.collapse)
  show ?thesis using assms(1) a cleanup_taken [OF l] by (simp add: Connect_def Let_def)
qed

section \<open>Tunnels on demand\<close>

text \<open>The outcomes of dialling the server, of the exchange of the handshake, and whether the local port listens.\<close>

datatype handshake_reply = SendFails string | ReadFails string | Reply string string string int

record dial_env =
  de_dial :: "string option"
  de_reply :: handshake_reply
  de_listening :: bool
  de_conn :: nat

text \<open>\<open>performHandshake\<close>: the answer has a status, a message, a domain and a port.\<close>

definition performHandshake :: "handshake_reply \<Rightarrow> string + (string \<times> int)" where
  "performHandshake r =
     (case r of
        SendFails e \<Rightarrow> Inl (''failed to send handshake: '' @ e)
      | ReadFails e \<Rightarrow> Inl (''failed to read handshake response: '' @ e)
      | Reply status msg domain port \<Rightarrow> if status \<noteq> ''success'' then Inl (''handshake failed: '' @ msg) else Inr (domain, port))"

definition establishConnection :: "dial_env \<Rightarrow> string \<Rightarrow> tunnel \<Rightarrow> (string + nat) \<times> tunnel" where
  "establishConnection d connType t =
     (case de_dial d of
        Some e \<Rightarrow> (Inl (''failed to connect to server: '' @ e), t)
      | None \<Rightarrow>
          (case performHandshake (de_reply d) of
             Inl e \<Rightarrow> (Inl (''handshake failed: '' @ e), t\<lparr>tu_closed := tu_closed t @ [de_conn d]\<rparr>)
           | Inr (domain, port) \<Rightarrow>
               (let t1 = (if tu_domain t = [] then t\<lparr>tu_domain := domain\<rparr> else t);
                    t2 = (if tu_localPort t1 \<le> 0 then t1\<lparr>tu_localPort := port\<rparr> else t1)
                in if connType = ''http'' \<and> \<not> de_listening d
                   then (Inl (''no service found listening on port '' @ dec (nat (tu_localPort t2)) @ '' - make sure your service is running first''),
                         t2\<lparr>tu_closed := tu_closed t2 @ [de_conn d]\<rparr>)
                   else (Inr (de_conn d), t2))))"

definition maxWebSocketTunnels :: nat where "maxWebSocketTunnels = 25"

definition limit_text :: "nat \<Rightarrow> string" where
  "limit_text n = ''WebSocket tunnel limit reached: '' @ dec n @ ''/'' @ dec maxWebSocketTunnels"

definition establishTCPTunnelOnDemand :: "attempt \<Rightarrow> dial_env \<Rightarrow> tunnel \<Rightarrow> client_host \<Rightarrow> string option \<times> tunnel" where
  "establishTCPTunnelOnDemand n d t h =
     (if length (tu_wsConns t) \<ge> maxWebSocketTunnels then (Some (limit_text (length (tu_wsConns t))), t)
      else case secure_settings [] (at_certs n) (at_load_error n) h of
             Inl e \<Rightarrow> (Some e, t)
           | Inr _ \<Rightarrow>
               (case establishConnection d ''websocket'' t of
                  (Inl e, t1) \<Rightarrow> (Some (''failed to establish WebSocket tunnel: '' @ e), t1)
                | (Inr c, t1) \<Rightarrow> (None, t1\<lparr>tu_wsConns := tu_wsConns t1 @ [c]\<rparr>)))"

datatype tunnel_type = TUNNEL_TYPE_TCP | TUNNEL_TYPE_GRPC | TUNNEL_TYPE_HYBRID | TUNNEL_TYPE_OTHER string

definition t_handleTunnelEstablishRequest :: "attempt \<Rightarrow> dial_env \<Rightarrow> tunnel_type \<Rightarrow> tunnel \<Rightarrow> client_host \<Rightarrow> string option \<times> tunnel" where
  "t_handleTunnelEstablishRequest n d ty t h =
     (case ty of
        TUNNEL_TYPE_TCP \<Rightarrow> establishTCPTunnelOnDemand n d t h
      | TUNNEL_TYPE_GRPC \<Rightarrow> (Some ''gRPC tunnel already established'', t)
      | TUNNEL_TYPE_HYBRID \<Rightarrow> establishTCPTunnelOnDemand n d t h
      | TUNNEL_TYPE_OTHER s \<Rightarrow> (Some (''unknown tunnel type: '' @ s), t))"

text \<open>
  What \<open>handleWebSocketConnection\<close> does when it ends: the entry of its connection is overwritten with the last one, and the
  slice is shortened.
\<close>

definition ws_remove :: "nat \<Rightarrow> nat list \<Rightarrow> nat list" where
  "ws_remove c ws =
     (if c \<in> set ws then butlast (ws[length (takeWhile (\<lambda>x. x \<noteq> c) ws) := last ws]) else ws)"

definition ws_ended :: "nat \<Rightarrow> tunnel \<Rightarrow> tunnel" where
  "ws_ended c t = t\<lparr>tu_closed := tu_closed t @ [c], tu_wsConns := ws_remove c (tu_wsConns t)\<rparr>"

datatype conn_read = ReadTimeout | ReadError string | ReadRequest

text \<open>
  One round of the reading loops of \<open>handleHTTPConnection\<close> and \<open>handleWebSocketConnection\<close>: go on, end, or end and reconnect.
\<close>

datatype read_action = KeepReading | EndReader | EndAndReconnect | ServeRequest

definition read_round :: "tunnel \<Rightarrow> conn_read \<Rightarrow> read_action" where
  "read_round t r =
     (if tu_cancelled t then EndReader
      else case r of
             ReadTimeout \<Rightarrow> KeepReading
           | ReadError e \<Rightarrow> if isExpectedConnectionClose (Some e) then EndReader else EndAndReconnect
           | ReadRequest \<Rightarrow> ServeRequest)"

section \<open>Reconnecting and disconnecting\<close>

definition close_all :: "tunnel \<Rightarrow> tunnel" where
  "close_all t =
     t\<lparr>tu_closed := tu_closed t @ (case tu_conn t of None \<Rightarrow> [] | Some c \<Rightarrow> [c]) @ tu_wsConns t @ tu_httpConns t,
       tu_conn := None, tu_wsConns := [], tu_httpConns := []\<rparr>"

text \<open>
  \<open>coordinatedReconnectWithContext\<close>: the flags are set and cleared under the mutex; the result tells whether a
  goroutine with \<open>connectWithRetry\<close> was started, and with which server address.
\<close>

definition coordinatedReconnect :: "bool \<Rightarrow> client_host \<Rightarrow> tunnel \<Rightarrow> string option \<times> tunnel" where
  "coordinatedReconnect intentional h t =
     (if tu_reconnecting t then (None, t)
      else if \<not> intentional \<and> tu_intentional t then (None, t)
      else
        (let cfg = (case cfg_LoadConfig h of Inl _ \<Rightarrow> ch_default h | Inr r \<Rightarrow> deref h r)
         in (Some (sv_Host (cf_Server cfg) @ '':'' @ dec (nat (sv_Port (cf_Server cfg)))),
             (close_all t)\<lparr>tu_health := False, tu_reconnecting := False, tu_intentional := False\<rparr>)))"

definition reconnectTCPTunnelOnly :: "client_host \<Rightarrow> tunnel \<Rightarrow> string option \<times> tunnel" where
  "reconnectTCPTunnelOnly h t =
     (let t1 = t\<lparr>tu_closed := tu_closed t @ tu_wsConns t, tu_wsConns := []\<rparr>
      in if tu_grpcEnabled t \<and> (case tu_grpc t of None \<Rightarrow> False | Some c \<Rightarrow> gl_connected c) then (None, t1)
         else coordinatedReconnect True h t1)"

definition Disconnect :: "lock_faults \<Rightarrow> nat \<Rightarrow> tunnel \<Rightarrow> world \<Rightarrow> tunnel \<times> world" where
  "Disconnect f p t w =
     (let w1 = (if tu_singleton t then w\<lparr>w_locks := ReleaseLock f p (w_locks w)\<rparr> else w);
          t1 = t\<lparr>tu_cancelled := True, tu_health := False, tu_stopped := True\<rparr>;
          t2 = (if tu_grpcEnabled t1 \<and> tu_grpc t1 \<noteq> None then t1\<lparr>tu_grpc := None, tu_grpcEnabled := False\<rparr> else t1)
      in ((close_all t2)\<lparr>tu_state := StateDisconnected\<rparr>, w1))"

definition tunnel_IsConnected :: "tunnel \<Rightarrow> bool" where
  "tunnel_IsConnected t \<longleftrightarrow> tu_state t = StateConnected"

definition GetConnectionCount :: "tunnel \<Rightarrow> nat" where
  "GetConnectionCount t =
     (if tu_grpcEnabled t \<and> tu_grpc t \<noteq> None then 1 else 0) + length (tu_wsConns t) + length (tu_httpConns t)"

record tunnel_state =
  tz_Token :: string
  tz_Domain :: string
  tz_LocalPort :: int
  tz_State :: connection_state
  tz_Timestamp :: time
  tz_GRPCEnabled :: bool
  tz_RetryConfig :: retry_config

definition PreserveState :: "time \<Rightarrow> tunnel \<Rightarrow> string + tunnel_state" where
  "PreserveState now t =
     (if tu_state t \<noteq> StateConnected then Inl ''tunnel is not connected, cannot preserve state''
      else Inr \<lparr>tz_Token = tu_token t, tz_Domain = tu_domain t, tz_LocalPort = tu_localPort t, tz_State = tu_state t,
                tz_Timestamp = now, tz_GRPCEnabled = tu_grpcEnabled t, tz_RetryConfig = tu_retry t\<rparr>)"

text \<open>The first part of \<open>RestoreState\<close>, before it calls \<open>Connect\<close>: an error, or the tunnel and the server address.\<close>

definition RestoreState :: "time \<Rightarrow> lock_faults \<Rightarrow> nat \<Rightarrow> tunnel_state \<Rightarrow> tunnel \<Rightarrow> world \<Rightarrow> (string + string) \<times> tunnel \<times> world" where
  "RestoreState now f p st t w =
     (if now - tz_Timestamp st > 300 * second then (Inl ''preserved state is too old, cannot restore'', t, w)
      else
        (let (t1, w1) = (if tunnel_IsConnected t then Disconnect f p t w else (t, w));
             t2 = t1\<lparr>tu_token := tz_Token st, tu_domain := tz_Domain st, tu_localPort := tz_LocalPort st,
                     tu_grpcEnabled := tz_GRPCEnabled st, tu_retry := tz_RetryConfig st\<rparr>
         in case cfg_LoadConfig (w_host w1) of
              Inl _ \<Rightarrow> (Inl ''failed to load config for restoration'', t2, w1)
            | Inr r \<Rightarrow>
                (let s = cf_Server (deref (w_host w1) r)
                 in (Inr (sv_Host s @ '':'' @ dec (nat (sv_Port s))), t2\<lparr>tu_cancelled := False\<rparr>, w1))))"

section \<open>The pool of WebSocket tunnels\<close>

lemma mset_ws_remove: "mset (ws_remove c ws) = mset (remove1 c ws)"
proof (cases "c \<in> set ws")
  case True
  let ?i = "length (takeWhile (\<lambda>x. x \<noteq> c) ws)"
  obtain xs l where ws: "ws = xs @ [l]" using True by (cases ws rule: rev_cases) auto
  obtain ys zs where yz: "ws = ys @ c # zs" "c \<notin> set ys" using split_list_first [OF True] by blast
  have "takeWhile (\<lambda>x. x \<noteq> c) ws = ys" using yz by (auto simp: takeWhile_append)
  then have i: "?i < length ws" and c: "ws ! ?i = c" using yz(1) by simp_all
  show ?thesis
  proof (cases "?i < length xs")
    case lt: True
    have "ws_remove c ws = xs[?i := l]" using True lt ws by (simp add: ws_remove_def list_update_append)
    moreover have n: "xs ! ?i = c" using c lt by (simp add: ws nth_append)
    moreover obtain M where "mset xs = add_mset c M" using nth_mem [OF lt] n by (metis multi_member_split set_mset_mset)
    ultimately show ?thesis using lt True by (simp add: mset_update ws)
  next
    case False
    then have e: "?i = length xs" using i ws by simp
    then have "l = c" using c ws by simp
    moreover have "ws_remove c ws = xs" using True e ws by (simp add: ws_remove_def)
    ultimately show ?thesis using True ws by simp
  qed
qed (simp add: ws_remove_def remove1_idem)

lemma ws_remove_facts:
  assumes "distinct ws"
  shows "distinct (ws_remove c ws)" "set (ws_remove c ws) = set ws - {c}" "length (ws_remove c ws) \<le> length ws"
proof -
  note m = mset_ws_remove [of c ws]
  show "distinct (ws_remove c ws)" using mset_eq_imp_distinct_iff [OF m] assms by simp
  show "set (ws_remove c ws) = set ws - {c}" using mset_eq_setD [OF m] assms by (simp add: set_remove1_eq)
  show "length (ws_remove c ws) \<le> length ws" using mset_eq_length [OF m] by (simp add: length_remove1)
qed

text \<open>
  The reader of the gRPC stream handles the requests of the server one after the other, but the connections end, and are closed,
  at any time in between: also between the check of the limit and the addition of the new connection.
\<close>

record ws_pool =
  dm_tunnel :: tunnel
  dm_checked :: bool
  dm_running :: "nat set"
  dm_next :: nat

inductive pool_step :: "ws_pool \<Rightarrow> ws_pool \<Rightarrow> bool" where
  check: "\<not> dm_checked s \<Longrightarrow> length (tu_wsConns (dm_tunnel s)) < maxWebSocketTunnels \<Longrightarrow> pool_step s (s\<lparr>dm_checked := True\<rparr>)"
| fail: "dm_checked s \<Longrightarrow> establishConnection d ''websocket'' (dm_tunnel s) = (Inl e, t) \<Longrightarrow> pool_step s (s\<lparr>dm_tunnel := t, dm_checked := False\<rparr>)"
| refuse: "dm_checked s \<Longrightarrow> pool_step s (s\<lparr>dm_checked := False\<rparr>)"
| add: "dm_checked s \<Longrightarrow> de_conn d = dm_next s \<Longrightarrow> establishConnection d ''websocket'' (dm_tunnel s) = (Inr c, t) \<Longrightarrow>
    pool_step s (s\<lparr>dm_tunnel := t\<lparr>tu_wsConns := tu_wsConns t @ [c]\<rparr>, dm_checked := False, dm_running := insert c (dm_running s), dm_next := Suc (dm_next s)\<rparr>)"
| finish: "c \<in> dm_running s \<Longrightarrow> pool_step s (s\<lparr>dm_tunnel := ws_ended c (dm_tunnel s), dm_running := dm_running s - {c}\<rparr>)"
| reset: "coordinatedReconnect i h (dm_tunnel s) = (a, t) \<Longrightarrow> pool_step s (s\<lparr>dm_tunnel := t\<rparr>)"
| recycle: "reconnectTCPTunnelOnly h (dm_tunnel s) = (a, t) \<Longrightarrow> pool_step s (s\<lparr>dm_tunnel := t\<rparr>)"

definition pool_init :: "ws_pool \<Rightarrow> bool" where
  "pool_init s \<longleftrightarrow> tu_wsConns (dm_tunnel s) = [] \<and> \<not> dm_checked s \<and> dm_running s = {}"

definition pool_inv :: "ws_pool \<Rightarrow> bool" where
  "pool_inv s \<longleftrightarrow> (let ws = tu_wsConns (dm_tunnel s) in
     length ws + (if dm_checked s then 1 else 0) \<le> maxWebSocketTunnels \<and> distinct ws \<and> set ws \<subseteq> dm_running s \<and> (\<forall>c \<in> dm_running s. c < dm_next s))"

lemma establishConnection_ws: "establishConnection d ty t = (r, t1) \<Longrightarrow> tu_wsConns t1 = tu_wsConns t \<and> (\<forall>c. r = Inr c \<longrightarrow> c = de_conn d)"
  by (auto simp: establishConnection_def Let_def split: option.splits sum.splits prod.splits if_splits)

lemma coordinated_ws: "coordinatedReconnect i h t = (a, t1) \<Longrightarrow> tu_wsConns t1 = tu_wsConns t \<or> tu_wsConns t1 = []"
  by (auto simp: coordinatedReconnect_def close_all_def Let_def split: if_splits)

lemma recycle_ws: "reconnectTCPTunnelOnly h t = (a, t1) \<Longrightarrow> tu_wsConns t1 = []"
  by (auto simp: reconnectTCPTunnelOnly_def coordinatedReconnect_def close_all_def Let_def split: if_splits)

lemma pool_step_inv: "pool_step s t \<Longrightarrow> pool_inv s \<Longrightarrow> pool_inv t"
proof (induction rule: pool_step.induct)
  case (check s)
  then show ?case by (simp add: pool_inv_def Let_def)
next
  case (fail s d e t)
  then show ?case using establishConnection_ws [OF fail(2)] by (simp add: pool_inv_def Let_def)
next
  case (refuse s)
  then show ?case by (simp add: pool_inv_def Let_def)
next
  case (add s d c t)
  then show ?case using establishConnection_ws [OF add(3)] by (auto simp: pool_inv_def Let_def)
next
  case (finish c s)
  then have d: "distinct (tu_wsConns (dm_tunnel s))" by (simp add: pool_inv_def Let_def)
  show ?case using finish ws_remove_facts [OF d, of c] by (auto simp: pool_inv_def Let_def ws_ended_def split: if_splits)
next
  case (reset i h s a t)
  then show ?case using coordinated_ws [OF reset(1)] by (auto simp: pool_inv_def Let_def)
next
  case (recycle h s a t)
  then show ?case using recycle_ws [OF recycle(1)] by (auto simp: pool_inv_def Let_def maxWebSocketTunnels_def)
qed

lemma pool_init_inv: "pool_init s \<Longrightarrow> pool_inv s"
  by (simp add: pool_init_def pool_inv_def maxWebSocketTunnels_def Let_def)

interpretation wspool: transition_system pool_init pool_step pool_inv
  by unfold_locales (rule pool_init_inv pool_step_inv; assumption)+

text \<open>
  C24. The pool of WebSocket tunnels is exact: in every interleaving of requests of the server, ending connections and
  reconnections it has at most 25 connections, each once and each with a running handler, and the end of a handler removes
  exactly its own connection.
\<close>

theorem ws_pool_sound:
  assumes "reach pool_init pool_step s"
  shows "length (tu_wsConns (dm_tunnel s)) \<le> 25 \<and> distinct (tu_wsConns (dm_tunnel s)) \<and> set (tu_wsConns (dm_tunnel s)) \<subseteq> dm_running s \<and>
    set (tu_wsConns (ws_ended c (dm_tunnel s))) = set (tu_wsConns (dm_tunnel s)) - {c}"
proof -
  have i: "pool_inv s" using assms by (rule wspool.reach_invar)
  then have d: "distinct (tu_wsConns (dm_tunnel s))" by (simp add: pool_inv_def Let_def)
  from i d show ?thesis
    using ws_remove_facts(2) [OF d] by (auto simp: pool_inv_def Let_def ws_ended_def maxWebSocketTunnels_def split: if_splits)
qed

section \<open>Forwarding to the local service\<close>

record streaming_config =
  sg_MediaBufferSize :: int
  sg_RegularBufferSize :: int
  sg_PoolSize :: int
  sg_PoolTimeout :: int
  sg_PoolKeepAlive :: int
  sg_MediaTimeout :: int
  sg_RegularTimeout :: int
  sg_EnableMediaOptimization :: bool
  sg_MediaExtensions :: "string list"
  sg_MediaPaths :: "string list"
  sg_ConcurrentMediaStreams :: int

definition DefaultStreamingConfig :: streaming_config where
  "DefaultStreamingConfig =
     \<lparr>sg_MediaBufferSize = 65536, sg_RegularBufferSize = 32768, sg_PoolSize = 10, sg_PoolTimeout = 10 * second, sg_PoolKeepAlive = 30 * second,
      sg_MediaTimeout = 15 * second, sg_RegularTimeout = 10 * second, sg_EnableMediaOptimization = True,
      sg_MediaExtensions =
        [''.mp4'', ''.avi'', ''.mkv'', ''.mov'', ''.wmv'', ''.flv'', ''.webm'', ''.ogg'', ''.ogv'',
         ''.mp3'', ''.wav'', ''.flac'', ''.aac'', ''.m4a'', ''.wma'',
         ''.jpg'', ''.jpeg'', ''.png'', ''.gif'', ''.bmp'', ''.webp'', ''.svg'',
         ''.pdf'', ''.zip'', ''.rar'', ''.tar'', ''.gz'', ''.7z''],
      sg_MediaPaths =
        [''/video/'', ''/media/'', ''/stream/'', ''/download/'', ''/files/'', ''/uploads/'', ''/assets/'', ''/static/'', ''/public/''],
      sg_ConcurrentMediaStreams = 5\<rparr>"

definition IsMediaExtension :: "streaming_config \<Rightarrow> string \<Rightarrow> bool" where
  "IsMediaExtension k ext \<longleftrightarrow> list_ex (\<lambda>m. ext = m) (sg_MediaExtensions k)"

definition IsMediaPath :: "streaming_config \<Rightarrow> string \<Rightarrow> bool" where
  "IsMediaPath k p \<longleftrightarrow> list_ex (\<lambda>m. length p \<ge> length m \<and> take (length m) p = m) (sg_MediaPaths k)"

definition isMediaRequest :: "streaming_config \<Rightarrow> string \<Rightarrow> string \<Rightarrow> bool" where
  "isMediaRequest k p rng \<longleftrightarrow>
     sg_EnableMediaOptimization k \<and>
     (list_ex (HasSuffix p) (sg_MediaExtensions k) \<or> rng \<noteq> [] \<or> list_ex (Contains p) (sg_MediaPaths k))"

text \<open>What happens at the local service, and what is written to the tunnel connection.\<close>

datatype local_outcome = LocalRefused | LocalWriteFails | LocalReadFails | LocalResponse int string

datatype tunnel_write = BadGateway | ResponseBytes int string | CopyBoth

definition t_handleHTTPRequest :: "streaming_config \<Rightarrow> string \<Rightarrow> string \<Rightarrow> local_outcome \<Rightarrow> tunnel_write list" where
  "t_handleHTTPRequest k p rng out =
     (case out of
        LocalRefused \<Rightarrow> [BadGateway]
      | LocalWriteFails \<Rightarrow> []
      | LocalReadFails \<Rightarrow> if isMediaRequest k p rng then [CopyBoth] else []
      | LocalResponse status body \<Rightarrow> if isMediaRequest k p rng then [CopyBoth] else [ResponseBytes status body])"

definition handleWebSocketUpgrade :: "local_outcome \<Rightarrow> bool \<Rightarrow> tunnel_write list" where
  "handleWebSocketUpgrade out writes_ok =
     (case out of
        LocalResponse status body \<Rightarrow>
          if \<not> writes_ok then [] else ResponseBytes status body # (if status = 101 then [CopyBoth] else [])
      | _ \<Rightarrow> [BadGateway])"

lemma ws_upgrade_answered: "writes_ok \<Longrightarrow> handleWebSocketUpgrade out writes_ok \<noteq> []"
  by (cases out) (simp_all add: handleWebSocketUpgrade_def)

lemma media_path_prefix: "IsMediaPath k p \<longleftrightarrow> list_ex (HasPrefix p) (sg_MediaPaths k)"
proof -
  have "length p \<ge> length m \<and> take (length m) p = m \<longleftrightarrow> HasPrefix p m" for m
    unfolding HasPrefix_iff by (metis append_eq_conv_conj append_take_drop_id length_append le_add1)
  then show ?thesis by (simp add: IsMediaPath_def)
qed

section \<open>Witnesses for the tunnel\<close>

definition demo_world :: world where
  "demo_world = \<lparr>w_host = demo_host, w_locks = empty_fs, w_globals = \<lparr>cg_stableID = [], cg_counter = 0\<rparr>\<rparr>"



theorem refused_client_stops_witness:
  "\<exists>e t' w'. connectWithRetry (\<lambda>k. (demo_net None)\<lparr>at_answer := RecvFailed (unauthenticated ''no'')\<rparr>) (\<lambda>k. 0) (\<lambda>k. False) (\<lambda>k. False)
     ''s:4443'' False (NewTunnel True) demo_world = Some (Some e, t', w') \<and> tu_state t' = StateFailed"
proof -
  let ?n = "\<lambda>k::nat. (demo_net None)\<lparr>at_answer := RecvFailed (unauthenticated ''no'')\<rparr>"
  obtain x where x: "secure_settings configure_hint demo_certs [] demo_host = Inr x" using demo_secure by blast
  have "EnsureConsistentConfigHome (w_host demo_world) = w_host demo_world" "tu_grpc (NewTunnel True) = None"
    by (simp_all add: demo_world_def demo_home NewTunnel_def)
  moreover have "secure_settings configure_hint (at_certs (?n 0)) (at_load_error (?n 0)) (w_host demo_world) = Inr x"
    using x by (simp add: demo_net_def demo_world_def)
  moreover have "at_dial (?n 0) = None" "at_stream (?n 0) = None" "at_send (?n 0) = None" "at_answer (?n 0) = RecvFailed (unauthenticated ''no'')"
    by (simp_all add: demo_net_def)
  ultimately show ?thesis
    using refused_client_stops [of "\<lambda>k. False" "NewTunnel True" demo_world ?n x "''no''" "\<lambda>k. 0" "\<lambda>k. False" "''s:4443''" False] by blast
qed

theorem second_client_refused_witness:
  "\<exists>e. Connect (\<lambda>k. demo_net None) (\<lambda>k. 0) (\<lambda>k. False) (\<lambda>k. False) no_faults None (\<lambda>p. p) 2 ''s:4443'' ''t'' ''d.io'' 3000 False (NewTunnel True)
     (demo_world\<lparr>w_locks := run_lock (\<lambda>p. p) [(no_faults, OpAcquire 1)]\<rparr>) =
     Some (Some e, NewTunnel True, demo_world\<lparr>w_locks := run_lock (\<lambda>p. p) [(no_faults, OpAcquire 1)]\<rparr>)"
  by (rule second_client_refused [where ops = "[(no_faults, OpAcquire 1)]" and q = 1])
    (simp_all add: NewTunnel_def spec_lock_def no_faults_def)

theorem ws_pool_sound_witness:
  "\<exists>s. reach pool_init pool_step s \<and> tu_wsConns (dm_tunnel s) = [0] \<and> tu_wsConns (ws_ended 0 (dm_tunnel s)) = []"
proof -
  let ?s0 = "\<lparr>dm_tunnel = NewTunnel True, dm_checked = False, dm_running = {}, dm_next = 0\<rparr>"
  let ?d = "\<lparr>de_dial = None, de_reply = Reply ''success'' [] ''d.io'' 3000, de_listening = True, de_conn = 0\<rparr>"
  have r0: "reach pool_init pool_step ?s0" by (rule reach_init) (simp add: pool_init_def NewTunnel_def)
  have "pool_step ?s0 (?s0\<lparr>dm_checked := True\<rparr>)" by (rule check) (simp_all add: NewTunnel_def maxWebSocketTunnels_def)
  with r0 have r1: "reach pool_init pool_step (?s0\<lparr>dm_checked := True\<rparr>)" by (rule reach_step)
  let ?t = "(NewTunnel True)\<lparr>tu_domain := ''d.io'', tu_localPort := 3000\<rparr>"
  have e: "establishConnection ?d ''websocket'' (NewTunnel True) = (Inr 0, ?t)"
    by (simp add: establishConnection_def performHandshake_def NewTunnel_def Let_def)
  let ?s2 = "\<lparr>dm_tunnel = ?t\<lparr>tu_wsConns := [0]\<rparr>, dm_checked = False, dm_running = {0}, dm_next = 1\<rparr>"
  have "pool_step (?s0\<lparr>dm_checked := True\<rparr>) ?s2"
    using add [of "?s0\<lparr>dm_checked := True\<rparr>" ?d 0 ?t] e by (simp add: NewTunnel_def)
  with r1 have r2: "reach pool_init pool_step ?s2" by (rule reach_step)
  have "set (tu_wsConns (ws_ended 0 (dm_tunnel ?s2))) = {}" using ws_pool_sound [OF r2, of 0] by simp
  with r2 show ?thesis by (intro exI [of _ ?s2]) simp
qed

end
