(* ===== verification/Updater.thy ===== *)
theory Updater
  imports Client_Config Calendar Version_Service "HOL-Library.List_Lexorder" "HOL-Library.Char_ord"
begin

unbundle bit_operations_syntax

text \<open>
  The updater of the client (\<open>internal/service/updater_service.go\<close>): where an update is, its download and checksum,
  the installation with backup, extraction, verification, atomic replacement and recovery, and the removal of old
  backups. The state is the file system, a map from clean absolute paths to files and directories. What a system
  call does to it is computed; whether the call fails is a parameter of its own for every call of the source.
  Outside the model are: the network (results of the downloads), the decoder of gzip and tar (a function from the
  bytes to the entries), SHA-256 with its hexadecimal output, and what a binary does when it is run, which is taken to
  leave the files alone.
\<close>

section \<open>Files\<close>

datatype node = Dir | File (file_data: string) (file_mode: u32)

type_synonym files = "(string, node) go_map"

definition filepath_Base :: "string \<Rightarrow> string" where
  "filepath_Base p =
     (if p = [] then ''.''
      else let t = rev (dropWhile (\<lambda>c. c = CHR ''/'') (rev p)); b = rev (takeWhile (\<lambda>c. c \<noteq> CHR ''/'') (rev t))
           in if b = [] then ''/'' else b)"

definition filepath_Dir :: "string \<Rightarrow> string" where
  "filepath_Dir p = filepath_Clean (rev (dropWhile (\<lambda>c. c \<noteq> CHR ''/'') (rev p)))"

text \<open>\<open>os.Create\<close> keeps the mode of a file that exists and otherwise applies the mask of the process to 0666.\<close>

definition create_file :: "u32 \<Rightarrow> string \<Rightarrow> string \<Rightarrow> files \<Rightarrow> files" where
  "create_file nm p d fs =
     AList.update p (File d (case map_of fs p of Some (File _ m) \<Rightarrow> m | _ \<Rightarrow> nm)) fs"

definition os_Chmod :: "bool \<Rightarrow> string \<Rightarrow> u32 \<Rightarrow> files \<Rightarrow> files" where
  "os_Chmod ok p m fs =
     (case map_of fs p of Some (File d _) \<Rightarrow> if ok then AList.update p (File d m) fs else fs | _ \<Rightarrow> fs)"

definition under :: "string \<Rightarrow> string \<Rightarrow> bool" where
  "under base p \<longleftrightarrow> p = base \<or> HasPrefix p (base @ ''/'')"

text \<open>\<open>os.RemoveAll\<close>; \<open>kept\<close> are the paths the system refuses to remove.\<close>

definition os_RemoveAll :: "(string \<Rightarrow> bool) \<Rightarrow> string \<Rightarrow> files \<Rightarrow> files" where
  "os_RemoveAll kept p fs = filter (\<lambda>(q, n). \<not> under p q \<or> kept q) fs"

definition path_prefixes :: "string \<Rightarrow> string list" where
  "path_prefixes p =
     (let segs = Split p ''/'' in filter (\<lambda>q. q \<noteq> []) (map (\<lambda>i. Join (take i segs) ''/'') [1..<length segs + 1]))"

fun make_dirs :: "string list \<Rightarrow> files \<Rightarrow> string option \<times> files" where
  "make_dirs [] fs = (None, fs)"
| "make_dirs (p # ps) fs =
     (case map_of fs p of
        Some Dir \<Rightarrow> make_dirs ps fs
      | Some (File _ _) \<Rightarrow> (Some (''mkdir '' @ p @ '': not a directory''), fs)
      | None \<Rightarrow> make_dirs ps (AList.update p Dir fs))"

definition os_MkdirAll :: "string option \<Rightarrow> string \<Rightarrow> files \<Rightarrow> string option \<times> files" where
  "os_MkdirAll fault p fs = (if map_of fs p = Some Dir then (None, fs) else case fault of Some e \<Rightarrow> (Some e, fs) | None \<Rightarrow> make_dirs (path_prefixes p) fs)"

definition is_dir :: "files \<Rightarrow> string \<Rightarrow> bool" where
  "is_dir fs p \<longleftrightarrow> p = ''/'' \<or> map_of fs p = Some Dir"

text \<open>How a copy goes: it succeeds (with or without the change of mode), or opening, creating or writing fails.\<close>

datatype copy_outcome = CopyOK bool | SrcFails string | DstFails string | CopyFails nat string

definition copyFile :: "u32 \<Rightarrow> copy_outcome \<Rightarrow> string \<Rightarrow> string \<Rightarrow> files \<Rightarrow> string option \<times> files" where
  "copyFile nm out src dst fs =
     (case (out, map_of fs src) of
        (SrcFails e, _) \<Rightarrow> (Some e, fs)
      | (_, None) \<Rightarrow> (Some (''open '' @ src @ '': no such file or directory''), fs)
      | (DstFails e, Some _) \<Rightarrow> (Some e, fs)
      | (_, Some n) \<Rightarrow>
          if map_of fs dst = Some Dir then (Some (''open '' @ dst @ '': is a directory''), fs)
          else
            (case n of
               Dir \<Rightarrow> (Some (''read '' @ src @ '': is a directory''), create_file nm dst [] fs)
             | File d0 m \<Rightarrow>
                 (let d = (if src = dst then [] else d0)
                  in case out of
                       CopyFails k e \<Rightarrow> (Some e, create_file nm dst (take k d) fs)
                     | CopyOK ok \<Rightarrow> (None, os_Chmod ok dst m (create_file nm dst d fs))
                     | _ \<Rightarrow> (None, fs))))"

section \<open>Data\<close>

record updater =
  up_downloadBaseURL :: string
  up_currentExePath :: string
  up_backupDir :: string
  up_tempDir :: string

record update_info =
  ui_Version :: string
  ui_DownloadURL :: string
  ui_ChecksumURL :: string
  ui_IsRequired :: bool
  ui_CurrentVersion :: string

datatype tar_type = TypeDir | TypeReg | TypeOther

record tar_entry =
  te_Name :: string
  te_Type :: tar_type
  te_Mode :: u32
  te_Data :: string

text \<open>The entries of an archive and the error its decoding ends with, \<^const>\<open>None\<close> for \<open>io.EOF\<close>.\<close>

record archive =
  ar_entries :: "tar_entry list"
  ar_end :: "string option"

datatype entry_outcome = EntryOK | EntryFails string | EntryCopyFails nat string | EntryChmodFails string

datatype run_result = RunOK | RunTimeout | RunFails string

text \<open>\<open>sudo install\<close> succeeds, or fails and leaves the executable alone or in some other state.\<close>

datatype sudo_outcome = SudoOK | SudoFails string "node option option"

datatype stdin_stat = StdinError | StdinTTY | StdinOther

record install_env =
  ie_goos :: string
  ie_version :: string
  ie_newmode :: u32
  ie_untar :: "string \<Rightarrow> string + archive"
  ie_run :: "string \<Rightarrow> run_result"
  ie_stdin :: stdin_stat
  ie_has_sudo :: bool
  ie_kept :: "string \<Rightarrow> bool"
  ie_backup :: copy_outcome
  ie_mkdir :: "string option"
  ie_open :: "string option"
  ie_entry :: "nat \<Rightarrow> entry_outcome"
  ie_rename_old :: "string option"
  ie_copy :: copy_outcome
  ie_chmod :: bool
  ie_rename :: "string option"
  ie_rename_back :: bool
  ie_sudo :: sudo_outcome
  ie_restore :: copy_outcome
  ie_restore_sudo :: sudo_outcome

datatype install_error =
  BackupFailed string | ExtractDirFailed string | ExtractFailed string | NoExecutable | BadBinary string
  | SudoFailed string | ReplaceFailed string

section \<open>Looking for an update\<close>

definition TrimRight :: "string \<Rightarrow> char \<Rightarrow> string" where
  "TrimRight s c = rev (dropWhile (\<lambda>x. x = c) (rev s))"

definition update_filename :: "string \<Rightarrow> string \<Rightarrow> string \<Rightarrow> string" where
  "update_filename goos arch short =
     ''giraffecloud_'' @ goos @ ''_'' @ arch @ ''_'' @ short @ (if goos = ''windows'' then ''.zip'' else ''.tar.gz'')"

definition update_url :: "version_info \<Rightarrow> string \<Rightarrow> string" where
  "update_url vi filename =
     (let base = TrimRight (DownloadURL vi) CHR ''/''
      in if Channel vi = ''stable'' then base @ ''/'' @ filename
         else if Contains base ''/releases/download/'' then base @ ''/'' @ filename
         else TrimSuffix base ''/releases'' @ ''/download/'' @ ReleaseTag vi @ ''/'' @ filename)"

definition checksum_url :: "version_info \<Rightarrow> string" where
  "checksum_url vi =
     (let base = TrimRight (DownloadURL vi) CHR ''/''
      in if Channel vi = ''stable'' then base @ ''/'' @ ''checksums.txt''
         else if Contains base ''/releases/download/'' then base @ ''/'' @ ''checksums.txt''
         else TrimSuffix (DownloadURL vi) ''/releases'' @ ''/download/'' @ ReleaseTag vi @ ''/'' @ ''checksums.txt'')"

text \<open>\<open>CheckForUpdates\<close> on the answer of the version service, an error or a \<^typ>\<open>version_info\<close>.\<close>

definition CheckForUpdates :: "string \<Rightarrow> string \<Rightarrow> string \<Rightarrow> string + version_info \<Rightarrow> string + update_info option" where
  "CheckForUpdates goos arch version answer =
     (case answer of
        Inl e \<Rightarrow> Inl e
      | Inr vi \<Rightarrow>
          if \<not> UpdateAvailable vi then Inr None
          else Inr (Some \<lparr>ui_Version = LatestVersion vi, ui_DownloadURL = update_url vi (update_filename goos arch (ShortVersion vi)),
                          ui_ChecksumURL = checksum_url vi, ui_IsRequired = UpdateRequired vi, ui_CurrentVersion = version\<rparr>))"

section \<open>Downloading\<close>

datatype fetch = FetchFails string | FetchStatus nat | FetchCreateFails string | FetchCopyFails string string | FetchOK string

definition downloadFile :: "u32 \<Rightarrow> fetch \<Rightarrow> string \<Rightarrow> files \<Rightarrow> string option \<times> files" where
  "downloadFile nm out path fs =
     (case out of
        FetchFails e \<Rightarrow> (Some e, fs)
      | FetchStatus s \<Rightarrow> (Some (''download failed with status: '' @ dec s), fs)
      | FetchCreateFails e \<Rightarrow> (Some e, fs)
      | FetchCopyFails d e \<Rightarrow>
          if map_of fs path = Some Dir then (Some (''open '' @ path @ '': is a directory''), fs) else (Some e, create_file nm path d fs)
      | FetchOK d \<Rightarrow>
          if map_of fs path = Some Dir then (Some (''open '' @ path @ '': is a directory''), fs) else (None, create_file nm path d fs))"

datatype verdict = Verified | Refused string | Panics

definition read_file :: "files \<Rightarrow> string \<Rightarrow> string + string" where
  "read_file fs p =
     (case map_of fs p of
        None \<Rightarrow> Inl (''open '' @ p @ '': no such file or directory'')
      | Some Dir \<Rightarrow> Inl (''read '' @ p @ '': is a directory'')
      | Some (File d _) \<Rightarrow> Inr d)"

text \<open>Reading the two files can fail for reasons of its own (\<open>f1\<close>, \<open>f2\<close>); \<open>sha\<close> is SHA-256 in hexadecimal.\<close>

definition read_with :: "string option \<Rightarrow> files \<Rightarrow> string \<Rightarrow> string + string" where
  "read_with fault fs p = (case fault of Some e \<Rightarrow> Inl e | None \<Rightarrow> read_file fs p)"

definition compare_sum :: "(string \<Rightarrow> string) \<Rightarrow> string \<Rightarrow> string + string \<Rightarrow> verdict" where
  "compare_sum sha expected content =
     (case content of
        Inl e \<Rightarrow> Refused e
      | Inr d \<Rightarrow> if sha d \<noteq> expected then Refused (''checksum mismatch: expected '' @ expected @ '', got '' @ sha d) else Verified)"

definition verifyChecksum :: "(string \<Rightarrow> string) \<Rightarrow> string option \<Rightarrow> string option \<Rightarrow> string \<Rightarrow> string \<Rightarrow> files \<Rightarrow> verdict" where
  "verifyChecksum sha f1 f2 filePath checksumPath fs =
     (case read_with f1 fs checksumPath of
        Inl e \<Rightarrow> Refused e
      | Inr l \<Rightarrow> (case Fields l of [] \<Rightarrow> Panics | w # _ \<Rightarrow> compare_sum sha (TrimSpace w) (read_with f2 fs filePath)))"

fun listed_sum :: "string \<Rightarrow> string list \<Rightarrow> string" where
  "listed_sum wanted [] = []"
| "listed_sum wanted (line # lines) =
     (let fields = Fields line
      in if length fields \<ge> 2 \<and> TrimPrefix (last fields) ''*'' = wanted then hd fields else listed_sum wanted lines)"

definition newline :: string where "newline = [CHR 0x0A]"

definition verifyChecksumFromList :: "(string \<Rightarrow> string) \<Rightarrow> string option \<Rightarrow> string option \<Rightarrow> string \<Rightarrow> string \<Rightarrow> files \<Rightarrow> verdict" where
  "verifyChecksumFromList sha f1 f2 filePath listPath fs =
     (case read_with f1 fs listPath of
        Inl e \<Rightarrow> Refused e
      | Inr l \<Rightarrow>
          (let wanted = filepath_Base filePath; expected = listed_sum wanted (Split l newline)
           in if expected = [] then Refused (''no checksum entry found for '' @ wanted)
              else compare_sum sha expected (read_with f2 fs filePath)))"

record fetch_env =
  fe_newmode :: u32
  fe_sha :: "string \<Rightarrow> string"
  fe_get :: "string \<Rightarrow> fetch"
  fe_read_list :: "string option"
  fe_read_file :: "string option"

datatype download_error = DownloadFailed string | ChecksumFailed string | DownloadPanics

definition DownloadUpdate :: "fetch_env \<Rightarrow> updater \<Rightarrow> update_info \<Rightarrow> files \<Rightarrow> (download_error + string) \<times> files" where
  "DownloadUpdate env u info fs =
     (let downloadPath = filepath_Join (up_tempDir u) (filepath_Base (ui_DownloadURL info))
      in case downloadFile (fe_newmode env) (fe_get env (ui_DownloadURL info)) downloadPath fs of
           (Some e, fs1) \<Rightarrow> (Inl (DownloadFailed e), fs1)
         | (None, fs1) \<Rightarrow>
             if ui_ChecksumURL info = [] then (Inr downloadPath, fs1)
             else
               (let listed = HasSuffix (ui_ChecksumURL info) ''checksums.txt'';
                    checksumPath = (if listed then filepath_Join (up_tempDir u) ''checksums.txt'' else downloadPath @ ''.sha256'');
                    verify = (if listed then verifyChecksumFromList else verifyChecksum)
                in case downloadFile (fe_newmode env) (fe_get env (ui_ChecksumURL info)) checksumPath fs1 of
                     (Some e, fs2) \<Rightarrow> (Inr downloadPath, fs2)
                   | (None, fs2) \<Rightarrow>
                       (case verify (fe_sha env) (fe_read_list env) (fe_read_file env) downloadPath checksumPath fs2 of
                          Verified \<Rightarrow> (Inr downloadPath, fs2)
                        | Refused e \<Rightarrow> (Inl (ChecksumFailed e), fs2)
                        | Panics \<Rightarrow> (Inl DownloadPanics, fs2))))"

section \<open>Installing\<close>

text \<open>\<open>Format("20060102_150405")\<close> of the local time \<open>now\<close>, in seconds.\<close>

definition backup_stamp :: "time \<Rightarrow> string" where
  "backup_stamp now =
     (let (y, m, d) = civil (day_number now); s = now mod 86400
      in format_year y @ pad_dec 2 (nat m) @ pad_dec 2 (nat d) @ ''_'' @
         pad_dec 2 (nat (s div 3600)) @ pad_dec 2 (nat (s div 60 mod 60)) @ pad_dec 2 (nat (s mod 60)))"

definition backup_name :: "string \<Rightarrow> time \<Rightarrow> string" where
  "backup_name version now = ''giraffecloud_'' @ version @ ''_'' @ backup_stamp now @ ''.backup''"

definition backup_path :: "updater \<Rightarrow> install_env \<Rightarrow> time \<Rightarrow> string" where
  "backup_path u env now = filepath_Join (up_backupDir u) (backup_name (ie_version env) now)"

definition createBackup :: "updater \<Rightarrow> install_env \<Rightarrow> time \<Rightarrow> files \<Rightarrow> (string + string) \<times> files" where
  "createBackup u env now fs =
     (case copyFile (ie_newmode env) (ie_backup env) (up_currentExePath u) (backup_path u env now) fs of
        (Some e, fs1) \<Rightarrow> (Inl e, fs1)
      | (None, fs1) \<Rightarrow> (Inr (backup_path u env now), fs1))"

definition extract_entry :: "u32 \<Rightarrow> entry_outcome \<Rightarrow> string \<Rightarrow> tar_entry \<Rightarrow> files \<Rightarrow> string option \<times> files" where
  "extract_entry nm out base e fs =
     (let path = filepath_Join base (te_Name e)
      in case te_Type e of
           TypeDir \<Rightarrow> os_MkdirAll (case out of EntryFails err \<Rightarrow> Some err | _ \<Rightarrow> None) path fs
         | TypeReg \<Rightarrow>
             (if map_of fs path = Some Dir then (Some (''open '' @ path @ '': is a directory''), fs)
              else if \<not> is_dir fs (filepath_Dir path) then (Some (''open '' @ path @ '': no such file or directory''), fs)
              else case out of
                     EntryFails err \<Rightarrow> (Some err, fs)
                   | EntryCopyFails k err \<Rightarrow> (Some err, create_file nm path (take k (te_Data e)) fs)
                   | EntryChmodFails err \<Rightarrow> (Some err, create_file nm path (te_Data e) fs)
                   | EntryOK \<Rightarrow> (None, os_Chmod True path (te_Mode e) (create_file nm path (te_Data e) fs)))
         | TypeOther \<Rightarrow> (None, fs))"

fun extract_entries :: "u32 \<Rightarrow> (nat \<Rightarrow> entry_outcome) \<Rightarrow> string \<Rightarrow> nat \<Rightarrow> tar_entry list \<Rightarrow> string option \<Rightarrow> files \<Rightarrow> string option \<times> files" where
  "extract_entries nm out base i [] fin fs = (fin, fs)"
| "extract_entries nm out base i (e # es) fin fs =
     (case extract_entry nm (out i) base e fs of
        (Some err, fs1) \<Rightarrow> (Some err, fs1)
      | (None, fs1) \<Rightarrow> extract_entries nm out base (Suc i) es fin fs1)"

definition extractArchive :: "install_env \<Rightarrow> string \<Rightarrow> string \<Rightarrow> files \<Rightarrow> string option \<times> files" where
  "extractArchive env archivePath extractPath fs =
     (case read_with (ie_open env) fs archivePath of
        Inl e \<Rightarrow> (Some e, fs)
      | Inr d \<Rightarrow>
          (case ie_untar env d of
             Inl e \<Rightarrow> (Some e, fs)
           | Inr a \<Rightarrow> extract_entries (ie_newmode env) (ie_entry env) extractPath 0 (ar_entries a) (ar_end a) fs))"

definition executable :: "u32 \<Rightarrow> bool" where
  "executable m \<longleftrightarrow> m AND 0x49 \<noteq> 0"

fun is_program :: "node option \<Rightarrow> bool" where
  "is_program (Some (File d m)) = executable m"
| "is_program _ = False"

definition findExecutable :: "string \<Rightarrow> string \<Rightarrow> files \<Rightarrow> string option" where
  "findExecutable goos extractPath fs =
     (let binaryName = ''giraffecloud'' @ (if goos = ''windows'' then ''.exe'' else []);
          directPath = filepath_Join extractPath binaryName;
          dirPath = filepath_Join extractPath (''giraffecloud/'' @ binaryName)
      in if is_program (map_of fs directPath) then Some directPath
         else if is_program (map_of fs dirPath) then Some dirPath
         else None)"

definition verifyNewBinary :: "(string \<Rightarrow> run_result) \<Rightarrow> string \<Rightarrow> files \<Rightarrow> string option" where
  "verifyNewBinary run p fs =
     (case map_of fs p of
        None \<Rightarrow> Some ''binary file not found''
      | Some Dir \<Rightarrow> Some ''binary is not a regular file''
      | Some (File d m) \<Rightarrow>
          if \<not> executable m then Some ''binary is not executable''
          else case run d of
                 RunOK \<Rightarrow> None
               | RunTimeout \<Rightarrow> Some ''binary verification timed out (might be hung or corrupted)''
               | RunFails e \<Rightarrow> Some (''binary verification failed (exit code or crash): '' @ e))"

definition temp_dest :: "updater \<Rightarrow> string" where
  "temp_dest u = filepath_Join (filepath_Dir (up_currentExePath u)) ''.giraffecloud.new''"

definition os_Rename :: "string option \<Rightarrow> string \<Rightarrow> string \<Rightarrow> files \<Rightarrow> string option \<times> files" where
  "os_Rename fault old new fs =
     (case (fault, map_of fs old) of
        (Some e, _) \<Rightarrow> (Some e, fs)
      | (None, None) \<Rightarrow> (Some (''rename '' @ old @ '' '' @ new @ '': no such file or directory''), fs)
      | (None, Some n) \<Rightarrow>
          if map_of fs new = Some Dir then (Some (''rename '' @ old @ '' '' @ new @ '': file exists''), fs)
          else (None, AList.update new n (AList.delete old fs)))"

definition replaceExecutable :: "updater \<Rightarrow> install_env \<Rightarrow> string \<Rightarrow> files \<Rightarrow> string option \<times> files" where
  "replaceExecutable u env newExe fs =
     (let exe = up_currentExePath u; nm = ie_newmode env
      in if ie_goos env = ''windows'' then
           (let oldPath = exe @ ''.old''
            in case os_Rename (ie_rename_old env) exe oldPath fs of
                 (Some e, fs1) \<Rightarrow> (Some e, fs1)
               | (None, fs1) \<Rightarrow>
                   (case copyFile nm (ie_copy env) newExe exe fs1 of
                      (Some e, fs2) \<Rightarrow> (Some e, if ie_rename_back env then snd (os_Rename None oldPath exe fs2) else fs2)
                    | (None, fs2) \<Rightarrow> (None, if ie_kept env oldPath then fs2 else AList.delete oldPath fs2)))
         else
           (case copyFile nm (ie_copy env) newExe (temp_dest u) fs of
              (Some e, fs1) \<Rightarrow> (Some e, fs1)
            | (None, fs1) \<Rightarrow>
                (let fs2 = (case map_of fs1 newExe of Some (File _ m) \<Rightarrow> os_Chmod (ie_chmod env) (temp_dest u) m fs1 | _ \<Rightarrow> fs1)
                 in case os_Rename (ie_rename env) (temp_dest u) exe fs2 of
                      (Some e, fs3) \<Rightarrow> (Some e, if ie_kept env (temp_dest u) then fs3 else AList.delete (temp_dest u) fs3)
                    | (None, fs3) \<Rightarrow> (None, fs3))))"

definition shouldAttemptSudo :: "install_env \<Rightarrow> string \<Rightarrow> bool" where
  "shouldAttemptSudo env err =
     (let s = ToLower err
      in if \<not> (Contains s ''permission'' \<or> Contains s ''operation not permitted'' \<or> Contains s ''read-only file system'') then False
         else if ie_stdin env = StdinOther then False
         else ie_has_sudo env)"

definition sudo_install :: "sudo_outcome \<Rightarrow> string \<Rightarrow> string \<Rightarrow> files \<Rightarrow> string option \<times> files" where
  "sudo_install out src dst fs =
     (case out of
        SudoOK \<Rightarrow> (case map_of fs src of Some (File d _) \<Rightarrow> (None, AList.update dst (File d 0x1ED) fs) | _ \<Rightarrow> (Some ''exit status 1'', fs))
      | SudoFails e left \<Rightarrow>
          (Some e, case left of None \<Rightarrow> fs | Some None \<Rightarrow> AList.delete dst fs | Some (Some n) \<Rightarrow> AList.update dst n fs))"

definition restoreBackup :: "updater \<Rightarrow> install_env \<Rightarrow> string \<Rightarrow> files \<Rightarrow> string option \<times> files" where
  "restoreBackup u env backupPath fs =
     (case copyFile (ie_newmode env) (ie_restore env) backupPath (up_currentExePath u) fs of
        (None, fs1) \<Rightarrow> (None, fs1)
      | (Some e, fs1) \<Rightarrow>
          if shouldAttemptSudo env e then
            (case sudo_install (ie_restore_sudo env) backupPath (up_currentExePath u) fs1 of
               (Some e2, fs2) \<Rightarrow> (Some (''failed to restore backup (even with sudo): original error: '' @ e @ '', sudo error: '' @ e2), fs2)
             | (None, fs2) \<Rightarrow> (None, fs2))
          else (Some e, fs1))"

definition recover :: "updater \<Rightarrow> install_env \<Rightarrow> time \<Rightarrow> install_error \<Rightarrow> files \<Rightarrow> install_error option \<times> files" where
  "recover u env now err fs = (Some err, snd (restoreBackup u env (backup_path u env now) fs))"

definition install_replace :: "updater \<Rightarrow> install_env \<Rightarrow> time \<Rightarrow> string \<Rightarrow> files \<Rightarrow> install_error option \<times> files" where
  "install_replace u env now newExe fs =
     (case replaceExecutable u env newExe fs of
        (None, fs1) \<Rightarrow> (None, fs1)
      | (Some e, fs1) \<Rightarrow>
          if (ie_goos env = ''linux'' \<or> ie_goos env = ''darwin'') \<and> shouldAttemptSudo env e then
            (case sudo_install (ie_sudo env) newExe (up_currentExePath u) fs1 of
               (None, fs2) \<Rightarrow> (None, fs2)
             | (Some e2, fs2) \<Rightarrow> recover u env now (SudoFailed e2) fs2)
          else recover u env now (ReplaceFailed e) fs1)"

definition extract_dir :: "updater \<Rightarrow> string" where
  "extract_dir u = filepath_Join (up_tempDir u) ''extract''"

definition install_extracted :: "updater \<Rightarrow> install_env \<Rightarrow> time \<Rightarrow> files \<Rightarrow> install_error option \<times> files" where
  "install_extracted u env now fs =
     (case findExecutable (ie_goos env) (extract_dir u) fs of
        None \<Rightarrow> recover u env now NoExecutable fs
      | Some newExe \<Rightarrow>
          (case verifyNewBinary (ie_run env) newExe fs of
             Some e \<Rightarrow> recover u env now (BadBinary e) fs
           | None \<Rightarrow> install_replace u env now newExe fs))"

text \<open>The owner and the security labels that \<open>applyPostInstallAttributes\<close> sets are not part of a \<^typ>\<open>node\<close>.\<close>

definition InstallUpdate :: "updater \<Rightarrow> install_env \<Rightarrow> time \<Rightarrow> string \<Rightarrow> files \<Rightarrow> install_error option \<times> files" where
  "InstallUpdate u env now downloadPath fs =
     (case createBackup u env now fs of
        (Inl e, fs1) \<Rightarrow> (Some (BackupFailed e), fs1)
      | (Inr backupPath, fs1) \<Rightarrow>
          (case os_MkdirAll (ie_mkdir env) (extract_dir u) (os_RemoveAll (ie_kept env) (extract_dir u) fs1) of
             (Some e, fs2) \<Rightarrow> (Some (ExtractDirFailed e), fs2)
           | (None, fs2) \<Rightarrow>
               (case extractArchive env downloadPath (extract_dir u) fs2 of
                  (Some e, fs3) \<Rightarrow> recover u env now (ExtractFailed e) fs3
                | (None, fs3) \<Rightarrow>
                    (case install_extracted u env now fs3 of
                       (Some e, fs4) \<Rightarrow> (Some e, fs4)
                     | (None, fs4) \<Rightarrow>
                         (None, os_RemoveAll (ie_kept env) (extract_dir u) (os_RemoveAll (ie_kept env) downloadPath fs4))))))"

section \<open>Construction and clean-up\<close>

definition NewUpdaterService ::
    "string \<Rightarrow> string + string \<Rightarrow> string option \<Rightarrow> string option \<Rightarrow> string option \<Rightarrow> client_host \<Rightarrow> files \<Rightarrow> (string + updater) \<times> files" where
  "NewUpdaterService url executablePath resolved fault1 fault2 h fs =
     (case executablePath of
        Inl e \<Rightarrow> (Inl (''failed to get executable path: '' @ e), fs)
      | Inr exe0 \<Rightarrow>
          (let exe = (case resolved of Some r \<Rightarrow> if r \<noteq> [] then r else exe0 | None \<Rightarrow> exe0);
               base = GetConfigDir h; backups = filepath_Join base ''backups''; temp = filepath_Join base ''temp''
           in case os_MkdirAll fault1 backups fs of
                (Some e, fs1) \<Rightarrow> (Inl (''failed to create backup directory: '' @ e), fs1)
              | (None, fs1) \<Rightarrow>
                  (case os_MkdirAll fault2 temp fs1 of
                     (Some e, fs2) \<Rightarrow> (Inl (''failed to create temp directory: '' @ e), fs2)
                   | (None, fs2) \<Rightarrow>
                       (Inr \<lparr>up_downloadBaseURL = url, up_currentExePath = exe, up_backupDir = backups, up_tempDir = temp\<rparr>, fs2))))"

text \<open>\<open>os.ReadDir\<close>: the names in a directory, sorted.\<close>

definition name_in :: "string \<Rightarrow> string \<Rightarrow> string option" where
  "name_in dir q =
     (if HasPrefix q (dir @ ''/'') \<and> length q > length dir + 1 \<and> CHR ''/'' \<notin> set (drop (length dir + 1) q)
      then Some (drop (length dir + 1) q) else None)"

definition os_ReadDir :: "string \<Rightarrow> files \<Rightarrow> string list" where
  "os_ReadDir dir fs = sort (List.map_filter (name_in dir \<circ> fst) fs)"

definition backup_files :: "(string \<Rightarrow> bool) \<Rightarrow> string \<Rightarrow> files \<Rightarrow> string list" where
  "backup_files info dir fs = filter (\<lambda>n. HasSuffix n ''.backup'' \<and> info n) (os_ReadDir dir fs)"

definition remove_backup :: "(string \<Rightarrow> bool) \<Rightarrow> string \<Rightarrow> string \<Rightarrow> files \<Rightarrow> files" where
  "remove_backup kept dir name fs =
     (let p = filepath_Join dir name in if kept p then fs else AList.delete p fs)"

definition CleanupOldBackups :: "string option \<Rightarrow> (string \<Rightarrow> bool) \<Rightarrow> (string \<Rightarrow> bool) \<Rightarrow> updater \<Rightarrow> files \<Rightarrow> string option \<times> files" where
  "CleanupOldBackups fault info kept u fs =
     (case fault of
        Some e \<Rightarrow> (Some e, fs)
      | None \<Rightarrow>
          (let bs = backup_files info (up_backupDir u) fs
           in (None, if length bs > 5 then fold (remove_backup kept (up_backupDir u)) (take (length bs - 5) bs) fs else fs)))"

section \<open>What the operations leave alone\<close>

lemma map_of_filter_key: "map_of (filter (\<lambda>(q, n). P q) fs) p = (if P p then map_of fs p else None)"
  by (induction fs) auto

lemma map_of_RemoveAll [simp]: "map_of (os_RemoveAll kept p fs) q = (if \<not> under p q \<or> kept q then map_of fs q else None)"
  by (simp add: os_RemoveAll_def map_of_filter_key)

lemma map_of_create [simp]:
  "q \<noteq> p \<Longrightarrow> map_of (create_file nm p d fs) q = map_of fs q"
  "\<exists>m. map_of (create_file nm p d fs) p = Some (File d m)"
  by (simp_all add: create_file_def map_of_update)

lemma map_of_Chmod:
  "q \<noteq> p \<Longrightarrow> map_of (os_Chmod ok p m fs) q = map_of fs q"
  "map_of fs p = Some (File d m0) \<Longrightarrow> map_of (os_Chmod ok p m fs) p = Some (File d (if ok then m else m0))"
  by (auto simp: os_Chmod_def map_of_update split: option.split node.split)

lemma map_of_Chmod_create: "\<exists>m'. map_of (os_Chmod ok p m (create_file nm p d fs)) p = Some (File d m')"
  using map_of_create(2) map_of_Chmod(2) by metis

lemma copyFile_frame: "copyFile nm out src dst fs = (r, fs') \<Longrightarrow> q \<noteq> dst \<Longrightarrow> map_of fs' q = map_of fs q"
  by (auto simp: copyFile_def map_of_Chmod(1) Let_def split: copy_outcome.splits option.splits node.splits if_splits)

lemma copyFile_ok:
  assumes "copyFile nm out src dst fs = (None, fs')" "src \<noteq> dst"
  shows "\<exists>d m m'. map_of fs src = Some (File d m) \<and> map_of fs' dst = Some (File d m')"
  using assms map_of_Chmod_create [of _ dst _ nm]
  by (fastforce simp: copyFile_def Let_def split: copy_outcome.splits option.splits node.splits if_splits)

lemma copyFile_err:
  assumes "copyFile nm out src dst fs = (Some e, fs')" "\<forall>k e. out \<noteq> CopyFails k e" "map_of fs src = Some (File d m)"
  shows "fs' = fs"
  using assms by (auto simp: copyFile_def Let_def split: copy_outcome.splits option.splits node.splits if_splits)

lemma make_dirs_cases:
  "make_dirs ps fs = (r, fs') \<Longrightarrow> map_of fs' q = map_of fs q \<or> map_of fs q = None \<and> map_of fs' q = Some Dir"
proof (induction ps fs rule: make_dirs.induct)
  case (2 p ps fs)
  then show ?case
    by (cases "p = q") (auto simp: map_of_update split: option.splits node.splits)
qed simp

lemma MkdirAll_cases:
  "os_MkdirAll fault p fs = (r, fs') \<Longrightarrow> map_of fs' q = map_of fs q \<or> map_of fs q = None \<and> map_of fs' q = Some Dir"
  using make_dirs_cases by (auto simp: os_MkdirAll_def split: if_splits option.splits)

lemma MkdirAll_file: "os_MkdirAll fault p fs = (r, fs') \<Longrightarrow> map_of fs' q = Some (File d m) \<longleftrightarrow> map_of fs q = Some (File d m)"
  using MkdirAll_cases [of fault p fs r fs' q] by auto

definition entry_path :: "string \<Rightarrow> tar_entry \<Rightarrow> string" where
  "entry_path base e = filepath_Join base (te_Name e)"

lemma extract_entry_frame:
  assumes "extract_entry nm out base e fs = (r, fs')" "q \<noteq> entry_path base e"
  shows "map_of fs' q = Some (File d m) \<longleftrightarrow> map_of fs q = Some (File d m)"
  using assms MkdirAll_file [where q = q and d = d and m = m]
  by (auto simp: extract_entry_def Let_def entry_path_def map_of_Chmod(1) split: tar_type.splits if_splits entry_outcome.splits)

lemma extract_entry_new:
  assumes "extract_entry nm out base e fs = (None, fs')" "map_of fs' q = Some (File d m)"
  shows "map_of fs q = Some (File d m) \<or> d = te_Data e"
proof (cases "q = entry_path base e")
  case False
  then show ?thesis using extract_entry_frame [OF assms(1)] assms(2) by simp
next
  case True
  show ?thesis
    using assms True MkdirAll_file [of _ q fs None fs' q d m] map_of_Chmod_create [of True q "te_Mode e" nm "te_Data e" fs]
    by (auto simp: extract_entry_def Let_def entry_path_def split: tar_type.splits if_splits entry_outcome.splits)
qed

lemma extract_entries_frame:
  "extract_entries nm out base i es fin fs = (r, fs') \<Longrightarrow> q \<notin> entry_path base ` set es \<Longrightarrow>
     map_of fs' q = Some (File d m) \<longleftrightarrow> map_of fs q = Some (File d m)"
proof (induction nm out base i es fin fs rule: extract_entries.induct)
  case (2 nm out base i e es fin fs)
  then show ?case using extract_entry_frame [of nm "out i" base e fs _ _ q d m]
    by (auto split: prod.splits option.splits)
qed simp

lemma extract_entries_new:
  "extract_entries nm out base i es fin fs = (None, fs') \<Longrightarrow> map_of fs' q = Some (File d m) \<Longrightarrow>
     map_of fs q = Some (File d m) \<or> d \<in> te_Data ` set es"
proof (induction nm out base i es fin fs rule: extract_entries.induct)
  case (2 nm out base i e es fin fs)
  then show ?case using extract_entry_new [of nm "out i" base e fs _ q d m]
    by (auto split: prod.splits option.splits)
qed simp

lemma Rename_ok:
  assumes "os_Rename fault old new fs = (None, fs')" "old \<noteq> new"
  shows "map_of fs' new = map_of fs old" "q \<noteq> old \<Longrightarrow> q \<noteq> new \<Longrightarrow> map_of fs' q = map_of fs q" "map_of fs old \<noteq> None"
  using assms by (auto simp: os_Rename_def map_of_update map_of_delete split: option.splits if_splits)

lemma Rename_err: "os_Rename fault old new fs = (Some e, fs') \<Longrightarrow> fs' = fs"
  by (auto simp: os_Rename_def split: option.splits if_splits)

section \<open>Installation is safe\<close>

definition holds :: "files \<Rightarrow> string \<Rightarrow> string \<Rightarrow> bool" where
  "holds fs p d \<longleftrightarrow> (\<exists>m. map_of fs p = Some (File d m))"

text \<open>Failures that do not tear the executable: a restoring copy fails before it writes, and a failing \<open>sudo\<close> leaves it alone.\<close>

definition clean_failures :: "install_env \<Rightarrow> bool" where
  "clean_failures env \<longleftrightarrow>
     (\<forall>k e. ie_restore env \<noteq> CopyFails k e) \<and> (\<forall>e n. ie_sudo env \<noteq> SudoFails e (Some n)) \<and> (\<forall>e n. ie_restore_sudo env \<noteq> SudoFails e (Some n))"

lemma holds_cong: "map_of fs' p = map_of fs p \<Longrightarrow> holds fs' p d = holds fs p d"
  by (simp add: holds_def)

lemma holds_unique: "holds fs p d \<Longrightarrow> holds fs p d' \<Longrightarrow> d = d'"
  by (auto simp: holds_def)

lemma sudo_cases:
  assumes "sudo_install out src dst fs = (r, fs')" "\<forall>e n. out \<noteq> SudoFails e (Some n)"
  shows "r = None \<and> (\<exists>d m. map_of fs src = Some (File d m) \<and> fs' = AList.update dst (File d 0x1ED) fs) \<or> r \<noteq> None \<and> fs' = fs"
  using assms by (auto simp: sudo_install_def split: sudo_outcome.splits option.splits node.splits)

lemma restore_holds:
  assumes h: "holds fs (up_currentExePath u) old" "holds fs b old" and ne: "b \<noteq> up_currentExePath u"
    and c: "clean_failures env" and r: "restoreBackup u env b fs = (r, fs')"
  shows "holds fs' (up_currentExePath u) old \<and> holds fs' b old"
proof -
  obtain e fs1 where cp: "copyFile (ie_newmode env) (ie_restore env) b (up_currentExePath u) fs = (e, fs1)" by force
  show ?thesis
  proof (cases e)
    case None
    then have "holds fs1 (up_currentExePath u) old" using copyFile_ok [of _ _ b _ fs fs1] cp ne h(2) by (auto simp: holds_def)
    moreover have "holds fs1 b old" using copyFile_frame [OF cp] ne h(2) by (simp add: holds_def)
    ultimately show ?thesis using r cp None by (simp add: restoreBackup_def)
  next
    case (Some err)
    then have fs1: "fs1 = fs" using copyFile_err [of _ _ b _ fs err fs1] cp c h(2) by (auto simp: holds_def clean_failures_def)
    obtain e2 fs2 where sd: "sudo_install (ie_restore_sudo env) b (up_currentExePath u) fs = (e2, fs2)" by force
    have "holds fs2 (up_currentExePath u) old \<and> holds fs2 b old"
      using sudo_cases [OF sd] c h ne by (auto simp: clean_failures_def holds_def map_of_update)
    then show ?thesis using r cp Some fs1 sd h by (auto simp: restoreBackup_def split: if_splits option.splits)
  qed
qed

lemma recover_holds:
  assumes "holds fs (up_currentExePath u) old" "holds fs (backup_path u env now) old" "backup_path u env now \<noteq> up_currentExePath u"
    "clean_failures env" "recover u env now err fs = (r, fs')"
  shows "r = Some err \<and> holds fs' (up_currentExePath u) old \<and> holds fs' (backup_path u env now) old"
  using assms restore_holds [of fs u old "backup_path u env now" env "fst (restoreBackup u env (backup_path u env now) fs)" fs']
  by (auto simp: recover_def prod_eq_iff)

lemma replace_ok:
  assumes "replaceExecutable u env new fs = (None, fs')" "ie_goos env \<noteq> ''windows''" "temp_dest u \<noteq> up_currentExePath u"
    "new \<noteq> temp_dest u" "holds fs new d"
  shows "holds fs' (up_currentExePath u) d" "q \<noteq> temp_dest u \<Longrightarrow> q \<noteq> up_currentExePath u \<Longrightarrow> map_of fs' q = map_of fs q"
proof -
  from assms(1,2) obtain fs1 fs2 where cp: "copyFile (ie_newmode env) (ie_copy env) new (temp_dest u) fs = (None, fs1)"
    and fs2: "fs2 = (case map_of fs1 new of Some (File _ m) \<Rightarrow> os_Chmod (ie_chmod env) (temp_dest u) m fs1 | _ \<Rightarrow> fs1)"
    and rn: "os_Rename (ie_rename env) (temp_dest u) (up_currentExePath u) fs2 = (None, fs')"
    by (auto simp: replaceExecutable_def Let_def split: prod.splits option.splits)
  have "holds fs1 (temp_dest u) d" using copyFile_ok [OF cp assms(4)] assms(5) by (auto simp: holds_def)
  then have "holds fs2 (temp_dest u) d"
    using map_of_Chmod(2) [of fs1 "temp_dest u" d] by (auto simp: fs2 holds_def split: option.split node.split)
  then show "holds fs' (up_currentExePath u) d" using Rename_ok(1) [OF rn assms(3)] by (simp add: holds_def)
  show "q \<noteq> temp_dest u \<Longrightarrow> q \<noteq> up_currentExePath u \<Longrightarrow> map_of fs' q = map_of fs q"
    using Rename_ok(2) [OF rn assms(3), of q] copyFile_frame [OF cp, of q]
    by (auto simp: fs2 map_of_Chmod(1) split: option.splits node.splits)
qed

lemma replace_err:
  assumes "replaceExecutable u env new fs = (Some e, fs')" "ie_goos env \<noteq> ''windows''" "q \<noteq> temp_dest u"
  shows "map_of fs' q = map_of fs q"
  using assms copyFile_frame [of "ie_newmode env" "ie_copy env" new "temp_dest u" fs _ _ q]
  by (auto simp: replaceExecutable_def Let_def map_of_Chmod(1) map_of_delete dest!: Rename_err split: prod.splits option.splits if_splits node.splits)

text \<open>The paths of an installation do not overlap: executable, backup and temporary copy are outside the directory of the extraction.\<close>

definition layout_ok :: "updater \<Rightarrow> install_env \<Rightarrow> time \<Rightarrow> string \<Rightarrow> bool" where
  "layout_ok u env now downloadPath \<longleftrightarrow>
     (let exe = up_currentExePath u; b = backup_path u env now; t = temp_dest u; x = extract_dir u
      in b \<noteq> exe \<and> t \<noteq> exe \<and> t \<noteq> b \<and> \<not> under x exe \<and> \<not> under x b \<and> \<not> under x t \<and> \<not> under x downloadPath \<and>
         \<not> under downloadPath exe \<and> \<not> under downloadPath b \<and>
         under x (filepath_Join x ''giraffecloud'') \<and> under x (filepath_Join x ''giraffecloud/giraffecloud''))"

definition stays_under :: "string \<Rightarrow> tar_entry list \<Rightarrow> bool" where
  "stays_under base es \<longleftrightarrow> list_all (\<lambda>e. under base (entry_path base e)) es"

lemma install_replace_holds:
  assumes h: "holds fs (up_currentExePath u) old" "holds fs (backup_path u env now) old" "holds fs new d"
    and l: "layout_ok u env now dp" "new \<noteq> temp_dest u" "new \<noteq> up_currentExePath u" "ie_goos env \<noteq> ''windows''" "clean_failures env"
    and r: "install_replace u env now new fs = (r, fs')"
  shows "(if r = None then holds fs' (up_currentExePath u) d else holds fs' (up_currentExePath u) old) \<and> holds fs' (backup_path u env now) old"
proof -
  let ?exe = "up_currentExePath u" and ?b = "backup_path u env now"
  have ne: "?b \<noteq> ?exe" "temp_dest u \<noteq> ?exe" "temp_dest u \<noteq> ?b" using l(1) by (auto simp: layout_ok_def Let_def)
  obtain e fs1 where rep: "replaceExecutable u env new fs = (e, fs1)" by force
  show ?thesis
  proof (cases e)
    case None
    then have "holds fs1 ?exe d" "holds fs1 ?b old"
      using replace_ok(1) [of u env new fs fs1 d] replace_ok(2) [of u env new fs fs1 d ?b] rep l ne h by (auto simp: holds_def)
    then show ?thesis using r rep None by (simp add: install_replace_def)
  next
    case (Some err)
    then have k: "map_of fs1 q = map_of fs q" if "q \<noteq> temp_dest u" for q using replace_err rep l(4) that by metis
    have h1: "holds fs1 ?exe old" "holds fs1 ?b old" "holds fs1 new d"
      using h k [of ?exe] k [of ?b] k [of new] ne l(2) by (auto simp: holds_def)
    obtain e2 fs2 where sd: "sudo_install (ie_sudo env) new ?exe fs1 = (e2, fs2)" by force
    have s: "e2 = None \<Longrightarrow> holds fs2 ?exe d \<and> holds fs2 ?b old" "e2 \<noteq> None \<Longrightarrow> fs2 = fs1"
      using sudo_cases [OF sd] l(5) h1 ne(1) by (auto simp: clean_failures_def holds_def map_of_update)
    show ?thesis
      using r rep Some sd s recover_holds [OF h1(1,2) ne(1) l(5)]
      by (auto simp: install_replace_def split: if_splits option.splits)
  qed
qed

lemma findExecutable_Some:
  assumes "findExecutable goos x fs = Some p" "goos \<noteq> ''windows''"
  shows "p \<in> {filepath_Join x ''giraffecloud'', filepath_Join x ''giraffecloud/giraffecloud''}" "is_program (map_of fs p)"
  using assms by (auto simp: findExecutable_def Let_def split: if_splits)

lemma verifyNewBinary_None:
  assumes "verifyNewBinary run p fs = None"
  obtains d m where "map_of fs p = Some (File d m)" "run d = RunOK" "executable m"
  using assms by (auto simp: verifyNewBinary_def split: option.splits node.splits if_splits run_result.splits)

lemma install_extracted_holds:
  assumes h: "holds fs (up_currentExePath u) old" "holds fs (backup_path u env now) old"
    and l: "layout_ok u env now dp" "ie_goos env \<noteq> ''windows''" "clean_failures env"
    and r: "install_extracted u env now fs = (r, fs')"
  shows "(if r = None then \<exists>p d. under (extract_dir u) p \<and> holds fs p d \<and> ie_run env d = RunOK \<and> holds fs' (up_currentExePath u) d
          else holds fs' (up_currentExePath u) old) \<and> holds fs' (backup_path u env now) old"
proof -
  let ?x = "extract_dir u"
  have ne: "backup_path u env now \<noteq> up_currentExePath u" and out: "\<not> under ?x (temp_dest u)" "\<not> under ?x (up_currentExePath u)"
    and ins: "under ?x (filepath_Join ?x ''giraffecloud'')" "under ?x (filepath_Join ?x ''giraffecloud/giraffecloud'')"
    using l(1) by (auto simp: layout_ok_def Let_def)
  note rec = recover_holds [OF h ne l(3)]
  show ?thesis
  proof (cases "findExecutable (ie_goos env) ?x fs")
    case None
    then show ?thesis using r rec [of NoExecutable r fs'] by (auto simp: install_extracted_def)
  next
    case (Some p)
    then have p: "under ?x p" using findExecutable_Some(1) [OF Some l(2)] ins by auto
    show ?thesis
    proof (cases "verifyNewBinary (ie_run env) p fs")
      case (Some e)
      then show ?thesis using r rec [of "BadBinary e" r fs'] \<open>findExecutable _ _ _ = Some p\<close> by (auto simp: install_extracted_def)
    next
      case None
      then obtain d m where d: "map_of fs p = Some (File d m)" "ie_run env d = RunOK" by (rule verifyNewBinary_None)
      have "install_replace u env now p fs = (r, fs')" using r Some None by (simp add: install_extracted_def)
      moreover have "p \<noteq> temp_dest u" "p \<noteq> up_currentExePath u" "holds fs p d" using p out d(1) by (auto simp: holds_def)
      ultimately show ?thesis
        using install_replace_holds [OF h _ l(1) _ _ l(2,3), of p d r fs'] p d(2) by (auto split: if_splits)
    qed
  qed
qed

lemma stays_under_not: "stays_under x es \<Longrightarrow> \<not> under x q \<Longrightarrow> q \<notin> entry_path x ` set es"
  by (auto simp: stays_under_def list_all_iff)

lemma extracted_holds:
  assumes ex: "extractArchive env dp x fs = (r, fs')" and dp: "map_of fs dp = Some (File z mz)"
    and st: "\<forall>a. ie_untar env z = Inr a \<longrightarrow> stays_under x (ar_entries a)"
  shows "\<not> under x q \<Longrightarrow> holds fs q d \<Longrightarrow> holds fs' q d"
    and "r = None \<Longrightarrow> under x q \<Longrightarrow> \<not> holds fs q d \<Longrightarrow> holds fs' q d \<Longrightarrow> \<exists>a. ie_untar env z = Inr a \<and> d \<in> te_Data ` set (ar_entries a)"
proof -
  have c: "r \<noteq> None \<and> fs' = fs \<or>
        (\<exists>a. ie_untar env z = Inr a \<and> extract_entries (ie_newmode env) (ie_entry env) x 0 (ar_entries a) (ar_end a) fs = (r, fs'))"
    using ex dp by (auto simp: extractArchive_def read_with_def read_file_def split: option.splits sum.splits)
  show "holds fs' q d" if "\<not> under x q" "holds fs q d"
    using c st stays_under_not [of x _ q] extract_entries_frame [of _ _ x _ _ _ fs r fs' q d] that by (fastforce simp: holds_def)
  show "\<exists>a. ie_untar env z = Inr a \<and> d \<in> te_Data ` set (ar_entries a)"
    if "r = None" "under x q" "\<not> holds fs q d" "holds fs' q d"
    using c extract_entries_new [of _ _ x _ _ _ fs fs' q d] that by (fastforce simp: holds_def)
qed

lemma install_keeps:
  assumes "map_of fs (up_currentExePath u) = Some (File old m)" "map_of fs downloadPath = Some (File z mz)"
    and "layout_ok u env now downloadPath" "ie_goos env \<noteq> ''windows''" "clean_failures env" "\<forall>p. \<not> ie_kept env p"
    and "\<forall>a. ie_untar env z = Inr a \<longrightarrow> stays_under (extract_dir u) (ar_entries a)"
  shows "case InstallUpdate u env now downloadPath fs of
           (None, fs') \<Rightarrow> \<exists>a d. ie_untar env z = Inr a \<and> d \<in> te_Data ` set (ar_entries a) \<and> ie_run env d = RunOK \<and>
                            holds fs' (up_currentExePath u) d \<and> holds fs' (backup_path u env now) old
         | (Some err, fs') \<Rightarrow> holds fs' (up_currentExePath u) old \<and>
                            ((\<exists>e. err = BackupFailed e) \<or> holds fs' (backup_path u env now) old)"
proof -
  let ?exe = "up_currentExePath u" and ?b = "backup_path u env now" and ?x = "extract_dir u"
  have ne: "?b \<noteq> ?exe" "\<not> under ?x ?exe" "\<not> under ?x ?b" "\<not> under ?x downloadPath" "?b \<noteq> downloadPath"
      "\<not> under downloadPath ?exe" "\<not> under downloadPath ?b"
    using assms(3) by (auto simp: layout_ok_def Let_def under_def)
  obtain e1 fs1 where bk: "copyFile (ie_newmode env) (ie_backup env) ?exe ?b fs = (e1, fs1)" by force
  note k1 = copyFile_frame [OF bk]
  have exe1: "map_of fs1 ?exe = Some (File old m)" and dp1: "map_of fs1 downloadPath = Some (File z mz)"
    using k1 [of ?exe] k1 [of downloadPath] ne assms(1,2) by auto
  show ?thesis
  proof (cases e1)
    case (Some e)
    then show ?thesis using bk exe1 by (simp add: InstallUpdate_def createBackup_def holds_def)
  next
    case None
    then have b1: "holds fs1 ?b old" using copyFile_ok [of _ _ ?exe ?b fs fs1] bk ne(1) assms(1) by (auto simp: holds_def)
    obtain e2 fs2 where mk: "os_MkdirAll (ie_mkdir env) ?x (os_RemoveAll (ie_kept env) ?x fs1) = (e2, fs2)" by force
    note k2 = MkdirAll_file [OF mk]
    have h2: "holds fs2 ?exe old" "holds fs2 ?b old" "map_of fs2 downloadPath = Some (File z mz)"
      using b1 exe1 dp1 ne by (auto simp: holds_def k2)
    have fresh: "\<not> holds fs2 q d" if "under ?x q" for q d using that assms(6) by (auto simp: holds_def k2)
    obtain e3 fs3 where ex: "extractArchive env downloadPath ?x fs2 = (e3, fs3)" by force
    have h3: "holds fs3 ?exe old" "holds fs3 ?b old"
      and new: "\<And>q d. e3 = None \<Longrightarrow> under ?x q \<Longrightarrow> holds fs3 q d \<Longrightarrow> \<exists>a. ie_untar env z = Inr a \<and> d \<in> te_Data ` set (ar_entries a)"
      using extracted_holds [OF ex h2(3) assms(7)] h2(1,2) ne(2,3) fresh by blast+
    consider (dir) e where "e2 = Some e" | (broken) e where "e2 = None" "e3 = Some e" | (go) "e2 = None" "e3 = None" by fastforce
    then show ?thesis
    proof cases
      case dir
      then show ?thesis using None bk mk h2 by (simp add: InstallUpdate_def createBackup_def)
    next
      case e: broken
      obtain r fs4 where rc: "recover u env now (ExtractFailed e) fs3 = (r, fs4)" by force
      show ?thesis using recover_holds [OF h3 ne(1) assms(5) rc] None bk mk ex e rc by (simp add: InstallUpdate_def createBackup_def)
    next
      case e: go
      obtain r fs4 where ie: "install_extracted u env now fs3 = (r, fs4)" by force
      note h4 = install_extracted_holds [OF h3 assms(3,4,5) ie]
      have "r = None \<Longrightarrow> \<exists>a d. ie_untar env z = Inr a \<and> d \<in> te_Data ` set (ar_entries a) \<and> ie_run env d = RunOK \<and> holds fs4 ?exe d"
        using h4 new [OF e(2)] by (metis (full_types))
      moreover have "holds (os_RemoveAll (ie_kept env) ?x (os_RemoveAll (ie_kept env) downloadPath fs4)) q = holds fs4 q" if "q \<in> {?exe, ?b}" for q
        using that ne by (auto simp: holds_def)
      ultimately show ?thesis
        using h4 e None bk mk ex ie by (cases r) (simp_all add: InstallUpdate_def createBackup_def)
    qed
  qed
qed


text \<open>
  The recovery can destroy what it recovers: when an archive cannot be extracted, the executable has not been touched, and
  the backup is still written over it; if that copy fails after some bytes, only these bytes are left of the executable.
\<close>

theorem recovery_tears_executable:
  assumes "map_of fs (up_currentExePath u) = Some (File old m)" "map_of fs downloadPath = Some (File z mz)"
    and "layout_ok u env now downloadPath" "ie_untar env z = Inl e" "ie_open env = None"
    and "createBackup u env now fs = (Inr (backup_path u env now), fs1)"
    and "os_MkdirAll (ie_mkdir env) (extract_dir u) (os_RemoveAll (ie_kept env) (extract_dir u) fs1) = (None, fs2)"
    and "ie_restore env = CopyFails k e2" "\<not> shouldAttemptSudo env e2"
  shows "holds fs2 (up_currentExePath u) old \<and>
    (\<exists>fs'. InstallUpdate u env now downloadPath fs = (Some (ExtractFailed e), fs') \<and> holds fs' (up_currentExePath u) (take k old))"
proof -
  let ?exe = "up_currentExePath u" and ?b = "backup_path u env now"
  have ne: "?b \<noteq> ?exe" "\<not> under (extract_dir u) ?exe" "\<not> under (extract_dir u) ?b" "\<not> under (extract_dir u) downloadPath" "?b \<noteq> downloadPath"
    using assms(3) by (auto simp: layout_ok_def Let_def under_def)
  have bk: "copyFile (ie_newmode env) (ie_backup env) ?exe ?b fs = (None, fs1)"
    using assms(6) by (auto simp: createBackup_def split: prod.splits option.splits)
  obtain mb where b1: "map_of fs1 ?b = Some (File old mb)" using copyFile_ok [OF bk] ne(1) assms(1) by auto
  have "map_of fs2 ?exe = Some (File old m)" "map_of fs2 downloadPath = Some (File z mz)" "map_of fs2 ?b = Some (File old mb)"
    using b1 copyFile_frame [OF bk, of ?exe] copyFile_frame [OF bk, of downloadPath] ne assms(1,2) by (auto simp: MkdirAll_file [OF assms(7)])
  then show ?thesis
    using assms(4-) ne(1) by (auto simp: InstallUpdate_def extractArchive_def read_with_def read_file_def recover_def restoreBackup_def
        copyFile_def Let_def holds_def)
qed

section \<open>Downloads and backups\<close>

lemma downloadFile_ok:
  assumes "downloadFile nm out p fs = (None, fs')"
  shows "\<exists>d. out = FetchOK d \<and> holds fs' p d \<and> (\<forall>q. q \<noteq> p \<longrightarrow> map_of fs' q = map_of fs q)"
  using assms by (auto simp: downloadFile_def holds_def split: fetch.splits if_splits)

lemma downloadFile_frame: "downloadFile nm out p fs = (r, fs') \<Longrightarrow> q \<noteq> p \<Longrightarrow> map_of fs' q = map_of fs q"
  by (auto simp: downloadFile_def split: fetch.splits if_splits)

lemma download_holds:
  assumes "DownloadUpdate env u info fs = (Inr path, fs')" "HasSuffix (ui_ChecksumURL info) ''checksums.txt''"
    and "filepath_Join (up_tempDir u) ''checksums.txt'' \<noteq> path"
  shows "\<exists>d. fe_get env (ui_DownloadURL info) = FetchOK d \<and> holds fs' path d \<and>
           ((\<forall>l. fe_get env (ui_ChecksumURL info) \<noteq> FetchOK l) \<or> is_dir fs' (filepath_Join (up_tempDir u) ''checksums.txt'') \<or>
            (\<exists>l. fe_get env (ui_ChecksumURL info) = FetchOK l \<and> listed_sum (filepath_Base path) (Split l newline) = fe_sha env d))"
proof -
  let ?list = "filepath_Join (up_tempDir u) ''checksums.txt''"
  have url: "ui_ChecksumURL info \<noteq> []" using assms(2) by (auto simp: HasSuffix_def)
  obtain e1 fs1 where d1: "downloadFile (fe_newmode env) (fe_get env (ui_DownloadURL info)) (filepath_Join (up_tempDir u) (filepath_Base (ui_DownloadURL info))) fs = (e1, fs1)"
    by force
  obtain e2 fs2 where d2: "downloadFile (fe_newmode env) (fe_get env (ui_ChecksumURL info)) ?list fs1 = (e2, fs2)" by force
  have c: "e1 = None" "path = filepath_Join (up_tempDir u) (filepath_Base (ui_DownloadURL info))" "fs' = fs2"
      "e2 = None \<Longrightarrow> verifyChecksumFromList (fe_sha env) (fe_read_list env) (fe_read_file env) path ?list fs2 = Verified"
    using assms(1,2) url d1 d2 by (auto simp: DownloadUpdate_def Let_def split: option.splits verdict.splits)
  obtain d where d: "fe_get env (ui_DownloadURL info) = FetchOK d" "holds fs1 path d" using downloadFile_ok d1 c(1,2) by blast
  have h: "holds fs' path d" using d(2) downloadFile_frame [OF d2, of path] assms(3) c(3) by (simp add: holds_def)
  show ?thesis
  proof (cases e2)
    case None
    obtain l where l: "fe_get env (ui_ChecksumURL info) = FetchOK l" "holds fs2 ?list l" using downloadFile_ok d2 None by blast
    have "listed_sum (filepath_Base path) (Split l newline) = fe_sha env d"
      using c(4) [OF None] l(2) h c(3)
      by (auto simp: verifyChecksumFromList_def read_with_def read_file_def compare_sum_def holds_def Let_def split: option.splits if_splits)
    then show ?thesis using d(1) h l(1) by blast
  next
    case (Some e)
    then show ?thesis using d(1) h d2 c(3)
      by (auto simp: downloadFile_def is_dir_def split: fetch.splits if_splits)
  qed
qed

text \<open>
  C30. A download that is accepted is the file the server sent; and either the list of checksums could not be fetched, or
  it was, and it has an entry for the file that equals the checksum of the file.
\<close>

theorem download_verified:
  assumes "DownloadUpdate env u info fs = (Inr path, fs')" "HasSuffix (ui_ChecksumURL info) ''checksums.txt''"
    and "filepath_Join (up_tempDir u) ''checksums.txt'' \<noteq> path"
  shows "\<exists>d. fe_get env (ui_DownloadURL info) = FetchOK d \<and> holds fs' path d \<and>
           ((\<forall>l. fe_get env (ui_ChecksumURL info) \<noteq> FetchOK l) \<or> is_dir fs' (filepath_Join (up_tempDir u) ''checksums.txt'') \<or>
            (\<exists>l. fe_get env (ui_ChecksumURL info) = FetchOK l \<and> listed_sum (filepath_Base path) (Split l newline) = fe_sha env d))"
  using assms by (rule download_holds)

definition plain_dir :: "string \<Rightarrow> files \<Rightarrow> bool" where
  "plain_dir dir fs \<longleftrightarrow> distinct (map fst fs) \<and> (\<forall>n \<in> set (os_ReadDir dir fs). filepath_Join dir n = dir @ ''/'' @ n)"

lemma name_in_Some: "name_in dir q = Some n \<Longrightarrow> q = dir @ ''/'' @ n"
  by (auto simp: name_in_def HasPrefix_iff split: if_splits)

lemma set_ReadDir: "n \<in> set (os_ReadDir dir fs) \<longleftrightarrow> (\<exists>q \<in> fst ` set fs. name_in dir q = Some n)"
  by (force simp: os_ReadDir_def List.map_filter_def)

lemma distinct_map_filter: "distinct xs \<Longrightarrow> (\<And>x y z. f x = Some z \<Longrightarrow> f y = Some z \<Longrightarrow> x = y) \<Longrightarrow> distinct (List.map_filter f xs)"
  by (induction xs) (simp add: List.map_filter_def, fastforce simp: List.map_filter_def)

lemma distinct_ReadDir:
  assumes "distinct (map fst fs)"
  shows "distinct (os_ReadDir dir fs)"
proof -
  have "distinct (List.map_filter (name_in dir) (map fst fs))"
    using assms by (rule distinct_map_filter) (blast dest: name_in_Some)
  then show ?thesis by (simp add: os_ReadDir_def List.map_filter_def filter_map o_def)
qed

lemma fold_remove:
  "\<forall>n \<in> set ns. filepath_Join dir n = dir @ ''/'' @ n \<Longrightarrow>
     fold (remove_backup (\<lambda>_. False) dir) ns fs = filter (\<lambda>(q, x). q \<notin> (\<lambda>n. dir @ ''/'' @ n) ` set ns) fs"
proof (induction ns arbitrary: fs)
  case (Cons n ns)
  have "remove_backup (\<lambda>_. False) dir n fs = AList.delete (dir @ ''/'' @ n) fs" using Cons.prems by (simp add: remove_backup_def)
  with Cons have "fold (remove_backup (\<lambda>_. False) dir) (n # ns) fs =
      filter (\<lambda>(q, x). q \<notin> (\<lambda>n. dir @ ''/'' @ n) ` set ns) (AList.delete (dir @ ''/'' @ n) fs)"
    by simp
  also have "\<dots> = filter (\<lambda>(q, x). q \<notin> (\<lambda>n. dir @ ''/'' @ n) ` set (n # ns)) fs"
    by (auto simp: AList.delete_eq intro!: filter_cong)
  finally show ?case .
qed simp

lemma name_in_image: "name_in dir q = Some n \<Longrightarrow> q \<in> (\<lambda>n. dir @ ''/'' @ n) ` N \<longleftrightarrow> n \<in> N"
  by (auto dest: name_in_Some)

lemma ReadDir_filter: "os_ReadDir dir (filter (\<lambda>(q, x). q \<notin> (\<lambda>n. dir @ ''/'' @ n) ` N) fs) = filter (\<lambda>n. n \<notin> N) (os_ReadDir dir fs)"
proof -
  have "List.map_filter (name_in dir \<circ> fst) (filter (\<lambda>(q, x). q \<notin> (\<lambda>n. dir @ ''/'' @ n) ` N) fs) =
      filter (\<lambda>n. n \<notin> N) (List.map_filter (name_in dir \<circ> fst) fs)"
  proof (induction fs)
    case (Cons x fs)
    then show ?case using name_in_image [of dir "fst x" _ N]
      by (cases "name_in dir (fst x)") (simp_all add: List.map_filter_def case_prod_beta)
  qed (simp add: List.map_filter_def)
  then show ?thesis by (simp add: os_ReadDir_def filter_sort)
qed

lemma filter_not_take: "distinct xs \<Longrightarrow> filter (\<lambda>x. x \<notin> set (take k xs)) xs = drop k xs"
proof -
  assume "distinct xs"
  then have "set (take k xs) \<inter> set (drop k xs) = {}" by (metis append_take_drop_id distinct_append)
  then have "filter (\<lambda>x. x \<notin> set (take k xs)) (drop k xs) = drop k xs" by (auto intro: filter_True)
  moreover have "filter (\<lambda>x. x \<notin> set (take k xs)) (take k xs) = []" by (auto simp: filter_empty_conv)
  ultimately have "filter (\<lambda>x. x \<notin> set (take k xs)) (take k xs @ drop k xs) = drop k xs" by (simp only: filter_append append_Nil)
  then show ?thesis by simp
qed

lemma cleanup_last:
  assumes "plain_dir (up_backupDir u) fs" "CleanupOldBackups None (\<lambda>_. True) (\<lambda>_. False) u fs = (r, fs')"
  defines "bs \<equiv> backup_files (\<lambda>_. True) (up_backupDir u) fs"
  shows "sorted bs" "distinct bs" "r = None \<and> backup_files (\<lambda>_. True) (up_backupDir u) fs' = drop (length bs - 5) bs"
    "map_of fs' q = (if q \<in> (\<lambda>n. up_backupDir u @ ''/'' @ n) ` set (take (length bs - 5) bs) then None else map_of fs q)"
proof -
  let ?d = "up_backupDir u"
  show s: "sorted bs" by (simp add: bs_def backup_files_def os_ReadDir_def sorted_wrt_filter)
  show dist: "distinct bs" using assms(1) distinct_ReadDir by (simp add: bs_def backup_files_def plain_dir_def)
  have "\<forall>n \<in> set (take (length bs - 5) bs). filepath_Join ?d n = ?d @ ''/'' @ n"
    using assms(1) by (auto simp: plain_dir_def bs_def backup_files_def dest!: in_set_takeD)
  from fold_remove [OF this, of fs]
  have fs': "r = None" "fs' = filter (\<lambda>(q, x). q \<notin> (\<lambda>n. ?d @ ''/'' @ n) ` set (take (length bs - 5) bs)) fs"
    using assms(2) by (auto simp: CleanupOldBackups_def Let_def bs_def split: if_splits)
  have "backup_files (\<lambda>_. True) ?d fs' = filter (\<lambda>n. n \<notin> set (take (length bs - 5) bs)) bs"
    unfolding fs'(2) bs_def backup_files_def ReadDir_filter by (simp add: conj_commute)
  then show "r = None \<and> backup_files (\<lambda>_. True) ?d fs' = drop (length bs - 5) bs" using fs'(1) dist by (simp add: filter_not_take)
  show "map_of fs' q = (if q \<in> (\<lambda>n. ?d @ ''/'' @ n) ` set (take (length bs - 5) bs) then None else map_of fs q)"
    using fs'(2) by (simp add: map_of_filter_key)
qed

text \<open>
  When nothing fails, the clean-up leaves the five backups whose names are the last in alphabetical order (all of them, if
  there are at most five) and no other file changes.
\<close>

theorem cleanup_keeps_last_names:
  assumes "plain_dir (up_backupDir u) fs" "CleanupOldBackups None (\<lambda>_. True) (\<lambda>_. False) u fs = (r, fs')"
  shows "r = None \<and> (let bs = backup_files (\<lambda>_. True) (up_backupDir u) fs in
           sorted bs \<and> distinct bs \<and> backup_files (\<lambda>_. True) (up_backupDir u) fs' = drop (length bs - 5) bs \<and>
           (\<forall>q. map_of fs' q = (if q \<in> (\<lambda>n. up_backupDir u @ ''/'' @ n) ` set (take (length bs - 5) bs) then None else map_of fs q)))"
  using cleanup_last [OF assms] by (simp add: Let_def)

lemma sorted_least_hd:
  assumes "sorted xs" "x \<in> set xs" "\<forall>y \<in> set xs. y \<noteq> x \<longrightarrow> (x::'a::linorder) < y"
  shows "hd xs = x"
  using assms by (cases xs) force+

text \<open>
  C39. The order of the names is not the order of the backups: the name starts with the version, so that a backup of version
  1.10.0 comes before every backup of version 1.9.0. After an update from 1.10.0 with five older backups of 1.9.0 the clean-up
  removes the backup that was made just before.
\<close>

theorem newest_backup_removed:
  assumes "plain_dir dir fs" "5 \<le> card old" "old \<subseteq> range (backup_name ''v1.9.0'')"
    and "set (backup_files (\<lambda>_. True) dir fs) = insert (backup_name ''v1.10.0'' now) old" "up_backupDir u = dir"
  shows "map_of (snd (CleanupOldBackups None (\<lambda>_. True) (\<lambda>_. False) u fs)) (dir @ ''/'' @ backup_name ''v1.10.0'' now) = None"
proof -
  let ?bs = "backup_files (\<lambda>_. True) dir fs" and ?new = "backup_name ''v1.10.0'' now"
  have less: "?new < y" if "y \<in> old" for y
    using that assms(3) by (auto simp: backup_name_def less_char_def)
  obtain fs' where c: "CleanupOldBackups None (\<lambda>_. True) (\<lambda>_. False) u fs = (None, fs')"
    by (auto simp: CleanupOldBackups_def Let_def)
  note k = cleanup_last [OF assms(1) [folded assms(5)] c, unfolded assms(5)]
  have "finite old" using assms(4) by (metis List.finite_set finite_insert)
  then have "6 \<le> card (insert ?new old)" using assms(2) less by (subst card_insert_disjoint) force+
  then have len: "6 \<le> length ?bs" using k(2) assms(4) distinct_card by metis
  have "hd ?bs = ?new" using k(1) assms(4) less by (intro sorted_least_hd) auto
  then have "?new \<in> set (take (length ?bs - 5) ?bs)" using len by (cases ?bs) (auto simp: take_Cons' split: if_splits)
  then show ?thesis using k(4) c by auto
qed

section \<open>Witnesses\<close>

definition demo_updater :: updater where
  "demo_updater = \<lparr>up_downloadBaseURL = [], up_currentExePath = ''/bin/giraffecloud'', up_backupDir = ''/g/backups'', up_tempDir = ''/g/temp''\<rparr>"

definition demo_entry :: tar_entry where
  "demo_entry = \<lparr>te_Name = ''giraffecloud'', te_Type = TypeReg, te_Mode = 0x1ED, te_Data = ''new''\<rparr>"

definition demo_install :: install_env where
  "demo_install =
     \<lparr>ie_goos = ''linux'', ie_version = ''v1.9.0'', ie_newmode = 0x1A4,
      ie_untar = (\<lambda>z. if z = ''targz'' then Inr \<lparr>ar_entries = [demo_entry], ar_end = None\<rparr> else Inl ''gzip: invalid header''),
      ie_run = (\<lambda>d. RunOK), ie_stdin = StdinTTY, ie_has_sudo = False, ie_kept = (\<lambda>p. False), ie_backup = CopyOK True, ie_mkdir = None,
      ie_open = None, ie_entry = (\<lambda>i. EntryOK), ie_rename_old = None, ie_copy = CopyOK True, ie_chmod = True, ie_rename = None,
      ie_rename_back = True, ie_sudo = SudoOK, ie_restore = CopyOK True, ie_restore_sudo = SudoOK\<rparr>"

definition demo_path :: string where "demo_path = ''/g/temp/u.tar.gz''"

definition demo_files :: "string \<Rightarrow> files" where
  "demo_files z = [(''/bin/giraffecloud'', File ''old'' 0x1ED), (demo_path, File z 0x1A4), (''/g/temp'', Dir), (''/g'', Dir), (''/g/backups'', Dir)]"

lemma demo_civil: "civil 719162 = (1970, 1, 1)" "civil 719173 = (1970, 1, 12)"
  by code_simp+

lemma demo_stamps:
  "backup_stamp 0 = ''19700101_000000''" "backup_stamp 1 = ''19700101_000001''" "backup_stamp 2 = ''19700101_000002''"
  "backup_stamp 3 = ''19700101_000003''" "backup_stamp 4 = ''19700101_000004''" "backup_stamp 1000000 = ''19700112_134640''"
  by (simp_all add: backup_stamp_def day_number_def epoch_days_def demo_civil format_year_def pad_dec_def dec.simps digit_char_def char_of_def bit_0)

lemma demo_backup_path: "backup_path demo_updater demo_install 0 = ''/g/backups/giraffecloud_v1.9.0_19700101_000000.backup''"
  unfolding backup_path_def backup_name_def demo_stamps by code_simp

lemma demo_layout: "layout_ok demo_updater demo_install 0 demo_path"
  unfolding layout_ok_def demo_backup_path by code_simp

lemma demo_facts:
  "map_of (demo_files z) (up_currentExePath demo_updater) = Some (File ''old'' 0x1ED)" "map_of (demo_files z) demo_path = Some (File z 0x1A4)"
  by (simp_all add: demo_files_def demo_updater_def demo_path_def)

lemma demo_under: "stays_under (extract_dir demo_updater) [demo_entry]"
  by code_simp

lemma demo_run: "fst (InstallUpdate demo_updater demo_install 0 demo_path (demo_files ''targz'')) = None"
  unfolding InstallUpdate_def createBackup_def demo_backup_path by code_simp


definition demo_fetch :: fetch_env where
  "demo_fetch = \<lparr>fe_newmode = 0x1A4, fe_sha = (\<lambda>d. if d = ''data'' then ''abc'' else ''def''),
     fe_get = (\<lambda>url. if url = ''u/a'' then FetchOK ''data'' else if url = ''u/checksums.txt'' then FetchOK ''abc *a'' else FetchStatus 404),
     fe_read_list = None, fe_read_file = None\<rparr>"

definition demo_info :: update_info where
  "demo_info = \<lparr>ui_Version = ''v1.10.0'', ui_DownloadURL = ''u/a'', ui_ChecksumURL = ''u/checksums.txt'', ui_IsRequired = True, ui_CurrentVersion = ''v1.9.0''\<rparr>"

lemma demo_download: "fst (DownloadUpdate demo_fetch demo_updater demo_info []) = Inr ''/g/temp/a''" "filepath_Join (up_tempDir demo_updater) ''checksums.txt'' \<noteq> ''/g/temp/a''"
    "HasSuffix (ui_ChecksumURL demo_info) ''checksums.txt''"
  by code_simp+

theorem download_verified_witness:
  "\<exists>fs'. DownloadUpdate demo_fetch demo_updater demo_info [] = (Inr ''/g/temp/a'', fs') \<and> (\<exists>d. fe_get demo_fetch ''u/a'' = FetchOK d \<and> holds fs' ''/g/temp/a'' d)"
proof -
  obtain fs' where r: "DownloadUpdate demo_fetch demo_updater demo_info [] = (Inr ''/g/temp/a'', fs')"
    using demo_download(1) by (cases "DownloadUpdate demo_fetch demo_updater demo_info []") auto
  show ?thesis using download_verified [OF r demo_download(3,2)] r by (auto simp: demo_info_def)
qed

definition demo_backups :: files where
  "demo_backups = (''/g/backups/'' @ backup_name ''v1.10.0'' 1000000, File ''old'' 0x1ED) #
     map (\<lambda>t. (''/g/backups/'' @ backup_name ''v1.9.0'' t, File ''older'' 0x1ED)) [0, 1, 2, 3, 4]"

definition demo_old :: "string list" where
  "demo_old = map (backup_name ''v1.9.0'') [0, 1, 2, 3, 4]"

lemma demo_backups_names:
  "demo_old = [''giraffecloud_v1.9.0_19700101_000000.backup'', ''giraffecloud_v1.9.0_19700101_000001.backup'', ''giraffecloud_v1.9.0_19700101_000002.backup'',
     ''giraffecloud_v1.9.0_19700101_000003.backup'', ''giraffecloud_v1.9.0_19700101_000004.backup'']"
  "backup_name ''v1.10.0'' 1000000 = ''giraffecloud_v1.10.0_19700112_134640.backup''"
  "demo_backups = (''/g/backups/giraffecloud_v1.10.0_19700112_134640.backup'', File ''old'' 0x1ED) # map (\<lambda>n. (''/g/backups/'' @ n, File ''older'' 0x1ED)) demo_old"
  by (simp_all add: demo_old_def demo_backups_def backup_name_def demo_stamps)

lemma demo_backups_facts:
  "distinct (map fst demo_backups) \<and> list_all (\<lambda>n. filepath_Join ''/g/backups'' n = ''/g/backups'' @ ''/'' @ n) (os_ReadDir ''/g/backups'' demo_backups)"
  "backup_files (\<lambda>_. True) ''/g/backups'' demo_backups = backup_name ''v1.10.0'' 1000000 # demo_old" "distinct demo_old"
  unfolding demo_backups_names by code_simp+

theorem newest_backup_removed_witness:
  "map_of demo_backups (''/g/backups/'' @ backup_name ''v1.10.0'' 1000000) \<noteq> None \<and>
   map_of (snd (CleanupOldBackups None (\<lambda>_. True) (\<lambda>_. False) demo_updater demo_backups)) (''/g/backups'' @ ''/'' @ backup_name ''v1.10.0'' 1000000) = None"
proof
  show "map_of (snd (CleanupOldBackups None (\<lambda>_. True) (\<lambda>_. False) demo_updater demo_backups)) (''/g/backups'' @ ''/'' @ backup_name ''v1.10.0'' 1000000) = None"
  proof (rule newest_backup_removed)
    show "plain_dir ''/g/backups'' demo_backups" using demo_backups_facts(1) by (simp add: plain_dir_def list_all_iff)
    show "5 \<le> card (set demo_old)" using distinct_card [OF demo_backups_facts(3)] by (simp add: demo_old_def)
    show "set demo_old \<subseteq> range (backup_name ''v1.9.0'')" by (auto simp: demo_old_def)
    show "set (backup_files (\<lambda>_. True) ''/g/backups'' demo_backups) = insert (backup_name ''v1.10.0'' 1000000) (set demo_old)"
      using demo_backups_facts(2) by simp
    show "up_backupDir demo_updater = ''/g/backups''" by (simp add: demo_updater_def)
  qed
qed (simp add: demo_backups_def)

end
