(* ===== verification/Auto_Update.thy ===== *)
theory Auto_Update
  imports Updater
begin

text \<open>
  Automatic and manual updates: the background service (\<open>internal/service/auto_update_service.go\<close>), the command
  \<open>giraffecloud update\<close> and the commands that switch automatic updates on and off (\<open>cmd/giraffecloud/update.go\<close>), over the
  updater. The state of a tunnel that is preserved and restored and the system service are behind the interfaces the
  code has for them: what their operations answer is a parameter, and the calls are recorded in the order they are made.
\<close>

section \<open>The update window\<close>

text \<open>\<open>hour_in\<close> is the hour in a time zone, \<^const>\<open>None\<close> for a name the system does not know; \<open>local_hour\<close> the hour of the machine.\<close>

record clock =
  ck_hour_in :: "string \<Rightarrow> int option"
  ck_local_hour :: int

definition current_hour :: "clock \<Rightarrow> time_window \<Rightarrow> int" where
  "current_hour ck w =
     (if tw_Timezone w \<noteq> [] then (case ck_hour_in ck (tw_Timezone w) of Some h \<Rightarrow> h | None \<Rightarrow> ck_local_hour ck) else ck_local_hour ck)"

definition isInUpdateWindow :: "clock \<Rightarrow> auto_update_config \<Rightarrow> bool" where
  "isInUpdateWindow ck cfg =
     (case au_UpdateWindow cfg of
        None \<Rightarrow> True
      | Some w \<Rightarrow>
          (let h = current_hour ck w
           in if tw_StartHour w \<le> tw_EndHour w then h \<ge> tw_StartHour w \<and> h < tw_EndHour w
              else h \<ge> tw_StartHour w \<or> h < tw_EndHour w))"

section \<open>The automatic update\<close>

datatype update_call = PreserveCall | DownloadCall | InstallCall | RestartCall | RestoreCall | CleanupCall

text \<open>
  \<open>ConnectionStateProvider\<close> and \<open>ServiceManagerProvider\<close>, \<^const>\<open>None\<close> for \<open>nil\<close>: whether the tunnel is connected and its
  state can be preserved, and the answer of \<open>IsRunning\<close>, \<^const>\<open>None\<close> for an error.
\<close>

record update_env =
  ue_clock :: clock
  ue_arch :: string
  ue_answer :: "string + version_info"
  ue_fetch :: fetch_env
  ue_install :: install_env
  ue_now :: time
  ue_connection :: "(bool \<times> bool) option"
  ue_service :: "bool option option"
  ue_readdir :: "string option"
  ue_info :: "string \<Rightarrow> bool"
  ue_kept :: "string \<Rightarrow> bool"

definition preserves :: "update_env \<Rightarrow> auto_update_config \<Rightarrow> bool" where
  "preserves env cfg \<longleftrightarrow> au_PreserveConnection cfg \<and> (\<exists>ok. ue_connection env = Some (True, ok))"

definition preserved :: "update_env \<Rightarrow> auto_update_config \<Rightarrow> bool" where
  "preserved env cfg \<longleftrightarrow> au_PreserveConnection cfg \<and> ue_connection env = Some (True, True)"

definition restarts :: "update_env \<Rightarrow> auto_update_config \<Rightarrow> bool" where
  "restarts env cfg \<longleftrightarrow> au_RestartService cfg \<and> ue_service env = Some (Some True)"

datatype update_error = DownloadError download_error | InstallError install_error

definition performUpdate ::
    "update_env \<Rightarrow> auto_update_config \<Rightarrow> updater \<Rightarrow> update_info \<Rightarrow> files \<Rightarrow> update_error option \<times> update_call list \<times> files" where
  "performUpdate env cfg u info fs =
     (let pre = (if preserves env cfg then [PreserveCall] else [])
      in case DownloadUpdate (ue_fetch env) u info fs of
           (Inl e, fs1) \<Rightarrow> (Some (DownloadError e), pre @ [DownloadCall], fs1)
         | (Inr path, fs1) \<Rightarrow>
             (case InstallUpdate u (ue_install env) (ue_now env) path fs1 of
                (Some e, fs2) \<Rightarrow> (Some (InstallError e), pre @ [DownloadCall, InstallCall], fs2)
              | (None, fs2) \<Rightarrow>
                  (None,
                   pre @ [DownloadCall, InstallCall] @ (if restarts env cfg then [RestartCall] else []) @
                     (if preserved env cfg then [RestoreCall] else []) @ [CleanupCall],
                   snd (CleanupOldBackups (ue_readdir env) (ue_info env) (ue_kept env) u fs2))))"

datatype check_outcome = OutsideWindow | CheckFailed string | NoUpdate | NotRequired | UpdateFailed update_error | Updated

definition checkAndUpdate ::
    "update_env \<Rightarrow> auto_update_config \<Rightarrow> updater \<Rightarrow> bool \<Rightarrow> files \<Rightarrow> check_outcome \<times> update_call list \<times> files" where
  "checkAndUpdate env cfg u force fs =
     (if \<not> force \<and> \<not> isInUpdateWindow (ue_clock env) cfg then (OutsideWindow, [], fs)
      else case CheckForUpdates (ie_goos (ue_install env)) (ue_arch env) (ie_version (ue_install env)) (ue_answer env) of
             Inl e \<Rightarrow> (CheckFailed e, [], fs)
           | Inr None \<Rightarrow> (NoUpdate, [], fs)
           | Inr (Some info) \<Rightarrow>
               if \<not> ui_IsRequired info \<and> au_RequiredOnly cfg then (NotRequired, [], fs)
               else (case performUpdate env cfg u info fs of
                       (Some e, cs, fs1) \<Rightarrow> (UpdateFailed e, cs, fs1)
                     | (None, cs, fs1) \<Rightarrow> (Updated, cs, fs1)))"

definition CheckNow :: "update_env \<Rightarrow> auto_update_config \<Rightarrow> updater \<Rightarrow> files \<Rightarrow> check_outcome \<times> update_call list \<times> files" where
  "CheckNow env cfg u fs = checkAndUpdate env cfg u True fs"

text \<open>The hook \<open>giraffecloud connect\<close> installs; it runs after every successful connection.\<close>

definition on_connect :: "update_env \<Rightarrow> auto_update_config \<Rightarrow> updater \<Rightarrow> files \<Rightarrow> (check_outcome \<times> update_call list \<times> files) option" where
  "on_connect env cfg u fs = (if au_Enabled cfg then Some (CheckNow env cfg u fs) else None)"

section \<open>The background service\<close>

text \<open>\<open>sv_loops\<close> counts the goroutines inside \<open>run\<close>; \<open>sv_stopped\<close> says that the stop channel is closed, which nothing reopens.\<close>

record auto_service =
  sv_running :: bool
  sv_stopped :: bool
  sv_loops :: nat

datatype service_result = Done | ServiceError string | ServicePanic string

definition NewAutoUpdateService :: auto_service where
  "NewAutoUpdateService = \<lparr>sv_running = False, sv_stopped = False, sv_loops = 0\<rparr>"

definition au_Start :: "auto_update_config \<Rightarrow> auto_service \<Rightarrow> service_result \<times> auto_service" where
  "au_Start cfg s =
     (if sv_running s then (ServiceError ''auto-update service is already running'', s)
      else if \<not> au_Enabled cfg then (Done, s)
      else if au_CheckInterval cfg \<le> 0 then (ServicePanic ''non-positive interval for NewTicker'', s)
      else (Done, s\<lparr>sv_running := True, sv_loops := sv_loops s + 1\<rparr>))"

definition au_Stop :: "auto_service \<Rightarrow> service_result \<times> auto_service" where
  "au_Stop s =
     (if \<not> sv_running s then (Done, s)
      else if sv_stopped s then (ServicePanic ''close of closed channel'', s)
      else (Done, s\<lparr>sv_stopped := True, sv_running := False\<rparr>))"

text \<open>A loop that sees the closed channel or the end of the context returns and clears the flag.\<close>

definition au_run_ends :: "auto_service \<Rightarrow> auto_service" where
  "au_run_ends s = s\<lparr>sv_loops := sv_loops s - 1, sv_running := False\<rparr>"

datatype service_event = StartEvent | StopEvent | LoopEnds

fun service_step :: "auto_update_config \<Rightarrow> service_event \<Rightarrow> auto_service \<Rightarrow> service_result \<times> auto_service" where
  "service_step cfg StartEvent s = au_Start cfg s"
| "service_step cfg StopEvent s = au_Stop s"
| "service_step cfg LoopEnds s = (Done, if sv_loops s > 0 then au_run_ends s else s)"

section \<open>The commands\<close>

definition auto_update_set :: "bool \<Rightarrow> client_host \<Rightarrow> string option \<times> client_host" where
  "auto_update_set on h =
     (case cfg_LoadConfig h of
        Inl _ \<Rightarrow> (Some ''Error loading config'', h)
      | Inr r \<Rightarrow>
          (let c = deref h r; new = zero_config\<lparr>cf_AutoUpdate := (cf_AutoUpdate c)\<lparr>au_Enabled := on\<rparr>\<rparr>; merged = MergeConfig h (Some c) new
           in if cf_Token merged = [] then (Some ''Please login first'', h)
              else case SaveConfig merged h of
                     (Some e, h1) \<Rightarrow> (Some ''Failed to save config'', h1)
                   | (None, h1) \<Rightarrow> (None, h1)))"

record command_env = update_env +
  ce_executable :: "string + string"
  ce_resolved :: "string option"
  ce_mkdir1 :: "string option"
  ce_mkdir2 :: "string option"
  ce_check_only :: bool
  ce_force :: bool
  ce_reply :: string
  ce_query1 :: bool
  ce_stop :: bool
  ce_query2 :: bool
  ce_start :: bool

datatype command_end = ExitFailure string | UpToDate | CheckedOnly | Cancelled | Completed

text \<open>
  \<open>giraffecloud update\<close>. The state of the system service is whether it runs; \<open>ce_query1\<close> and \<open>ce_query2\<close> say whether the two
  calls of \<open>IsRunning\<close> get an answer. The signals to other processes of the client do not change files or the service.
\<close>

definition update_command :: "command_env \<Rightarrow> client_host \<Rightarrow> bool \<times> files \<Rightarrow> command_end \<times> bool \<times> files" where
  "update_command env h st =
     (let (running, fs) = st
      in case cfg_LoadConfig h of
           Inl _ \<Rightarrow> (ExitFailure ''Error loading config'', running, fs)
         | Inr _ \<Rightarrow>
             (case NewUpdaterService ''https://github.com/osa911/giraffecloud/releases/download'' (ce_executable env) (ce_resolved env)
                     (ce_mkdir1 env) (ce_mkdir2 env) h fs of
                (Inl _, fs0) \<Rightarrow> (ExitFailure ''Failed to create updater service'', running, fs0)
              | (Inr u, fs0) \<Rightarrow>
                  (case CheckForUpdates (ie_goos (ue_install env)) (ue_arch env) (ie_version (ue_install env)) (ue_answer env) of
                     Inl _ \<Rightarrow> (ExitFailure ''Failed to check for updates'', running, fs0)
                   | Inr None \<Rightarrow> (UpToDate, running, fs0)
                   | Inr (Some info) \<Rightarrow>
                       if ce_check_only env then (CheckedOnly, running, fs0)
                       else if \<not> ce_force env \<and> \<not> ui_IsRequired info \<and> ToLower (ce_reply env) \<noteq> ''y'' \<and> ToLower (ce_reply env) \<noteq> ''yes''
                       then (Cancelled, running, fs0)
                       else
                         (let running1 = (if ce_query1 env \<and> running then \<not> ce_stop env else running)
                          in case DownloadUpdate (ue_fetch env) u info fs0 of
                               (Inl _, fs1) \<Rightarrow> (ExitFailure ''Failed to download update'', running1, fs1)
                             | (Inr path, fs1) \<Rightarrow>
                                 (case InstallUpdate u (ue_install env) (ue_now env) path fs1 of
                                    (Some _, fs2) \<Rightarrow> (ExitFailure ''Failed to install update'', running1, fs2)
                                  | (None, fs2) \<Rightarrow>
                                      (Completed, if ce_query2 env \<and> \<not> running1 then ce_start env else running1,
                                       snd (CleanupOldBackups (ue_readdir env) (ue_info env) (ue_kept env) u fs2)))))))"

section \<open>When updates are installed\<close>

lemma update_window_exact:
  assumes "au_UpdateWindow cfg = Some w" "0 \<le> current_hour ck w" "current_hour ck w < 24"
    "0 \<le> tw_StartHour w" "tw_StartHour w < 24" "0 \<le> tw_EndHour w" "tw_EndHour w < 24"
  shows "isInUpdateWindow ck cfg \<longleftrightarrow> (current_hour ck w - tw_StartHour w) mod 24 < (tw_EndHour w - tw_StartHour w) mod 24"
proof -
  have m: "(x - y) mod 24 = (if y \<le> x then x - y else x - y + 24)" if "0 \<le> x" "x < 24" "0 \<le> y" "y < 24" for x y :: int
  proof (cases "y \<le> x")
    case True
    then show ?thesis using that by (simp add: mod_pos_pos_trivial)
  next
    case False
    have "(x - y) mod 24 = (x - y + 24) mod 24" by simp
    also have "\<dots> = x - y + 24" using False that by (intro mod_pos_pos_trivial) auto
    finally show ?thesis using False by simp
  qed
  show ?thesis using assms by (auto simp: isInUpdateWindow_def Let_def m)
qed

definition wanted :: "auto_update_config \<Rightarrow> string + version_info \<Rightarrow> bool" where
  "wanted cfg answer \<longleftrightarrow> (case answer of Inl _ \<Rightarrow> False | Inr vi \<Rightarrow> UpdateAvailable vi \<and> (UpdateRequired vi \<or> \<not> au_RequiredOnly cfg))"

lemma checkAndUpdate_unwanted:
  assumes "\<not> ((force \<or> isInUpdateWindow (ue_clock env) cfg) \<and> wanted cfg (ue_answer env))" "checkAndUpdate env cfg u force fs = (out, calls, fs')"
  shows "calls = [] \<and> fs' = fs \<and> out \<noteq> Updated"
  using assms by (auto simp: checkAndUpdate_def CheckForUpdates_def wanted_def split: sum.splits if_splits)

definition the_info :: "update_env \<Rightarrow> version_info \<Rightarrow> update_info" where
  "the_info env vi = \<lparr>ui_Version = LatestVersion vi,
     ui_DownloadURL = update_url vi (update_filename (ie_goos (ue_install env)) (ue_arch env) (ShortVersion vi)),
     ui_ChecksumURL = checksum_url vi, ui_IsRequired = UpdateRequired vi, ui_CurrentVersion = ie_version (ue_install env)\<rparr>"

lemma checkAndUpdate_wanted:
  assumes "force \<or> isInUpdateWindow (ue_clock env) cfg" "wanted cfg (ue_answer env)" "ue_answer env = Inr vi"
  shows "checkAndUpdate env cfg u force fs =
    (case performUpdate env cfg u (the_info env vi) fs of (Some e, cs, fs1) \<Rightarrow> (UpdateFailed e, cs, fs1) | (None, cs, fs1) \<Rightarrow> (Updated, cs, fs1))"
  using assms by (auto simp: checkAndUpdate_def CheckForUpdates_def wanted_def the_info_def)

lemma checksum_url_suffix: "HasSuffix (checksum_url vi) ''checksums.txt''" "checksum_url vi \<noteq> []"
proof -
  have "HasSuffix (a @ ''/checksums.txt'') ''checksums.txt''" for a using HasSuffix_append [of "a @ ''/''" "''checksums.txt''"] by simp
  moreover have "\<exists>a. checksum_url vi = a @ ''/checksums.txt''" unfolding checksum_url_def Let_def by (simp add: append_eq_append_conv2)
  ultimately show "HasSuffix (checksum_url vi) ''checksums.txt''" "checksum_url vi \<noteq> []" by auto
qed

lemma DownloadUpdate_frame:
  assumes "DownloadUpdate env u info fs = (r, fs')" "HasSuffix (ui_ChecksumURL info) ''checksums.txt''" "ui_ChecksumURL info \<noteq> []"
    "q \<noteq> filepath_Join (up_tempDir u) (filepath_Base (ui_DownloadURL info))" "q \<noteq> filepath_Join (up_tempDir u) ''checksums.txt''"
  shows "map_of fs' q = map_of fs q"
  using assms downloadFile_frame
  by (fastforce simp: DownloadUpdate_def Let_def split: prod.splits option.splits verdict.splits if_splits)

lemma fold_remove_frame:
  "\<forall>n \<in> set ns. filepath_Join dir n \<noteq> q \<Longrightarrow> map_of (fold (remove_backup kept dir) ns fs) q = map_of fs q"
  by (induction ns arbitrary: fs) (auto simp: remove_backup_def Let_def map_of_delete)

lemma Cleanup_frame:
  assumes "\<forall>n. HasSuffix n ''.backup'' \<longrightarrow> CHR ''/'' \<notin> set n \<longrightarrow> filepath_Join (up_backupDir u) n \<noteq> q"
  shows "map_of (snd (CleanupOldBackups fault info kept u fs)) q = map_of fs q"
proof -
  have "\<forall>n \<in> set (take k (backup_files info (up_backupDir u) fs)). filepath_Join (up_backupDir u) n \<noteq> q" for k
    using assms by (auto simp: backup_files_def set_ReadDir name_in_def split: if_splits dest!: in_set_takeD)
  then show ?thesis using fold_remove_frame by (auto simp: CleanupOldBackups_def Let_def split: option.split)
qed

text \<open>The places of an update do not overlap, and the archive the server sends stays in its directory.\<close>

definition update_layout :: "update_env \<Rightarrow> updater \<Rightarrow> update_info \<Rightarrow> bool" where
  "update_layout env u info \<longleftrightarrow>
     (let dp = filepath_Join (up_tempDir u) (filepath_Base (ui_DownloadURL info)); cp = filepath_Join (up_tempDir u) ''checksums.txt''
      in layout_ok u (ue_install env) (ue_now env) dp \<and> cp \<noteq> dp \<and> cp \<noteq> up_currentExePath u \<and>
         (\<forall>n. HasSuffix n ''.backup'' \<longrightarrow> CHR ''/'' \<notin> set n \<longrightarrow> filepath_Join (up_backupDir u) n \<noteq> up_currentExePath u) \<and>
         (\<forall>z a. fe_get (ue_fetch env) (ui_DownloadURL info) = FetchOK z \<longrightarrow> ie_untar (ue_install env) z = Inr a \<longrightarrow>
            stays_under (extract_dir u) (ar_entries a)))"

lemma performUpdate_safe:
  assumes exe: "map_of fs (up_currentExePath u) = Some (File old m)" and l: "update_layout env u info"
    and i: "ie_goos (ue_install env) \<noteq> ''windows''" "clean_failures (ue_install env)" "\<forall>p. \<not> ie_kept (ue_install env) p"
    and url: "HasSuffix (ui_ChecksumURL info) ''checksums.txt''" "ui_ChecksumURL info \<noteq> []"
    and r: "performUpdate env cfg u info fs = (err, calls, fs')"
  shows "if err = None then \<exists>z a d. fe_get (ue_fetch env) (ui_DownloadURL info) = FetchOK z \<and> ie_untar (ue_install env) z = Inr a \<and>
           d \<in> te_Data ` set (ar_entries a) \<and> ie_run (ue_install env) d = RunOK \<and> holds fs' (up_currentExePath u) d
         else holds fs' (up_currentExePath u) old"
proof -
  let ?exe = "up_currentExePath u" and ?dp = "filepath_Join (up_tempDir u) (filepath_Base (ui_DownloadURL info))"
  have lay: "layout_ok u (ue_install env) (ue_now env) ?dp" "filepath_Join (up_tempDir u) ''checksums.txt'' \<noteq> ?dp"
      "filepath_Join (up_tempDir u) ''checksums.txt'' \<noteq> ?exe"
      "\<forall>n. HasSuffix n ''.backup'' \<longrightarrow> CHR ''/'' \<notin> set n \<longrightarrow> filepath_Join (up_backupDir u) n \<noteq> ?exe"
    and ar: "\<And>z a. fe_get (ue_fetch env) (ui_DownloadURL info) = FetchOK z \<Longrightarrow> ie_untar (ue_install env) z = Inr a \<Longrightarrow> stays_under (extract_dir u) (ar_entries a)"
    using l by (auto simp: update_layout_def Let_def)
  then have "?dp \<noteq> ?exe" by (auto simp: layout_ok_def Let_def under_def)
  obtain d1 fs1 where dl: "DownloadUpdate (ue_fetch env) u info fs = (d1, fs1)" by force
  have exe1: "map_of fs1 ?exe = Some (File old m)"
    using DownloadUpdate_frame [OF dl url, of ?exe] exe lay(3) \<open>?dp \<noteq> ?exe\<close> by auto
  show ?thesis
  proof (cases d1)
    case (Inl e)
    then show ?thesis using r dl exe1 by (auto simp: performUpdate_def Let_def holds_def)
  next
    case (Inr path)
    then have path: "path = ?dp" using dl by (auto simp: DownloadUpdate_def Let_def split: prod.splits option.splits verdict.splits if_splits)
    obtain z mz where z: "fe_get (ue_fetch env) (ui_DownloadURL info) = FetchOK z" "map_of fs1 path = Some (File z mz)"
      using download_holds [OF dl [unfolded Inr path] url(1) lay(2)] path by (auto simp: holds_def)
    have safe: "case InstallUpdate u (ue_install env) (ue_now env) path fs1 of
           (None, fs') \<Rightarrow> \<exists>a d. ie_untar (ue_install env) z = Inr a \<and> d \<in> te_Data ` set (ar_entries a) \<and> ie_run (ue_install env) d = RunOK \<and>
                            holds fs' ?exe d \<and> holds fs' (backup_path u (ue_install env) (ue_now env)) old
         | (Some err, fs') \<Rightarrow> holds fs' ?exe old \<and> ((\<exists>e. err = BackupFailed e) \<or> holds fs' (backup_path u (ue_install env) (ue_now env)) old)"
      by (rule install_keeps) (use exe1 z lay(1) path i ar [OF z(1)] in auto)
    show ?thesis
      using safe r dl Inr z(1) holds_cong [OF Cleanup_frame [OF lay(4)]]
      by (auto simp: performUpdate_def Let_def split: prod.splits option.splits)
  qed
qed


text \<open>The hook of \<open>connect\<close> forces the check, so that a connection outside the window installs the update.\<close>

lemma connect_ignores_window:
  assumes "au_Enabled cfg" "wanted cfg (ue_answer env)" "ue_answer env = Inr vi"
  shows "on_connect env cfg u fs =
    Some (case performUpdate env cfg u (the_info env vi) fs of (Some e, cs, fs1) \<Rightarrow> (UpdateFailed e, cs, fs1) | (None, cs, fs1) \<Rightarrow> (Updated, cs, fs1))"
  using assms checkAndUpdate_wanted [of True env cfg vi u fs] by (simp add: on_connect_def CheckNow_def)

text \<open>A service that was stopped and started again panics when it is stopped, unless its loop has ended before.\<close>

lemma second_stop_panics:
  assumes "au_Enabled cfg" "0 < au_CheckInterval cfg"
  shows "fst (au_Stop (snd (au_Start cfg (snd (au_Stop (snd (au_Start cfg NewAutoUpdateService))))))) = ServicePanic ''close of closed channel''"
  using assms by (simp add: au_Start_def au_Stop_def NewAutoUpdateService_def)

lemma negative_interval_panics:
  assumes "au_Enabled cfg" "au_CheckInterval cfg \<le> 0" "\<not> sv_running s"
  shows "fst (au_Start cfg s) = ServicePanic ''non-positive interval for NewTicker''"
  using assms by (simp add: au_Start_def)

section \<open>What the commands leave behind\<close>

lemma backfill_Enabled: "backfill d (a\<lparr>au_Enabled := b\<rparr>) = (backfill d a)\<lparr>au_Enabled := b\<rparr>"
  by (rule auto_update_config.equality) (auto simp: backfill_fields)

text \<open>
  Switching automatic updates on or off changes that setting and nothing else of the stored configuration but the test mode,
  which is reset; in particular the client leaves the release channel it was on for testing.
\<close>

theorem auto_update_set_effect:
  assumes "cfg_LoadConfig h = Inr (Own c)" "auto_update_set on h = (None, h')" "ints_ok c"
  shows "cfg_LoadConfig h' = Inr (Own (c\<lparr>cf_AutoUpdate := (cf_AutoUpdate c)\<lparr>au_Enabled := on\<rparr>, cf_TestMode := cf_TestMode zero_config\<rparr>))"
proof -
  let ?new = "c\<lparr>cf_AutoUpdate := (cf_AutoUpdate c)\<lparr>au_Enabled := on\<rparr>, cf_TestMode := cf_TestMode zero_config\<rparr>"
  have "MergeConfig h (Some c) (zero_config\<lparr>cf_AutoUpdate := (cf_AutoUpdate c)\<lparr>au_Enabled := on\<rparr>\<rparr>) = ?new"
    by (simp add: MergeConfig_def zero_config_def zero_server_def merge_server_def merge_str_def merge_int_def)
  then have "SaveConfig ?new h = (None, h')"
    using assms(1,2) by (auto simp: auto_update_set_def Let_def split: prod.splits option.splits if_splits)
  moreover have "ints_ok ?new" using assms(3) by (simp add: ints_ok_def)
  ultimately have "cfg_LoadConfig h' = Inr (Own (applyAutoUpdateDefaults (ch_default h) ?new))" by (intro save_load)
  then show ?thesis using LoadConfig_Own [OF assms(1)] by (simp add: applyAutoUpdateDefaults_def backfill_Enabled)
qed

text \<open>
  A manual update that stops the running service and then fails to download or to install leaves the service stopped.
\<close>

theorem failed_update_stops_service:
  assumes "update_command env h (True, fs) = (ExitFailure e, running, fs')" "ce_query1 env" "ce_stop env"
    and "e = ''Failed to download update'' \<or> e = ''Failed to install update''"
  shows "\<not> running"
  using assms by (auto simp: update_command_def Let_def split: prod.splits sum.splits option.splits if_splits)

section \<open>Witnesses\<close>

definition demo_window :: time_window where
  "demo_window = \<lparr>tw_StartHour = 22, tw_EndHour = 6, tw_Timezone = ''UTC''\<rparr>"

definition demo_policy :: auto_update_config where
  "demo_policy = (cf_AutoUpdate DefaultConfig)\<lparr>au_UpdateWindow := Some demo_window\<rparr>"

definition demo_vi :: version_info where
  "demo_vi = \<lparr>LatestVersion = ''v1.10.0'', MinimumVersion = ''v1.10.0'', CurrentVersion = ''v1.9.0'', UpdateAvailable = True, UpdateRequired = True,
     Channel = ''stable'', ReleaseTag = [], ShortVersion = ''v1.10.0'', DownloadURL = ''https://d'', ReleaseNotes = []\<rparr>"

definition demo_url :: string where "demo_url = ''https://d/giraffecloud_linux_amd64_v1.10.0.tar.gz''"

definition demo_update_env :: update_env where
  "demo_update_env =
     \<lparr>ue_clock = \<lparr>ck_hour_in = (\<lambda>z. Some 1), ck_local_hour = 13\<rparr>, ue_arch = ''amd64'', ue_answer = Inr demo_vi,
      ue_fetch = demo_fetch\<lparr>fe_get := (\<lambda>url. if url = demo_url then FetchOK ''targz'' else FetchStatus 404)\<rparr>,
      ue_install = demo_install, ue_now = 0, ue_connection = None, ue_service = Some (Some True), ue_readdir = None,
      ue_info = (\<lambda>n. True), ue_kept = (\<lambda>p. False)\<rparr>"

lemma demo_info_url: "ui_DownloadURL (the_info demo_update_env demo_vi) = demo_url"
  by code_simp

lemma demo_layout2:
  "layout_ok demo_updater demo_install 0 (filepath_Join (up_tempDir demo_updater) (filepath_Base demo_url))"
  "filepath_Join (up_tempDir demo_updater) ''checksums.txt'' \<noteq> filepath_Join (up_tempDir demo_updater) (filepath_Base demo_url)"
  "filepath_Join (up_tempDir demo_updater) ''checksums.txt'' \<noteq> up_currentExePath demo_updater"
  by code_simp+

lemma demo_backup_join:
  assumes "HasSuffix n ''.backup''" "CHR ''/'' \<notin> set n"
  shows "filepath_Join (up_backupDir demo_updater) n \<noteq> up_currentExePath demo_updater"
proof -
  have "Split (''/g/backups/'' @ n) ''/'' = [[], ''g'', ''backups'', n]"
    using Split_absent [OF assms(2)]
    by (subst Split.simps, simp add: HasPrefix_iff)+
  moreover have "n \<noteq> []" "n \<noteq> ''.''" "n \<noteq> ''..''" using assms(1) by (auto simp: HasSuffix_def)
  ultimately show ?thesis
    by (simp add: demo_updater_def filepath_Join_def filepath_Clean_def Let_def clean_seg_def HasPrefix_iff)
qed

lemma demo_update_layout: "update_layout demo_update_env demo_updater (the_info demo_update_env demo_vi)"
  unfolding update_layout_def Let_def demo_info_url using demo_layout2 demo_backup_join demo_under
  by (auto simp: demo_update_env_def) (auto simp: demo_install_def split: if_splits)

lemma demo_update_run: "fst (checkAndUpdate demo_update_env demo_policy demo_updater False (demo_files [])) = Updated"
  by code_simp


section \<open>The default release configurations\<close>

text \<open>
  With the configurations a new server is set up with, the client looks for updates at addresses without a version and
  outside the places where the releases are: below \<open>releases/latest\<close> for the stable channel, where the downloads are below
  \<open>releases/latest/download\<close>, and without \<open>releases\<close> and without a tag for the test channel.
\<close>

lemma default_update_urls:
  assumes rows_def: "rows = map (cv_new now) (default_configs v)"
  shows "(let vi = GetVersionInfo g a (\<lambda>_. False) rows w ''stable'' ''linux'' ''amd64'' in update_url vi (update_filename ''linux'' ''amd64'' (ShortVersion vi))) =
      ''https://github.com/osa911/giraffecloud/releases/latest/giraffecloud_linux_amd64_.tar.gz''"
    and "(let vi = GetVersionInfo g a (\<lambda>_. False) rows w ''test'' ''linux'' ''amd64'' in update_url vi (update_filename ''linux'' ''amd64'' (ShortVersion vi))) =
      ''https://github.com/osa911/giraffecloud/download//giraffecloud_linux_amd64_.tar.gz''"
proof -
  have sel: "Channel (GetVersionInfo g a (\<lambda>_. False) rows w c ''linux'' ''amd64'') = c"
      "DownloadURL (GetVersionInfo g a (\<lambda>_. False) rows w c ''linux'' ''amd64'') =
         (if c = ''stable'' then ''https://github.com/osa911/giraffecloud/releases/latest'' else ''https://github.com/osa911/giraffecloud/releases'')"
      "ReleaseTag (GetVersionInfo g a (\<lambda>_. False) rows w c ''linux'' ''amd64'') = []"
      "ShortVersion (GetVersionInfo g a (\<lambda>_. False) rows w c ''linux'' ''amd64'') = []"
    if "c = ''stable'' \<or> c = ''test''" for c
    using that by (auto simp: GetVersionInfo_def Let_def getClientVersionConfig_def cv_Only_def ent_Only_def rows_def default_configs_def
        cv_new_def cv_config.defs cv_key_of_def meta_string_def get_def)
  show "(let vi = GetVersionInfo g a (\<lambda>_. False) rows w ''stable'' ''linux'' ''amd64'' in update_url vi (update_filename ''linux'' ''amd64'' (ShortVersion vi))) =
      ''https://github.com/osa911/giraffecloud/releases/latest/giraffecloud_linux_amd64_.tar.gz''"
    by (simp add: Let_def update_url_def update_filename_def sel TrimRight_def)
  show "(let vi = GetVersionInfo g a (\<lambda>_. False) rows w ''test'' ''linux'' ''amd64'' in update_url vi (update_filename ''linux'' ''amd64'' (ShortVersion vi))) =
      ''https://github.com/osa911/giraffecloud/download//giraffecloud_linux_amd64_.tar.gz''"
    by (simp add: Let_def update_url_def update_filename_def sel TrimRight_def TrimSuffix_def HasSuffix_def HasPrefix_def)
qed

end
