(* ===== verification/Front_Door.thy ===== *)
theory Front_Door
  imports Hybrid_Router
begin

text \<open>
  The HTTP server that receives the requests for tunnel domains from Caddy (\<open>Start\<close> in \<open>internal/server/server.go\<close>): it
  takes over the connection, writes the head of the request as text again and hands it to the hybrid router, which reads it with
  \<open>http.ReadRequest\<close>. A request is the one \<open>net/http\<close> has read from the visitor; the headers are listed in the order in
  which the map is iterated, which may be any.
\<close>

section \<open>The head of a request\<close>

declare dec.simps [simp del]

record visitor_request =
  vr_Method :: string
  vr_URI :: string
  vr_Host :: string
  vr_ContentLength :: int
  vr_Header :: "(string, string list) go_map"
  vr_Body :: "(string \<times> read_err) list"

definition header_line :: "string \<Rightarrow> string \<Rightarrow> string" where
  "header_line k v = k @ '': '' @ v"

definition header_lines :: "(string, string list) go_map \<Rightarrow> string list" where
  "header_lines hs =
     concat (map (\<lambda>(k, vs). if k \<noteq> ''Host'' \<and> k \<noteq> ''Content-Length'' then map (header_line k) vs else []) hs)"

definition head_lines :: "visitor_request \<Rightarrow> string list" where
  "head_lines r =
     (vr_Method r @ '' '' @ vr_URI r @ '' HTTP/1.1'') # header_line ''Host'' (vr_Host r) #
     (if vr_ContentLength r > 0 then [header_line ''Content-Length'' (dec (nat (vr_ContentLength r)))] else []) @
     header_lines (vr_Header r)"

definition request_bytes :: "visitor_request \<Rightarrow> string" where
  "request_bytes r = concat (map (\<lambda>l. l @ crlf) (head_lines r)) @ crlf"

text \<open>
  \<open>http.ReadRequest\<close> for a head of this form: the three parts of the request line, then lines \<open>key: value\<close> up to the empty line,
  collected by key; the host is taken out of the headers. The keys are in canonical form already.
\<close>

definition is_ows :: "char \<Rightarrow> bool" where
  "is_ows c \<longleftrightarrow> c = CHR '' '' \<or> c = CHR 0x09"

definition trim_ows :: "string \<Rightarrow> string" where
  "trim_ows s = rev (dropWhile is_ows (rev (dropWhile is_ows s)))"

definition parse_header :: "string \<Rightarrow> (string \<times> string) option" where
  "parse_header l =
     (if CHR '':'' \<notin> set l \<or> takeWhile (\<lambda>c. c \<noteq> CHR '':'') l = [] then None
      else Some (takeWhile (\<lambda>c. c \<noteq> CHR '':'') l, trim_ows (drop 1 (dropWhile (\<lambda>c. c \<noteq> CHR '':'') l))))"

fun parse_headers :: "string list \<Rightarrow> (string \<times> string) list option" where
  "parse_headers [] = Some []"
| "parse_headers (l # ls) =
     (if l = [] then Some []
      else case (parse_header l, parse_headers ls) of (Some kv, Some kvs) \<Rightarrow> Some (kv # kvs) | _ \<Rightarrow> None)"

definition values_of :: "(string \<times> string) list \<Rightarrow> string \<Rightarrow> string list" where
  "values_of kvs k = map snd (filter (\<lambda>(k', v). k' = k) kvs)"

definition collect :: "(string \<times> string) list \<Rightarrow> (string, string list) go_map" where
  "collect kvs = map (\<lambda>k. (k, values_of kvs k)) (remdups (map fst kvs))"

definition ReadRequest :: "(string \<times> read_err) list \<Rightarrow> string \<Rightarrow> visitor_request option" where
  "ReadRequest body data =
     (case Split data crlf of
        [] \<Rightarrow> None
      | l # ls \<Rightarrow>
          (case (Split l '' '', parse_headers ls) of
             ([m, uri, proto], Some kvs) \<Rightarrow>
               (let h = collect kvs
                in Some \<lparr>vr_Method = m, vr_URI = uri, vr_Host = (case map_of h ''Host'' of Some (v # _) \<Rightarrow> v | _ \<Rightarrow> []),
                         vr_ContentLength = (case map_of h ''Content-Length'' of Some (v # _) \<Rightarrow> int (dec_value v) | _ \<Rightarrow> 0),
                         vr_Header = AList.delete ''Host'' h, vr_Body = body\<rparr>)
           | _ \<Rightarrow> None))"

section \<open>The handler\<close>

datatype hijack = NoHijacker | HijackFails string | FlushFails | HijackOK

definition to_server_request :: "(string \<Rightarrow> string) \<Rightarrow> visitor_request \<Rightarrow> server_request" where
  "to_server_request url_path r =
     \<lparr>sr_Method = vr_Method r, sr_Path = url_path (vr_URI r), sr_RequestURI = vr_URI r, sr_Header = vr_Header r, sr_Body = vr_Body r\<rparr>"

text \<open>The path of a URI is the one \<open>url.Parse\<close> finds, a parameter; a URI that \<open>net/http\<close> accepted is accepted again.\<close>

definition http_handler ::
    "(string \<Rightarrow> string) \<Rightarrow> hijack \<Rightarrow> router_config \<Rightarrow> ('c, 'l) grpc_env \<Rightarrow> quota_db \<Rightarrow> time \<Rightarrow> visitor_request \<Rightarrow> 'c incoming
       \<Rightarrow> ('c, 'l) router \<Rightarrow> client_conn \<Rightarrow> ('c, 'l) router \<times> client_conn" where
  "http_handler url_path hj cfg env qdb now req i r cc =
     (if \<not> IsTunnelDomain r (vr_Host req) then (r, cc_write (HttpError 404 ''Not Found'') cc)
      else case hj of
             NoHijacker \<Rightarrow> (r, cc_write (HttpError 500 ''webserver doesn't support hijacking'') cc)
           | HijackFails e \<Rightarrow> (r, cc_write (HttpError 500 e) cc)
           | FlushFails \<Rightarrow> (r, cc_close cc)
           | HijackOK \<Rightarrow>
               (let data = request_bytes req
                in ProxyConnection cfg env qdb now (vr_Host req)
                     (i\<lparr>i_data := data, i_parsed := map_option (to_server_request url_path) (ReadRequest (vr_Body req) data)\<rparr>) r cc))"

section \<open>What the router reads is what the visitor sent\<close>

definition no_crlf :: "string \<Rightarrow> bool" where
  "no_crlf s \<longleftrightarrow> CHR 0x0D \<notin> set s \<and> CHR 0x0A \<notin> set s"

text \<open>What \<open>net/http\<close> guarantees of a request it has read.\<close>

definition valid_request :: "visitor_request \<Rightarrow> bool" where
  "valid_request r \<longleftrightarrow>
     vr_Method r \<noteq> [] \<and> list_all (\<lambda>c. \<not> is_space c) (vr_Method r) \<and> vr_URI r \<noteq> [] \<and> list_all (\<lambda>c. \<not> is_space c) (vr_URI r) \<and>
     no_crlf (vr_Host r) \<and> trim_ows (vr_Host r) = vr_Host r \<and> distinct (map fst (vr_Header r)) \<and>
     list_all (\<lambda>(k, vs). k \<noteq> [] \<and> no_crlf k \<and> CHR '':'' \<notin> set k \<and> vs \<noteq> [] \<and>
       list_all (\<lambda>v. no_crlf v \<and> trim_ows v = v) vs) (vr_Header r)"

lemma Split_crlf:
  assumes "CHR 0x0D \<notin> set l"
  shows "Split (l @ crlf @ rest) crlf = l # Split rest crlf"
proof -
  have "Index (l @ crlf @ rest) crlf = Some (length l)"
    using assms by (induction l) (auto simp: crlf_def HasPrefix_iff)
  then show ?thesis by (subst Split.simps) (simp add: crlf_def)
qed

lemma Split_lines:
  "\<forall>l \<in> set ls. CHR 0x0D \<notin> set l \<Longrightarrow> Split (concat (map (\<lambda>l. l @ crlf) ls) @ rest) crlf = ls @ Split rest crlf"
  by (induction ls) (auto simp: Split_crlf)

lemma Split_request_bytes:
  assumes "\<forall>l \<in> set (head_lines r). CHR 0x0D \<notin> set l"
  shows "Split (request_bytes r) crlf = head_lines r @ [[], []]"
proof -
  have "Split crlf crlf = [[], []]" using Split_crlf [of "[]" "[]"] by (simp add: Split.simps [of "[]"] crlf_def)
  then show ?thesis using Split_lines [OF assms, of crlf] by (simp add: request_bytes_def)
qed

lemma Fields_word:
  assumes "w \<noteq> []" "list_all (\<lambda>c. \<not> is_space c) w" "is_space c"
  shows "Fields (w @ c # rest) = w # Fields rest"
proof -
  have "Fields (c # rest) = Fields rest" using assms(3) by (subst (1 2) Fields.simps) simp
  moreover have "dropWhile is_space (w @ c # rest) = w @ c # rest" using assms(1,2) by (cases w) auto
  moreover have "takeWhile (\<lambda>c. \<not> is_space c) (w @ c # rest) = w" "dropWhile (\<lambda>c. \<not> is_space c) (w @ c # rest) = c # rest"
    using assms(2,3) by (induction w) auto
  ultimately show ?thesis using assms(1) by (subst Fields.simps) (simp add: Let_def)
qed

lemma trim_ows_id: "list_all (\<lambda>c. \<not> is_ows c) s \<Longrightarrow> trim_ows s = s"
proof -
  have "list_all (\<lambda>c. \<not> is_ows c) t \<Longrightarrow> dropWhile is_ows t = t" for t by (cases t) auto
  then show "list_all (\<lambda>c. \<not> is_ows c) s \<Longrightarrow> trim_ows s = s" by (simp add: trim_ows_def list_all_rev)
qed

lemma digit_not_ows: "is_digit c \<Longrightarrow> \<not> is_ows c \<and> c \<noteq> CHR 0x0D"
  by (auto simp: is_digit_def is_ows_def)

lemma dec_trim: "trim_ows (dec n) = dec n" "CHR 0x0D \<notin> set (dec n)"
proof -
  have "list_all (\<lambda>c. \<not> is_ows c) (dec n)" by (rule list.pred_mono_strong [OF dec_facts(2)]) (use digit_not_ows in blast)
  then show "trim_ows (dec n) = dec n" by (rule trim_ows_id)
  show "CHR 0x0D \<notin> set (dec n)" using dec_facts(2) [of n] digit_not_ows [of "CHR 0x0D"] unfolding list_all_iff by blast
qed

definition head_fields :: "visitor_request \<Rightarrow> (string \<times> string) list" where
  "head_fields r =
     (''Host'', vr_Host r) # (if vr_ContentLength r > 0 then [(''Content-Length'', dec (nat (vr_ContentLength r)))] else []) @
     concat (map (\<lambda>(k, vs). if k \<noteq> ''Host'' \<and> k \<noteq> ''Content-Length'' then map (Pair k) vs else []) (vr_Header r))"

lemma head_lines_fields: "head_lines r = (vr_Method r @ '' '' @ vr_URI r @ '' HTTP/1.1'') # map (\<lambda>(k, v). header_line k v) (head_fields r)"
proof -
  have "header_lines hs = map (\<lambda>(k, v). header_line k v) (concat (map (\<lambda>(k, vs). if k \<noteq> ''Host'' \<and> k \<noteq> ''Content-Length'' then map (Pair k) vs else []) hs))" for hs
    by (induction hs) (auto simp: header_lines_def)
  then show ?thesis by (simp add: head_lines_def head_fields_def)
qed

definition field_ok :: "string \<times> string \<Rightarrow> bool" where
  "field_ok kv \<longleftrightarrow> fst kv \<noteq> [] \<and> CHR '':'' \<notin> set (fst kv) \<and> CHR 0x0D \<notin> set (fst kv) \<and> CHR 0x0D \<notin> set (snd kv) \<and> trim_ows (snd kv) = snd kv"

lemma head_fields_ok: "valid_request r \<Longrightarrow> kv \<in> set (head_fields r) \<Longrightarrow> field_ok kv"
  by (auto simp: head_fields_def valid_request_def field_ok_def no_crlf_def list_all_iff dec_trim split: if_splits)

lemma parse_header_line: "field_ok (k, v) \<Longrightarrow> parse_header (header_line k v) = Some (k, v)"
proof -
  assume ok: "field_ok (k, v)"
  have "takeWhile (\<lambda>c. c \<noteq> CHR '':'') (header_line k v) = k" "dropWhile (\<lambda>c. c \<noteq> CHR '':'') (header_line k v) = '': '' @ v"
    using ok by (auto simp: header_line_def field_ok_def takeWhile_append dropWhile_append)
  moreover have "trim_ows ('' '' @ v) = v" using ok by (simp add: field_ok_def trim_ows_def is_ows_def)
  ultimately show ?thesis using ok by (simp add: parse_header_def field_ok_def header_line_def)
qed

lemma parse_headers_lines:
  "\<forall>kv \<in> set kvs. field_ok kv \<Longrightarrow> parse_headers (map (\<lambda>(k, v). header_line k v) kvs @ [] # rest) = Some kvs"
  by (induction kvs) (auto simp: parse_header_line, auto simp: header_line_def)

lemma map_of_collect: "map_of (collect kvs) k = (if values_of kvs k = [] then None else Some (values_of kvs k))"
  by (auto simp: collect_def map_of_map_restrict restrict_map_def values_of_def filter_empty_conv image_iff)

lemma values_flat:
  "distinct (map fst hs) \<Longrightarrow>
     values_of (concat (map (\<lambda>(k, vs). if k \<noteq> ''Host'' \<and> k \<noteq> ''Content-Length'' then map (Pair k) vs else []) hs)) k =
       (if k = ''Host'' \<or> k = ''Content-Length'' then [] else case map_of hs k of Some vs \<Rightarrow> vs | None \<Rightarrow> [])"
proof (induction hs)
  case (Cons x hs)
  obtain k' vs where x: "x = (k', vs)" by force
  have f: "values_of (map (Pair k') vs @ rest) k = (if k' = k then vs else []) @ values_of rest k" for rest
    by (simp add: values_of_def filter_map o_def)
  have "k' = k \<Longrightarrow> map_of hs k = None" using Cons.prems x by (auto simp: map_of_eq_None_iff)
  then show ?case using Cons x f f [of "[]"] by (auto simp: values_of_def)
qed (simp add: values_of_def)

lemma head_lines_no_cr:
  assumes "valid_request r" "l \<in> set (head_lines r)"
  shows "CHR 0x0D \<notin> set l"
proof -
  have cr: "is_space (CHR 0x0D)" by (simp add: is_space_def)
  have "CHR 0x0D \<notin> set (vr_Method r)" "CHR 0x0D \<notin> set (vr_URI r)"
    using assms(1) cr unfolding valid_request_def list_all_iff by blast+
  moreover have "CHR 0x0D \<notin> set (header_line k v)" if "field_ok (k, v)" for k v using that by (simp add: field_ok_def header_line_def)
  ultimately show ?thesis using assms(2) head_fields_ok [OF assms(1)] by (auto simp: head_lines_fields)
qed

lemma values_head:
  assumes "valid_request r"
  shows "values_of (head_fields r) k =
    (if k = ''Host'' then [vr_Host r]
     else if k = ''Content-Length'' then (if vr_ContentLength r > 0 then [dec (nat (vr_ContentLength r))] else [])
     else case map_of (vr_Header r) k of Some vs \<Rightarrow> vs | None \<Rightarrow> [])"
proof -
  have v: "values_of ((k', x) # kvs) j = (if k' = j then [x] else []) @ values_of kvs j" for k' x kvs j by (simp add: values_of_def)
  have "distinct (map fst (vr_Header r))" using assms by (simp add: valid_request_def)
  from values_flat [OF this] show ?thesis by (simp add: head_fields_def v)
qed

lemma request_line_bytes:
  assumes "valid_request r"
  shows "request_line (request_bytes r) = (vr_Method r, vr_URI r)"
proof -
  have "hd (Split (request_bytes r) crlf) = vr_Method r @ CHR '' '' # vr_URI r @ CHR '' '' # ''HTTP/1.1''"
    using Split_request_bytes [of r] head_lines_no_cr [OF assms] by (simp add: head_lines_def)
  moreover have "is_space CHR '' ''" by (simp add: is_space_def)
  ultimately show ?thesis
    using assms Fields_word [of "vr_Method r" "CHR '' ''"] Fields_word [of "vr_URI r" "CHR '' ''"] by (simp add: request_line_def valid_request_def)
qed

text \<open>
  C15. The tunnel gets the request the visitor sent: for every request \<open>net/http\<close> can have read and every order of its headers, the text
  handed to the router reads as a request with the same method, URI, host and body and the same values for every header in
  the same order (the length of the body is taken from the request); and the router routes by this method and URI.
\<close>

theorem visitor_request_preserved:
  assumes "valid_request r"
  shows "\<exists>r'. ReadRequest (vr_Body r) (request_bytes r) = Some r' \<and>
    vr_Method r' = vr_Method r \<and> vr_URI r' = vr_URI r \<and> vr_Host r' = vr_Host r \<and> vr_Body r' = vr_Body r \<and>
    vr_ContentLength r' = max 0 (vr_ContentLength r) \<and>
    (\<forall>k. map_of (vr_Header r') k =
      (if k = ''Host'' then None
       else if k = ''Content-Length'' then (if vr_ContentLength r > 0 then Some [dec (nat (vr_ContentLength r))] else None)
       else map_of (vr_Header r) k)) \<and>
    request_line (request_bytes r) = (vr_Method r, vr_URI r)"
proof -
  have sp: "CHR '' '' \<notin> set (vr_Method r)" "CHR '' '' \<notin> set (vr_URI r)"
    using assms by (auto simp: valid_request_def list_all_iff is_space_def)
  have http: "Split ''HTTP/1.1'' '' '' = [''HTTP/1.1'']" by code_simp
  have line: "Split (vr_Method r @ '' '' @ vr_URI r @ '' HTTP/1.1'') '' '' = [vr_Method r, vr_URI r, ''HTTP/1.1'']"
    using Split_char [OF sp(1), of "vr_URI r @ '' HTTP/1.1''"] Split_char [OF sp(2), of "''HTTP/1.1''"] http by simp
  have heads: "parse_headers (map (\<lambda>(k, v). header_line k v) (head_fields r) @ [[], []]) = Some (head_fields r)"
    using parse_headers_lines [of "head_fields r" "[[]]"] head_fields_ok [OF assms] by simp
  have split: "Split (request_bytes r) crlf =
      (vr_Method r @ '' '' @ vr_URI r @ '' HTTP/1.1'') # map (\<lambda>(k, v). header_line k v) (head_fields r) @ [[], []]"
    unfolding append_Cons [symmetric] head_lines_fields [symmetric] using head_lines_no_cr [OF assms] by (intro Split_request_bytes) blast
  have ne: "map_of (vr_Header r) k \<noteq> Some []" for k
    using assms map_of_SomeD [of "vr_Header r" k "[]"] by (auto simp: valid_request_def list_all_iff)
  show ?thesis
    unfolding ReadRequest_def split list.case line heads
    by (simp add: Let_def map_of_delete map_of_collect values_head [OF assms] request_line_bytes [OF assms] dec_facts(1) ne split: option.split)
qed

text \<open>
  A visitor of a domain whose client is not connected is told that there is no such page: the handler answers before the router, whose
  page for this case is left to domains that still have a TCP connection.
\<close>

lemma offline_visitor_gets_404:
  assumes "\<not> IsTunnelActive (r_grpc r) (vr_Host req)" "\<not> HasDomain (tcp_conns (r_tcp r)) (vr_Host req)"
  shows "http_handler up hj cfg env qdb now req i r cc = (r, cc_write (HttpError 404 ''Not Found'') cc)"
  using assms by (simp add: http_handler_def IsTunnelDomain_def)

definition demo_visitor :: visitor_request where
  "demo_visitor = \<lparr>vr_Method = ''POST'', vr_URI = ''/a?b=c'', vr_Host = ''app.example.com'', vr_ContentLength = 12,
     vr_Header = [(''Accept'', [''text/html'', ''*/*'']), (''X-A'', [''b: c''])], vr_Body = []\<rparr>"

theorem visitor_request_preserved_witness:
  "\<exists>r'. ReadRequest [] (request_bytes demo_visitor) = Some r' \<and> vr_Host r' = ''app.example.com'' \<and> map_of (vr_Header r') ''X-A'' = Some [''b: c'']"
proof -
  have "valid_request demo_visitor" by code_simp
  from visitor_request_preserved [OF this] show ?thesis by (auto simp: demo_visitor_def)
qed

end
