(* ===== verification/Usage_Api.thy ===== *)
theory Usage_Api
  imports Quota "HOL-Library.Multiset"
begin

text \<open>
  The usage pages of the web API (\<open>internal/repository/usage_repository.go\<close>, \<open>internal/api/handlers/usage.go\<close>): the sum of
  the current day with the quota of the month, and the history by days. Counters are 64-bit and wrap around. A handler
  is a function from the table and the user the middleware found to the status and the body. The time zone in which the
  database driver returns the start of a period is an argument: the seconds to add to a time.
\<close>

section \<open>Dates\<close>

text \<open>
  A \<open>time.Time\<close> counts the seconds from the year 1 in 64 bits, \<open>62135596800\<close> more than from 1970. \<open>AddDate\<close> wraps around;
  \<open>Truncate\<close> subtracts the rest of the division and stops at the least number.
\<close>

definition internal_offset :: int where
  "internal_offset = 62135596800"

definition add_days :: "time \<Rightarrow> int \<Rightarrow> time" where
  "add_days t n = sint (word_of_int (t + n * 86400 + internal_offset) :: i64) - internal_offset"

definition truncate_day :: "time \<Rightarrow> time" where
  "truncate_day t =
     (let s = t + internal_offset; s' = s - s mod 86400 in (if s' < - (2 ^ 63) then - (2 ^ 63 - 1) else s') - internal_offset)"

section \<open>The repository\<close>

definition GetDailyUsage :: "usage_row list option \<Rightarrow> u32 \<Rightarrow> time \<Rightarrow> usage_row list option" where
  "GetDailyUsage table userID date =
     map_option (filter (\<lambda>r. PeriodStart r = utc_day date \<and> UserID r = userID)) table"

definition GetUsageHistory :: "usage_row list option \<Rightarrow> u32 \<Rightarrow> time \<Rightarrow> usage_row list option" where
  "GetUsageHistory table userID startDate =
     map_option (\<lambda>rows. sort_key PeriodStart (filter (\<lambda>r. UserID r = userID \<and> PeriodStart r \<ge> startDate) rows)) table"

section \<open>The handlers\<close>

record counters =
  ct_in :: i64
  ct_out :: i64
  ct_req :: i64

definition no_usage :: counters where
  "no_usage = \<lparr>ct_in = 0, ct_out = 0, ct_req = 0\<rparr>"

definition count_row :: "usage_row \<Rightarrow> counters \<Rightarrow> counters" where
  "count_row r c = \<lparr>ct_in = ct_in c + BytesIn r, ct_out = ct_out c + BytesOut r, ct_req = ct_req c + Requests r\<rparr>"

datatype 'b usage_reply = Unauthorized | UsageFailed | UsageOK 'b

definition GetSummary ::
    "u32 option \<Rightarrow> time \<Rightarrow> usage_row list option \<Rightarrow> quota_db \<Rightarrow> quota_service \<Rightarrow> (time \<times> counters \<times> quota_result) usage_reply \<times> quota_service" where
  "GetSummary user now table qdb q =
     (case user of
        None \<Rightarrow> (Unauthorized, q)
      | Some userID \<Rightarrow>
          (case GetDailyUsage table userID now of
             None \<Rightarrow> (UsageFailed, q)
           | Some rows \<Rightarrow>
               (let (res, q1) = CheckUser qdb now userID q in (UsageOK (utc_day now, fold count_row rows no_usage, res), q1))))"

definition days_param :: "string \<Rightarrow> int" where
  "days_param s =
     (if s = [] then 30 else case ParseInt64 s of Some n \<Rightarrow> if n > 0 then n else 30 | None \<Rightarrow> 30)"

definition add_day :: "(time \<Rightarrow> int) \<Rightarrow> usage_row \<Rightarrow> (string, counters) go_map \<Rightarrow> (string, counters) go_map" where
  "add_day zone r m =
     (let k = format_day (PeriodStart r + zone (PeriodStart r))
      in AList.update k (count_row r (case map_of m k of Some c \<Rightarrow> c | None \<Rightarrow> no_usage)) m)"

text \<open>
  The loop over the days; the second component of an entry is what the map holds for the day. The clock
  is far enough from the end of time that going on by a day does not wrap.
\<close>

function history_loop :: "time \<Rightarrow> (string, counters) go_map \<Rightarrow> time \<Rightarrow> (string \<times> counters) list" where
  "history_loop now m date =
     (if date < now \<or> date = utc_day now
      then (format_day date, case map_of m (format_day date) of Some c \<Rightarrow> c | None \<Rightarrow> no_usage) # history_loop now m (date + 86400)
      else [])"
  by pat_completeness auto
termination
proof (relation "measure (\<lambda>(now, m, date). nat (now + 86400 - date))")
  fix now :: time and m :: "(string, counters) go_map" and date
  assume "date < now \<or> date = utc_day now"
  then have "date < now + 86400" by (auto simp: utc_day_def)
  then show "((now, m, date + 86400), now, m, date) \<in> measure (\<lambda>(now, m, date). nat (now + 86400 - date))" by simp
qed simp

declare history_loop.simps [simp del]

definition GetDailyHistory ::
    "(time \<Rightarrow> int) \<Rightarrow> u32 option \<Rightarrow> string \<Rightarrow> time \<Rightarrow> usage_row list option \<Rightarrow> ((string \<times> counters) list \<times> int) usage_reply" where
  "GetDailyHistory zone user param now table =
     (case user of
        None \<Rightarrow> Unauthorized
      | Some userID \<Rightarrow>
          (let days = days_param param; startDate = truncate_day (add_days now (- days))
           in case GetUsageHistory table userID startDate of
                None \<Rightarrow> UsageFailed
              | Some rows \<Rightarrow> UsageOK (history_loop now (fold (add_day zone) rows []) startDate, days)))"

section \<open>The history is complete\<close>

definition usage_sum :: "usage_row list \<Rightarrow> counters" where
  "usage_sum rows = \<lparr>ct_in = sum_list (map BytesIn rows), ct_out = sum_list (map BytesOut rows), ct_req = sum_list (map Requests rows)\<rparr>"

definition lookup_day :: "(string, counters) go_map \<Rightarrow> string \<Rightarrow> counters" where
  "lookup_day m k = (case map_of m k of Some c \<Rightarrow> c | None \<Rightarrow> no_usage)"

lemma fold_count_row:
  "fold count_row rows c = \<lparr>ct_in = ct_in c + ct_in (usage_sum rows), ct_out = ct_out c + ct_out (usage_sum rows), ct_req = ct_req c + ct_req (usage_sum rows)\<rparr>"
  by (induction rows arbitrary: c) (simp_all add: usage_sum_def count_row_def)

lemma fold_count_sum: "fold count_row rows no_usage = usage_sum rows"
  by (simp add: fold_count_row no_usage_def usage_sum_def)

lemma lookup_add_day: "lookup_day (add_day zone r m) k = (if format_day (PeriodStart r + zone (PeriodStart r)) = k then count_row r (lookup_day m k) else lookup_day m k)"
  by (simp add: add_day_def lookup_day_def Let_def map_of_update)

lemma lookup_fold: "lookup_day (fold (add_day zone) rows m) k =
    fold count_row (filter (\<lambda>r. format_day (PeriodStart r + zone (PeriodStart r)) = k) rows) (lookup_day m k)"
  by (induction rows arbitrary: m) (simp_all add: lookup_add_day)

lemma sum_list_filter_sort:
  fixes f :: "'r \<Rightarrow> 'm::comm_monoid_add" and g :: "'r \<Rightarrow> 'k::linorder"
  shows "sum_list (map f (filter P (sort_key g xs))) = sum_list (map f (filter P xs))"
proof -
  have "mset (map f (filter P (sort_key g xs))) = mset (map f (filter P xs))" by simp
  then show ?thesis by (metis sum_mset_sum_list)
qed

lemma usage_sum_filter_sort: "usage_sum (filter P (sort_key g xs)) = usage_sum (filter P xs)"
  by (simp add: usage_sum_def sum_list_filter_sort)

lemma utc_day_bounds: "utc_day now \<le> now" "now < utc_day now + 86400"
  using pos_mod_bound [of 86400 now] by (simp_all add: utc_day_def)

lemma utc_day_shift: "utc_day (now - n * 86400) = utc_day now - n * 86400" "utc_day (utc_day now - n * 86400) = utc_day now - n * 86400"
proof -
  have m: "(x - n * 86400) mod 86400 = x mod 86400" for x :: int using mod_mult_self1 [of x "- n" 86400] by simp
  show "utc_day (now - n * 86400) = utc_day now - n * 86400" by (simp add: utc_day_def m)
  have "utc_day now mod 86400 = 0" by (simp add: utc_day_def minus_mod_eq_mult_div)
  then show "utc_day (utc_day now - n * 86400) = utc_day now - n * 86400" by (simp add: utc_day_def [of "utc_day now - n * 86400"] m)
qed

lemma history_loop_days:
  "history_loop now m (utc_day now - int n * 86400) =
     map (\<lambda>i. (format_day (utc_day now - (int n - int i) * 86400), lookup_day m (format_day (utc_day now - (int n - int i) * 86400)))) [0..<Suc n]"
proof (induction n)
  case 0
  have "history_loop now m (utc_day now + 86400) = []" using utc_day_bounds(2) [of now] by (subst history_loop.simps) simp
  then show ?case by (subst history_loop.simps) (simp add: lookup_day_def)
next
  case (Suc n)
  let ?d = "utc_day now - int (Suc n) * 86400"
  have "?d < now" using utc_day_bounds(1) [of now] by simp
  then have "history_loop now m ?d = (format_day ?d, lookup_day m (format_day ?d)) # history_loop now m (?d + 86400)"
    by (subst history_loop.simps) (simp add: lookup_day_def)
  also have "?d + 86400 = utc_day now - int n * 86400" by simp
  finally show ?case unfolding Suc.IH upt_conv_Cons [OF zero_less_Suc [of "Suc n"]]
    by (simp add: map_Suc_upt [symmetric] del: upt_Suc)
qed

lemma sum_of_sums:
  fixes f :: "'r \<Rightarrow> 'm::comm_monoid_add"
  shows "(\<Sum>i \<in> I. sum_list (map f (filter (Q i) rows))) = sum_list (map (\<lambda>r. \<Sum>i \<in> I. if Q i r then f r else 0) rows)"
proof -
  have "sum_list (map f (filter (Q i) rows)) = sum_list (map (\<lambda>r. if Q i r then f r else 0) rows)" for i
    by (induction rows) auto
  moreover have "(\<Sum>i \<in> I. sum_list (map (\<lambda>r. if Q i r then f r else 0) rows)) = sum_list (map (\<lambda>r. \<Sum>i \<in> I. if Q i r then f r else 0) rows)"
    by (induction rows) (simp_all add: sum.distrib)
  ultimately show ?thesis by simp
qed

definition is_day :: "usage_row \<Rightarrow> bool" where
  "is_day r \<longleftrightarrow> utc_day (PeriodStart r) = PeriodStart r"

lemma format_day_eq_iff: "utc_day s = s \<Longrightarrow> utc_day t = t \<Longrightarrow> format_day s = format_day t \<longleftrightarrow> s = t"
  using format_day_inj [of s t] by (auto simp: day_number_def utc_day_def)

text \<open>The rows of a user on the day that is \<open>n - i\<close> days ago.\<close>

definition day_rows :: "u32 \<Rightarrow> time \<Rightarrow> nat \<Rightarrow> usage_row list \<Rightarrow> nat \<Rightarrow> usage_row list" where
  "day_rows u now n rows i = filter (\<lambda>r. UserID r = u \<and> PeriodStart r = utc_day now - (int n - int i) * 86400) rows"

lemma in_some_day:
  fixes f :: "usage_row \<Rightarrow> 'm::comm_monoid_add"
  assumes "is_day r" "PeriodStart r \<le> now"
  shows "(\<Sum>i \<in> {0..<Suc n}. if UserID r = u \<and> PeriodStart r = utc_day now - (int n - int i) * 86400 then f r else 0) =
    (if UserID r = u \<and> PeriodStart r \<ge> utc_day now - int n * 86400 then f r else 0)"
proof (cases "UserID r = u \<and> PeriodStart r \<ge> utc_day now - int n * 86400")
  case False
  then have "\<not> (UserID r = u \<and> PeriodStart r = utc_day now - (int n - int i) * 86400)" for i by auto
  then have "(\<Sum>i \<in> {0..<Suc n}. if UserID r = u \<and> PeriodStart r = utc_day now - (int n - int i) * 86400 then f r else 0) = (\<Sum>i \<in> {0..<Suc n}. 0)"
    by (intro sum.cong refl if_not_P) blast
  then show ?thesis using False by (auto simp: sum.neutral_const)
next
  case True
  obtain d where d: "PeriodStart r = d * 86400" using assms(1) by (metis is_day_def minus_mod_eq_div_mult utc_day_def)
  obtain e where e: "utc_day now = e * 86400" by (metis minus_mod_eq_div_mult utc_day_def)
  have "d \<le> e" using assms(2) utc_day_bounds [of now] d e by linarith
  moreover have "e - int n \<le> d" using True d e by linarith
  ultimately have i: "PeriodStart r = utc_day now - (int n - int i) * 86400 \<longleftrightarrow> i = nat (d - (e - int n))" for i
    using d e by (auto simp: algebra_simps)
  have k: "(UserID r = u \<and> PeriodStart r = utc_day now - (int n - int i) * 86400) = (i = nat (d - (e - int n)))" for i using True i by blast
  have "nat (d - (e - int n)) \<in> {0..<Suc n}" using \<open>d \<le> e\<close> by simp
  then show ?thesis unfolding k using True by (simp only: sum.delta' sum.delta finite_atLeastLessThan if_True simp_thms)
qed

lemma history_total:
  fixes f :: "usage_row \<Rightarrow> 'm::comm_monoid_add"
  assumes "list_all (\<lambda>r. is_day r \<and> PeriodStart r \<le> now) rows"
  shows "(\<Sum>i \<leftarrow> [0..<Suc n]. sum_list (map f (day_rows u now n rows i))) =
    sum_list (map f (filter (\<lambda>r. UserID r = u \<and> PeriodStart r \<ge> utc_day now - int n * 86400) rows))"
proof -
  have "(\<Sum>i \<leftarrow> [0..<Suc n]. sum_list (map f (day_rows u now n rows i))) =
      sum_list (map (\<lambda>r. \<Sum>i \<in> {0..<Suc n}. if UserID r = u \<and> PeriodStart r = utc_day now - (int n - int i) * 86400 then f r else 0) rows)"
    unfolding interv_sum_list_conv_sum_set_nat set_upt day_rows_def by (rule sum_of_sums)
  also have "\<dots> = sum_list (map (\<lambda>r. if UserID r = u \<and> PeriodStart r \<ge> utc_day now - int n * 86400 then f r else 0) rows)"
    using assms in_some_day [of _ now u n f] by (intro arg_cong [where f = sum_list] map_cong refl) (simp add: list_all_iff)
  also have "\<dots> = sum_list (map f (filter (\<lambda>r. UserID r = u \<and> PeriodStart r \<ge> utc_day now - int n * 86400) rows))"
    by (induction rows) auto
  finally show ?thesis .
qed

lemma truncate_day_utc:
  assumes "- (2 ^ 63) + 86400 \<le> t + internal_offset"
  shows "truncate_day t = utc_day t"
proof -
  have "(t + internal_offset) mod 86400 = t mod 86400"
    using mod_mult_self1 [of t 719162 86400] by (simp add: internal_offset_def)
  then show ?thesis using assms pos_mod_bound [of 86400 t] by (simp add: truncate_day_def utc_day_def Let_def)
qed

lemma add_days_exact:
  assumes "- (2 ^ 63) \<le> t + n * 86400 + internal_offset" "t + n * 86400 + internal_offset < 2 ^ 63"
  shows "add_days t n = t + n * 86400"
proof -
  let ?x = "t + n * 86400 + internal_offset"
  have "sint (word_of_int ?x :: i64) = (?x + 2 ^ 63) mod 2 ^ 64 - 2 ^ 63" unfolding int_word_sint by simp
  also have "(?x + 2 ^ 63) mod 2 ^ 64 = ?x + 2 ^ 63" using assms by (intro mod_pos_pos_trivial) simp_all
  finally show ?thesis by (simp only: add_days_def)
qed

lemma add_days_wraps:
  assumes "0 \<le> t" "t < 2 ^ 62"
  shows "add_days t (- 213503982334601) = t + 25216"
proof -
  let ?y = "t + 25216 + internal_offset"
  have x: "t + - 213503982334601 * 86400 + internal_offset + 2 ^ 63 = ?y + 2 ^ 63 - 2 ^ 64" by simp
  have "sint (word_of_int (t + - 213503982334601 * 86400 + internal_offset) :: i64) = (?y + 2 ^ 63 - 2 ^ 64) mod 2 ^ 64 - 2 ^ 63"
    unfolding int_word_sint x [symmetric] by simp
  also have "(?y + 2 ^ 63 - 2 ^ 64) mod 2 ^ 64 = (?y + 2 ^ 63) mod 2 ^ 64" by (rule minus_mod_self2)
  also have "\<dots> = ?y + 2 ^ 63" using assms by (intro mod_pos_pos_trivial) (simp_all add: internal_offset_def)
  finally show ?thesis by (simp only: add_days_def)
qed

lemma start_date:
  assumes "0 \<le> now" "now < 2 ^ 62" "0 < n" "n \<le> 10 ^ 14"
  shows "truncate_day (add_days now (- n)) = utc_day now - n * 86400"
proof -
  have "add_days now (- n) = now - n * 86400" using assms by (simp add: add_days_exact internal_offset_def)
  moreover have "truncate_day (now - n * 86400) = utc_day (now - n * 86400)"
    using assms by (intro truncate_day_utc) (simp add: internal_offset_def)
  ultimately show ?thesis by (simp add: utc_day_shift)
qed

text \<open>
  C33. The history shows all the traffic of a user: for the last \<open>n\<close> days and today it has one entry each, in order, with the sums of
  exactly the rows of the user for that day, and the entries add up to everything recorded for the user since the first day.
  This holds for up to \<open>10\<^sup>1\<^sup>4\<close> days, where the start date does not wrap around, and when the driver returns times in UTC,
  as in a container whose zone is UTC.
\<close>

theorem usage_history_complete:
  assumes "list_all (\<lambda>r. is_day r \<and> PeriodStart r \<le> now) rows"
    and "GetDailyHistory (\<lambda>_. 0) (Some u) param now (Some rows) = UsageOK (hist, days)"
    and "0 \<le> now" "now < 2 ^ 62" "days_param param \<le> 10 ^ 14"
  shows "days = days_param param \<and>
    hist = map (\<lambda>i. (format_day (utc_day now - (days - int i) * 86400), usage_sum (day_rows u now (nat days) rows i))) [0..<Suc (nat days)] \<and>
    sum_list (map (ct_in \<circ> snd) hist) = sum_list (map BytesIn (filter (\<lambda>r. UserID r = u \<and> PeriodStart r \<ge> utc_day now - days * 86400) rows)) \<and>
    sum_list (map (ct_out \<circ> snd) hist) = sum_list (map BytesOut (filter (\<lambda>r. UserID r = u \<and> PeriodStart r \<ge> utc_day now - days * 86400) rows))"
proof -
  let ?n = "nat days"
  have days: "days = days_param param" using assms(2) by (auto simp: GetDailyHistory_def GetUsageHistory_def Let_def)
  have n: "int ?n = days" and pos: "0 < days" using days by (simp_all add: days_param_def split: option.split)
  let ?start = "utc_day now - int ?n * 86400"
  let ?rows = "sort_key PeriodStart (filter (\<lambda>r. UserID r = u \<and> PeriodStart r \<ge> ?start) rows)"
  have h: "hist = history_loop now (fold (add_day (\<lambda>_. 0)) ?rows []) ?start"
    using assms(2) start_date [OF assms(3,4) pos] assms(5) unfolding n by (auto simp: GetDailyHistory_def GetUsageHistory_def Let_def)
  have look: "lookup_day (fold (add_day (\<lambda>_. 0)) ?rows []) (format_day (utc_day now - (int ?n - int i) * 86400)) = usage_sum (day_rows u now ?n rows i)"
    if "i \<le> ?n" for i
  proof -
    let ?d = "utc_day now - (int ?n - int i) * 86400"
    have ge: "?d \<ge> ?start" using that by simp
    have "filter (\<lambda>r. format_day (PeriodStart r) = format_day ?d) (filter (\<lambda>r. UserID r = u \<and> PeriodStart r \<ge> ?start) rows) = day_rows u now ?n rows i"
      using assms(1) format_day_eq_iff [OF _ utc_day_shift(2) [of now "int ?n - int i"]] ge
      unfolding day_rows_def filter_filter by (intro filter_cong refl) (auto simp: list_all_iff is_day_def)
    then have "usage_sum (filter (\<lambda>r. format_day (PeriodStart r) = format_day ?d) ?rows) = usage_sum (day_rows u now ?n rows i)"
      by (simp add: usage_sum_filter_sort)
    then show ?thesis by (simp add: lookup_fold fold_count_sum lookup_day_def [of "[]"])
  qed
  have hist: "hist = map (\<lambda>i. (format_day (utc_day now - (days - int i) * 86400), usage_sum (day_rows u now ?n rows i))) [0..<Suc ?n]"
    unfolding h history_loop_days using look n by (intro map_cong refl) (simp add: less_Suc_eq_le del: upt_Suc)
  have "sum_list (map (ct_in \<circ> snd) hist) = (\<Sum>i \<leftarrow> [0..<Suc ?n]. sum_list (map BytesIn (day_rows u now ?n rows i)))"
    "sum_list (map (ct_out \<circ> snd) hist) = (\<Sum>i \<leftarrow> [0..<Suc ?n]. sum_list (map BytesOut (day_rows u now ?n rows i)))"
    unfolding hist map_map by (simp_all add: o_def usage_sum_def del: upt_Suc)
  then show ?thesis
    using days hist history_total [OF assms(1), of BytesIn u ?n, unfolded n] history_total [OF assms(1), of BytesOut u ?n, unfolded n] by (simp del: upt_Suc)
qed

text \<open>
  A huge number of days wraps around: for \<open>213503982334601\<close> days the start date is seven hours ahead of now, and the history
  has no entry, or only today's, although it says that it covers that many days.
\<close>

theorem huge_days_wrap:
  assumes "0 \<le> now" "now < 2 ^ 62"
  shows "\<exists>hist. GetDailyHistory zone (Some u) ''213503982334601'' now (Some rows) = UsageOK (hist, 213503982334601) \<and> length hist \<le> 1"
proof -
  have d: "days_param ''213503982334601'' = 213503982334601"
    by (simp add: days_param_def ParseInt64_def dec_value_def digit_val_def is_digit_def)
  note a = add_days_wraps [OF assms]
  have t: "truncate_day (now + 25216) = utc_day (now + 25216)"
    using assms by (intro truncate_day_utc) (simp add: internal_offset_def)
  have next_day: "history_loop now m date = []" if "now < date" "date \<noteq> utc_day now" for m date
    using that by (subst history_loop.simps) simp
  have "utc_day (now + 25216) = utc_day now \<or> utc_day (now + 25216) = utc_day now + 86400"
  proof -
    obtain e where e: "utc_day now = e * 86400" by (metis minus_mod_eq_div_mult utc_day_def)
    obtain k where k: "utc_day (now + 25216) = k * 86400" by (metis minus_mod_eq_div_mult utc_day_def)
    have "k = e \<or> k = e + 1" using utc_day_bounds [of now] utc_day_bounds [of "now + 25216"] e k by linarith
    then show ?thesis using e k by auto
  qed
  then have "length (history_loop now m (utc_day (now + 25216))) \<le> 1" for m
  proof
    assume eq: "utc_day (now + 25216) = utc_day now"
    have "history_loop now m (utc_day now + 86400) = []" using utc_day_bounds(2) [of now] by (intro next_day) simp_all
    then show ?thesis by (subst history_loop.simps) (simp add: eq)
  next
    assume eq: "utc_day (now + 25216) = utc_day now + 86400"
    then show ?thesis using utc_day_bounds(2) [of now] by (subst next_day) simp_all
  qed
  then show ?thesis by (simp add: GetDailyHistory_def GetUsageHistory_def Let_def d a t)
qed

text \<open>
  West of Greenwich today is always empty: rows start at midnight UTC, and a driver that returns them in a zone behind
  UTC makes the handler file them under the day before, so the entry of today shows no traffic.
\<close>

theorem western_zone_hides_today:
  assumes "list_all (\<lambda>r. is_day r \<and> PeriodStart r \<le> now) rows" "\<forall>t. - 86400 \<le> zone t \<and> zone t < 0"
    and "GetDailyHistory zone (Some u) param now (Some rows) = UsageOK (hist, days)"
    and "0 \<le> now" "now < 2 ^ 62" "days_param param \<le> 10 ^ 14"
  shows "snd (last hist) = no_usage"
proof -
  have days: "days = days_param param" using assms(3) by (auto simp: GetDailyHistory_def GetUsageHistory_def Let_def)
  have n: "int (nat days) = days" and pos: "0 < days" using days by (simp_all add: days_param_def split: option.split)
  let ?start = "utc_day now - int (nat days) * 86400"
  let ?rows = "sort_key PeriodStart (filter (\<lambda>r. UserID r = u \<and> PeriodStart r \<ge> ?start) rows)"
  have h: "hist = history_loop now (fold (add_day zone) ?rows []) ?start"
    using assms(3) start_date [OF assms(4,5) pos] assms(6) days unfolding n by (auto simp: GetDailyHistory_def GetUsageHistory_def Let_def)
  have other: "format_day (PeriodStart r + zone (PeriodStart r)) \<noteq> format_day (utc_day now)" if "r \<in> set rows" for r
  proof
    assume "format_day (PeriodStart r + zone (PeriodStart r)) = format_day (utc_day now)"
    from format_day_inj [OF this] have eq: "(PeriodStart r + zone (PeriodStart r)) div 86400 = utc_day now div 86400"
      unfolding day_number_def add_right_cancel .
    have "utc_day (PeriodStart r) = PeriodStart r" using assms(1) that by (simp add: list_all_iff is_day_def)
    then obtain d where d: "PeriodStart r = d * 86400" by (metis minus_mod_eq_div_mult utc_day_def)
    obtain e where e: "utc_day now = e * 86400" by (metis minus_mod_eq_div_mult utc_day_def)
    have "PeriodStart r \<le> now" using assms(1) that by (simp add: list_all_iff)
    then have "d \<le> e" using d e utc_day_bounds(2) [of now] by linarith
    moreover have "(d * 86400 + zone (d * 86400)) div 86400 < d" using assms(2) [rule_format, of "d * 86400"] by linarith
    ultimately show False using eq d e by simp
  qed
  have "filter (\<lambda>r. format_day (PeriodStart r + zone (PeriodStart r)) = format_day (utc_day now)) ?rows = []"
    using other by (auto simp: filter_empty_conv)
  then have "lookup_day (fold (add_day zone) ?rows []) (format_day (utc_day now)) = no_usage"
    by (simp add: lookup_fold lookup_day_def [of "[]"])
  then show ?thesis unfolding h history_loop_days by (simp add: last_map)
qed

definition demo_usage :: "usage_row list" where
  "demo_usage =
     [\<lparr>PeriodStart = 86400, UserID = 7, TunnelID = 1, Domain = ''a'', BytesIn = 10, BytesOut = 1, Requests = 1, us_ID = 1\<rparr>,
      \<lparr>PeriodStart = 172800, UserID = 7, TunnelID = 2, Domain = ''b'', BytesIn = 5, BytesOut = 2, Requests = 1, us_ID = 2\<rparr>]"

theorem usage_history_complete_witness:
  "\<exists>hist. GetDailyHistory (\<lambda>_. 0) (Some 7) ''2'' 180000 (Some demo_usage) = UsageOK (hist, 2) \<and> length hist = 3 \<and> sum_list (map (ct_in \<circ> snd) hist) = 15"
proof -
  have d: "days_param ''2'' = 2" by code_simp
  obtain hist where h: "GetDailyHistory (\<lambda>_. 0) (Some 7) ''2'' 180000 (Some demo_usage) = UsageOK (hist, 2)"
    by (simp add: GetDailyHistory_def GetUsageHistory_def Let_def d)
  have ok: "list_all (\<lambda>r. is_day r \<and> PeriodStart r \<le> 180000) demo_usage" by (simp add: demo_usage_def is_day_def utc_day_def)
  note c = usage_history_complete [OF ok h, unfolded d, simplified]
  from c have "length hist = 3" by auto
  moreover have "sum_list (map BytesIn (filter (\<lambda>r. UserID r = 7 \<and> PeriodStart r \<ge> utc_day 180000 - 2 * 86400) demo_usage)) = 15"
    by (simp add: demo_usage_def utc_day_def)
  ultimately show ?thesis using h c by auto
qed

theorem huge_days_wrap_witness:
  "\<exists>hist. GetDailyHistory (\<lambda>_. 0) (Some 7) ''213503982334601'' 180000 (Some demo_usage) = UsageOK (hist, 213503982334601) \<and> length hist \<le> 1"
  using huge_days_wrap [of 180000] by simp

theorem western_zone_hides_today_witness:
  "\<exists>hist. GetDailyHistory (\<lambda>_. -3600) (Some 7) ''2'' 180000 (Some demo_usage) = UsageOK (hist, 2) \<and> snd (last hist) = no_usage"
proof -
  have d: "days_param ''2'' = 2" by code_simp
  obtain hist where h: "GetDailyHistory (\<lambda>_. -3600) (Some 7) ''2'' 180000 (Some demo_usage) = UsageOK (hist, 2)"
    by (simp add: GetDailyHistory_def GetUsageHistory_def Let_def d)
  have "list_all (\<lambda>r. is_day r \<and> PeriodStart r \<le> 180000) demo_usage" by (simp add: demo_usage_def is_day_def utc_day_def)
  from western_zone_hides_today [OF this _ h] h show ?thesis by (simp add: d)
qed

end
