(* ===== verification/Hooks_Api.thy ===== *)
theory Hooks_Api
  imports Version_Service
begin

text \<open>
  The administration of client versions (\<open>internal/api/handlers/admin.go\<close>, \<open>GetVersion\<close> of \<open>handlers/tunnel.go\<close>) over the
  version service, and the webhook that GitHub calls (\<open>internal/api/handlers/webhook.go\<close>). HMAC-SHA256 in hexadecimal
  and the decoding of the payload are parameters; the only effect of the webhook is whether the deployment script is started.
\<close>

section \<open>Client versions\<close>

datatype 'b version_reply = VBadRequest | VServerError | VOK 'b

definition UpdateVersionConfig ::
    "cv_faults \<Rightarrow> time \<Rightarrow> cv_config option \<Rightarrow> cv_row list \<Rightarrow> cv_config version_reply \<times> cv_row list" where
  "UpdateVersionConfig f now bound rows =
     (case bound of
        None \<Rightarrow> (VBadRequest, rows)
      | Some c \<Rightarrow>
          if cc_Channel c = [] \<or> cc_LatestVersion c = [] \<or> cc_MinimumVersion c = [] then (VBadRequest, rows)
          else
            (let c1 = (if cc_Platform c = [] then c\<lparr>cc_Platform := ''all''\<rparr> else c);
                 c2 = (if cc_Arch c1 = [] then c1\<lparr>cc_Arch := ''all''\<rparr> else c1)
             in case UpdateClientVersionConfig f now c2 rows of
                  (Some _, rows1) \<Rightarrow> (VServerError, rows1)
                | (None, rows1) \<Rightarrow> (VOK c2, rows1)))"

definition or_default :: "string \<Rightarrow> string \<Rightarrow> string" where
  "or_default d s = (if s = [] then d else s)"

definition GetVersionConfig ::
    "string \<Rightarrow> string \<Rightarrow> cv_faults \<Rightarrow> string \<Rightarrow> string \<Rightarrow> string \<Rightarrow> cv_row list \<Rightarrow> version_info version_reply" where
  "GetVersionConfig goos goarch f channel platform arch rows =
     VOK (GetVersionInfo goos goarch f rows [] (or_default ''stable'' channel) (or_default ''all'' platform) (or_default ''all'' arch))"

text \<open>A value comes from the query or, if it is empty there, from a header.\<close>

definition GetVersion ::
    "string \<Rightarrow> string \<Rightarrow> cv_faults \<Rightarrow> (string \<Rightarrow> string) \<Rightarrow> (string \<Rightarrow> string) \<Rightarrow> cv_row list \<Rightarrow> version_info version_reply" where
  "GetVersion goos goarch f query header rows =
     (let clientVersion = or_default (header ''X-Client-Version'') (query ''client_version'');
          channel = or_default (header ''X-Release-Channel'') (query ''channel'');
          platform = or_default (header ''X-Client-Platform'') (query ''platform'');
          arch = or_default (header ''X-Client-Arch'') (query ''arch'')
      in VOK (GetVersionInfo goos goarch f rows clientVersion channel platform arch))"

section \<open>The webhook\<close>

record webhook_payload =
  wp_Ref :: string
  wp_TagName :: string
  wp_Prerelease :: bool
  wp_Draft :: bool
  wp_Action :: string

definition extractBranchName :: "string \<Rightarrow> string" where
  "extractBranchName ref = (if HasPrefix ref ''refs/heads/'' then TrimPrefix ref ''refs/heads/'' else ref)"

definition verifySignature :: "(string \<Rightarrow> string \<Rightarrow> string) \<Rightarrow> string \<Rightarrow> string \<Rightarrow> string option \<Rightarrow> bool" where
  "verifySignature mac secret signature body =
     (if secret = [] then True
      else if signature = [] then False
      else if \<not> HasPrefix signature ''sha256='' then False
      else case body of None \<Rightarrow> False | Some b \<Rightarrow> drop 7 signature = mac secret b)"

definition handlePushEvent :: "webhook_payload \<Rightarrow> bool" where
  "handlePushEvent p \<longleftrightarrow> extractBranchName (wp_Ref p) = ''main''"

text \<open>\<open>script\<close> is the value of \<open>WEBHOOK_DEPLOY_SCRIPT_PATH\<close>; the result is the script that is started, if any.\<close>

definition runDeploymentScript :: "string \<Rightarrow> (string \<Rightarrow> bool) \<Rightarrow> string option" where
  "runDeploymentScript script missing =
     (let p = or_default ''/app/scripts/webhook-deploy.sh'' script in if missing p then None else Some p)"

record webhook_env =
  we_secret :: string
  we_mac :: "string \<Rightarrow> string \<Rightarrow> string"
  we_decode :: "string \<Rightarrow> webhook_payload option"
  we_script :: string
  we_missing :: "string \<Rightarrow> bool"

definition GitHubWebhook :: "webhook_env \<Rightarrow> string \<Rightarrow> string \<Rightarrow> string option \<Rightarrow> int \<times> string option" where
  "GitHubWebhook env signature event body =
     (if \<not> verifySignature (we_mac env) (we_secret env) signature body then (401, None)
      else case body of
             None \<Rightarrow> (400, None)
           | Some b \<Rightarrow>
               (case we_decode env b of
                  None \<Rightarrow> (400, None)
                | Some p \<Rightarrow>
                    (200, if Contains event ''push'' \<and> handlePushEvent p then runDeploymentScript (we_script env) (we_missing env) else None)))"

section \<open>Properties\<close>

text \<open>
  A deployment is started only by a push to \<open>main\<close>, and, when a secret is configured, only if the signature is the
  authentication code of the body under that secret.
\<close>

theorem webhook_authentic:
  assumes "GitHubWebhook env signature event body = (status, Some script)"
  shows "status = 200 \<and> (\<exists>b p. body = Some b \<and> we_decode env b = Some p \<and> wp_Ref p \<in> {''main'', ''refs/heads/main''} \<and> Contains event ''push'' \<and>
    (we_secret env = [] \<or> signature = ''sha256='' @ we_mac env (we_secret env) b))"
proof -
  have ref: "r = ''main'' \<or> r = ''refs/heads/main''" if "extractBranchName r = ''main''" for r
    using that by (auto simp: extractBranchName_def HasPrefix_iff TrimPrefix_def split: if_splits)
  have sig: "signature = ''sha256='' @ drop 7 signature" if "HasPrefix signature ''sha256=''"
    using that by (auto simp: HasPrefix_iff)
  show ?thesis using assms ref sig
    by (auto simp: GitHubWebhook_def verifySignature_def handlePushEvent_def split: option.splits if_splits)
qed

text \<open>Without a secret, which the code allows for development, anybody can start the deployment.\<close>

lemma webhook_without_secret:
  assumes "we_secret env = []" "we_decode env b = Some p" "wp_Ref p = ''refs/heads/main''" "\<not> we_missing env (or_default ''/app/scripts/webhook-deploy.sh'' (we_script env))"
  shows "\<exists>script. GitHubWebhook env [] ''push'' (Some b) = (200, Some script)"
  using assms by (simp add: GitHubWebhook_def verifySignature_def handlePushEvent_def extractBranchName_def runDeploymentScript_def Let_def
      HasPrefix_iff TrimPrefix_def)

text \<open>
  A configuration the administrator saved is served: after an accepted update every client of its channel, platform and architecture
  is told the saved version, whatever was stored before.
\<close>

lemma saved_version_served:
  assumes "keyed cv_ID cv_key_of rows" "UpdateVersionConfig f now (Some c) rows = (VOK c', rows')" "\<not> f' (CVQuery (cv_key_of c'))"
    and "query ''channel'' = cc_Channel c'" "query ''platform'' = cc_Platform c'" "query ''arch'' = cc_Arch c'"
  shows "\<exists>vi. GetVersion goos goarch f' query header rows' = VOK vi \<and> LatestVersion vi = cc_LatestVersion c \<and> MinimumVersion vi = cc_MinimumVersion c \<and>
    DownloadURL vi = cc_DownloadURL c \<and> Channel vi = cc_Channel c"
proof -
  have up: "UpdateClientVersionConfig f now c' rows = (None, rows')" and ne: "cc_Channel c' \<noteq> []" "cc_Platform c' \<noteq> []" "cc_Arch c' \<noteq> []"
    and eq: "cc_LatestVersion c' = cc_LatestVersion c" "cc_MinimumVersion c' = cc_MinimumVersion c" "cc_DownloadURL c' = cc_DownloadURL c" "cc_Channel c' = cc_Channel c"
    using assms(2) by (auto simp: UpdateVersionConfig_def Let_def split: if_splits option.splits prod.splits)
  from version_config_roundtrip [where f' = f', OF assms(1) up assms(3)] obtain r
    where r: "getClientVersionConfig f' rows' (cc_Channel c') (cc_Platform c') (cc_Arch c') = Inr r" "same_config_as c' r" by blast
  then show ?thesis using ne eq assms(4-6)
    by (simp add: GetVersion_def or_default_def GetVersionInfo_def Let_def same_config_as_def cv_config.defs) (metis cv_config.select_convs)
qed

end
