(* ===== verification/Spec2Isabelle.thy ===== *)
theory Spec2Isabelle
  imports Connection_Manager Tunnel_Service Version_Service Quota Token_Service Status_Cache Hybrid_Router Tunnel_Demand Api_Security Client_Tunnel Auto_Update
    Front_Door Usage_Api Hooks_Api
begin

text \<open>
  GiraffeCloud exposes a service on a user's machine under a public domain. A \<^emph>\<open>client\<close> next to the service opens a
  gRPC stream, and on demand TCP connections for WebSockets, to the \<^emph>\<open>server\<close>; the server receives the HTTP connections of
  the domain from the reverse proxy Caddy, sends each request over the stream of its tunnel and writes the answer back. A web API
  manages users, sessions, tokens and tunnels. All paths below are under \<^verbatim>\<open>src/internal\<close>.

  \<^bold>\<open>Foundations.\<close>
  \<^item> \<open>Go_Base\<close>: the parts of \<open>strings\<close>, \<open>strconv\<close> and maps the program uses, and the locale \<open>transition_system\<close> (reachable
    states, invariants) that every concurrent component instantiates. \<open>Calendar\<close>, \<open>Regex\<close> (matching by derivatives), \<open>Base64\<close>,
    \<open>Json\<close>: the library code whose results the program depends on.
  \<^item> \<open>Ent_Table\<close>: a database table with a key, as the repositories use it through ent, and the locale \<open>ent_table\<close> with its laws.

  \<^bold>\<open>Data path of the server\<close> (\<^verbatim>\<open>tunnel/\<close>).
  \<^item> \<open>Conn_Pool\<close>, \<open>Connection_Manager\<close> (\<^verbatim>\<open>types.go, connection_manager.go\<close>): pools of TCP connections over a heap, round robin,
    clean-up, the registry of domains. A connection taken for a session is never handed out again; connections never cross domains.
  \<^item> \<open>Tunnel_Proto\<close>, \<open>Grpc_Client\<close>, \<open>Grpc_Correlation\<close>, \<open>Chunked_Streaming\<close>, \<open>Grpc_Server\<close> (\<^verbatim>\<open>proto/, grpc_client.go,
    grpc_service.go, grpc_service_helpers.go, grpc_chunked_streaming.go\<close>): the messages, what the client does with each, the
    matching of responses to requests as an interleaving of the critical sections, uploads and downloads in chunks, and the
    registry of streams with quota, status and rate limits. Responses reach only the request they answer; chunked bodies arrive whole.
  \<^item> \<open>Tcp_Server\<close>, \<open>Hybrid_Router\<close>, \<open>Tunnel_Demand\<close> (\<^verbatim>\<open>server.go, hybrid_router.go, error_pages.go\<close>): the TCP handshake, WebSocket
    sessions, which request takes which path, and the requests that wait for a TCP tunnel, without lost wake-ups.
  \<^item> \<open>Front_Door\<close> (\<^verbatim>\<open>server/server.go\<close>): the handler that receives the visitors' requests and writes them for the router; the router
    reads the request the visitor sent.
  \<^item> \<open>Status_Cache\<close>, \<open>Usage_Service\<close>, \<open>Quota\<close> (\<^verbatim>\<open>tunnel_status_cache.go, service/usage_service.go, quota_service.go, plan_service.go\<close>).

  \<^bold>\<open>Management.\<close>
  \<^item> \<open>Subdomain\<close>, \<open>Validation\<close>, \<open>Tunnel_Repository\<close>, \<open>Caddy\<close>, \<open>Tunnel_Service\<close> (\<^verbatim>\<open>utils/, repository/tunnel_repository.go,
    service/caddy_service.go, service/tunnel_service.go, tasks/dns_monitor.go, api/handlers/tunnel.go\<close>): tunnels and their routes.
  \<^item> \<open>Usage_Api\<close> (\<^verbatim>\<open>api/handlers/usage.go\<close>): the history of a user is complete. \<open>Hooks_Api\<close> (\<^verbatim>\<open>api/handlers/{admin,webhook}.go\<close>): who can
    change client versions and start a deployment.
  \<^item> \<open>Version\<close>, \<open>Version_Service\<close>; \<open>Token_Service\<close> (\<^verbatim>\<open>service/token_service.go, tunnel/auth_helpers.go\<close>): which token opens which tunnel.
  \<^item> \<open>Sessions\<close>, \<open>Auth_Api\<close>, \<open>Api_Security\<close> (\<^verbatim>\<open>repository/{session,auth,user}_repository.go, api/middleware/, api/handlers/{auth,session,user}.go,
    server/routes/\<close>): the tables of users and sessions, every authentication handler behind the middleware its route has, and
    theorems over all sequences of requests: well-formed tables, no privilege escalation, administration only for
    administrators, and what a login and a logout mean for the cookie.

  \<^bold>\<open>The client\<close> (\<^verbatim>\<open>tunnel/config.go, tls_config.go, singleton.go, grpc_client.go, tunnel.go\<close>).
  \<^item> \<open>Client_Config\<close>: the configuration file down to the members of its JSON document; saving and loading are inverse.
  \<^item> \<open>Singleton\<close>: the PID file as a lock over inodes and names; a refinement of an abstract lock when operations do not overlap, and the
    interleaving of system calls in which two processes hold it.
  \<^item> \<open>Client_Life\<close>: connecting, handshake, starting, stopping and reconnecting of the gRPC client.
  \<^item> \<open>Updater\<close>, \<open>Auto_Update\<close> (\<^verbatim>\<open>service/updater_service.go, service/auto_update_service.go, cmd/giraffecloud/update.go\<close>): updates over a
    file system in which every call can fail; an update leaves the old executable or a new one that ran successfully.
  \<^item> \<open>Client_Tunnel\<close>: retries, error classes, tunnels on demand, composed of the first three.

  \<^bold>\<open>Conventions.\<close> A struct is a record, an operation a function from the old to the new state; an error is a value of a sum or option type;
  machine integers that can wrap are words. Concurrency is a step relation whose steps are the critical sections of the code (the
  code between taking and releasing a mutex). What is outside the sources (Firebase, Caddy, DNS, the network, random numbers, HMAC and
  SHA-256, faults of the database, the clock) is an argument; where a theorem relies on its documented behaviour, that is a named
  hypothesis, and a witness shows an instance. Loops that may not end (\<open>reconnect_loop\<close>, \<open>retry_loop\<close>) are partial functions with
  value \<^const>\<open>None\<close> for a loop that does not return, and theorems say when they return; all other functions are total, and none uses fuel.
  Bounds in the code (25 tunnels, the sizes of chunks, delays) are its own. The locales are \<open>transition_system\<close>, \<open>ent_table\<close>,
  \<open>pool_contract\<close> and \<open>conn_registry\<close>, each interpreted on the definitions of the component that provides it.

  \<^bold>\<open>Not modelled.\<close> Code generated by ent and protobuf beyond the operations used; the copying of bytes between sockets; TLS
  itself; logging, telemetry and metrics; audit records and mail; the middleware for rates, origins and bodies; the installation as a system service and the rest of the
  command line (\<^verbatim>\<open>cmd/, tunnel/service.go\<close>), which drive the operating system; gzip and tar; the unused connection pool of the
  client; the rounding of \<open>float64\<close> (products of delays are exact in the model, and with the default settings in the program).
\<close>

end
